(* ===== verification/Prelude.thy ===== *)
theory Prelude
  imports Main "HOL-Library.Word"
begin

text \<open>
  What every component shares: the result of a Go call, byte strings and machine
  integers, slice access that panics out of range, and the small part of the Go
  standard library (\<open>encoding/hex\<close>, float constants) that the orderer uses.

  A Go call of the model returns \<open>Ret v\<close> (no error), \<open>Err e\<close> (a non-nil \<open>error\<close>
  value) or \<open>Panic s\<close> (the goroutine panics).  Calls are chained with \<open>go_bind\<close>, which
  is the \<open>if err != nil { return ..., err }\<close> of the source.
\<close>

named_theorems go_simps \<open>rewriting Go results that are known to be successful\<close>

subsection \<open>Types\<close>

type_synonym u8 = "8 word"
type_synonym u64 = "64 word"
type_synonym i32 = "32 word"
type_synonym i64 = "64 word"
type_synonym bytes = "8 word list"

text \<open>
  Error values: a message of the source, a message wrapped around an inner error
  (\<open>errors.Wrap\<close>), or an error made by code outside the model.
\<close>

datatype error =
    Errorf string
  | Wrapped string error
  | External string

datatype 'a go =
    Ret 'a
  | Err error
  | Panic string

subsection \<open>Chaining calls\<close>

fun go_bind :: "'a go \<Rightarrow> ('a \<Rightarrow> 'b go) \<Rightarrow> 'b go" where
  "go_bind (Ret x) f = f x"
| "go_bind (Err e) f = Err e"
| "go_bind (Panic s) f = Panic s"

text \<open>\<open>errors.Wrap(err, msg)\<close>: nil stays nil.\<close>

fun wrap_err :: "string \<Rightarrow> 'a go \<Rightarrow> 'a go" where
  "wrap_err s (Ret x) = Ret x"
| "wrap_err s (Err e) = Err (Wrapped s e)"
| "wrap_err s (Panic p) = Panic p"

text \<open>The \<open>if err != nil { panic(err) }\<close> idiom.\<close>

fun or_panic :: "string \<Rightarrow> 'a go \<Rightarrow> 'a go" where
  "or_panic s (Ret x) = Ret x"
| "or_panic s (Err e) = Panic s"
| "or_panic s (Panic p) = Panic p"

text \<open>A call to code outside the model that fails with an error of its own.\<close>

definition ext_call :: "string \<Rightarrow> 'a option \<Rightarrow> 'a go" where
  "ext_call s r = (case r of None \<Rightarrow> Err (External s) | Some x \<Rightarrow> Ret x)"

text \<open>Dereference of a pointer: \<open>None\<close> is nil, and a nil dereference panics.\<close>

definition deref :: "'a option \<Rightarrow> 'a go" where
  "deref p = (case p of None \<Rightarrow> Panic ''nil pointer dereference'' | Some x \<Rightarrow> Ret x)"

text \<open>Slice read and write: out of range panics.\<close>

definition slice_get :: "'a list \<Rightarrow> nat \<Rightarrow> 'a go" where
  "slice_get xs i = (if i < length xs then Ret (xs ! i) else Panic ''index out of range'')"

definition slice_set :: "'a list \<Rightarrow> nat \<Rightarrow> 'a \<Rightarrow> 'a list go" where
  "slice_set xs i v =
     (if i < length xs then Ret (xs[i := v]) else Panic ''index out of range'')"

text \<open>A loop whose body may fail, collecting one value per iteration.\<close>

fun go_map :: "('a \<Rightarrow> 'b go) \<Rightarrow> 'a list \<Rightarrow> 'b list go" where
  "go_map f [] = Ret []"
| "go_map f (x # xs) = go_bind (f x) (\<lambda>y. go_bind (go_map f xs) (\<lambda>ys. Ret (y # ys)))"

text \<open>A loop whose body may fail, threading a state.\<close>

fun go_fold :: "('s \<Rightarrow> 'a \<Rightarrow> 's go) \<Rightarrow> 's \<Rightarrow> 'a list \<Rightarrow> 's go" where
  "go_fold f s [] = Ret s"
| "go_fold f s (x # xs) = go_bind (f s x) (\<lambda>s'. go_fold f s' xs)"

definition is_ok :: "'a go \<Rightarrow> bool" where
  "is_ok m = (case m of Ret _ \<Rightarrow> True | _ \<Rightarrow> False)"

definition no_panic :: "'a go \<Rightarrow> bool" where
  "no_panic m = (case m of Panic _ \<Rightarrow> False | _ \<Rightarrow> True)"

subsection \<open>Rewriting of results\<close>

lemma go_bind_Ret_iff [go_simps]:
  "go_bind m f = Ret y \<longleftrightarrow> (\<exists>x. m = Ret x \<and> f x = Ret y)"
  by (cases m) auto

lemma go_bind_Err_iff:
  "go_bind m f = Err e \<longleftrightarrow> m = Err e \<or> (\<exists>x. m = Ret x \<and> f x = Err e)"
  by (cases m) auto

text \<open>Guards: an early return of an error, and a test for nil.\<close>

lemma guard_Ret_iff:
  "(if c then Err e else m) = Ret y \<longleftrightarrow> \<not> c \<and> m = Ret y"
  "(if c then Panic s else m) = Ret y \<longleftrightarrow> \<not> c \<and> m = Ret y"
  "(case x of None \<Rightarrow> Err e | Some a \<Rightarrow> f a) = Ret y \<longleftrightarrow> (\<exists>a. x = Some a \<and> f a = Ret y)"
  "(case x of None \<Rightarrow> Panic s | Some a \<Rightarrow> f a) = Ret y \<longleftrightarrow> (\<exists>a. x = Some a \<and> f a = Ret y)"
  by (auto split: option.splits)

lemma go_bind_assoc: "go_bind (go_bind m f) g = go_bind m (\<lambda>x. go_bind (f x) g)"
  by (cases m) auto

lemma go_bind_Ret_right [simp]: "go_bind m Ret = m"
  by (cases m) auto

lemma wrap_err_Ret_iff [simp]: "wrap_err s m = Ret x \<longleftrightarrow> m = Ret x"
  by (cases m) auto

lemma or_panic_Ret_iff [simp]: "or_panic s m = Ret x \<longleftrightarrow> m = Ret x"
  by (cases m) auto

lemma or_panic_not_Err [simp]: "or_panic s m \<noteq> Err e"
  by (cases m) auto

lemma ext_call_simps [simp]:
  "ext_call s (Some x) = Ret x"
  "ext_call s None = Err (External s)"
  "ext_call s r = Ret x \<longleftrightarrow> r = Some x"
  "ext_call s r \<noteq> Panic p"
  by (auto simp: ext_call_def split: option.splits)

lemma deref_simps [simp]:
  "deref (Some x) = Ret x"
  "deref None = Panic ''nil pointer dereference''"
  "deref r = Ret x \<longleftrightarrow> r = Some x"
  by (auto simp: deref_def split: option.splits)

lemma slice_get_Ret_iff [simp]: "slice_get xs i = Ret v \<longleftrightarrow> i < length xs \<and> xs ! i = v"
  by (auto simp: slice_get_def)

lemma slice_get_in [simp]: "i < length xs \<Longrightarrow> slice_get xs i = Ret (xs ! i)"
  by (simp add: slice_get_def)

lemma slice_set_in [simp]: "i < length xs \<Longrightarrow> slice_set xs i v = Ret (xs[i := v])"
  by (simp add: slice_set_def)

lemma slice_set_Ret_iff [simp]:
  "slice_set xs i v = Ret ys \<longleftrightarrow> i < length xs \<and> ys = xs[i := v]"
  by (auto simp: slice_set_def)

lemma no_Err_simps [simp]:
  "deref r \<noteq> Err e" "slice_get xs i \<noteq> Err e" "slice_set xs i v \<noteq> Err e"
  by (auto simp: deref_def slice_get_def slice_set_def split: option.splits)

lemma is_ok_simps [simp]:
  "is_ok (Ret x)" "\<not> is_ok (Err e)" "\<not> is_ok (Panic s)"
  by (simp_all add: is_ok_def)

lemma is_ok_iff: "is_ok m \<longleftrightarrow> (\<exists>x. m = Ret x)"
  by (cases m) auto

lemma no_panic_simps [simp]:
  "no_panic (Ret x)" "no_panic (Err e)" "\<not> no_panic (Panic s)"
  by (simp_all add: no_panic_def)

lemma no_panic_bindI:
  "no_panic m \<Longrightarrow> (\<And>x. m = Ret x \<Longrightarrow> no_panic (f x)) \<Longrightarrow> no_panic (go_bind m f)"
  by (cases m) auto

lemma no_panic_wrap [simp]: "no_panic (wrap_err s m) = no_panic m"
  by (cases m) auto

lemma no_panic_ext [simp]: "no_panic (ext_call s r)"
  by (cases r) auto

lemma go_map_Ret_iff: "go_map f xs = Ret ys \<longleftrightarrow> list_all2 (\<lambda>x y. f x = Ret y) xs ys"
  by (induction xs arbitrary: ys) (auto simp: go_simps list_all2_Cons1)

lemma go_map_Ret_map: "(\<And>x. x \<in> set xs \<Longrightarrow> f x = Ret (g x)) \<Longrightarrow> go_map f xs = Ret (map g xs)"
  by (induction xs) auto

lemma no_panic_go_map: "(\<And>x. x \<in> set xs \<Longrightarrow> no_panic (f x)) \<Longrightarrow> no_panic (go_map f xs)"
  by (induction xs) (auto intro!: no_panic_bindI)

lemma go_fold_append:
  "go_fold f s (xs @ ys) = go_bind (go_fold f s xs) (\<lambda>s'. go_fold f s' ys)"
  by (induction xs arbitrary: s) (auto simp: go_bind_assoc)

text \<open>An invariant of the loop body is an invariant of the loop.\<close>

lemma go_fold_invariant:
  assumes "go_fold f s xs = Ret s'"
    and "I s"
    and "\<And>s x t. x \<in> set xs \<Longrightarrow> I s \<Longrightarrow> f s x = Ret t \<Longrightarrow> I t"
  shows "I s'"
  using assms
proof (induction xs arbitrary: s)
  case Nil
  then show ?case by simp
next
  case (Cons x xs)
  from Cons.prems(1) obtain t where t: "f s x = Ret t" "go_fold f t xs = Ret s'"
    by (auto simp: go_simps)
  have "I t" using Cons.prems(2,3) t(1) by (meson list.set_intros(1))
  with t(2) show ?case
    using Cons.prems(3) by (intro Cons.IH) auto
qed

text \<open>A loop that panics does so in one of its iterations, at a state the invariant holds of.\<close>

lemma go_fold_Panic:
  assumes "go_fold f s xs = Panic p"
    and "I s"
    and "\<And>s x t. x \<in> set xs \<Longrightarrow> I s \<Longrightarrow> f s x = Ret t \<Longrightarrow> I t"
  shows "\<exists>t x. x \<in> set xs \<and> I t \<and> f t x = Panic p"
  using assms
proof (induction xs arbitrary: s)
  case Nil
  then show ?case by simp
next
  case (Cons x xs)
  show ?case
  proof (cases "f s x")
    case (Ret t)
    with Cons.prems have "go_fold f t xs = Panic p" by simp
    moreover have "I t" using Cons.prems(2,3) Ret by (meson list.set_intros(1))
    ultimately have "\<exists>t x. x \<in> set xs \<and> I t \<and> f t x = Panic p"
      using Cons.prems(3) by (intro Cons.IH) auto
    then show ?thesis by auto
  next
    case (Err e)
    with Cons.prems show ?thesis by simp
  next
    case (Panic q)
    with Cons.prems show ?thesis by auto
  qed
qed

text \<open>Loops that skip some of their elements with \<open>continue\<close>.\<close>

lemma go_fold_continue:
  "go_fold (\<lambda>s x. if P x then Ret s else f s x) s xs = go_fold f s (filter (\<lambda>x. \<not> P x) xs)"
  by (induction xs arbitrary: s) auto

lemma go_fold_skip_first:
  "go_fold (\<lambda>s (i, x). if i < n then Ret s else f s x) s (List.enumerate k xs) =
   go_fold f s (drop (n - k) xs)"
proof (induction xs arbitrary: s k)
  case Nil
  then show ?case by simp
next
  case (Cons x xs)
  show ?case
  proof (cases "k < n")
    case True
    then have "n - k = Suc (n - Suc k)" by simp
    with True show ?thesis by (simp add: Cons.IH)
  next
    case False
    then show ?thesis by (simp add: Cons.IH)
  qed
qed

subsection \<open>Randomness (\<open>math/rand\<close>)\<close>

text \<open>
  A source is the infinite sequence of numbers still to be drawn, an argument of whatever
  draws from it; a statement for every source is a statement for every outcome.
\<close>

type_synonym source = "nat \<Rightarrow> nat"

definition draw :: "source \<Rightarrow> nat \<times> source" where
  "draw r = (r 0, \<lambda>n. r (Suc n))"

definition rand_Intn :: "nat \<Rightarrow> source \<Rightarrow> nat \<times> source" where
  "rand_Intn n r = (fst (draw r) mod n, snd (draw r))"

subsection \<open>Counters\<close>

text \<open>A 64-bit counter below its largest value does not wrap around.\<close>

lemma unat_Suc: "unat n + 1 < 2 ^ 64 \<Longrightarrow> unat (n + 1 :: u64) = unat n + 1"
  by (simp add: unat_word_ariths)

subsection \<open>Transition systems\<close>

text \<open>
  What holds at the start and is kept by every step holds in every reachable state.
\<close>

locale transition_system =
  fixes init :: "'s \<Rightarrow> bool" and step :: "'s \<Rightarrow> 's \<Rightarrow> bool" and inv :: "'s \<Rightarrow> bool"
  assumes init_inv: "init s \<Longrightarrow> inv s"
    and step_inv: "inv s \<Longrightarrow> step s t \<Longrightarrow> inv t"
begin

lemma steps_inv: "rtranclp step s t \<Longrightarrow> inv s \<Longrightarrow> inv t"
  by (induction rule: rtranclp_induct) (auto intro: step_inv)

lemma runs_inv: "init s \<Longrightarrow> rtranclp step s t \<Longrightarrow> inv t"
  by (auto intro: steps_inv init_inv)

end

subsection \<open>Hexadecimal text (\<open>encoding/hex\<close>)\<close>

definition hex_digit :: "nat \<Rightarrow> char" where
  "hex_digit n = ''0123456789abcdef'' ! n"

definition hex_byte :: "u8 \<Rightarrow> string" where
  "hex_byte b = [hex_digit (unat b div 16), hex_digit (unat b mod 16)]"

definition hex_encode :: "bytes \<Rightarrow> string" where
  "hex_encode bs = concat (map hex_byte bs)"

lemma hex_digit_inj: "i < 16 \<Longrightarrow> j < 16 \<Longrightarrow> hex_digit i = hex_digit j \<Longrightarrow> i = j"
proof -
  have "\<forall>i \<in> set [0..<16]. \<forall>j \<in> set [0..<16]. hex_digit i = hex_digit j \<longrightarrow> i = j"
    by code_simp
  then show "i < 16 \<Longrightarrow> j < 16 \<Longrightarrow> hex_digit i = hex_digit j \<Longrightarrow> i = j" by simp
qed

lemma hex_byte_inj: "hex_byte a = hex_byte b \<Longrightarrow> a = b"
proof -
  assume eq: "hex_byte a = hex_byte b"
  have small: "unat x div 16 < 16" for x :: u8
    using unsigned_less [of x, where ?'a = nat] by simp
  from eq have "unat a div 16 = unat b div 16" "unat a mod 16 = unat b mod 16"
    by (auto simp: hex_byte_def small intro: hex_digit_inj)
  then have "unat a = unat b" by (metis div_mult_mod_eq)
  then show "a = b" by (simp add: word_unat_eq_iff)
qed

lemma hex_encode_inj [simp]: "hex_encode xs = hex_encode ys \<longleftrightarrow> xs = ys"
proof
  show "hex_encode xs = hex_encode ys \<Longrightarrow> xs = ys"
  proof (induction xs arbitrary: ys)
    case Nil
    then show ?case by (cases ys) (auto simp: hex_encode_def hex_byte_def)
  next
    case (Cons x xs)
    then obtain y ys' where ys: "ys = y # ys'"
      by (cases ys) (auto simp: hex_encode_def hex_byte_def)
    with Cons.prems have "hex_byte x = hex_byte y" "hex_encode xs = hex_encode ys'"
      by (auto simp: hex_encode_def hex_byte_def)
    with ys Cons.IH show ?case by (auto dest: hex_byte_inj)
  qed
qed simp


end
