(* ===== verification/Asn1.thy ===== *)
theory Asn1
  imports Prelude
begin

text \<open>
  The part of Go's standard package \<open>encoding/asn1\<close> that the orderer uses: DER
  encoding and decoding of a SEQUENCE whose fields are OCTET STRINGs and, for the block
  header, one INTEGER.  The decoder keeps the checks of the package
  (\<open>parseTagAndLength\<close>, \<open>checkInteger\<close>, \<open>parseBigInt\<close>): no indefinite, non-minimal or
  zero-padded length, at most 31 bits of length, minimal INTEGER contents, trailing
  bytes of a sequence ignored.
\<close>

named_theorems der_simps \<open>round trips of the DER encoders\<close>

subsection \<open>Encoding\<close>

text \<open>Big-endian digits in base 256, without leading zeros.\<close>

fun be_bytes :: "nat \<Rightarrow> bytes" where
  "be_bytes n = (if n = 0 then [] else be_bytes (n div 256) @ [of_nat (n mod 256)])"

declare be_bytes.simps [simp del]

definition der_length :: "nat \<Rightarrow> bytes" where
  "der_length n =
     (if n < 128 then [of_nat n]
      else of_nat (128 + length (be_bytes n)) # be_bytes n)"

definition der_tlv :: "u8 \<Rightarrow> bytes \<Rightarrow> bytes" where
  "der_tlv t body = t # der_length (length body) @ body"

definition der_octets :: "bytes \<Rightarrow> bytes" where
  "der_octets b = der_tlv 4 b"

definition der_sequence :: "bytes list \<Rightarrow> bytes" where
  "der_sequence fs = der_tlv 48 (concat fs)"

text \<open>
  Contents of an INTEGER for a value that is not negative (\<open>int64Encoder\<close>): one byte
  for zero, and a leading zero byte where the top bit would read as a sign.
\<close>

definition der_nat_contents :: "nat \<Rightarrow> bytes" where
  "der_nat_contents n =
     (let bs = be_bytes n in
      case bs of [] \<Rightarrow> [0] | b # _ \<Rightarrow> if 128 \<le> unat b then 0 # bs else bs)"

definition der_int :: "nat \<Rightarrow> bytes" where
  "der_int n = der_tlv 2 (der_nat_contents n)"

subsection \<open>Decoding\<close>

fun parse_length_loop :: "nat \<Rightarrow> nat \<Rightarrow> bytes \<Rightarrow> (nat \<times> bytes) option" where
  "parse_length_loop 0 acc bs = Some (acc, bs)"
| "parse_length_loop (Suc k) acc [] = None"
| "parse_length_loop (Suc k) acc (b # bs) =
     (if 2 ^ 23 \<le> acc then None
      else let l = acc * 256 + unat b in
        if l = 0 then None else parse_length_loop k l bs)"

definition parse_length :: "bytes \<Rightarrow> (nat \<times> bytes) option" where
  "parse_length bs =
     (case bs of
        [] \<Rightarrow> None
      | b # rest \<Rightarrow>
          if unat b < 128 then Some (unat b, rest)
          else if unat b = 128 then None
          else (case parse_length_loop (unat b - 128) 0 rest of
                  None \<Rightarrow> None
                | Some (l, rest') \<Rightarrow> if l < 128 then None else Some (l, rest')))"

text \<open>One element with the expected identifier octet: its contents and what follows.\<close>

definition parse_tlv :: "u8 \<Rightarrow> bytes \<Rightarrow> (bytes \<times> bytes) option" where
  "parse_tlv t bs =
     (case bs of
        [] \<Rightarrow> None
      | b # rest \<Rightarrow>
          if b \<noteq> t then None
          else (case parse_length rest of
                  None \<Rightarrow> None
                | Some (l, body) \<Rightarrow>
                    if length body < l then None else Some (take l body, drop l body)))"

definition parse_octets :: "bytes \<Rightarrow> (bytes \<times> bytes) option" where
  "parse_octets bs = parse_tlv 4 bs"

text \<open>\<open>parseBigInt\<close>: minimal two's complement contents, as a mathematical integer.\<close>

definition be_value :: "bytes \<Rightarrow> nat" where
  "be_value bs = foldl (\<lambda>a b. a * 256 + unat b) 0 bs"

definition int_contents_ok :: "bytes \<Rightarrow> bool" where
  "int_contents_ok bs =
     (case bs of
        [] \<Rightarrow> False
      | [b] \<Rightarrow> True
      | b # c # _ \<Rightarrow>
          \<not> (b = 0 \<and> unat c < 128) \<and> \<not> (b = 255 \<and> 128 \<le> unat c))"

definition int_contents_value :: "bytes \<Rightarrow> int" where
  "int_contents_value bs =
     (case bs of
        [] \<Rightarrow> 0
      | b # _ \<Rightarrow>
          if 128 \<le> unat b then int (be_value bs) - 256 ^ length bs else int (be_value bs))"

definition parse_int :: "bytes \<Rightarrow> (int \<times> bytes) option" where
  "parse_int bs =
     (case parse_tlv 2 bs of
        None \<Rightarrow> None
      | Some (c, rest) \<Rightarrow> if int_contents_ok c then Some (int_contents_value c, rest) else None)"

text \<open>A fixed number of OCTET STRING fields, in order; what is left over is ignored.\<close>

fun parse_octets_n :: "nat \<Rightarrow> bytes \<Rightarrow> bytes list option" where
  "parse_octets_n 0 bs = Some []"
| "parse_octets_n (Suc k) bs =
     (case parse_octets bs of
        None \<Rightarrow> None
      | Some (x, rest) \<Rightarrow> map_option (Cons x) (parse_octets_n k rest))"

subsection \<open>Round trips\<close>

lemma length_be_bytes_le: "n < 256 ^ k \<Longrightarrow> length (be_bytes n) \<le> k"
proof (induction k arbitrary: n)
  case 0
  then show ?case by (simp add: be_bytes.simps)
next
  case (Suc k)
  then have "n div 256 < 256 ^ k" by (simp add: less_mult_imp_div_less mult.commute)
  then have "length (be_bytes (n div 256)) \<le> k" by (rule Suc.IH)
  then show ?case by (subst be_bytes.simps) simp
qed

lemma unat_of_nat_mod256 [simp]: "unat (of_nat (n mod 256) :: u8) = n mod 256"
  by (simp add: unsigned_of_nat take_bit_eq_mod)

lemma be_value_append: "be_value (xs @ [b]) = be_value xs * 256 + unat b"
  by (simp add: be_value_def)

lemma be_value_be_bytes: "be_value (be_bytes n) = n"
proof (induction n rule: be_bytes.induct)
  case (1 n)
  show ?case
  proof (cases "n = 0")
    case True
    then show ?thesis by (simp add: be_bytes.simps be_value_def)
  next
    case False
    then show ?thesis
      using 1 by (subst be_bytes.simps) (simp add: be_value_append)
  qed
qed

lemma be_bytes_hd_nonzero: "be_bytes n = b # bs \<Longrightarrow> b \<noteq> 0"
proof (induction n arbitrary: b bs rule: be_bytes.induct)
  case (1 n)
  have n: "n \<noteq> 0"
    using "1.prems" by (metis be_bytes.simps list.distinct(1))
  show ?case
  proof (cases "be_bytes (n div 256)")
    case Nil
    then have "n div 256 = 0" by (metis be_value_be_bytes be_value_def foldl_Nil)
    moreover from Nil "1.prems" n have "b = of_nat (n mod 256)"
      by (subst (asm) be_bytes.simps) simp
    ultimately have "unat b = n" using n unat_of_nat_mod256 [of n]
      by (metis div_mult_mod_eq add_0 mult_zero_left)
    with n show ?thesis by auto
  next
    case (Cons c cs)
    with "1.prems" n have "b = c" by (subst (asm) be_bytes.simps) simp
    with Cons "1.IH" n show ?thesis by blast
  qed
qed

lemma parse_length_loop_append:
  "parse_length_loop (length xs + k) acc (xs @ ys) =
     (case parse_length_loop (length xs) acc xs of
        None \<Rightarrow> None | Some (a, _) \<Rightarrow> parse_length_loop k a ys)"
  by (induction xs arbitrary: acc) (auto simp: Let_def)

lemma parse_length_loop_be_bytes:
  "n < 2 ^ 31 \<Longrightarrow> n \<noteq> 0 \<Longrightarrow> parse_length_loop (length (be_bytes n)) 0 (be_bytes n) = Some (n, [])"
proof (induction n rule: be_bytes.induct)
  case (1 n)
  let ?m = "n div 256"
  have m: "?m < 2 ^ 23" using "1.prems"(1) by simp
  have step: "parse_length_loop 1 ?m [of_nat (n mod 256)] = Some (n, [])"
    using m "1.prems"(2) by (simp add: Let_def)
  show ?case
  proof (cases "?m = 0")
    case True
    then have "be_bytes ?m = []" by (simp add: be_bytes.simps)
    then have "be_bytes n = [of_nat (n mod 256)]"
      using "1.prems"(2) by (subst be_bytes.simps) simp
    with step True show ?thesis by simp
  next
    case False
    have IH: "parse_length_loop (length (be_bytes ?m)) 0 (be_bytes ?m) = Some (?m, [])"
      using "1.IH" "1.prems" m False by simp
    have "be_bytes n = be_bytes ?m @ [of_nat (n mod 256)]"
      using "1.prems"(2) by (subst be_bytes.simps) simp
    then show ?thesis
      using parse_length_loop_append [of "be_bytes ?m" 1 0 "[of_nat (n mod 256)]"] IH step
      by simp
  qed
qed

lemma parse_length_der_length:
  assumes "n < 2 ^ 31"
  shows "parse_length (der_length n @ rest) = Some (n, rest)"
proof (cases "n < 128")
  case True
  then have "unat (of_nat n :: u8) = n" by (simp add: unsigned_of_nat take_bit_eq_mod)
  with True show ?thesis by (simp add: parse_length_def der_length_def)
next
  case False
  let ?bs = "be_bytes n"
  from False have n0: "n \<noteq> 0" by simp
  have "length ?bs \<le> 4" using assms by (intro length_be_bytes_le) simp
  moreover have "?bs \<noteq> []" using n0 by (subst be_bytes.simps) simp
  ultimately have len: "0 < length ?bs" "length ?bs \<le> 4" by auto
  then have un: "unat (of_nat (128 + length ?bs) :: u8) = 128 + length ?bs"
    unfolding unsigned_of_nat take_bit_eq_mod by simp
  have "parse_length_loop (length ?bs) 0 (?bs @ rest) = Some (n, rest)"
    using parse_length_loop_append [of ?bs 0 0 rest] parse_length_loop_be_bytes [OF assms n0]
    by simp
  with False un len show ?thesis
    by (simp add: parse_length_def der_length_def del: of_nat_add)
qed

lemma parse_tlv_der_tlv [der_simps]:
  "length body < 2 ^ 31 \<Longrightarrow> parse_tlv t (der_tlv t body @ rest) = Some (body, rest)"
  by (simp add: parse_tlv_def der_tlv_def parse_length_der_length)

lemma parse_octets_der_octets [der_simps]:
  "length b < 2 ^ 31 \<Longrightarrow> parse_octets (der_octets b @ rest) = Some (b, rest)"
  by (simp add: parse_octets_def der_octets_def der_simps)

lemma parse_octets_n_der:
  "\<forall>f \<in> set fs. length f < 2 ^ 31 \<Longrightarrow>
   parse_octets_n (length fs) (concat (map der_octets fs) @ rest) = Some fs"
  by (induction fs) (auto simp: der_simps)

lemma parse_int_der_int [der_simps]:
  assumes "n < 2 ^ 64"
  shows "parse_int (der_int n @ rest) = Some (int n, rest)"
proof -
  let ?bs = "be_bytes n"
  have len: "length ?bs \<le> 8" using assms by (intro length_be_bytes_le) simp
  have "length (der_nat_contents n) \<le> 9"
    using len by (auto simp: der_nat_contents_def Let_def split: list.splits)
  then have tlv: "parse_tlv 2 (der_int n @ rest) = Some (der_nat_contents n, rest)"
    by (simp add: der_int_def der_simps)
  have "int_contents_ok (der_nat_contents n) \<and> int_contents_value (der_nat_contents n) = int n"
  proof (cases ?bs)
    case Nil
    then have "n = 0" by (metis be_value_be_bytes be_value_def foldl_Nil)
    with Nil show ?thesis
      by (simp add: der_nat_contents_def int_contents_ok_def int_contents_value_def be_value_def)
  next
    case (Cons b cs)
    have b0: "b \<noteq> 0" using Cons by (rule be_bytes_hd_nonzero)
    have v: "be_value (b # cs) = n" using be_value_be_bytes [of n] Cons by simp
    have v0: "be_value (0 # b # cs) = n" using v by (simp add: be_value_def)
    show ?thesis
      using Cons b0 v v0
      by (auto simp: der_nat_contents_def int_contents_ok_def int_contents_value_def Let_def
          split: list.splits if_splits)
  qed
  with tlv show ?thesis by (simp add: parse_int_def)
qed

end
