(* ===== verification/Protos.thy ===== *)
theory Protos
  imports Asn1 "HOL-Library.Finite_Map"
begin

text \<open>
  The messages the orderer exchanges and stores (\<open>protos/common\<close>, \<open>protos/orderer\<close>,
  \<open>protos/msp\<close>), the block operations of \<open>protos/common/block.go\<close>, and the helpers of
  \<open>protos/utils\<close> that take messages apart.

  Protobuf encoding and SHA-256 (reached through the crypto provider) are not part of
  this repository's own code: they are the fields of the record \<open>libs\<close>, an argument of
  every definition that uses them.  A decoder that returns \<open>None\<close> is \<open>proto.Unmarshal\<close>
  returning an error.  A field of pointer type, and a byte slice the code compares with
  nil, is an \<open>option\<close> whose \<open>None\<close> is nil; other byte slices are lists, nil being the
  empty list.
\<close>

subsection \<open>Messages\<close>

record block_header =
  hdr_Number :: u64
  hdr_PreviousHash :: bytes
  hdr_DataHash :: bytes

record block =
  blk_Header :: "block_header option"
  blk_Data :: "bytes list option"
  blk_Metadata :: "bytes list option"

record envelope =
  env_Payload :: bytes
  env_Signature :: bytes

record header =
  hd_ChannelHeader :: "bytes option"
  hd_SignatureHeader :: bytes

record payload =
  pl_Header :: "header option"
  pl_Data :: bytes

record channel_header =
  ch_Type :: i32
  ch_Version :: i32
  ch_Timestamp :: "(i64 \<times> i32) option"
  ch_ChannelId :: string
  ch_TxId :: string
  ch_Epoch :: u64
  ch_Extension :: bytes
  ch_TlsCertHash :: bytes

record signature_header =
  sh_Creator :: bytes
  sh_Nonce :: bytes

record metadata_signature =
  ms_SignatureHeader :: bytes
  ms_Signature :: bytes
  ms_SignerId :: u64
  ms_Nonce :: bytes
  ms_AuxiliaryInput :: bytes

record metadata =
  md_Value :: bytes
  md_Signatures :: "metadata_signature list"

record last_config =
  lc_Index :: u64

record orderer_block_metadata =
  obm_LastConfig :: "last_config option"
  obm_ConsenterMetadata :: bytes

record signed_data =
  sd_Data :: bytes
  sd_Identity :: bytes
  sd_Signature :: bytes

record serialized_identity =
  si_Mspid :: string
  si_IdBytes :: bytes

text \<open>The channel configuration tree (\<open>configtx.proto\<close>).\<close>

record config_value =
  cv_Version :: u64
  cv_Value :: bytes
  cv_ModPolicy :: string

record config_policy =
  cp_Version :: u64
  cp_Policy :: "(i32 \<times> bytes) option"
  cp_ModPolicy :: string

datatype config_group =
  ConfigGroup
    (cg_Version: u64)
    (cg_Groups: "(string, config_group) fmap")
    (cg_Values: "(string, config_value) fmap")
    (cg_Policies: "(string, config_policy) fmap")
    (cg_ModPolicy: string)

record config =
  cfg_Sequence :: u64
  cfg_ChannelGroup :: "config_group option"

record config_envelope =
  ce_Config :: "config option"
  ce_LastUpdate :: "envelope option"

text \<open>SmartBFT's consensus metadata (\<open>protos/orderer/smartbft\<close>).\<close>

datatype rotation = UNSPECIFIED | OFF | ON | OtherRotation i32

record options =
  opt_RequestBatchMaxCount :: u64
  opt_RequestBatchMaxBytes :: u64
  opt_RequestBatchMaxInterval :: string
  opt_IncomingMessageBufferSize :: u64
  opt_RequestPoolSize :: u64
  opt_RequestForwardTimeout :: string
  opt_RequestComplainTimeout :: string
  opt_RequestAutoRemoveTimeout :: string
  opt_ViewChangeResendInterval :: string
  opt_ViewChangeTimeout :: string
  opt_LeaderHeartbeatTimeout :: string
  opt_LeaderHeartbeatCount :: u64
  opt_CollectTimeout :: string
  opt_SyncOnStart :: bool
  opt_SpeedUpViewChange :: bool
  opt_LeaderRotation :: rotation
  opt_DecisionsPerLeader :: u64

record consenter =
  cst_ConsenterId :: u64
  cst_Host :: string
  cst_Port :: "32 word"
  cst_MspId :: string
  cst_Identity :: bytes
  cst_ClientTlsCert :: bytes
  cst_ServerTlsCert :: bytes

record config_metadata =
  cm_Consenters :: "consenter list"
  cm_Options :: "options option"

text \<open>SmartBFT's view metadata and auxiliary data.\<close>

record view_metadata =
  vm_ViewId :: u64
  vm_LatestSequence :: u64
  vm_DecisionsInView :: u64
  vm_BlackList :: "u64 list"
  vm_PrevCommitSignatureDigest :: bytes

record prepares_from =
  pf_Ids :: "u64 list"

text \<open>The zero value \<open>smartbftprotos.ViewMetadata{}\<close>.\<close>

definition empty_view_metadata :: view_metadata where
  "empty_view_metadata =
     \<lparr>vm_ViewId = 0, vm_LatestSequence = 0, vm_DecisionsInView = 0, vm_BlackList = [],
      vm_PrevCommitSignatureDigest = []\<rparr>"

subsection \<open>Libraries the code calls\<close>

record libs =
  dec_envelope :: "bytes \<Rightarrow> envelope option"
  enc_envelope :: "envelope \<Rightarrow> bytes option"
  dec_payload :: "bytes \<Rightarrow> payload option"
  dec_channel_header :: "bytes \<Rightarrow> channel_header option"
  dec_signature_header :: "bytes \<Rightarrow> signature_header option"
  enc_signature_header :: "signature_header \<Rightarrow> bytes option"
  dec_block_data :: "bytes \<Rightarrow> bytes list option"
  enc_block_data :: "bytes list \<Rightarrow> bytes option"
  dec_block_metadata :: "bytes \<Rightarrow> bytes list option"
  enc_block_metadata :: "bytes list \<Rightarrow> bytes option"
  dec_metadata :: "bytes \<Rightarrow> metadata option"
  enc_metadata :: "metadata \<Rightarrow> bytes option"
  dec_last_config :: "bytes \<Rightarrow> last_config option"
  enc_last_config :: "last_config \<Rightarrow> bytes option"
  dec_orderer_block_metadata :: "bytes \<Rightarrow> orderer_block_metadata option"
  enc_orderer_block_metadata :: "orderer_block_metadata \<Rightarrow> bytes option"
  dec_view_metadata :: "bytes \<Rightarrow> view_metadata option"
  dec_prepares_from :: "bytes \<Rightarrow> prepares_from option"
  dec_serialized_identity :: "bytes \<Rightarrow> serialized_identity option"
  dec_config_envelope :: "bytes \<Rightarrow> config_envelope option"
  dec_config_metadata :: "bytes \<Rightarrow> config_metadata option"
  sha256 :: "bytes \<Rightarrow> bytes"

text \<open>A value that survives being marshalled and unmarshalled.\<close>

definition round_trips :: "('a \<Rightarrow> bytes option) \<Rightarrow> (bytes \<Rightarrow> 'a option) \<Rightarrow> 'a \<Rightarrow> bool" where
  "round_trips enc dec x = (case enc x of None \<Rightarrow> False | Some b \<Rightarrow> dec b = Some x)"

lemma round_tripsD: "round_trips enc dec x \<Longrightarrow> \<exists>b. enc x = Some b \<and> dec b = Some x"
  by (auto simp: round_trips_def split: option.splits)

text \<open>\<open>proto.Unmarshal\<close> and \<open>utils.MarshalOrPanic\<close>.\<close>

abbreviation unmarshal :: "(bytes \<Rightarrow> 'a option) \<Rightarrow> bytes \<Rightarrow> 'a go" where
  "unmarshal dec b \<equiv> ext_call ''proto'' (dec b)"

definition MarshalOrPanic :: "('a \<Rightarrow> bytes option) \<Rightarrow> 'a \<Rightarrow> bytes go" where
  "MarshalOrPanic enc x = (case enc x of None \<Rightarrow> Panic ''proto'' | Some b \<Rightarrow> Ret b)"

lemma MarshalOrPanic_Ret_iff [simp]: "MarshalOrPanic enc x = Ret b \<longleftrightarrow> enc x = Some b"
  by (simp add: MarshalOrPanic_def split: option.splits)

lemma MarshalOrPanic_not_Err [simp]: "MarshalOrPanic enc x \<noteq> Err e"
  by (simp add: MarshalOrPanic_def split: option.splits)

lemma MarshalOrPanic_Some [simp]: "enc x = Some b \<Longrightarrow> MarshalOrPanic enc x = Ret b"
  by simp

text \<open>A nil-able byte slice read as bytes.\<close>

definition nbytes :: "bytes option \<Rightarrow> bytes" where
  "nbytes b = (case b of None \<Rightarrow> [] | Some x \<Rightarrow> x)"

lemma nbytes_simps [simp]: "nbytes None = []" "nbytes (Some b) = b"
  by (simp_all add: nbytes_def)

subsection \<open>\<open>protos/common/block.go\<close>\<close>

definition BlockMetadataIndex_count :: nat where
  "BlockMetadataIndex_count = 5"

abbreviation (input) SIGNATURES :: nat where "SIGNATURES \<equiv> 0"
abbreviation (input) LAST_CONFIG :: nat where "LAST_CONFIG \<equiv> 1"
abbreviation (input) COMMIT_HASH :: nat where "COMMIT_HASH \<equiv> 4"

definition NewBlock :: "u64 \<Rightarrow> bytes \<Rightarrow> block" where
  "NewBlock seqNum previousHash =
     \<lparr>blk_Header = Some \<lparr>hdr_Number = seqNum, hdr_PreviousHash = previousHash, hdr_DataHash = []\<rparr>,
      blk_Data = Some [],
      blk_Metadata = Some (replicate BlockMetadataIndex_count [])\<rparr>"

text \<open>\<open>BlockHeader.Bytes\<close>: ASN.1, with the panic for numbers above \<open>math.MaxInt64\<close>.\<close>

definition header_Bytes :: "block_header \<Rightarrow> bytes go" where
  "header_Bytes h =
     (if 2 ^ 63 - 1 < unat (hdr_Number h)
      then Panic ''Golang does not currently support encoding uint64 to asn1''
      else Ret (der_sequence
             [der_int (unat (hdr_Number h)), der_octets (hdr_PreviousHash h),
              der_octets (hdr_DataHash h)]))"

definition header_Hash :: "libs \<Rightarrow> block_header \<Rightarrow> bytes go" where
  "header_Hash L h = go_bind (header_Bytes h) (\<lambda>b. Ret (sha256 L b))"

definition ConcatenateBytes :: "bytes list \<Rightarrow> bytes" where
  "ConcatenateBytes bs = concat bs"

definition data_Bytes :: "bytes list \<Rightarrow> bytes" where
  "data_Bytes d = ConcatenateBytes d"

definition data_Hash :: "libs \<Rightarrow> bytes list \<Rightarrow> bytes" where
  "data_Hash L d = sha256 L (data_Bytes d)"

subsection \<open>\<open>protos/utils\<close>\<close>

abbreviation (input) HeaderType_CONFIG :: i32 where "HeaderType_CONFIG \<equiv> 1"
abbreviation (input) HeaderType_ENDORSER_TRANSACTION :: i32 where "HeaderType_ENDORSER_TRANSACTION \<equiv> 3"
abbreviation (input) HeaderType_ORDERER_TRANSACTION :: i32 where "HeaderType_ORDERER_TRANSACTION \<equiv> 4"

definition UnmarshalPayload :: "libs \<Rightarrow> bytes \<Rightarrow> payload go" where
  "UnmarshalPayload L encoded =
     wrap_err ''error unmarshaling Payload'' (unmarshal (dec_payload L) encoded)"

definition UnmarshalEnvelope :: "libs \<Rightarrow> bytes \<Rightarrow> envelope go" where
  "UnmarshalEnvelope L encoded =
     wrap_err ''error unmarshaling Envelope'' (unmarshal (dec_envelope L) encoded)"

definition UnmarshalChannelHeader :: "libs \<Rightarrow> bytes \<Rightarrow> channel_header go" where
  "UnmarshalChannelHeader L bs =
     wrap_err ''error unmarshaling ChannelHeader'' (unmarshal (dec_channel_header L) bs)"

definition UnmarshalSignatureHeader :: "libs \<Rightarrow> bytes \<Rightarrow> signature_header go" where
  "UnmarshalSignatureHeader L bs =
     wrap_err ''error unmarshaling SignatureHeader'' (unmarshal (dec_signature_header L) bs)"

definition UnmarshalConfigEnvelope :: "libs \<Rightarrow> bytes \<Rightarrow> config_envelope go" where
  "UnmarshalConfigEnvelope L bs = unmarshal (dec_config_envelope L) bs"

definition GetEnvelopeFromBlock :: "libs \<Rightarrow> bytes \<Rightarrow> envelope go" where
  "GetEnvelopeFromBlock L d =
     wrap_err ''error unmarshaling Envelope'' (unmarshal (dec_envelope L) d)"

definition GetPayload :: "libs \<Rightarrow> envelope \<Rightarrow> payload go" where
  "GetPayload L e =
     wrap_err ''error unmarshaling Payload'' (unmarshal (dec_payload L) (env_Payload e))"

text \<open>
  \<open>UnmarshalEnvelopeOfType\<close>: the message to fill is given by its decoder, and is
  returned beside the channel header.
\<close>

definition UnmarshalEnvelopeOfType ::
  "libs \<Rightarrow> envelope \<Rightarrow> i32 \<Rightarrow> (bytes \<Rightarrow> 'm option) \<Rightarrow> (channel_header \<times> 'm) go" where
  "UnmarshalEnvelopeOfType L e headerType dec =
     go_bind (UnmarshalPayload L (env_Payload e)) (\<lambda>pl.
     case pl_Header pl of
       None \<Rightarrow> Err (Errorf ''envelope must have a Header'')
     | Some h \<Rightarrow>
         go_bind (UnmarshalChannelHeader L (nbytes (hd_ChannelHeader h))) (\<lambda>chdr.
         if ch_Type chdr \<noteq> headerType then Err (Errorf ''invalid type'')
         else go_bind (wrap_err ''error unmarshaling message'' (unmarshal dec (pl_Data pl)))
                (\<lambda>m. Ret (chdr, m))))"

definition ExtractEnvelope :: "libs \<Rightarrow> block \<Rightarrow> int \<Rightarrow> envelope go" where
  "ExtractEnvelope L b index =
     (case blk_Data b of
        None \<Rightarrow> Err (Errorf ''block data is nil'')
      | Some d \<Rightarrow>
          if index < 0 \<or> int (length d) \<le> index
          then Err (Errorf ''envelope index out of bounds'')
          else wrap_err ''block data does not carry an envelope at index''
                 (GetEnvelopeFromBlock L (d ! nat index)))"

definition IsConfigTransaction :: "libs \<Rightarrow> envelope \<Rightarrow> bool" where
  "IsConfigTransaction L e =
     (case GetPayload L e of
        Ret pl \<Rightarrow>
          (case pl_Header pl of
             None \<Rightarrow> False
           | Some h \<Rightarrow>
               (case UnmarshalChannelHeader L (nbytes (hd_ChannelHeader h)) of
                  Ret hdr \<Rightarrow> ch_Type hdr = HeaderType_CONFIG \<or>
                             ch_Type hdr = HeaderType_ORDERER_TRANSACTION
                | _ \<Rightarrow> False))
      | _ \<Rightarrow> False)"

definition IsConfigBlock :: "libs \<Rightarrow> block \<Rightarrow> bool" where
  "IsConfigBlock L b =
     (case ExtractEnvelope L b 0 of Ret e \<Rightarrow> IsConfigTransaction L e | _ \<Rightarrow> False)"

definition ChannelHeader :: "libs \<Rightarrow> envelope \<Rightarrow> channel_header go" where
  "ChannelHeader L e =
     go_bind (UnmarshalPayload L (env_Payload e)) (\<lambda>pl.
     case pl_Header pl of
       None \<Rightarrow> Err (Errorf ''header not set'')
     | Some h \<Rightarrow>
         (case hd_ChannelHeader h of
            None \<Rightarrow> Err (Errorf ''channel header not set'')
          | Some raw \<Rightarrow>
              wrap_err ''error unmarshaling channel header'' (UnmarshalChannelHeader L raw)))"

definition ChannelID :: "libs \<Rightarrow> envelope \<Rightarrow> string go" where
  "ChannelID L e =
     go_bind (wrap_err ''error retrieving channel header'' (ChannelHeader L e))
       (\<lambda>chdr. Ret (ch_ChannelId chdr))"

definition GetChainIDFromBlock :: "libs \<Rightarrow> block option \<Rightarrow> string go" where
  "GetChainIDFromBlock L b =
     (case Option.bind b blk_Data of
        None \<Rightarrow> Err (Errorf ''failed to retrieve channel id - block is empty'')
      | Some [] \<Rightarrow> Err (Errorf ''failed to retrieve channel id - block is empty'')
      | Some (d # _) \<Rightarrow>
          go_bind (GetEnvelopeFromBlock L d) (\<lambda>e.
          go_bind (GetPayload L e) (\<lambda>pl.
          case pl_Header pl of
            None \<Rightarrow> Err (Errorf ''failed to retrieve channel id - payload header is empty'')
          | Some h \<Rightarrow>
              go_bind (UnmarshalChannelHeader L (nbytes (hd_ChannelHeader h)))
                (\<lambda>chdr. Ret (ch_ChannelId chdr)))))"

definition GetMetadataFromBlock :: "libs \<Rightarrow> block \<Rightarrow> nat \<Rightarrow> metadata go" where
  "GetMetadataFromBlock L b index =
     go_bind (deref (blk_Metadata b)) (\<lambda>ms.
     go_bind (slice_get ms index) (\<lambda>raw.
     wrap_err ''error unmarshaling metadata from block at index'' (unmarshal (dec_metadata L) raw)))"

definition GetMetadataFromBlockOrPanic :: "libs \<Rightarrow> block \<Rightarrow> nat \<Rightarrow> metadata go" where
  "GetMetadataFromBlockOrPanic L b index = or_panic ''metadata'' (GetMetadataFromBlock L b index)"

definition GetLastConfigIndexFromBlock :: "libs \<Rightarrow> block \<Rightarrow> u64 go" where
  "GetLastConfigIndexFromBlock L b =
     go_bind (GetMetadataFromBlock L b LAST_CONFIG) (\<lambda>md.
     go_bind (wrap_err ''error unmarshaling LastConfig''
                (unmarshal (dec_last_config L) (md_Value md)))
       (\<lambda>lc. Ret (lc_Index lc)))"

text \<open>\<open>InitBlockMetadata\<close> pads the metadata to its five entries.\<close>

definition InitBlockMetadata :: "block \<Rightarrow> block" where
  "InitBlockMetadata b =
     (case blk_Metadata b of
        None \<Rightarrow> b\<lparr>blk_Metadata := Some [[], [], [], [], []]\<rparr>
      | Some ms \<Rightarrow>
          if length ms < COMMIT_HASH + 1
          then b\<lparr>blk_Metadata := Some (ms @ map (\<lambda>_. []) [length ms..<COMMIT_HASH + 1])\<rparr>
          else b)"

definition CopyBlockMetadata :: "block \<Rightarrow> block \<Rightarrow> block" where
  "CopyBlockMetadata src dst = InitBlockMetadata (dst\<lparr>blk_Metadata := blk_Metadata src\<rparr>)"

subsection \<open>Facts about blocks and envelopes\<close>

lemma header_Bytes_Ret_iff:
  "header_Bytes h = Ret b \<longleftrightarrow>
     unat (hdr_Number h) < 2 ^ 63 \<and>
     b = der_sequence [der_int (unat (hdr_Number h)), der_octets (hdr_PreviousHash h),
                       der_octets (hdr_DataHash h)]"
  by (auto simp: header_Bytes_def)

lemma header_Bytes_not_Err: "header_Bytes h \<noteq> Err e"
  by (simp add: header_Bytes_def)

text \<open>After \<open>InitBlockMetadata\<close> every metadata index of a block exists.\<close>

lemma InitBlockMetadata_length:
  "\<exists>ms. blk_Metadata (InitBlockMetadata b) = Some ms \<and> BlockMetadataIndex_count \<le> length ms"
  by (auto simp: InitBlockMetadata_def BlockMetadataIndex_count_def split: option.splits)

lemma InitBlockMetadata_prefix:
  "blk_Metadata b = Some ms \<Longrightarrow>
   \<exists>ms'. blk_Metadata (InitBlockMetadata b) = Some ms' \<and> take (length ms) ms' = ms"
  by (auto simp: InitBlockMetadata_def)

text \<open>A block is a config block for \<open>utils\<close> exactly when its first envelope is.\<close>

lemma IsConfigBlock_iff:
  "IsConfigBlock L b \<longleftrightarrow>
     (\<exists>d ds e. blk_Data b = Some (d # ds) \<and> dec_envelope L d = Some e \<and> IsConfigTransaction L e)"
  by (auto simp: IsConfigBlock_def ExtractEnvelope_def GetEnvelopeFromBlock_def neq_Nil_conv
      split: option.splits go.splits) 

subsection \<open>A library that rejects every message\<close>

text \<open>The starting point of concrete instances: each overrides the codecs it needs.\<close>

definition null_libs :: libs where
  "null_libs =
     \<lparr>dec_envelope = (\<lambda>_. None), enc_envelope = (\<lambda>_. None), dec_payload = (\<lambda>_. None),
      dec_channel_header = (\<lambda>_. None), dec_signature_header = (\<lambda>_. None),
      enc_signature_header = (\<lambda>_. None), dec_block_data = (\<lambda>_. None),
      enc_block_data = (\<lambda>_. None), dec_block_metadata = (\<lambda>_. None),
      enc_block_metadata = (\<lambda>_. None), dec_metadata = (\<lambda>_. None), enc_metadata = (\<lambda>_. None),
      dec_last_config = (\<lambda>_. None), enc_last_config = (\<lambda>_. None),
      dec_orderer_block_metadata = (\<lambda>_. None), enc_orderer_block_metadata = (\<lambda>_. None),
      dec_view_metadata = (\<lambda>_. None), dec_prepares_from = (\<lambda>_. None),
      dec_serialized_identity = (\<lambda>_. None), dec_config_envelope = (\<lambda>_. None),
      dec_config_metadata = (\<lambda>_. None), sha256 = (\<lambda>b. b)\<rparr>"

end
