(* ===== verification/BftSignature.thy ===== *)
theory BftSignature
  imports Protos
begin

text \<open>
  The proposals and signatures of the BFT library (\<open>pkg/types\<close>) and how the orderer
  packs blocks into them: \<open>smartbft/signature.go\<close> and the \<open>ByteBufferTuple\<close> of
  \<open>smartbft/assembler.go\<close>.
\<close>

subsection \<open>Library types\<close>

record proposal =
  prop_Payload :: bytes
  prop_Header :: bytes
  prop_Metadata :: bytes
  prop_VerificationSequence :: i64

record bft_signature =
  bsig_ID :: u64
  bsig_Value :: bytes
  bsig_Msg :: bytes

record decision =
  dcs_Proposal :: proposal
  dcs_Signatures :: "bft_signature list"

record request_info =
  ri_ClientID :: string
  ri_ID :: string

text \<open>The zero value \<open>types.RequestInfo{}\<close>.\<close>

definition empty_request_info :: request_info where
  "empty_request_info = \<lparr>ri_ClientID = [], ri_ID = []\<rparr>"

subsection \<open>\<open>signature.go\<close>\<close>

record signature =
  sig_Nonce :: bytes
  sig_SignatureHeader :: bytes
  sig_BlockHeader :: bytes
  sig_OrdererBlockMetadata :: bytes
  sig_AuxiliaryInput :: bytes

definition sig_fields :: "signature \<Rightarrow> bytes list" where
  "sig_fields s =
     [sig_Nonce s, sig_SignatureHeader s, sig_BlockHeader s, sig_OrdererBlockMetadata s,
      sig_AuxiliaryInput s]"

definition sig_Marshal :: "signature \<Rightarrow> bytes" where
  "sig_Marshal s = der_sequence (map der_octets (sig_fields s))"

definition sig_Unmarshal :: "bytes \<Rightarrow> signature go" where
  "sig_Unmarshal bs =
     (case parse_tlv 48 bs of
        None \<Rightarrow> Err (External ''asn1'')
      | Some (body, _) \<Rightarrow>
          (case parse_octets_n 5 body of
             Some [n, sh, bh, om, ai] \<Rightarrow>
               Ret \<lparr>sig_Nonce = n, sig_SignatureHeader = sh, sig_BlockHeader = bh,
                    sig_OrdererBlockMetadata = om, sig_AuxiliaryInput = ai\<rparr>
           | _ \<Rightarrow> Err (External ''asn1'')))"

definition sig_AsBytes :: "signature \<Rightarrow> bytes" where
  "sig_AsBytes s =
     ConcatenateBytes
       [sig_OrdererBlockMetadata s, sig_SignatureHeader s, sig_BlockHeader s, sig_AuxiliaryInput s]"

text \<open>\<open>ByteBufferTuple\<close>: the block data and the block metadata, side by side.\<close>

definition tuple_ToBytes :: "bytes \<Rightarrow> bytes \<Rightarrow> bytes" where
  "tuple_ToBytes a b = der_sequence [der_octets a, der_octets b]"

definition tuple_FromBytes :: "bytes \<Rightarrow> (bytes \<times> bytes) go" where
  "tuple_FromBytes bs =
     (case parse_tlv 48 bs of
        None \<Rightarrow> Err (External ''asn1'')
      | Some (body, _) \<Rightarrow>
          (case parse_octets_n 2 body of
             Some [a, b] \<Rightarrow> Ret (a, b)
           | _ \<Rightarrow> Err (External ''asn1'')))"

text \<open>The header of a proposal: \<open>asn1Header\<close>, whose number is a \<open>big.Int\<close>.\<close>

definition asn1Header_Unmarshal :: "bytes \<Rightarrow> (int \<times> bytes \<times> bytes) option" where
  "asn1Header_Unmarshal bs =
     (case parse_tlv 48 bs of
        None \<Rightarrow> None
      | Some (body, _) \<Rightarrow>
          (case parse_int body of
             None \<Rightarrow> None
           | Some (n, rest) \<Rightarrow>
               (case parse_octets_n 2 rest of
                  Some [p, d] \<Rightarrow> Some (n, p, d)
                | _ \<Rightarrow> None)))"

text \<open>\<open>big.Int.Uint64\<close>: the low 64 bits of the absolute value.\<close>

definition big_Uint64 :: "int \<Rightarrow> u64" where
  "big_Uint64 n = of_int \<bar>n\<bar>"

definition ProposalToBlock :: "libs \<Rightarrow> proposal \<Rightarrow> block go" where
  "ProposalToBlock L p =
     (if prop_Header p = [] then Err (Errorf ''proposal header cannot be nil'')
      else
        go_bind (wrap_err ''bad header'' (ext_call ''asn1'' (asn1Header_Unmarshal (prop_Header p))))
          (\<lambda>(number, prev, dataHash).
        if prop_Payload p = [] then Err (Errorf ''proposal payload cannot be nil'')
        else
          go_bind (wrap_err ''bad payload and metadata tuple'' (tuple_FromBytes (prop_Payload p)))
            (\<lambda>(a, b).
          go_bind (wrap_err ''bad payload'' (unmarshal (dec_block_data L) a)) (\<lambda>d.
          go_bind (wrap_err ''bad metadata'' (unmarshal (dec_block_metadata L) b)) (\<lambda>m.
          Ret \<lparr>blk_Header = Some \<lparr>hdr_Number = big_Uint64 number, hdr_PreviousHash = prev,
                                   hdr_DataHash = dataHash\<rparr>,
               blk_Data = Some d, blk_Metadata = Some m\<rparr>)))))"

subsection \<open>Sizes and round trips\<close>

lemma length_der_length: "n < 2 ^ 31 \<Longrightarrow> length (der_length n) \<le> 5"
  using length_be_bytes_le [of n 4] by (simp add: der_length_def)

lemma length_der_octets: "length b < 2 ^ 31 \<Longrightarrow> length (der_octets b) \<le> length b + 6"
  using length_der_length [of "length b"] by (simp add: der_octets_def der_tlv_def)

lemma length_concat_der_octets:
  "\<forall>f \<in> set fs. length f < 2 ^ 31 \<Longrightarrow>
   length (concat (map der_octets fs)) \<le> length (concat fs) + 6 * length fs"
proof (induction fs)
  case Nil
  then show ?case by simp
next
  case (Cons f fs)
  then have "length (der_octets f) \<le> length f + 6" by (simp add: length_der_octets)
  with Cons show ?case by simp
qed

lemma parse_sequence_of_octets:
  assumes "length (concat fs) + 6 * length fs < 2 ^ 31"
  shows "\<exists>body. parse_tlv 48 (der_sequence (map der_octets fs) @ rest) = Some (body, rest)
           \<and> parse_octets_n (length fs) body = Some fs"
proof -
  have small: "\<forall>f \<in> set fs. length f < 2 ^ 31"
  proof
    fix f
    assume "f \<in> set fs"
    then have "length f \<le> length (concat fs)"
      by (induction fs) auto
    with assms show "length f < 2 ^ 31" by linarith
  qed
  then have "length (concat (map der_octets fs)) < 2 ^ 31"
    using length_concat_der_octets [OF small] assms by linarith
  then have "parse_tlv 48 (der_sequence (map der_octets fs) @ rest)
      = Some (concat (map der_octets fs), rest)"
    by (simp add: der_sequence_def der_simps)
  moreover have "parse_octets_n (length fs) (concat (map der_octets fs)) = Some fs"
    using parse_octets_n_der [OF small, of "[]"] by simp
  ultimately show ?thesis by blast
qed

lemma tuple_FromBytes_ToBytes:
  assumes "length a + length b + 12 < 2 ^ 31"
  shows "tuple_FromBytes (tuple_ToBytes a b) = Ret (a, b)"
proof -
  have "length (concat [a, b]) + 6 * length [a, b] < 2 ^ 31" using assms by simp
  from parse_sequence_of_octets [OF this, of "[]"] show ?thesis
    by (auto simp: tuple_FromBytes_def tuple_ToBytes_def numeral_2_eq_2)
qed

lemma der_sequence_nonempty [simp]: "der_sequence fs \<noteq> []" "tuple_ToBytes a b \<noteq> []"
  by (simp_all add: der_sequence_def der_tlv_def tuple_ToBytes_def)

lemma asn1Header_Unmarshal_Bytes:
  assumes "header_Bytes h = Ret hb"
    and "length (hdr_PreviousHash h) + length (hdr_DataHash h) + 40 < 2 ^ 31"
  shows "asn1Header_Unmarshal hb =
           Some (int (unat (hdr_Number h)), hdr_PreviousHash h, hdr_DataHash h)"
proof -
  let ?n = "unat (hdr_Number h)"
  let ?tail = "concat (map der_octets [hdr_PreviousHash h, hdr_DataHash h])"
  from assms(1) have n: "?n < 2 ^ 63"
    and hb: "hb = der_sequence [der_int ?n, der_octets (hdr_PreviousHash h),
                                der_octets (hdr_DataHash h)]"
    by (auto simp: header_Bytes_Ret_iff)
  have small: "\<forall>f \<in> set [hdr_PreviousHash h, hdr_DataHash h]. length f < 2 ^ 31"
    using assms(2) by auto
  have "length (be_bytes ?n) \<le> 8" using n by (intro length_be_bytes_le) simp
  then have "length (der_nat_contents ?n) \<le> 9"
    by (auto simp: der_nat_contents_def Let_def split: list.splits)
  then have "length (der_int ?n) \<le> 15"
    using length_der_length [of "length (der_nat_contents ?n)"] by (simp add: der_int_def der_tlv_def)
  moreover have "length ?tail \<le> length (hdr_PreviousHash h) + length (hdr_DataHash h) + 12"
    using length_concat_der_octets [OF small] by simp
  ultimately have "length (der_int ?n @ ?tail) < 2 ^ 31" using assms(2) by simp
  then have seq: "parse_tlv 48 hb = Some (der_int ?n @ ?tail, [])"
    using parse_tlv_der_tlv [of "der_int ?n @ ?tail" 48 "[]"] by (simp add: hb der_sequence_def)
  have "parse_int (der_int ?n @ ?tail) = Some (int ?n, ?tail)"
    using n by (intro parse_int_der_int) simp
  moreover have "parse_octets_n 2 ?tail = Some [hdr_PreviousHash h, hdr_DataHash h]"
    using parse_octets_n_der [OF small, of "[]"] by (simp add: numeral_2_eq_2)
  ultimately show ?thesis using seq by (simp add: asn1Header_Unmarshal_def)
qed

lemma big_Uint64_unat [simp]: "big_Uint64 (int (unat n)) = n" "big_Uint64 (uint n) = n"
  by (simp_all add: big_Uint64_def)

lemma header_Bytes_inj:
  assumes "header_Bytes h = Ret b" and "header_Bytes h' = Ret b"
    and "length (hdr_PreviousHash h) + length (hdr_DataHash h) + 40 < 2 ^ 31"
    and "length (hdr_PreviousHash h') + length (hdr_DataHash h') + 40 < 2 ^ 31"
  shows "h = h'"
  using asn1Header_Unmarshal_Bytes [OF assms(1,3)] asn1Header_Unmarshal_Bytes [OF assms(2,4)]
  by (cases h; cases h') (simp add: word_uint_eq_iff)

text \<open>
  Packing a block into a proposal and unpacking it is the identity.  The hypotheses are
  that the block is of the shape the assembler builds, that its data and metadata survive
  protobuf, and that it fits the 31-bit lengths of the decoder.
\<close>

lemma ProposalToBlock_pack:
  assumes "header_Bytes h = Ret (prop_Header p)"
    and "prop_Payload p = tuple_ToBytes a b"
    and "dec_block_data L a = Some d" and "dec_block_metadata L b = Some m"
    and "length a + length b + 12 < 2 ^ 31"
    and "length (hdr_PreviousHash h) + length (hdr_DataHash h) + 40 < 2 ^ 31"
  shows "ProposalToBlock L p =
           Ret \<lparr>blk_Header = Some h, blk_Data = Some d, blk_Metadata = Some m\<rparr>"
proof -
  have ne: "prop_Header p \<noteq> []"
    using assms(1) by (metis header_Bytes_Ret_iff der_sequence_nonempty(1))
  show ?thesis
    using ne assms asn1Header_Unmarshal_Bytes [OF assms(1,6)] tuple_FromBytes_ToBytes [OF assms(5)]
    by (simp add: ProposalToBlock_def)
qed

lemma sig_roundtrip:
  assumes "length (concat (sig_fields s)) + 30 < 2 ^ 31"
  shows "sig_Unmarshal (sig_Marshal s @ rest) = Ret s"
proof -
  have five: "length (sig_fields s) = 5" by (simp add: sig_fields_def)
  with assms have "length (concat (sig_fields s)) + 6 * length (sig_fields s) < 2 ^ 31"
    by simp
  from parse_sequence_of_octets [OF this, of rest] obtain body where
    "parse_tlv 48 (sig_Marshal s @ rest) = Some (body, rest)"
    "parse_octets_n 5 body = Some (sig_fields s)"
    unfolding sig_Marshal_def five by blast
  then show ?thesis
    by (simp add: sig_Unmarshal_def sig_fields_def)
qed

subsection \<open>Properties\<close>

text \<open>C27: a signature message of the orderer survives \<open>Marshal\<close> and \<open>Unmarshal\<close>, field by
  field and whatever follows it, as long as it fits the 31-bit lengths the decoder
  accepts.\<close>

theorem sig_Unmarshal_Marshal:
  assumes "length (concat (sig_fields s)) + 30 < 2 ^ 31"
  shows "sig_Unmarshal (sig_Marshal s @ rest) = Ret s"
  using assms by (rule sig_roundtrip)

theorem sig_Unmarshal_Marshal_witness:
  "sig_Unmarshal (sig_Marshal \<lparr>sig_Nonce = [7], sig_SignatureHeader = [],
      sig_BlockHeader = [1, 2], sig_OrdererBlockMetadata = [3], sig_AuxiliaryInput = [4]\<rparr> @ [9])
   = Ret \<lparr>sig_Nonce = [7], sig_SignatureHeader = [],
      sig_BlockHeader = [1, 2], sig_OrdererBlockMetadata = [3], sig_AuxiliaryInput = [4]\<rparr>"
  by (rule sig_Unmarshal_Marshal) (simp add: sig_fields_def)

end
