(* ===== verification/Cluster.thy ===== *)
theory Cluster
  imports BftSignature
begin

text \<open>
  Verification of block sequences pulled from other orderers
  (\<open>orderer/common/cluster/util.go\<close>): hash chain, configuration extraction, signature
  sets, and the search for the last configuration block.

  The interface \<open>BlockVerifier\<close> is a pair of functions of the model: the identities it
  knows under a configuration and the evaluation of a signature set.
\<close>

subsection \<open>Configuration of a block\<close>

definition errNotAConfig :: error where
  "errNotAConfig = Errorf ''not a config block''"

definition ConfigFromBlock :: "libs \<Rightarrow> block option \<Rightarrow> config_envelope go" where
  "ConfigFromBlock L b =
     (case Option.bind b blk_Data of
        None \<Rightarrow> Err (Errorf ''empty block'')
      | Some [] \<Rightarrow> Err (Errorf ''empty block'')
      | Some (txn # _) \<Rightarrow>
          go_bind (GetEnvelopeFromBlock L txn) (\<lambda>env.
          go_bind (GetPayload L env) (\<lambda>pl.
          go_bind (deref (Option.bind b blk_Header)) (\<lambda>h.
          if hdr_Number h = 0
          then wrap_err ''invalid config envelope'' (UnmarshalConfigEnvelope L (pl_Data pl))
          else
            (case pl_Header pl of
               None \<Rightarrow> Err (Errorf ''nil header in payload'')
             | Some ph \<Rightarrow>
                 go_bind (UnmarshalChannelHeader L (nbytes (hd_ChannelHeader ph))) (\<lambda>chdr.
                 if ch_Type chdr \<noteq> HeaderType_CONFIG then Err errNotAConfig
                 else wrap_err ''invalid config envelope''
                        (UnmarshalConfigEnvelope L (pl_Data pl))))))))"

subsection \<open>Hash chain\<close>

definition VerifyBlockHash :: "libs \<Rightarrow> nat \<Rightarrow> block list \<Rightarrow> unit go" where
  "VerifyBlockHash L i buff =
     (if length buff \<le> i then Err (Errorf ''index out of bounds'')
      else
        let b = buff ! i in
        case blk_Header b of
          None \<Rightarrow> Err (Errorf ''missing block header'')
        | Some h \<Rightarrow>
            go_bind (deref (blk_Data b)) (\<lambda>d.
            if data_Hash L d \<noteq> hdr_DataHash h
            then Err (Errorf ''computed hash of block doesn't match claimed hash'')
            else if 0 < i then
              (case blk_Header (buff ! (i - 1)) of
                 None \<Rightarrow> Err (Errorf ''previous block header is nil'')
               | Some ph \<Rightarrow>
                   if hdr_Number ph + 1 \<noteq> hdr_Number h
                   then Err (Errorf ''sequences were received consecutively'')
                   else go_bind (header_Hash L ph) (\<lambda>hash.
                     if hdr_PreviousHash h \<noteq> hash
                     then Err (Errorf ''block's hash mismatches prev block hash'')
                     else Ret ()))
            else Ret ()))"

subsection \<open>Signatures of a block\<close>

type_synonym identities = "u64 \<Rightarrow> bytes option"

record block_verifier =
  bv_Id2Identity :: "config_envelope option \<Rightarrow> identities"
  bv_VerifyBlockSignature :: "signed_data list \<Rightarrow> config_envelope option \<Rightarrow> unit go"

text \<open>
  The body of the loop over the signatures of the metadata: a signature with a header
  speaks for the creator in it, one without speaks for the identity of its signer id (a
  missing id reads as the nil slice), for which the header is rebuilt.
\<close>

definition signed_data_of ::
  "libs \<Rightarrow> identities \<Rightarrow> bytes \<Rightarrow> block \<Rightarrow> metadata_signature \<Rightarrow> signed_data go" where
  "signed_data_of L ids value b ms =
     go_bind
       (if ms_SignatureHeader ms \<noteq> []
        then (case UnmarshalSignatureHeader L (ms_SignatureHeader ms) of
                Ret sh \<Rightarrow> Ret (sh_Creator sh, ms_SignatureHeader ms)
              | Err e \<Rightarrow> Err (Errorf ''failed unmarshaling signature header for block with id'')
              | Panic p \<Rightarrow> Panic p)
        else
          let identity = nbytes (ids (ms_SignerId ms)) in
          go_bind (MarshalOrPanic (enc_signature_header L)
                     \<lparr>sh_Creator = identity, sh_Nonce = ms_Nonce ms\<rparr>)
            (\<lambda>raw. Ret (identity, raw)))
       (\<lambda>(identity, sigHeader).
     go_bind (deref (blk_Header b)) (\<lambda>h.
     go_bind (header_Bytes h) (\<lambda>hb.
     Ret \<lparr>sd_Data = ConcatenateBytes [value, sigHeader, hb, ms_AuxiliaryInput ms],
          sd_Identity = identity, sd_Signature = ms_Signature ms\<rparr>)))"

definition SignatureSetFromBlock :: "libs \<Rightarrow> block \<Rightarrow> identities \<Rightarrow> signed_data list go" where
  "SignatureSetFromBlock L b ids =
     (case blk_Metadata b of
        None \<Rightarrow> Err (Errorf ''no metadata in block'')
      | Some ms \<Rightarrow>
          if length ms \<le> SIGNATURES then Err (Errorf ''no metadata in block'')
          else (case GetMetadataFromBlock L b SIGNATURES of
                  Err e \<Rightarrow> Err (Errorf ''failed unmarshaling medatata for signatures'')
                | Panic p \<Rightarrow> Panic p
                | Ret md \<Rightarrow> go_map (signed_data_of L ids (md_Value md) b) (md_Signatures md)))"

definition VerifyBlockSignature ::
  "libs \<Rightarrow> block \<Rightarrow> block_verifier \<Rightarrow> config_envelope option \<Rightarrow> unit go" where
  "VerifyBlockSignature L b v config =
     go_bind (SignatureSetFromBlock L b (bv_Id2Identity v config))
       (\<lambda>ss. bv_VerifyBlockSignature v ss config)"

subsection \<open>Sequences of blocks\<close>

text \<open>
  The second loop of \<open>verifyBlockSequence\<close>: it threads the configuration picked up on
  the way and whether the last block was taken for a configuration block.
\<close>

definition verify_configs_step ::
  "libs \<Rightarrow> block_verifier \<Rightarrow> bool \<Rightarrow> config_envelope option \<times> bool \<Rightarrow> block \<Rightarrow>
     (config_envelope option \<times> bool) go" where
  "verify_configs_step L v alwaysCheckSig s b =
     (case ConfigFromBlock L (Some b) of
        Panic p \<Rightarrow> Panic p
      | Ret c \<Rightarrow>
          go_bind (VerifyBlockSignature L b v (fst s)) (\<lambda>_. Ret (Some c, True))
      | Err e \<Rightarrow>
          if e = errNotAConfig \<and> \<not> alwaysCheckSig then Ret (fst s, False)
          else if \<not> alwaysCheckSig then Err e
          else go_bind (VerifyBlockSignature L b v (fst s)) (\<lambda>_. Ret (None, True)))"

definition verifyBlockSequence ::
  "libs \<Rightarrow> block list \<Rightarrow> block_verifier \<Rightarrow> bool \<Rightarrow> unit go" where
  "verifyBlockSequence L buff v alwaysCheckSig =
     (if buff = [] then Err (Errorf ''buffer is empty'')
      else
        go_bind (go_map (\<lambda>i. VerifyBlockHash L i buff) [0..<length buff]) (\<lambda>_.
        go_bind (go_fold (verify_configs_step L v alwaysCheckSig) (None, False) buff)
          (\<lambda>(config, isLastBlockConfigBlock).
        if isLastBlockConfigBlock then Ret ()
        else VerifyBlockSignature L (last buff) v config)))"

definition VerifyBlocksCFT :: "libs \<Rightarrow> block list \<Rightarrow> block_verifier \<Rightarrow> unit go" where
  "VerifyBlocksCFT L buff v = verifyBlockSequence L buff v False"

definition VerifyBlocksBFT :: "libs \<Rightarrow> block list \<Rightarrow> block_verifier \<Rightarrow> unit go" where
  "VerifyBlocksBFT L buff v = verifyBlockSequence L buff v True"

subsection \<open>Last configuration block\<close>

text \<open>A ledger, as its readers see it: the block at a number, or nil.\<close>

type_synonym block_retriever = "u64 \<Rightarrow> block option"

definition LastConfigBlock :: "libs \<Rightarrow> block option \<Rightarrow> block_retriever option \<Rightarrow> block go" where
  "LastConfigBlock L b retriever =
     (case b of
        None \<Rightarrow> Err (Errorf ''nil block'')
      | Some blk \<Rightarrow>
          (case retriever of
             None \<Rightarrow> Err (Errorf ''nil blockRetriever'')
           | Some get \<Rightarrow>
               (case blk_Metadata blk of
                  None \<Rightarrow> Err (Errorf ''no metadata in block'')
                | Some ms \<Rightarrow>
                    if length ms \<le> LAST_CONFIG then Err (Errorf ''no metadata in block'')
                    else go_bind (GetLastConfigIndexFromBlock L blk) (\<lambda>n.
                      case get n of
                        None \<Rightarrow> Err (Errorf ''unable to retrieve last config block'')
                      | Some lcb \<Rightarrow> Ret lcb))))"

subsection \<open>What an accepted sequence is\<close>

text \<open>
  The hash chain as a relation: each block carries the hash of its own data, the number
  after its predecessor's and the hash of its predecessor's header.
\<close>

definition linked :: "libs \<Rightarrow> block list \<Rightarrow> nat \<Rightarrow> bool" where
  "linked L buff i =
     (case (blk_Header (buff ! i), blk_Data (buff ! i)) of
        (Some h, Some d) \<Rightarrow>
          hdr_DataHash h = data_Hash L d \<and>
          (i = 0 \<or>
           (case blk_Header (buff ! (i - 1)) of
              None \<Rightarrow> False
            | Some ph \<Rightarrow> hdr_Number h = hdr_Number ph + 1 \<and>
                          header_Hash L ph = Ret (hdr_PreviousHash h)))
      | _ \<Rightarrow> False)"

definition chained :: "libs \<Rightarrow> block list \<Rightarrow> bool" where
  "chained L buff = (\<forall>i < length buff. linked L buff i)"

text \<open>The configuration a block contributes to the check of the next one.\<close>

definition config_of :: "libs \<Rightarrow> block \<Rightarrow> config_envelope option" where
  "config_of L b = (case ConfigFromBlock L (Some b) of Ret c \<Rightarrow> Some c | _ \<Rightarrow> None)"

text \<open>
  The configuration against which block \<open>i\<close> of a BFT sequence is checked: what the
  immediately preceding block contributes, the committed one (\<open>c\<close>) for the first.
\<close>

definition prev_config ::
  "libs \<Rightarrow> config_envelope option \<Rightarrow> block list \<Rightarrow> nat \<Rightarrow> config_envelope option" where
  "prev_config L c buff i = (if i = 0 then c else config_of L (buff ! (i - 1)))"

lemma VerifyBlockHash_Ret_iff:
  "VerifyBlockHash L i buff = Ret u \<longleftrightarrow> i < length buff \<and> linked L buff i"
  by (auto simp: VerifyBlockHash_def linked_def Let_def go_simps not_le
      split: option.splits if_splits)

lemma go_map_VerifyBlockHash:
  "is_ok (go_map (\<lambda>i. VerifyBlockHash L i buff) [0..<length buff]) \<longleftrightarrow> chained L buff"
proof -
  have "is_ok (go_map (\<lambda>i. VerifyBlockHash L i buff) xs) \<longleftrightarrow>
      (\<forall>i \<in> set xs. i < length buff \<and> linked L buff i)" for xs
    by (induction xs) (auto simp: is_ok_iff go_simps VerifyBlockHash_Ret_iff)
  then show ?thesis by (auto simp: chained_def)
qed

lemma verify_configs_step_BFT_Ret_iff:
  "verify_configs_step L v True s b = Ret s' \<longleftrightarrow>
     no_panic (ConfigFromBlock L (Some b)) \<and> is_ok (VerifyBlockSignature L b v (fst s)) \<and>
     s' = (config_of L b, True)"
  by (auto simp: verify_configs_step_def config_of_def go_simps is_ok_iff split: go.splits)

lemma prev_config_simps [simp]:
  "prev_config L c buff 0 = c"
  "prev_config L c (b # buff) (Suc i) = prev_config L (config_of L b) buff i"
  by (simp add: prev_config_def, cases i) (simp_all add: prev_config_def)

lemma verify_configs_fold_BFT:
  "is_ok (go_fold (verify_configs_step L v True) (c, f) buff) \<longleftrightarrow>
     (\<forall>i < length buff.
        no_panic (ConfigFromBlock L (Some (buff ! i))) \<and>
        is_ok (VerifyBlockSignature L (buff ! i) v (prev_config L c buff i)))"
proof (induction buff arbitrary: c f)
  case Nil
  then show ?case by simp
next
  case (Cons b buff)
  have "is_ok (go_fold (verify_configs_step L v True) (c, f) (b # buff)) \<longleftrightarrow>
      no_panic (ConfigFromBlock L (Some b)) \<and> is_ok (VerifyBlockSignature L b v c) \<and>
      is_ok (go_fold (verify_configs_step L v True) (config_of L b, True) buff)"
    by (auto simp: is_ok_iff go_simps verify_configs_step_BFT_Ret_iff)
  then show ?case
    by (simp only: Cons.IH length_Cons All_less_Suc2 nth_Cons_0 nth_Cons_Suc prev_config_simps
        conj_assoc)
qed

lemma verify_configs_flag_BFT_aux:
  "go_fold (verify_configs_step L v True) s buff = Ret s' \<Longrightarrow> s' = s \<or> snd s'"
proof (induction buff arbitrary: s)
  case Nil
  then show ?case by simp
next
  case (Cons b buff)
  then obtain t where t: "verify_configs_step L v True s b = Ret t"
      "go_fold (verify_configs_step L v True) t buff = Ret s'"
    by (auto simp: go_simps)
  then have "snd t" by (auto simp: verify_configs_step_BFT_Ret_iff)
  with Cons.IH [OF t(2)] show ?case by auto
qed

lemma verify_configs_flag_BFT:
  assumes "go_fold (verify_configs_step L v True) s buff = Ret s'" and "buff \<noteq> []"
  shows "snd s'"
proof (cases buff)
  case (Cons b bs)
  with assms obtain t where t: "verify_configs_step L v True s b = Ret t"
      "go_fold (verify_configs_step L v True) t bs = Ret s'"
    by (auto simp: go_simps)
  then have "snd t" by (auto simp: verify_configs_step_BFT_Ret_iff)
  with verify_configs_flag_BFT_aux [OF t(2)] show ?thesis by auto
qed (use assms in simp)

lemma verifyBlockSequence_ok:
  "is_ok (verifyBlockSequence L buff v a) \<longleftrightarrow>
     buff \<noteq> [] \<and> chained L buff \<and>
     (\<exists>c f. go_fold (verify_configs_step L v a) (None, False) buff = Ret (c, f) \<and>
            (f \<or> is_ok (VerifyBlockSignature L (last buff) v c)))"
proof (cases "go_map (\<lambda>i. VerifyBlockHash L i buff) [0..<length buff]")
  case (Ret us)
  then have "chained L buff" by (metis go_map_VerifyBlockHash is_ok_simps(1))
  with Ret show ?thesis
    by (cases "go_fold (verify_configs_step L v a) (None, False) buff")
      (simp_all add: verifyBlockSequence_def split: prod.split)
next
  case (Err e)
  then have "\<not> chained L buff" by (metis go_map_VerifyBlockHash is_ok_simps(2))
  with Err show ?thesis by (simp add: verifyBlockSequence_def)
next
  case (Panic p)
  then have "\<not> chained L buff" by (metis go_map_VerifyBlockHash is_ok_simps(3))
  with Panic show ?thesis by (simp add: verifyBlockSequence_def)
qed

subsection \<open>Properties\<close>



text \<open>The encoded headers of a sequence, and when their hashes do not collide.\<close>

definition header_images :: "block list \<Rightarrow> bytes set" where
  "header_images buff = {b. \<exists>blk \<in> set buff. \<exists>h. blk_Header blk = Some h \<and> header_Bytes h = Ret b}"

definition small_header :: "block \<Rightarrow> bool" where
  "small_header b =
     (case blk_Header b of
        None \<Rightarrow> True
      | Some h \<Rightarrow> length (hdr_PreviousHash h) + length (hdr_DataHash h) + 40 < 2 ^ 31)"

lemma linked_pred:
  assumes "linked L buff i" and "0 < i" and "blk_Header (buff ! i) = Some h"
  shows "\<exists>ph b. blk_Header (buff ! (i - 1)) = Some ph \<and> header_Bytes ph = Ret b \<and>
           sha256 L b = hdr_PreviousHash h"
  using assms by (auto simp: linked_def header_Hash_def go_simps split: option.splits)

lemma chained_headers_backwards:
  assumes "chained L xs" and "chained L ys" and len: "length xs = length ys"
    and "last_eq": "blk_Header (xs ! (length xs - 1)) = blk_Header (ys ! (length xs - 1))"
    and inj: "inj_on (sha256 L) (header_images xs \<union> header_images ys)"
    and small: "\<forall>b \<in> set xs \<union> set ys. small_header b"
    and "i < length xs"
  shows "blk_Header (xs ! i) = blk_Header (ys ! i)"
proof -
  have "i \<le> length xs - 1" using assms(7) by simp
  then show ?thesis
  proof (induction rule: inc_induct)
    case base
    show ?case by (rule last_eq)
  next
    case (step n)
    let ?j = "Suc n"
    from step have j: "?j < length xs" "?j < length ys" using len by auto
    then have lx: "linked L xs ?j" and ly: "linked L ys ?j"
      using assms(1,2) by (auto simp: chained_def)
    from lx obtain h where h: "blk_Header (xs ! ?j) = Some h"
      by (auto simp: linked_def split: option.splits)
    from linked_pred [OF lx _ h] obtain p b where
      p: "blk_Header (xs ! n) = Some p" "header_Bytes p = Ret b" "sha256 L b = hdr_PreviousHash h"
      by auto
    have h': "blk_Header (ys ! ?j) = Some h" using step.IH h by simp
    from linked_pred [OF ly _ h'] obtain q c where
      q: "blk_Header (ys ! n) = Some q" "header_Bytes q = Ret c" "sha256 L c = hdr_PreviousHash h"
      by auto
    have mem: "xs ! n \<in> set xs" "ys ! n \<in> set ys" using j by auto
    then have "b \<in> header_images xs" "c \<in> header_images ys"
      using p q by (auto simp: header_images_def)
    then have "b = c" using inj p(3) q(3) by (metis UnCI inj_onD)
    moreover have "small_header (xs ! n)" "small_header (ys ! n)" using small mem by auto
    ultimately have "p = q"
      using p q by (auto simp: small_header_def intro: header_Bytes_inj)
    with p q show ?case by simp
  qed
qed

text \<open>The header of the last block pins down the whole batch: two batches of the same
  length that \<open>verifyBlockSequence\<close> accepts (in either mode, with any verifiers) and that
  end in the same header agree on every header, as long as SHA-256 does not collide on
  the headers involved.\<close>

lemma verifyBlockSequence_headers_unique:
  assumes "verifyBlockSequence L xs v a = Ret ()" and "verifyBlockSequence L ys w b = Ret ()"
    and "length xs = length ys" and "blk_Header (last xs) = blk_Header (last ys)"
    and "inj_on (sha256 L) (header_images xs \<union> header_images ys)"
    and "\<forall>blk \<in> set xs \<union> set ys. small_header blk"
  shows "map blk_Header xs = map blk_Header ys"
proof -
  have cx: "chained L xs" "xs \<noteq> []" and cy: "chained L ys" "ys \<noteq> []"
    using assms(1,2) verifyBlockSequence_ok [of L xs v a] verifyBlockSequence_ok [of L ys w b]
    by (auto simp: is_ok_iff)
  have le: "blk_Header (xs ! (length xs - 1)) = blk_Header (ys ! (length xs - 1))"
    using assms(3,4) cx(2) cy(2) by (simp add: last_conv_nth)
  show ?thesis
    using chained_headers_backwards [OF cx(1) cy(1) assms(3) le assms(5,6)] assms(3)
    by (auto intro: nth_equalityI)
qed

end
