(* ===== verification/RuntimeConfig.thy ===== *)
theory RuntimeConfig
  imports Cluster "HOL-Library.Multiset"
begin

text \<open>
  \<open>smartbft/util.go\<close>: the configuration of a SmartBFT node derived from configuration
  blocks, the request inspector, and the runtime configuration that every committed block
  advances.

  Calls into packages that are not modelled are the fields of \<open>fabric_env\<close>: building a
  channel configuration bundle, normalising identities, and the PEM, X.509 and duration
  parsers.
\<close>

record fabric_env =
  fe_OrdererConfig :: "envelope \<Rightarrow> (string \<times> bytes) option go"
    \<comment> \<open>\<open>NewBundleFromEnvelope\<close> and \<open>OrdererConfig\<close>: consensus type and metadata\<close>
  fe_SanitizeIdentity :: "bytes \<Rightarrow> bytes go"
  fe_PemDecode :: "bytes \<Rightarrow> bytes option"
  fe_ParseCertificate :: "bytes \<Rightarrow> unit go"
  fe_ParseDuration :: "string \<Rightarrow> int option"

subsection \<open>SmartBFT configuration\<close>

text \<open>\<open>types.Configuration\<close>; durations are nanoseconds.\<close>

record configuration =
  cf_SelfID :: u64
  cf_RequestBatchMaxCount :: u64
  cf_RequestBatchMaxBytes :: u64
  cf_RequestBatchMaxInterval :: int
  cf_IncomingMessageBufferSize :: u64
  cf_RequestPoolSize :: u64
  cf_RequestForwardTimeout :: int
  cf_RequestComplainTimeout :: int
  cf_RequestAutoRemoveTimeout :: int
  cf_ViewChangeResendInterval :: int
  cf_ViewChangeTimeout :: int
  cf_LeaderHeartbeatTimeout :: int
  cf_LeaderHeartbeatCount :: u64
  cf_NumOfTicksBehindBeforeSyncing :: u64
  cf_CollectTimeout :: int
  cf_SyncOnStart :: bool
  cf_SpeedUpViewChange :: bool
  cf_LeaderRotation :: bool
  cf_DecisionsPerLeader :: u64

abbreviation (input) millisecond :: int where "millisecond \<equiv> 1000000"
abbreviation (input) second :: int where "second \<equiv> 1000000000"
abbreviation (input) minute :: int where "minute \<equiv> 60000000000"

definition DefaultConfig :: configuration where
  "DefaultConfig =
     \<lparr>cf_SelfID = 0,
      cf_RequestBatchMaxCount = 100,
      cf_RequestBatchMaxBytes = 10 * 1024 * 1024,
      cf_RequestBatchMaxInterval = 50 * millisecond,
      cf_IncomingMessageBufferSize = 200,
      cf_RequestPoolSize = 400,
      cf_RequestForwardTimeout = 2 * second,
      cf_RequestComplainTimeout = 20 * second,
      cf_RequestAutoRemoveTimeout = 3 * minute,
      cf_ViewChangeResendInterval = 5 * second,
      cf_ViewChangeTimeout = 20 * second,
      cf_LeaderHeartbeatTimeout = minute,
      cf_LeaderHeartbeatCount = 10,
      cf_NumOfTicksBehindBeforeSyncing = 10,
      cf_CollectTimeout = second,
      cf_SyncOnStart = False,
      cf_SpeedUpViewChange = False,
      cf_LeaderRotation = True,
      cf_DecisionsPerLeader = 3\<rparr>"

text \<open>The zero value \<open>types.Configuration{}\<close>.\<close>

definition empty_configuration :: configuration where
  "empty_configuration =
     \<lparr>cf_SelfID = 0, cf_RequestBatchMaxCount = 0, cf_RequestBatchMaxBytes = 0,
      cf_RequestBatchMaxInterval = 0, cf_IncomingMessageBufferSize = 0, cf_RequestPoolSize = 0,
      cf_RequestForwardTimeout = 0, cf_RequestComplainTimeout = 0,
      cf_RequestAutoRemoveTimeout = 0, cf_ViewChangeResendInterval = 0,
      cf_ViewChangeTimeout = 0, cf_LeaderHeartbeatTimeout = 0, cf_LeaderHeartbeatCount = 0,
      cf_NumOfTicksBehindBeforeSyncing = 0, cf_CollectTimeout = 0, cf_SyncOnStart = False,
      cf_SpeedUpViewChange = False, cf_LeaderRotation = False, cf_DecisionsPerLeader = 0\<rparr>"

definition Validate :: "configuration \<Rightarrow> unit go" where
  "Validate c =
     (if \<not> cf_SelfID c > 0 then Err (Errorf ''SelfID is lower than or equal to zero'')
      else if \<not> cf_RequestBatchMaxCount c > 0
        then Err (Errorf ''RequestBatchMaxCount should be greater than zero'')
      else if \<not> cf_RequestBatchMaxBytes c > 0
        then Err (Errorf ''RequestBatchMaxBytes should be greater than zero'')
      else if \<not> cf_RequestBatchMaxInterval c > 0
        then Err (Errorf ''RequestBatchMaxInterval should be greater than zero'')
      else if \<not> cf_IncomingMessageBufferSize c > 0
        then Err (Errorf ''IncomingMessageBufferSize should be greater than zero'')
      else if \<not> cf_RequestPoolSize c > 0
        then Err (Errorf ''RequestPoolSize should be greater than zero'')
      else if \<not> cf_RequestForwardTimeout c > 0
        then Err (Errorf ''RequestForwardTimeout should be greater than zero'')
      else if \<not> cf_RequestComplainTimeout c > 0
        then Err (Errorf ''RequestComplainTimeout should be greater than zero'')
      else if \<not> cf_RequestAutoRemoveTimeout c > 0
        then Err (Errorf ''RequestAutoRemoveTimeout should be greater than zero'')
      else if \<not> cf_ViewChangeResendInterval c > 0
        then Err (Errorf ''ViewChangeResendInterval should be greater than zero'')
      else if \<not> cf_ViewChangeTimeout c > 0
        then Err (Errorf ''ViewChangeTimeout should be greater than zero'')
      else if \<not> cf_LeaderHeartbeatTimeout c > 0
        then Err (Errorf ''LeaderHeartbeatTimeout should be greater than zero'')
      else if \<not> cf_LeaderHeartbeatCount c > 0
        then Err (Errorf ''LeaderHeartbeatCount should be greater than zero'')
      else if \<not> cf_NumOfTicksBehindBeforeSyncing c > 0
        then Err (Errorf ''NumOfTicksBehindBeforeSyncing should be greater than zero'')
      else if \<not> cf_CollectTimeout c > 0
        then Err (Errorf ''CollectTimeout should be greater than zero'')
      else if cf_RequestBatchMaxCount c > cf_RequestBatchMaxBytes c
        then Err (Errorf ''RequestBatchMaxCount is bigger than RequestBatchMaxBytes'')
      else if cf_RequestForwardTimeout c > cf_RequestComplainTimeout c
        then Err (Errorf ''RequestForwardTimeout is bigger than RequestComplainTimeout'')
      else if cf_RequestComplainTimeout c > cf_RequestAutoRemoveTimeout c
        then Err (Errorf ''RequestComplainTimeout is bigger than RequestAutoRemoveTimeout'')
      else if cf_ViewChangeResendInterval c > cf_ViewChangeTimeout c
        then Err (Errorf ''ViewChangeResendInterval is bigger than ViewChangeTimeout'')
      else if cf_LeaderRotation c \<and> cf_DecisionsPerLeader c \<le> 0
        then Err (Errorf ''DecisionsPerLeader should be greater than zero when leader rotation is active'')
      else Ret ())"

definition parse_duration_option :: "fabric_env \<Rightarrow> string \<Rightarrow> string \<Rightarrow> int go" where
  "parse_duration_option E what s =
     wrap_err (''bad config metadata option '' @ what) (ext_call ''time'' (fe_ParseDuration E s))"

definition configFromMetadataOptions ::
  "fabric_env \<Rightarrow> u64 \<Rightarrow> options option \<Rightarrow> configuration go" where
  "configFromMetadataOptions E selfID opts =
     (let config = DefaultConfig\<lparr>cf_SelfID := selfID\<rparr> in
      case opts of
        None \<Rightarrow> Err (Errorf ''config metadata options field is nil'')
      | Some o' \<Rightarrow>
          go_bind (parse_duration_option E ''RequestBatchMaxInterval'' (opt_RequestBatchMaxInterval o')) (\<lambda>d1.
          go_bind (parse_duration_option E ''RequestForwardTimeout'' (opt_RequestForwardTimeout o')) (\<lambda>d2.
          go_bind (parse_duration_option E ''RequestComplainTimeout'' (opt_RequestComplainTimeout o')) (\<lambda>d3.
          go_bind (parse_duration_option E ''RequestAutoRemoveTimeout'' (opt_RequestAutoRemoveTimeout o')) (\<lambda>d4.
          go_bind (parse_duration_option E ''ViewChangeResendInterval'' (opt_ViewChangeResendInterval o')) (\<lambda>d5.
          go_bind (parse_duration_option E ''ViewChangeTimeout'' (opt_ViewChangeTimeout o')) (\<lambda>d6.
          go_bind (parse_duration_option E ''LeaderHeartbeatTimeout'' (opt_LeaderHeartbeatTimeout o')) (\<lambda>d7.
          go_bind (parse_duration_option E ''CollectTimeout'' (opt_CollectTimeout o')) (\<lambda>d8.
          let c1 = config
                \<lparr>cf_RequestBatchMaxCount := opt_RequestBatchMaxCount o',
                 cf_RequestBatchMaxBytes := opt_RequestBatchMaxBytes o',
                 cf_RequestBatchMaxInterval := d1,
                 cf_IncomingMessageBufferSize := opt_IncomingMessageBufferSize o',
                 cf_RequestPoolSize := opt_RequestPoolSize o',
                 cf_RequestForwardTimeout := d2,
                 cf_RequestComplainTimeout := d3,
                 cf_RequestAutoRemoveTimeout := d4,
                 cf_ViewChangeResendInterval := d5,
                 cf_ViewChangeTimeout := d6,
                 cf_LeaderHeartbeatTimeout := d7,
                 cf_LeaderHeartbeatCount := opt_LeaderHeartbeatCount o',
                 cf_CollectTimeout := d8,
                 cf_SyncOnStart := opt_SyncOnStart o',
                 cf_SpeedUpViewChange := opt_SpeedUpViewChange o'\<rparr>;
              c2 = (if opt_DecisionsPerLeader o' = 0 then c1\<lparr>cf_DecisionsPerLeader := 1\<rparr> else c1);
              c3 = (case opt_LeaderRotation o' of
                      OFF \<Rightarrow> c2\<lparr>cf_LeaderRotation := False, cf_DecisionsPerLeader := 0\<rparr>
                    | _ \<Rightarrow> c2\<lparr>cf_LeaderRotation := True\<rparr>)
          in go_bind (wrap_err ''config validation failed'' (Validate c3)) (\<lambda>_. Ret c3))))))))))"

subsection \<open>Metadata and kind of a block\<close>

definition getViewMetadataFromBlock :: "libs \<Rightarrow> block \<Rightarrow> view_metadata go" where
  "getViewMetadataFromBlock L b =
     go_bind (deref (blk_Header b)) (\<lambda>h.
     if hdr_Number h = 0 then Ret empty_view_metadata
     else
       go_bind (GetMetadataFromBlockOrPanic L b SIGNATURES) (\<lambda>signatureMetadata.
       go_bind (wrap_err ''failed unmarshaling OrdererBlockMetadata''
                  (unmarshal (dec_orderer_block_metadata L) (md_Value signatureMetadata)))
         (\<lambda>ordererMD.
       unmarshal (dec_view_metadata L) (obm_ConsenterMetadata ordererMD))))"

text \<open>\<open>smartbft.isConfigBlock\<close>: exactly one transaction, and it is of type CONFIG.\<close>

definition isConfigBlock :: "libs \<Rightarrow> block \<Rightarrow> bool" where
  "isConfigBlock L b =
     (case blk_Data b of
        Some [d] \<Rightarrow>
          (case UnmarshalEnvelope L d of
             Ret env \<Rightarrow>
               (case GetPayload L env of
                  Ret pl \<Rightarrow>
                    (case pl_Header pl of
                       None \<Rightarrow> False
                     | Some h \<Rightarrow>
                         (case UnmarshalChannelHeader L (nbytes (hd_ChannelHeader h)) of
                            Ret hdr \<Rightarrow> ch_Type hdr = HeaderType_CONFIG
                          | _ \<Rightarrow> False))
                | _ \<Rightarrow> False)
           | _ \<Rightarrow> False)
      | _ \<Rightarrow> False)"

definition ConfigurationEnvelop :: "libs \<Rightarrow> block \<Rightarrow> config_envelope go" where
  "ConfigurationEnvelop L configBlock =
     go_bind (wrap_err ''failed to extract envelop from block'' (ExtractEnvelope L configBlock 0))
       (\<lambda>envelopeConfig.
     go_bind (wrap_err ''failed to unmarshal envelop payload''
                (UnmarshalPayload L (env_Payload envelopeConfig))) (\<lambda>pl.
     wrap_err ''failed to unmarshal configuration payload''
       (UnmarshalConfigEnvelope L (pl_Data pl))))"

subsection \<open>Requests\<close>

record request =
  req_sigHdr :: signature_header
  req_envelope :: envelope
  req_chHdr :: channel_header

definition unwrapReq :: "libs \<Rightarrow> bytes \<Rightarrow> request go" where
  "unwrapReq L raw =
     go_bind (UnmarshalEnvelope L raw) (\<lambda>env.
     go_bind (wrap_err ''failed unmarshaling payload'' (unmarshal (dec_payload L) (env_Payload env)))
       (\<lambda>pl.
     case pl_Header pl of
       None \<Rightarrow> Err (Errorf ''no header in payload'')
     | Some h \<Rightarrow>
         go_bind (unmarshal (dec_signature_header L) (hd_SignatureHeader h)) (\<lambda>sigHdr.
         if nbytes (hd_ChannelHeader h) = [] then Err (Errorf ''no channel header in payload'')
         else
           go_bind (wrap_err ''error unmarshaling channel header''
                      (UnmarshalChannelHeader L (nbytes (hd_ChannelHeader h)))) (\<lambda>chdr.
           Ret \<lparr>req_sigHdr = sigHdr, req_envelope = env, req_chHdr = chdr\<rparr>))))"

text \<open>
  The request inspector holds the function \<open>ValidateIdentityStructure\<close>; the identifiers
  are the SHA-256 digests of nonce and creator, and of the creator, in hexadecimal.
\<close>

definition requestIDFromSigHeader ::
  "libs \<Rightarrow> (serialized_identity \<Rightarrow> unit go) \<Rightarrow> signature_header \<Rightarrow> request_info go" where
  "requestIDFromSigHeader L validateIdentity sigHdr =
     go_bind (wrap_err ''identity isn't an MSP Identity''
                (unmarshal (dec_serialized_identity L) (sh_Creator sigHdr))) (\<lambda>sID.
     go_bind (validateIdentity sID) (\<lambda>_.
     Ret \<lparr>ri_ClientID = hex_encode (sha256 L (sh_Creator sigHdr)),
          ri_ID = hex_encode (sha256 L (sh_Nonce sigHdr @ sh_Creator sigHdr))\<rparr>))"

definition RequestID ::
  "libs \<Rightarrow> (serialized_identity \<Rightarrow> unit go) \<Rightarrow> bytes \<Rightarrow> request_info go" where
  "RequestID L validateIdentity rawReq =
     (case go_bind (unwrapReq L rawReq)
             (\<lambda>req. requestIDFromSigHeader L validateIdentity (req_sigHdr req)) of
        Ret info \<Rightarrow> Ret info
      | Err e \<Rightarrow> Ret empty_request_info
      | Panic p \<Rightarrow> Panic p)"

subsection \<open>Consenters of a channel\<close>

definition ErrNotInChannel :: error where
  "ErrNotInChannel = Errorf ''not in the channel''"

definition IsConsenterOfChannel ::
  "libs \<Rightarrow> fabric_env \<Rightarrow> bytes \<Rightarrow> block option \<Rightarrow> unit go" where
  "IsConsenterOfChannel L E conCert configBlock =
     (case configBlock of
        None \<Rightarrow> Err (Errorf ''nil block'')
      | Some b \<Rightarrow>
          go_bind (ExtractEnvelope L b 0) (\<lambda>env.
          go_bind (fe_OrdererConfig E env) (\<lambda>oc.
          case oc of
            None \<Rightarrow> Err (Errorf ''no orderer config in bundle'')
          | Some (consensusType, raw) \<Rightarrow>
              if consensusType \<noteq> ''smartbft'' then Err (Errorf ''not a SmartBFT config block'')
              else
                go_bind (unmarshal (dec_config_metadata L) raw) (\<lambda>m.
                if list_ex (\<lambda>c. conCert = cst_ServerTlsCert c \<or> conCert = cst_ClientTlsCert c)
                     (cm_Consenters m)
                then Ret () else Err ErrNotInChannel))))"

definition pemToDER :: "fabric_env \<Rightarrow> bytes \<Rightarrow> bytes go" where
  "pemToDER E pemBytes =
     (case fe_PemDecode E pemBytes of
        None \<Rightarrow> Err (Errorf ''invalid PEM block'')
      | Some der \<Rightarrow> Ret der)"

fun detectSelfID :: "bytes \<Rightarrow> consenter list \<Rightarrow> u64 go" where
  "detectSelfID cert [] = Err ErrNotInChannel"
| "detectSelfID cert (c # cs) =
     (if cert = cst_ServerTlsCert c then Ret (cst_ConsenterId c) else detectSelfID cert cs)"

text \<open>Decimal digits of a number, for the endpoint \<open>host:port\<close>.\<close>

fun decimal :: "nat \<Rightarrow> string" where
  "decimal n = (if n < 10 then [hex_digit n] else decimal (n div 10) @ [hex_digit (n mod 10)])"

declare decimal.simps [simp del]

record remote_node =
  rn_ID :: u64
  rn_Endpoint :: string
  rn_ServerTLSCert :: bytes
  rn_ClientTLSCert :: bytes

record node_config =
  nc_id2Identities :: identities
  nc_remoteNodes :: "remote_node list"
  nc_nodeIDs :: "u64 list"

definition RemoteNodes_step ::
  "fabric_env \<Rightarrow> u64 \<Rightarrow> node_config \<Rightarrow> consenter \<Rightarrow> node_config go" where
  "RemoteNodes_step E selfID nc c =
     go_bind (or_panic ''Failed to sanitize identity'' (fe_SanitizeIdentity E (cst_Identity c)))
       (\<lambda>sanitizedID.
     let nc' = nc\<lparr>nc_id2Identities := (nc_id2Identities nc)(cst_ConsenterId c \<mapsto> sanitizedID),
                  nc_nodeIDs := nc_nodeIDs nc @ [cst_ConsenterId c]\<rparr> in
     if selfID = cst_ConsenterId c then Ret nc'
     else
       go_bind (pemToDER E (cst_ServerTlsCert c)) (\<lambda>serverDER.
       go_bind (pemToDER E (cst_ClientTlsCert c)) (\<lambda>clientDER.
       go_bind (fe_ParseCertificate E serverDER) (\<lambda>_.
       go_bind (fe_ParseCertificate E clientDER) (\<lambda>_.
       Ret (nc'\<lparr>nc_remoteNodes := nc_remoteNodes nc' @
              [\<lparr>rn_ID = cst_ConsenterId c,
                rn_Endpoint = cst_Host c @ '':'' @ decimal (unat (cst_Port c)),
                rn_ServerTLSCert = serverDER, rn_ClientTLSCert = clientDER\<rparr>]\<rparr>))))))"

definition RemoteNodesFromConfigBlock ::
  "libs \<Rightarrow> fabric_env \<Rightarrow> block \<Rightarrow> u64 \<Rightarrow> node_config go" where
  "RemoteNodesFromConfigBlock L E b selfID =
     go_bind (deref (blk_Data b)) (\<lambda>d.
     go_bind (slice_get d 0) (\<lambda>raw.
     go_bind (wrap_err ''failed unmarshaling envelope of config block''
                (unmarshal (dec_envelope L) raw)) (\<lambda>env.
     go_bind (wrap_err ''failed getting a new bundle from envelope of config block''
                (fe_OrdererConfig E env)) (\<lambda>oc.
     case oc of
       None \<Rightarrow> Err (Errorf ''no orderer config in config block'')
     | Some (_, rawMD) \<Rightarrow>
         go_bind (wrap_err ''failed to unmarshal consensus metadata''
                    (unmarshal (dec_config_metadata L) rawMD)) (\<lambda>m.
         if cm_Options m = None
         then Err (Errorf ''failed to retrieve consensus metadata options'')
         else
           go_bind (go_fold (RemoteNodes_step E selfID)
                      \<lparr>nc_id2Identities = Map.empty, nc_remoteNodes = [], nc_nodeIDs = []\<rparr>
                      (cm_Consenters m))
             (\<lambda>nc. Ret (nc\<lparr>nc_nodeIDs := sort (nc_nodeIDs nc)\<rparr>)))))))"

definition configBlockToBFTConfig ::
  "libs \<Rightarrow> fabric_env \<Rightarrow> u64 \<Rightarrow> block option \<Rightarrow> configuration go" where
  "configBlockToBFTConfig L E selfID b =
     (case Option.bind b blk_Data of
        None \<Rightarrow> Err (Errorf ''empty block'')
      | Some [] \<Rightarrow> Err (Errorf ''empty block'')
      | Some (d # _) \<Rightarrow>
          go_bind (UnmarshalEnvelope L d) (\<lambda>env.
          go_bind (fe_OrdererConfig E env) (\<lambda>oc.
          case oc of
            None \<Rightarrow> Err (Errorf ''no orderer config'')
          | Some (_, rawMD) \<Rightarrow>
              go_bind (unmarshal (dec_config_metadata L) rawMD)
                (\<lambda>consensusMD. configFromMetadataOptions E selfID (cm_Options consensusMD)))))"

subsection \<open>The runtime configuration\<close>

record runtime_config =
  rtc_BFTConfig :: configuration
  rtc_isConfig :: bool
  rtc_id :: u64
  rtc_LastCommittedBlockHash :: string
  rtc_RemoteNodes :: "remote_node list"
  rtc_ID2Identities :: identities
  rtc_LastBlock :: "block option"
  rtc_LastConfigBlock :: "block option"
  rtc_Nodes :: "u64 list"

definition block_Hash :: "libs \<Rightarrow> block \<Rightarrow> bytes go" where
  "block_Hash L b = go_bind (deref (blk_Header b)) (header_Hash L)"

definition configBlockCommitted ::
  "libs \<Rightarrow> fabric_env \<Rightarrow> runtime_config \<Rightarrow> block \<Rightarrow> runtime_config go" where
  "configBlockCommitted L E rtc b =
     go_bind (wrap_err ''remote nodes cannot be computed, rejecting config block''
                (RemoteNodesFromConfigBlock L E b (rtc_id rtc))) (\<lambda>nodeConf.
     go_bind (configBlockToBFTConfig L E (rtc_id rtc) (Some b)) (\<lambda>bftConfig.
     go_bind (block_Hash L b) (\<lambda>hash.
     Ret \<lparr>rtc_BFTConfig = bftConfig, rtc_isConfig = True, rtc_id = rtc_id rtc,
          rtc_LastCommittedBlockHash = hex_encode hash,
          rtc_RemoteNodes = nc_remoteNodes nodeConf,
          rtc_ID2Identities = nc_id2Identities nodeConf,
          rtc_LastBlock = Some b, rtc_LastConfigBlock = Some b,
          rtc_Nodes = nc_nodeIDs nodeConf\<rparr>)))"

definition BlockCommitted ::
  "libs \<Rightarrow> fabric_env \<Rightarrow> runtime_config \<Rightarrow> block \<Rightarrow> runtime_config go" where
  "BlockCommitted L E rtc b =
     (case ConfigFromBlock L (Some b) of
        Panic p \<Rightarrow> Panic p
      | Ret _ \<Rightarrow> configBlockCommitted L E rtc b
      | Err _ \<Rightarrow>
          go_bind (block_Hash L b) (\<lambda>hash.
          Ret \<lparr>rtc_BFTConfig = rtc_BFTConfig rtc, rtc_isConfig = False, rtc_id = rtc_id rtc,
               rtc_LastCommittedBlockHash = hex_encode hash,
               rtc_RemoteNodes = rtc_RemoteNodes rtc,
               rtc_ID2Identities = rtc_ID2Identities rtc,
               rtc_LastBlock = Some b, rtc_LastConfigBlock = rtc_LastConfigBlock rtc,
               rtc_Nodes = rtc_Nodes rtc\<rparr>))"

text \<open>The value \<open>RuntimeConfig{logger: logger, id: selfID}\<close> that \<open>NewChain\<close> starts from.\<close>

definition initial_rtc :: "u64 \<Rightarrow> runtime_config" where
  "initial_rtc selfID =
     \<lparr>rtc_BFTConfig = empty_configuration, rtc_isConfig = False, rtc_id = selfID,
      rtc_LastCommittedBlockHash = [], rtc_RemoteNodes = [], rtc_ID2Identities = Map.empty,
      rtc_LastBlock = None, rtc_LastConfigBlock = None, rtc_Nodes = []\<rparr>"

subsection \<open>What the operations keep\<close>

text \<open>The decoders of \<open>utils\<close> on each outcome of the codec.\<close>

lemmas unmarshal_defs =
  UnmarshalEnvelope_def GetEnvelopeFromBlock_def GetPayload_def UnmarshalPayload_def
  UnmarshalChannelHeader_def UnmarshalSignatureHeader_def UnmarshalConfigEnvelope_def

lemma IsConfigTransaction_iff:
  "IsConfigTransaction L e \<longleftrightarrow>
     (\<exists>pl h hdr. dec_payload L (env_Payload e) = Some pl \<and> pl_Header pl = Some h \<and>
        dec_channel_header L (nbytes (hd_ChannelHeader h)) = Some hdr \<and>
        (ch_Type hdr = HeaderType_CONFIG \<or> ch_Type hdr = HeaderType_ORDERER_TRANSACTION))"
  by (auto simp: IsConfigTransaction_def unmarshal_defs ext_call_def split: option.splits)

lemma isConfigBlock_iff:
  "isConfigBlock L b \<longleftrightarrow>
     (\<exists>d e pl h hdr. blk_Data b = Some [d] \<and> dec_envelope L d = Some e \<and>
        dec_payload L (env_Payload e) = Some pl \<and> pl_Header pl = Some h \<and>
        dec_channel_header L (nbytes (hd_ChannelHeader h)) = Some hdr \<and>
        ch_Type hdr = HeaderType_CONFIG)"
  by (auto simp: isConfigBlock_def unmarshal_defs ext_call_def split: option.splits list.splits;
      metis not_None_eq)

lemma isConfigBlock_IsConfigBlock: "isConfigBlock L b \<Longrightarrow> IsConfigBlock L b"
  by (auto simp: isConfigBlock_iff IsConfigBlock_iff IsConfigTransaction_iff)

lemma RemoteNodes_step_Ret:
  assumes "RemoteNodes_step E selfID nc c = Ret nc'"
  shows "nc_nodeIDs nc' = nc_nodeIDs nc @ [cst_ConsenterId c] \<and>
         dom (nc_id2Identities nc') = insert (cst_ConsenterId c) (dom (nc_id2Identities nc)) \<and>
         map rn_ID (nc_remoteNodes nc') =
           map rn_ID (nc_remoteNodes nc) @ filter (\<lambda>i. i \<noteq> selfID) [cst_ConsenterId c]"
proof (cases "selfID = cst_ConsenterId c")
  case True
  with assms show ?thesis by (auto simp: RemoteNodes_step_def go_simps Let_def)
next
  case False
  with assms show ?thesis by (auto simp: RemoteNodes_step_def go_simps Let_def)
qed

lemma RemoteNodes_fold_Ret:
  assumes "go_fold (RemoteNodes_step E selfID) nc cs = Ret nc'"
  shows "nc_nodeIDs nc' = nc_nodeIDs nc @ map cst_ConsenterId cs \<and>
         dom (nc_id2Identities nc') = dom (nc_id2Identities nc) \<union> set (map cst_ConsenterId cs) \<and>
         map rn_ID (nc_remoteNodes nc') =
           map rn_ID (nc_remoteNodes nc) @ filter (\<lambda>i. i \<noteq> selfID) (map cst_ConsenterId cs)"
  using assms
proof (induction cs arbitrary: nc)
  case Nil
  then show ?case by simp
next
  case (Cons c cs)
  then obtain t where t: "RemoteNodes_step E selfID nc c = Ret t"
      "go_fold (RemoteNodes_step E selfID) t cs = Ret nc'"
    by (auto simp: go_simps)
  from Cons.IH [OF t(2)] RemoteNodes_step_Ret [OF t(1)] show ?case by auto
qed

lemma RemoteNodesFromConfigBlock_Ret:
  assumes "RemoteNodesFromConfigBlock L E b selfID = Ret nc"
  shows "sorted (nc_nodeIDs nc)"
    and "dom (nc_id2Identities nc) = set (nc_nodeIDs nc)"
    and "mset (map rn_ID (nc_remoteNodes nc)) = filter_mset (\<lambda>i. i \<noteq> selfID) (mset (nc_nodeIDs nc))"
proof -
  from assms obtain cs nc' where
    f: "go_fold (RemoteNodes_step E selfID)
          \<lparr>nc_id2Identities = Map.empty, nc_remoteNodes = [], nc_nodeIDs = []\<rparr> cs = Ret nc'"
    and nc: "nc = nc'\<lparr>nc_nodeIDs := sort (nc_nodeIDs nc')\<rparr>"
    by (auto simp: RemoteNodesFromConfigBlock_def go_simps split: option.splits if_splits)
  note r = RemoteNodes_fold_Ret [OF f]
  show "sorted (nc_nodeIDs nc)" by (simp add: nc)
  show "dom (nc_id2Identities nc) = set (nc_nodeIDs nc)" using r by (simp add: nc)
  have "map rn_ID (nc_remoteNodes nc) = filter (\<lambda>i. i \<noteq> selfID) (nc_nodeIDs nc')"
    using r by (simp add: nc)
  then have "mset (map rn_ID (nc_remoteNodes nc)) = filter_mset (\<lambda>i. i \<noteq> selfID) (mset (nc_nodeIDs nc'))"
    by (simp only: mset_filter)
  then show "mset (map rn_ID (nc_remoteNodes nc)) = filter_mset (\<lambda>i. i \<noteq> selfID) (mset (nc_nodeIDs nc))"
    by (simp add: nc)
qed

text \<open>The last part of \<open>configFromMetadataOptions\<close>, once every duration is parsed.\<close>

lemma Validate_unit: "Validate c = Ret u \<longleftrightarrow> Validate c = Ret ()"
  by (cases u) simp

lemma configFromMetadataOptions_Ret:
  assumes "configFromMetadataOptions E selfID opts = Ret c"
  shows "Validate c = Ret () \<and> cf_SelfID c = selfID \<and>
         (\<exists>o'. opts = Some o' \<and>
            cf_LeaderRotation c = (opt_LeaderRotation o' \<noteq> OFF) \<and>
            cf_DecisionsPerLeader c =
              (if opt_LeaderRotation o' = OFF then 0
               else if opt_DecisionsPerLeader o' = 0 then 1 else 3))"
proof (cases opts)
  case None
  with assms show ?thesis by (simp add: configFromMetadataOptions_def)
next
  case (Some o')
  show ?thesis
    using assms unfolding Some configFromMetadataOptions_def Let_def option.case go_bind_Ret_iff
    by (elim exE conjE)
      (cases "opt_LeaderRotation o'"; cases "opt_DecisionsPerLeader o' = 0";
       auto simp: DefaultConfig_def)
qed

lemma configBlockToBFTConfig_Ret:
  assumes "configBlockToBFTConfig L E selfID b = Ret c"
  shows "Validate c = Ret () \<and> cf_SelfID c = selfID"
  using assms
  by (auto simp: configBlockToBFTConfig_def go_simps split: option.splits list.splits
      dest!: configFromMetadataOptions_Ret)

subsection \<open>Contract of a committer\<close>

text \<open>
  A state that advances block by block: the chain and the synchronizer only rely on these
  laws of the runtime configuration.
\<close>

locale committer =
  fixes commit :: "'s \<Rightarrow> block \<Rightarrow> 's go"
    and inv :: "'s \<Rightarrow> bool"
    and last_block :: "'s \<Rightarrow> block option"
    and node_id :: "'s \<Rightarrow> u64"
  assumes commit_inv: "inv s \<Longrightarrow> commit s b = Ret s' \<Longrightarrow> inv s'"
    and commit_last: "commit s b = Ret s' \<Longrightarrow> last_block s' = Some b"
    and commit_id: "commit s b = Ret s' \<Longrightarrow> node_id s' = node_id s"
begin

lemma commits_inv: "go_fold commit s bs = Ret s' \<Longrightarrow> inv s \<Longrightarrow> inv s'"
  by (erule go_fold_invariant [where I = inv]) (auto intro: commit_inv)

lemma commits_id:
  assumes "go_fold commit s bs = Ret s'"
  shows "node_id s' = node_id s"
  by (rule go_fold_invariant [OF assms, where I = "\<lambda>t. node_id t = node_id s"])
    (auto simp: commit_id)

lemma commits_last:
  assumes "go_fold commit s bs = Ret s'" and "bs \<noteq> []"
  shows "last_block s' = Some (last bs)"
proof -
  from assms(2) obtain cs b where bs: "bs = cs @ [b]" by (metis rev_exhaust)
  with assms(1) obtain t where "commit t b = Ret s'"
    by (auto simp: go_fold_append go_simps)
  with bs show ?thesis by (simp add: commit_last)
qed

end

definition rtc_inv :: "runtime_config \<Rightarrow> bool" where
  "rtc_inv rtc =
     (sorted (rtc_Nodes rtc) \<and>
      dom (rtc_ID2Identities rtc) = set (rtc_Nodes rtc) \<and>
      mset (map rn_ID (rtc_RemoteNodes rtc)) =
        filter_mset (\<lambda>i. i \<noteq> rtc_id rtc) (mset (rtc_Nodes rtc)) \<and>
      (rtc_LastConfigBlock rtc = None \<or>
       Validate (rtc_BFTConfig rtc) = Ret () \<and> cf_SelfID (rtc_BFTConfig rtc) = rtc_id rtc))"

lemma rtc_inv_initial: "rtc_inv (initial_rtc selfID)"
  by (simp add: rtc_inv_def initial_rtc_def)

lemma configBlockCommitted_Ret:
  assumes "configBlockCommitted L E rtc b = Ret rtc'"
  shows "rtc_inv rtc'" and "rtc_LastBlock rtc' = Some b" and "rtc_LastConfigBlock rtc' = Some b"
    and "rtc_id rtc' = rtc_id rtc"
    and "\<exists>hash. block_Hash L b = Ret hash \<and> rtc_LastCommittedBlockHash rtc' = hex_encode hash"
proof -
  from assms obtain nc c hash where
    nc: "RemoteNodesFromConfigBlock L E b (rtc_id rtc) = Ret nc"
    and c: "configBlockToBFTConfig L E (rtc_id rtc) (Some b) = Ret c"
    and hash: "block_Hash L b = Ret hash"
    and rtc': "rtc' = \<lparr>rtc_BFTConfig = c, rtc_isConfig = True, rtc_id = rtc_id rtc,
          rtc_LastCommittedBlockHash = hex_encode hash,
          rtc_RemoteNodes = nc_remoteNodes nc,
          rtc_ID2Identities = nc_id2Identities nc,
          rtc_LastBlock = Some b, rtc_LastConfigBlock = Some b,
          rtc_Nodes = nc_nodeIDs nc\<rparr>"
    by (auto simp: configBlockCommitted_def go_simps)
  show "rtc_inv rtc'"
    using RemoteNodesFromConfigBlock_Ret [OF nc] configBlockToBFTConfig_Ret [OF c]
    by (simp add: rtc' rtc_inv_def)
  show "rtc_LastBlock rtc' = Some b" "rtc_LastConfigBlock rtc' = Some b" "rtc_id rtc' = rtc_id rtc"
    by (simp_all add: rtc')
  show "\<exists>hash. block_Hash L b = Ret hash \<and> rtc_LastCommittedBlockHash rtc' = hex_encode hash"
    using hash by (simp add: rtc')
qed

lemma BlockCommitted_Ret:
  assumes "BlockCommitted L E rtc b = Ret rtc'"
  shows "rtc_inv rtc \<Longrightarrow> rtc_inv rtc'"
    and "rtc_LastBlock rtc' = Some b"
    and "rtc_id rtc' = rtc_id rtc"
    and "rtc_LastConfigBlock rtc' = (if config_of L b = None then rtc_LastConfigBlock rtc else Some b)"
    and "\<exists>hash. block_Hash L b = Ret hash \<and> rtc_LastCommittedBlockHash rtc' = hex_encode hash"
proof -
  have "(rtc_inv rtc \<longrightarrow> rtc_inv rtc') \<and> rtc_LastBlock rtc' = Some b \<and> rtc_id rtc' = rtc_id rtc \<and>
      rtc_LastConfigBlock rtc' = (if config_of L b = None then rtc_LastConfigBlock rtc else Some b) \<and>
      (\<exists>hash. block_Hash L b = Ret hash \<and> rtc_LastCommittedBlockHash rtc' = hex_encode hash)"
  proof (cases "ConfigFromBlock L (Some b)")
    case (Ret c)
    with assms have "configBlockCommitted L E rtc b = Ret rtc'" by (simp add: BlockCommitted_def)
    with configBlockCommitted_Ret [OF this] Ret show ?thesis by (simp add: config_of_def)
  next
    case (Err e)
    with assms obtain hash where hash: "block_Hash L b = Ret hash"
      and rtc': "rtc' = \<lparr>rtc_BFTConfig = rtc_BFTConfig rtc, rtc_isConfig = False,
          rtc_id = rtc_id rtc, rtc_LastCommittedBlockHash = hex_encode hash,
          rtc_RemoteNodes = rtc_RemoteNodes rtc, rtc_ID2Identities = rtc_ID2Identities rtc,
          rtc_LastBlock = Some b, rtc_LastConfigBlock = rtc_LastConfigBlock rtc,
          rtc_Nodes = rtc_Nodes rtc\<rparr>"
      by (auto simp: BlockCommitted_def go_simps)
    with Err show ?thesis by (simp add: rtc_inv_def config_of_def)
  next
    case (Panic p)
    with assms show ?thesis by (simp add: BlockCommitted_def)
  qed
  then show "rtc_inv rtc \<Longrightarrow> rtc_inv rtc'" "rtc_LastBlock rtc' = Some b" "rtc_id rtc' = rtc_id rtc"
    "rtc_LastConfigBlock rtc' = (if config_of L b = None then rtc_LastConfigBlock rtc else Some b)"
    "\<exists>hash. block_Hash L b = Ret hash \<and> rtc_LastCommittedBlockHash rtc' = hex_encode hash"
    by blast+
qed

interpretation rtc: committer "BlockCommitted L E" rtc_inv rtc_LastBlock rtc_id for L E
  by unfold_locales (auto dest: BlockCommitted_Ret)

lemma rtc_last_config_block:
  "go_fold (BlockCommitted L E) (initial_rtc selfID) blocks = Ret rtc \<Longrightarrow>
   rtc_LastConfigBlock rtc = find (\<lambda>b. config_of L b \<noteq> None) (rev blocks)"
proof (induction blocks arbitrary: rtc rule: rev_induct)
  case Nil
  then show ?case by (auto simp: initial_rtc_def)
next
  case (snoc b bs)
  then obtain t where t: "go_fold (BlockCommitted L E) (initial_rtc selfID) bs = Ret t"
      "BlockCommitted L E t b = Ret rtc"
    by (auto simp: go_fold_append go_simps)
  from BlockCommitted_Ret(4) [OF t(2)] snoc.IH [OF t(1)] show ?case by simp
qed

lemma rtc_last_hash:
  assumes "go_fold (BlockCommitted L E) rtc0 blocks = Ret rtc" "blocks \<noteq> []"
  shows "\<exists>hash. block_Hash L (last blocks) = Ret hash \<and>
                rtc_LastCommittedBlockHash rtc = hex_encode hash"
proof -
  from assms(2) obtain bs b where bs: "blocks = bs @ [b]" by (metis rev_exhaust)
  with assms obtain t where "BlockCommitted L E t b = Ret rtc"
    by (auto simp: go_fold_append go_simps)
  with bs BlockCommitted_Ret(5) show ?thesis by fastforce
qed

subsection \<open>Properties\<close>

text \<open>C29: starting from the value \<open>NewChain\<close> builds, after any sequence of committed blocks the
  node list is sorted, the identities known are those of exactly these nodes, the remote
  nodes are the nodes without the node itself (with multiplicity), the BFT configuration is
  valid and names this node once a configuration block was seen, and the runtime
  configuration remembers the last block, its hash and the last configuration block.\<close>

theorem runtime_config_history:
  assumes "go_fold (BlockCommitted L E) (initial_rtc selfID) blocks = Ret rtc"
  shows "sorted (rtc_Nodes rtc) \<and>
    dom (rtc_ID2Identities rtc) = set (rtc_Nodes rtc) \<and>
    mset (map rn_ID (rtc_RemoteNodes rtc)) = filter_mset (\<lambda>i. i \<noteq> selfID) (mset (rtc_Nodes rtc)) \<and>
    rtc_LastConfigBlock rtc = find (\<lambda>b. config_of L b \<noteq> None) (rev blocks) \<and>
    (rtc_LastConfigBlock rtc \<noteq> None \<longrightarrow>
       Validate (rtc_BFTConfig rtc) = Ret () \<and> cf_SelfID (rtc_BFTConfig rtc) = selfID) \<and>
    (blocks \<noteq> [] \<longrightarrow>
       rtc_LastBlock rtc = Some (last blocks) \<and>
       (\<exists>hash. block_Hash L (last blocks) = Ret hash \<and>
               rtc_LastCommittedBlockHash rtc = hex_encode hash))"
proof -
  have inv: "rtc_inv rtc" by (rule rtc.commits_inv [OF assms rtc_inv_initial])
  have id: "rtc_id rtc = selfID"
    using rtc.commits_id [OF assms] by (simp add: initial_rtc_def)
  show ?thesis
    using inv id rtc_last_config_block [OF assms] rtc.commits_last [OF assms]
      rtc_last_hash [OF assms]
    unfolding rtc_inv_def by metis
qed

text \<open>A configuration accepted from the channel's metadata is valid and carries the node's
  own id; leader rotation is on unless the option is OFF, and then a leader gets one
  decision if the option \<open>DecisionsPerLeader\<close> is zero and the library's default of three
  otherwise: the configured non-zero number is never used.\<close>

lemma configFromMetadataOptions_decisions:
  assumes "configFromMetadataOptions E selfID (Some opts) = Ret c"
  shows "Validate c = Ret () \<and> cf_SelfID c = selfID \<and>
    cf_LeaderRotation c = (opt_LeaderRotation opts \<noteq> OFF) \<and>
    cf_DecisionsPerLeader c =
           (if opt_LeaderRotation opts = OFF then 0
            else if opt_DecisionsPerLeader opts = 0 then 1 else 3)"
  using configFromMetadataOptions_Ret [OF assms] by auto

definition sample_options :: "u64 \<Rightarrow> options" where
  "sample_options decisions =
     \<lparr>opt_RequestBatchMaxCount = 100, opt_RequestBatchMaxBytes = 1000,
      opt_RequestBatchMaxInterval = ''50ms'', opt_IncomingMessageBufferSize = 200,
      opt_RequestPoolSize = 400, opt_RequestForwardTimeout = ''50ms'',
      opt_RequestComplainTimeout = ''50ms'', opt_RequestAutoRemoveTimeout = ''50ms'',
      opt_ViewChangeResendInterval = ''50ms'', opt_ViewChangeTimeout = ''50ms'',
      opt_LeaderHeartbeatTimeout = ''50ms'', opt_LeaderHeartbeatCount = 10,
      opt_CollectTimeout = ''50ms'', opt_SyncOnStart = False, opt_SpeedUpViewChange = False,
      opt_LeaderRotation = ON, opt_DecisionsPerLeader = decisions\<rparr>"

definition sample_env :: fabric_env where
  "sample_env =
     \<lparr>fe_OrdererConfig = (\<lambda>_. Ret None), fe_SanitizeIdentity = Ret,
      fe_PemDecode = Some, fe_ParseCertificate = (\<lambda>_. Ret ()),
      fe_ParseDuration = (\<lambda>s. if s = ''50ms'' then Some (50 * millisecond) else None)\<rparr>"

theorem runtime_config_history_witness:
  "\<exists>rtc. go_fold (BlockCommitted null_libs sample_env) (initial_rtc 7)
           [\<lparr>blk_Header = Some \<lparr>hdr_Number = 5, hdr_PreviousHash = [1], hdr_DataHash = [2]\<rparr>,
             blk_Data = Some [[2]], blk_Metadata = Some [[]]\<rparr>] = Ret rtc \<and>
         sorted (rtc_Nodes rtc) \<and> rtc_LastConfigBlock rtc = None"
proof -
  let ?b = "\<lparr>blk_Header = Some \<lparr>hdr_Number = 5, hdr_PreviousHash = [1], hdr_DataHash = [2]\<rparr>,
             blk_Data = Some [[2]], blk_Metadata = Some [[]]\<rparr> :: block"
  have "\<exists>rtc. go_fold (BlockCommitted null_libs sample_env) (initial_rtc 7) [?b] = Ret rtc"
    by (simp add: BlockCommitted_def ConfigFromBlock_def GetEnvelopeFromBlock_def null_libs_def
        block_Hash_def header_Hash_def header_Bytes_def)
  then obtain rtc where
    rtc: "go_fold (BlockCommitted null_libs sample_env) (initial_rtc 7) [?b] = Ret rtc" by blast
  have "config_of null_libs ?b = None"
    by (simp add: config_of_def ConfigFromBlock_def GetEnvelopeFromBlock_def null_libs_def)
  with rtc runtime_config_history [OF rtc] show ?thesis by auto
qed

end
