(* ===== verification/MessageFuzzer.thy ===== *)
theory MessageFuzzer
  imports Protos Complex_Main
begin

text \<open>
  Consensus messages and their in-place mutation: \<open>smartbftprotos/messages.pb.go\<close>
  (the message types), \<open>messageFuzzer.go\<close> (one fuzz function per type, \<open>getType\<close>,
  \<open>seqFuzz\<close>) and the seed pools of \<open>protocolFuzzer.go\<close>.

  Messages live in a heap because the code shares them: a seed pool holds pointers, a
  fuzz function writes through the pointer it is given and returns the same pointer.
  A heap cell holds a whole message, so two messages that would share an inner struct are
  two separate cells here.

  Randomness is an explicit argument: a \<open>source\<close> is the infinite sequence of numbers still
  to be drawn, and a statement for every source is a statement for every outcome.  The
  package \<open>google/gofuzz\<close>, which is not in the repository, is the record \<open>fuzz_env\<close>.
\<close>

subsection \<open>Message types\<close>

record wire_proposal =
  wp_Header :: bytes
  wp_Payload :: bytes
  wp_Metadata :: bytes
  wp_VerificationSequence :: u64
  wp_XXX_unrecognized :: bytes

record wire_signature =
  ws_Signer :: u64
  ws_Value :: bytes
  ws_Msg :: bytes
  ws_XXX_unrecognized :: bytes

record PrePrepare =
  pp_View :: u64
  pp_Seq :: u64
  pp_Proposal :: "wire_proposal option"
  pp_PrevCommitSignatures :: "wire_signature list"

record Prepare =
  pr_View :: u64
  pr_Seq :: u64
  pr_Digest :: string
  pr_Assist :: bool

record Commit =
  cm_View :: u64
  cm_Seq :: u64
  cm_Digest :: string
  cm_Signature :: "wire_signature option"
  cm_Assist :: bool

record ViewChange =
  vc_NextView :: u64
  vc_Reason :: string

record SignedViewData =
  svd_RawViewData :: bytes
  svd_Signer :: u64
  svd_Signature :: bytes

record NewView =
  nv_SignedViewData :: "SignedViewData list"

record HeartBeat =
  hb_View :: u64
  hb_Seq :: u64

record HeartBeatResponse =
  hbr_View :: u64

record state_transfer_response =
  str_ViewNum :: u64
  str_Sequence :: u64

datatype message_content =
    Message_PrePrepare "PrePrepare option"
  | Message_Prepare "Prepare option"
  | Message_Commit "Commit option"
  | Message_ViewChange "ViewChange option"
  | Message_ViewData "SignedViewData option"
  | Message_NewView "NewView option"
  | Message_HeartBeat "HeartBeat option"
  | Message_HeartBeatResponse "HeartBeatResponse option"
  | Message_StateTransferRequest "unit option"
  | Message_StateTransferResponse "state_transfer_response option"

record message =
  msg_Content :: "message_content option"

text \<open>The generated getters: nil unless the content is of that type.\<close>

definition GetPrePrepare :: "message \<Rightarrow> PrePrepare option" where
  "GetPrePrepare m = (case msg_Content m of Some (Message_PrePrepare x) \<Rightarrow> x | _ \<Rightarrow> None)"

definition GetPrepare :: "message \<Rightarrow> Prepare option" where
  "GetPrepare m = (case msg_Content m of Some (Message_Prepare x) \<Rightarrow> x | _ \<Rightarrow> None)"

definition GetCommit :: "message \<Rightarrow> Commit option" where
  "GetCommit m = (case msg_Content m of Some (Message_Commit x) \<Rightarrow> x | _ \<Rightarrow> None)"

definition GetViewChange :: "message \<Rightarrow> ViewChange option" where
  "GetViewChange m = (case msg_Content m of Some (Message_ViewChange x) \<Rightarrow> x | _ \<Rightarrow> None)"

definition GetHeartBeat :: "message \<Rightarrow> HeartBeat option" where
  "GetHeartBeat m = (case msg_Content m of Some (Message_HeartBeat x) \<Rightarrow> x | _ \<Rightarrow> None)"

definition GetHeartBeatResponse :: "message \<Rightarrow> HeartBeatResponse option" where
  "GetHeartBeatResponse m =
     (case msg_Content m of Some (Message_HeartBeatResponse x) \<Rightarrow> x | _ \<Rightarrow> None)"

definition GetStateTransferResponse :: "message \<Rightarrow> state_transfer_response option" where
  "GetStateTransferResponse m =
     (case msg_Content m of Some (Message_StateTransferResponse x) \<Rightarrow> x | _ \<Rightarrow> None)"

lemmas getter_defs =
  GetPrePrepare_def GetPrepare_def GetCommit_def GetViewChange_def GetHeartBeat_def
  GetHeartBeatResponse_def GetStateTransferResponse_def

subsection \<open>Randomness\<close>

text \<open>\<open>rand.Float64\<close>, a multiple of \<open>2 ^ -53\<close> below 1.\<close>

definition percentageRandom :: "source \<Rightarrow> rat \<times> source" where
  "percentageRandom r = (of_nat (fst (draw r) mod 2 ^ 53) / 2 ^ 53, snd (draw r))"

text \<open>The float64 values nearest to 0.1, 0.7 and 0.85.\<close>

definition float_0_1 :: rat where "float_0_1 = 3602879701896397 / 2 ^ 55"
definition float_0_7 :: rat where "float_0_7 = 6305039478318694 / 2 ^ 53"
definition float_0_85 :: rat where "float_0_85 = 7656119366529843 / 2 ^ 53"

definition seqFuzz :: "u64 \<Rightarrow> source \<Rightarrow> u64 \<times> source" where
  "seqFuzz seq r =
     (let (p, r1) = percentageRandom r in
      if float_0_1 \<le> p then (seq - 1, r1)
      else let (q, r2) = percentageRandom r1 in
           if q \<le> float_0_1 then (seq + 1, r2) else (seq, r2))"

text \<open>
  \<open>fuzzer.New().NilChance(0.1).Fuzz(p)\<close> for each type of \<open>*p\<close> in use; \<open>gf_nil_panic\<close>
  says whether it panics (\<open>Some\<close>) or does nothing (\<open>None\<close>) when \<open>p\<close> is a nil pointer.  \<open>enc_message\<close> and \<open>dec_message\<close> are the protobuf codec.
\<close>

record fuzz_env =
  gf_uint64 :: "source \<Rightarrow> u64 \<times> source"
  gf_bool :: "source \<Rightarrow> bool \<times> source"
  gf_string :: "source \<Rightarrow> string \<times> source"
  gf_bytes :: "source \<Rightarrow> bytes option \<times> source"
  gf_proposal :: "source \<Rightarrow> wire_proposal \<times> source"
  gf_signature :: "source \<Rightarrow> wire_signature \<times> source"
  gf_nil_panic :: "string option"
  enc_message :: "message \<Rightarrow> bytes option"
  dec_message :: "bytes \<Rightarrow> message option"

definition fuzz_ptr :: "fuzz_env \<Rightarrow> (source \<Rightarrow> 'a \<times> source) \<Rightarrow> 'a option \<Rightarrow> source \<Rightarrow>
    ('a option \<times> source) go" where
  "fuzz_ptr F gf p r =
     (case p of
        None \<Rightarrow> (case gf_nil_panic F of None \<Rightarrow> Ret (None, r) | Some s \<Rightarrow> Panic s)
      | Some _ \<Rightarrow> (let (x, r') = gf r in Ret (Some x, r')))"

subsection \<open>Heap and seed pools\<close>

text \<open>
  The package-level variables of the fuzzer, the heap its pointers refer to, and the calls
  made so far to the cluster's RPC layer (\<open>fs_sent\<close>), whose results the code ignores.
\<close>

type_synonym addr = nat

record ConsensusRequest =
  cr_Channel :: string
  cr_Payload :: bytes

record SubmitRequest =
  sr_Channel :: string
  sr_LastValidationSeq :: u64
  sr_Payload :: "envelope option"

datatype rpc =
    RPC_SendConsensus u64 ConsensusRequest
  | RPC_SendSubmit u64 SubmitRequest

record fuzz_state =
  fs_heap :: "addr \<Rightarrow> message option"
  PrePrePareMsgSeeds :: "addr list"
  PrePareMsgSeeds :: "addr list"
  CommitMsgSeeds :: "addr list"
  ViewChangeSeeds :: "addr list"
  ViewDataSeeds :: "addr list"
  NewViewSeeds :: "addr list"
  HeartBeatSeeds :: "addr list"
  HeartBeatResponseSeeds :: "addr list"
  StateTransferRequestSeeds :: "addr list"
  StateTransferResponseSeeds :: "addr list"
  transactionSeeds :: "bytes list"
  fs_sent :: "rpc list"

definition AddPrePrePareMsgSeeds :: "addr \<Rightarrow> fuzz_state \<Rightarrow> fuzz_state" where
  "AddPrePrePareMsgSeeds m s = s\<lparr>PrePrePareMsgSeeds := PrePrePareMsgSeeds s @ [m]\<rparr>"

definition AddPrePareMsgSeeds :: "addr \<Rightarrow> fuzz_state \<Rightarrow> fuzz_state" where
  "AddPrePareMsgSeeds m s = s\<lparr>PrePareMsgSeeds := PrePareMsgSeeds s @ [m]\<rparr>"

definition AddCommitMsgSeeds :: "addr \<Rightarrow> fuzz_state \<Rightarrow> fuzz_state" where
  "AddCommitMsgSeeds m s = s\<lparr>CommitMsgSeeds := CommitMsgSeeds s @ [m]\<rparr>"

definition AddViewChangeSeeds :: "addr \<Rightarrow> fuzz_state \<Rightarrow> fuzz_state" where
  "AddViewChangeSeeds m s = s\<lparr>ViewChangeSeeds := ViewChangeSeeds s @ [m]\<rparr>"

definition AddViewDataSeeds :: "addr \<Rightarrow> fuzz_state \<Rightarrow> fuzz_state" where
  "AddViewDataSeeds m s = s\<lparr>ViewDataSeeds := ViewDataSeeds s @ [m]\<rparr>"

definition AddNewViewSeeds :: "addr \<Rightarrow> fuzz_state \<Rightarrow> fuzz_state" where
  "AddNewViewSeeds m s = s\<lparr>NewViewSeeds := NewViewSeeds s @ [m]\<rparr>"

definition AddHeartBeatSeeds :: "addr \<Rightarrow> fuzz_state \<Rightarrow> fuzz_state" where
  "AddHeartBeatSeeds m s = s\<lparr>HeartBeatSeeds := HeartBeatSeeds s @ [m]\<rparr>"

definition AddHeartBeatResponseSeeds :: "addr \<Rightarrow> fuzz_state \<Rightarrow> fuzz_state" where
  "AddHeartBeatResponseSeeds m s =
     s\<lparr>HeartBeatResponseSeeds := HeartBeatResponseSeeds s @ [m]\<rparr>"

definition AddStateTransferRequestSeeds :: "addr \<Rightarrow> fuzz_state \<Rightarrow> fuzz_state" where
  "AddStateTransferRequestSeeds m s =
     s\<lparr>StateTransferRequestSeeds := StateTransferRequestSeeds s @ [m]\<rparr>"

definition AddStateTransferResponseSeeds :: "addr \<Rightarrow> fuzz_state \<Rightarrow> fuzz_state" where
  "AddStateTransferResponseSeeds m s =
     s\<lparr>StateTransferResponseSeeds := StateTransferResponseSeeds s @ [m]\<rparr>"

definition AddTransactionSeeds :: "bytes \<Rightarrow> fuzz_state \<Rightarrow> fuzz_state" where
  "AddTransactionSeeds seed s = s\<lparr>transactionSeeds := transactionSeeds s @ [seed]\<rparr>"

definition addTx :: "bytes \<Rightarrow> fuzz_state \<Rightarrow> fuzz_state" where
  "addTx req s = AddTransactionSeeds req s"

lemmas add_seed_defs =
  AddPrePrePareMsgSeeds_def AddPrePareMsgSeeds_def AddCommitMsgSeeds_def
  AddViewChangeSeeds_def AddViewDataSeeds_def AddNewViewSeeds_def AddHeartBeatSeeds_def
  AddHeartBeatResponseSeeds_def AddStateTransferRequestSeeds_def
  AddStateTransferResponseSeeds_def

text \<open>Reading a message through its pointer, and writing its content back.\<close>

definition load :: "addr \<Rightarrow> fuzz_state \<Rightarrow> message go" where
  "load m s = deref (fs_heap s m)"

definition store :: "addr \<Rightarrow> message_content \<Rightarrow> fuzz_state \<Rightarrow> fuzz_state" where
  "store m c s = s\<lparr>fs_heap := (fs_heap s)(m \<mapsto> \<lparr>msg_Content = Some c\<rparr>)\<rparr>"

subsection \<open>One fuzz function per message type\<close>

type_synonym 'a fz = "source \<Rightarrow> fuzz_state \<Rightarrow> ('a \<times> source \<times> fuzz_state) go"

definition PrePrePareMsgFuzz :: "fuzz_env \<Rightarrow> addr \<Rightarrow> addr fz" where
  "PrePrePareMsgFuzz F m r s =
     go_bind (load m s) (\<lambda>msg.
     go_bind (deref (GetPrePrepare msg)) (\<lambda>prePrepare.
     let (view, r1) = gf_uint64 F r;
         (seq, r2) = seqFuzz (pp_Seq prePrepare) r1 in
     go_bind (fuzz_ptr F (gf_proposal F) (pp_Proposal prePrepare) r2) (\<lambda>(proposal, r3).
     Ret (m, r3, store m (Message_PrePrepare (Some (prePrepare
            \<lparr>pp_View := view, pp_Seq := seq, pp_Proposal := proposal\<rparr>))) s))))"

definition PrePareMsgFuzz :: "fuzz_env \<Rightarrow> addr \<Rightarrow> addr fz" where
  "PrePareMsgFuzz F m r s =
     go_bind (load m s) (\<lambda>msg.
     go_bind (deref (GetPrepare msg)) (\<lambda>prepare.
     let (view, r1) = gf_uint64 F r;
         (seq, r2) = seqFuzz (pr_Seq prepare) r1;
         (assist, r3) = gf_bool F r2;
         (digest, r4) = gf_string F r3 in
     Ret (m, r4, store m (Message_Prepare (Some (prepare
            \<lparr>pr_View := view, pr_Seq := seq, pr_Assist := assist, pr_Digest := digest\<rparr>))) s)))"

definition CommitFuzz :: "fuzz_env \<Rightarrow> addr \<Rightarrow> addr fz" where
  "CommitFuzz F m r s =
     go_bind (load m s) (\<lambda>msg.
     go_bind (deref (GetCommit msg)) (\<lambda>commit.
     let (view, r1) = gf_uint64 F r;
         (seq, r2) = seqFuzz (cm_Seq commit) r1;
         (assist, r3) = gf_bool F r2;
         (digest, r4) = gf_string F r3 in
     go_bind (fuzz_ptr F (gf_signature F) (cm_Signature commit) r4) (\<lambda>(sig, r5).
     Ret (m, r5, store m (Message_Commit (Some (commit
            \<lparr>cm_View := view, cm_Seq := seq, cm_Assist := assist, cm_Digest := digest,
             cm_Signature := sig\<rparr>))) s))))"

definition ViewChangeFuzz :: "fuzz_env \<Rightarrow> addr \<Rightarrow> addr fz" where
  "ViewChangeFuzz F m r s =
     go_bind (load m s) (\<lambda>msg.
     go_bind (deref (GetViewChange msg)) (\<lambda>viewChange.
     let (reason, r1) = gf_string F r;
         (nextView, r2) = gf_uint64 F r1 in
     Ret (m, r2, store m (Message_ViewChange (Some (viewChange
            \<lparr>vc_Reason := reason, vc_NextView := nextView\<rparr>))) s)))"

definition ViewDataFuzz :: "addr \<Rightarrow> addr fz" where
  "ViewDataFuzz m r s = Ret (m, r, s)"

definition NewViewFuzz :: "addr \<Rightarrow> addr fz" where
  "NewViewFuzz m r s = Ret (m, r, s)"

definition HeartBeatFuzz :: "fuzz_env \<Rightarrow> addr \<Rightarrow> addr fz" where
  "HeartBeatFuzz F m r s =
     go_bind (load m s) (\<lambda>msg.
     go_bind (deref (GetHeartBeat msg)) (\<lambda>heartBeat.
     let (view, r1) = gf_uint64 F r;
         (seq, r2) = seqFuzz (hb_Seq heartBeat) r1 in
     Ret (m, r2, store m (Message_HeartBeat (Some (heartBeat
            \<lparr>hb_View := view, hb_Seq := seq\<rparr>))) s)))"

definition HeartBeatResponseFuzz :: "fuzz_env \<Rightarrow> addr \<Rightarrow> addr fz" where
  "HeartBeatResponseFuzz F m r s =
     go_bind (load m s) (\<lambda>msg.
     go_bind (deref (GetHeartBeatResponse msg)) (\<lambda>heartBeatResponse.
     let (view, r1) = gf_uint64 F r in
     Ret (m, r1, store m (Message_HeartBeatResponse (Some (heartBeatResponse
            \<lparr>hbr_View := view\<rparr>))) s)))"

definition StateTransferRequest :: "addr \<Rightarrow> addr fz" where
  "StateTransferRequest m r s = Ret (m, r, s)"

definition StateTransferResponse :: "fuzz_env \<Rightarrow> addr \<Rightarrow> addr fz" where
  "StateTransferResponse F m r s =
     go_bind (load m s) (\<lambda>msg.
     go_bind (deref (GetStateTransferResponse msg)) (\<lambda>stateTransferResponse.
     let (sequence, r1) = gf_uint64 F r;
         (viewNum, r2) = gf_uint64 F r1 in
     Ret (m, r2, store m (Message_StateTransferResponse (Some (stateTransferResponse
            \<lparr>str_Sequence := sequence, str_ViewNum := viewNum\<rparr>))) s)))"

lemmas fuzz_defs =
  PrePrePareMsgFuzz_def PrePareMsgFuzz_def CommitFuzz_def ViewChangeFuzz_def
  ViewDataFuzz_def NewViewFuzz_def HeartBeatFuzz_def HeartBeatResponseFuzz_def
  StateTransferRequest_def StateTransferResponse_def

definition ConsensusMessageFuzzed :: "fuzz_env \<Rightarrow> addr \<Rightarrow> unit fz" where
  "ConsensusMessageFuzzed F m r s =
     go_bind (load m s) (\<lambda>msg.
     let run = (\<lambda>x. go_bind x (\<lambda>(_, r', s'). Ret ((), r', s'))) in
     case msg_Content msg of
       Some (Message_PrePrepare _) \<Rightarrow> run (PrePrePareMsgFuzz F m r s)
     | Some (Message_Prepare _) \<Rightarrow> run (PrePareMsgFuzz F m r s)
     | Some (Message_Commit _) \<Rightarrow> run (CommitFuzz F m r s)
     | Some (Message_ViewChange _) \<Rightarrow> run (ViewChangeFuzz F m r s)
     | Some (Message_ViewData _) \<Rightarrow> run (ViewDataFuzz m r s)
     | Some (Message_NewView _) \<Rightarrow> run (NewViewFuzz m r s)
     | Some (Message_HeartBeat _) \<Rightarrow> run (HeartBeatFuzz F m r s)
     | Some (Message_HeartBeatResponse _) \<Rightarrow> run (HeartBeatResponseFuzz F m r s)
     | Some (Message_StateTransferRequest _) \<Rightarrow> run (StateTransferRequest m r s)
     | Some (Message_StateTransferResponse _) \<Rightarrow> run (StateTransferResponse F m r s)
     | None \<Rightarrow> Ret ((), r, s))"

definition TransactionMessageFuzzed :: "fuzz_env \<Rightarrow> bytes \<Rightarrow> source \<Rightarrow> bytes option \<times> source" where
  "TransactionMessageFuzzed F req r = gf_bytes F r"

definition getType :: "addr \<Rightarrow> fuzz_state \<Rightarrow> (string \<times> fuzz_state) go" where
  "getType m s =
     go_bind (load m s) (\<lambda>msg.
     case msg_Content msg of
       Some (Message_PrePrepare _) \<Rightarrow> Ret (''PrePrepare'', AddPrePrePareMsgSeeds m s)
     | Some (Message_Prepare _) \<Rightarrow> Ret (''Prepare'', AddPrePareMsgSeeds m s)
     | Some (Message_Commit _) \<Rightarrow> Ret (''Commit'', AddCommitMsgSeeds m s)
     | Some (Message_ViewChange _) \<Rightarrow> Ret (''ViewChange'', AddViewChangeSeeds m s)
     | Some (Message_ViewData _) \<Rightarrow> Ret (''ViewData'', AddViewDataSeeds m s)
     | Some (Message_NewView _) \<Rightarrow> Ret (''NewView'', AddNewViewSeeds m s)
     | Some (Message_HeartBeat _) \<Rightarrow> Ret (''HeartBeat'', AddHeartBeatSeeds m s)
     | Some (Message_HeartBeatResponse _) \<Rightarrow>
         Ret (''HeartBeatResponse'', AddHeartBeatResponseSeeds m s)
     | Some (Message_StateTransferRequest _) \<Rightarrow>
         Ret (''StateTransferRequest'', AddStateTransferRequestSeeds m s)
     | Some (Message_StateTransferResponse _) \<Rightarrow>
         Ret (''StateTransferResponse'', AddStateTransferResponseSeeds m s)
     | None \<Rightarrow> Ret (''Unexpected message type, ignoring'', s))"

subsection \<open>Kinds of messages\<close>

datatype MessageType =
    PrePrePareMsg
  | PrePareMsg
  | CommitMsg
  | ViewChangeMsg
  | ViewDataMsg
  | NewViewMsg
  | HeartBeatMsg
  | HeartBeatResponseMsg
  | StateTransferRequestMsg
  | StateTransferResponseMsg

text \<open>The type of a content, and that the struct it wraps is not nil.\<close>

fun kind_of :: "message_content \<Rightarrow> MessageType" where
  "kind_of (Message_PrePrepare _) = PrePrePareMsg"
| "kind_of (Message_Prepare _) = PrePareMsg"
| "kind_of (Message_Commit _) = CommitMsg"
| "kind_of (Message_ViewChange _) = ViewChangeMsg"
| "kind_of (Message_ViewData _) = ViewDataMsg"
| "kind_of (Message_NewView _) = NewViewMsg"
| "kind_of (Message_HeartBeat _) = HeartBeatMsg"
| "kind_of (Message_HeartBeatResponse _) = HeartBeatResponseMsg"
| "kind_of (Message_StateTransferRequest _) = StateTransferRequestMsg"
| "kind_of (Message_StateTransferResponse _) = StateTransferResponseMsg"

fun inner_ok :: "message_content \<Rightarrow> bool" where
  "inner_ok (Message_PrePrepare x) = (x \<noteq> None)"
| "inner_ok (Message_Prepare x) = (x \<noteq> None)"
| "inner_ok (Message_Commit x) = (x \<noteq> None)"
| "inner_ok (Message_ViewChange x) = (x \<noteq> None)"
| "inner_ok (Message_ViewData x) = (x \<noteq> None)"
| "inner_ok (Message_NewView x) = (x \<noteq> None)"
| "inner_ok (Message_HeartBeat x) = (x \<noteq> None)"
| "inner_ok (Message_HeartBeatResponse x) = (x \<noteq> None)"
| "inner_ok (Message_StateTransferRequest x) = (x \<noteq> None)"
| "inner_ok (Message_StateTransferResponse x) = (x \<noteq> None)"

text \<open>The pool and the fuzz function of each type.\<close>

fun pool :: "MessageType \<Rightarrow> fuzz_state \<Rightarrow> addr list" where
  "pool PrePrePareMsg = PrePrePareMsgSeeds"
| "pool PrePareMsg = PrePareMsgSeeds"
| "pool CommitMsg = CommitMsgSeeds"
| "pool ViewChangeMsg = ViewChangeSeeds"
| "pool ViewDataMsg = ViewDataSeeds"
| "pool NewViewMsg = NewViewSeeds"
| "pool HeartBeatMsg = HeartBeatSeeds"
| "pool HeartBeatResponseMsg = HeartBeatResponseSeeds"
| "pool StateTransferRequestMsg = StateTransferRequestSeeds"
| "pool StateTransferResponseMsg = StateTransferResponseSeeds"

fun add_seed :: "MessageType \<Rightarrow> addr \<Rightarrow> fuzz_state \<Rightarrow> fuzz_state" where
  "add_seed PrePrePareMsg = AddPrePrePareMsgSeeds"
| "add_seed PrePareMsg = AddPrePareMsgSeeds"
| "add_seed CommitMsg = AddCommitMsgSeeds"
| "add_seed ViewChangeMsg = AddViewChangeSeeds"
| "add_seed ViewDataMsg = AddViewDataSeeds"
| "add_seed NewViewMsg = AddNewViewSeeds"
| "add_seed HeartBeatMsg = AddHeartBeatSeeds"
| "add_seed HeartBeatResponseMsg = AddHeartBeatResponseSeeds"
| "add_seed StateTransferRequestMsg = AddStateTransferRequestSeeds"
| "add_seed StateTransferResponseMsg = AddStateTransferResponseSeeds"

fun fuzz_of :: "fuzz_env \<Rightarrow> MessageType \<Rightarrow> addr \<Rightarrow> addr fz" where
  "fuzz_of F PrePrePareMsg = PrePrePareMsgFuzz F"
| "fuzz_of F PrePareMsg = PrePareMsgFuzz F"
| "fuzz_of F CommitMsg = CommitFuzz F"
| "fuzz_of F ViewChangeMsg = ViewChangeFuzz F"
| "fuzz_of F ViewDataMsg = ViewDataFuzz"
| "fuzz_of F NewViewMsg = NewViewFuzz"
| "fuzz_of F HeartBeatMsg = HeartBeatFuzz F"
| "fuzz_of F HeartBeatResponseMsg = HeartBeatResponseFuzz F"
| "fuzz_of F StateTransferRequestMsg = StateTransferRequest"
| "fuzz_of F StateTransferResponseMsg = StateTransferResponse F"

text \<open>A well-typed heap cell: a message of the given type whose struct is there.\<close>

definition typed :: "MessageType \<Rightarrow> message option \<Rightarrow> bool" where
  "typed k mo = (case mo of
       Some m \<Rightarrow> (case msg_Content m of Some c \<Rightarrow> kind_of c = k \<and> inner_ok c | None \<Rightarrow> False)
     | None \<Rightarrow> False)"

definition msg_ok :: "message \<Rightarrow> bool" where
  "msg_ok m = (case msg_Content m of Some c \<Rightarrow> inner_ok c | None \<Rightarrow> True)"

definition set_cell :: "addr \<Rightarrow> message \<Rightarrow> fuzz_state \<Rightarrow> fuzz_state" where
  "set_cell a m s = s\<lparr>fs_heap := (fs_heap s)(a \<mapsto> m)\<rparr>"

lemma typedE:
  assumes "typed k mo"
  obtains c where "mo = Some \<lparr>msg_Content = Some c\<rparr>" "kind_of c = k" "inner_ok c"
proof -
  from assms obtain m c where "mo = Some m" "msg_Content m = Some c" "kind_of c = k" "inner_ok c"
    by (auto simp: typed_def split: option.splits)
  then show thesis by (intro that [of c]) (auto intro: message.equality)
qed

lemma typed_Some [simp]:
  "typed k (Some \<lparr>msg_Content = Some c\<rparr>) \<longleftrightarrow> kind_of c = k \<and> inner_ok c"
  by (simp add: typed_def)

lemma typed_imp_ok: "typed k (Some m) \<Longrightarrow> msg_ok m"
  by (auto simp: typed_def msg_ok_def split: option.splits)

lemma pool_set_cell [simp]:
  "pool k (set_cell a m s) = pool k s"
  "fs_heap (set_cell a m s) = (fs_heap s)(a \<mapsto> m)"
  "fs_sent (set_cell a m s) = fs_sent s"
  "transactionSeeds (set_cell a m s) = transactionSeeds s"
  by (cases k) (simp_all add: set_cell_def)

lemma add_seed_simps [simp]:
  "pool j (add_seed k a s) = pool j s @ (if j = k then [a] else [])"
  "fs_heap (add_seed k a s) = fs_heap s"
  "fs_sent (add_seed k a s) = fs_sent s"
  "transactionSeeds (add_seed k a s) = transactionSeeds s"
  by (cases k; cases j; simp add: add_seed_defs)+

lemma store_set_cell: "store m c s = set_cell m \<lparr>msg_Content = Some c\<rparr> s"
  by (simp add: store_def set_cell_def)

text \<open>A cell holding its own value may be written back.\<close>

lemma set_cell_same: "fs_heap s a = Some m \<Longrightarrow> set_cell a m s = s"
  by (auto simp: set_cell_def fun_upd_idem)

lemma getType_typed:
  assumes "fs_heap s a = Some m" "msg_Content m = Some c"
  shows "\<exists>t. getType a s = Ret (t, add_seed (kind_of c) a s)"
  using assms by (cases c) (auto simp: getType_def load_def)

lemma getType_none:
  "fs_heap s a = Some m \<Longrightarrow> msg_Content m = None \<Longrightarrow> \<exists>t. getType a s = Ret (t, s)"
  by (simp add: getType_def load_def)

text \<open>
  A fuzz function called on a message of its type returns the pointer it was given, and
  the only cell it writes is that one, which keeps its type; the only panic is the one
  gofuzz raises on a nil pointer.
\<close>

lemma fuzz_ptr_cases:
  obtains p' r' where "fuzz_ptr F gf p r = Ret (p', r')"
  | e where "fuzz_ptr F gf p r = Panic e" "gf_nil_panic F = Some e"
  by (cases p; cases "gf_nil_panic F"; cases "gf r") (auto simp: fuzz_ptr_def)

definition fuzz_result :: "fuzz_env \<Rightarrow> MessageType \<Rightarrow> addr \<Rightarrow> fuzz_state \<Rightarrow>
    (addr \<times> source \<times> fuzz_state) go \<Rightarrow> bool" where
  "fuzz_result F k a s res \<longleftrightarrow>
     (\<exists>r' m. res = Ret (a, r', set_cell a m s) \<and> typed k (Some m)) \<or>
     (\<exists>p. res = Panic p \<and> gf_nil_panic F = Some p)"

lemma fuzz_result_store:
  "kind_of c = k \<Longrightarrow> inner_ok c \<Longrightarrow> fuzz_result F k a s (Ret (a, r', store a c s))"
  by (auto simp: fuzz_result_def store_set_cell)

lemma fuzz_result_same:
  "typed k (fs_heap s a) \<Longrightarrow> fuzz_result F k a s (Ret (a, r', s))"
  unfolding fuzz_result_def by (metis set_cell_same typedE)

lemma fuzz_result_ptr:
  assumes "\<And>p' r'. fuzz_result F k a s (f (p', r'))"
  shows "fuzz_result F k a s (go_bind (fuzz_ptr F gf p r) f)"
proof (cases rule: fuzz_ptr_cases [of F gf p r])
  case (1 p' r')
  with assms show ?thesis by simp
next
  case (2 e)
  then show ?thesis by (simp add: fuzz_result_def)
qed

lemma fuzz_of_result:
  assumes "typed k (fs_heap s a)"
  shows "fuzz_result F k a s (fuzz_of F k a r s)"
proof -
  from assms obtain c where c: "fs_heap s a = Some \<lparr>msg_Content = Some c\<rparr>" "kind_of c = k"
      "inner_ok c"
    by (rule typedE)
  show ?thesis
  proof (cases k)
    case PrePrePareMsg
    with c show ?thesis
      by (cases c) (auto simp: fuzz_defs load_def getter_defs split: prod.split
          intro!: fuzz_result_ptr fuzz_result_store)
  next
    case CommitMsg
    with c show ?thesis
      by (cases c) (auto simp: fuzz_defs load_def getter_defs split: prod.split
          intro!: fuzz_result_ptr fuzz_result_store)
  qed (use c assms in \<open>cases c; auto simp: fuzz_defs load_def getter_defs split: prod.split
          intro!: fuzz_result_store fuzz_result_same\<close>)+
qed

text \<open>\<open>ConsensusMessageFuzzed\<close> is the fuzz function of the message's own type.\<close>

lemma ConsensusMessageFuzzed_typed:
  assumes "typed k (fs_heap s a)"
  shows "ConsensusMessageFuzzed F a r s =
    go_bind (fuzz_of F k a r s) (\<lambda>(_, r', s'). Ret ((), r', s'))"
  using assms by (elim typedE, cases k)
    (case_tac c; simp add: ConsensusMessageFuzzed_def load_def)+

subsection \<open>Sequence numbers\<close>

lemma percentageRandom_range: "0 \<le> fst (percentageRandom r) \<and> fst (percentageRandom r) < 1"
proof -
  have "(of_nat (fst (draw r) mod 2 ^ 53) :: rat) < of_nat (2 ^ 53)"
    by (subst of_nat_less_iff) simp
  then show ?thesis by (simp add: percentageRandom_def field_simps)
qed

text \<open>
  \<open>seqFuzz\<close> decides from two draws: a first draw of at least 0.1 decrements the
  sequence number, which wraps to the largest one at 0; otherwise a second draw of at most
  0.1 increments it, with wrap-around, and any other draw keeps it.  The fuzzed number is
  therefore never more than one step away, and at sequence 0 the decrement is the far end
  of the range.
\<close>

theorem seqFuzz_outcomes:
  "unat (fst (seqFuzz seq r)) =
     (if float_0_1 \<le> fst (percentageRandom r)
      then (if seq = 0 then 2 ^ 64 - 1 else unat seq - 1)
      else if fst (percentageRandom (snd (percentageRandom r))) \<le> float_0_1
      then (unat seq + 1) mod 2 ^ 64
      else unat seq)"
proof -
  have minus: "unat (seq - 1) = (if seq = 0 then 2 ^ 64 - 1 else unat seq - 1)"
  proof (cases "seq = 0")
    case True
    then show ?thesis by (simp add: unsigned_minus_1_eq_mask mask_eq_exp_minus_1)
  next
    case False
    then show ?thesis by (simp add: unat_minus_one)
  qed
  have plus: "unat (seq + 1) = (unat seq + 1) mod 2 ^ 64"
    by (simp add: unat_word_ariths)
  show ?thesis
    by (simp add: seqFuzz_def minus plus unsigned_minus_1_eq_mask mask_eq_exp_minus_1
        split: prod.split)
qed

end
