(* ===== verification/ProtocolFuzzer.thy ===== *)
theory ProtocolFuzzer
  imports MessageFuzzer
begin

text \<open>
  Sending, receiving and the two fuzzing loops: \<open>egress.go\<close>, \<open>ingress.go\<close>,
  \<open>protocolFuzzer.go\<close> and \<open>transactionFuzzer.go\<close>.

  Two goroutines and the consensus library share the seed pools.  A step of the system is
  one whole call: the library sends a message (which also makes it a seed), a client's
  transaction is submitted (which makes it a transaction seed), or one of the loops runs
  one round.  Data races inside a call are not modelled.
\<close>

subsection \<open>Egress\<close>

text \<open>
  What the fuzzing loops read of the library's controller, and the channel of the egress
  that is its communication layer (\<open>c.Comm\<close>).
\<close>

record controller =
  ctl_ID :: u64
  ctl_NodesList :: "u64 list"
  ctl_Channel :: string

definition bftMsgToClusterMsg :: "fuzz_env \<Rightarrow> message \<Rightarrow> string \<Rightarrow> ConsensusRequest go" where
  "bftMsgToClusterMsg F m channel =
     go_bind (MarshalOrPanic (enc_message F) m) (\<lambda>b.
     Ret \<lparr>cr_Channel = channel, cr_Payload = b\<rparr>)"

definition SendConsensus :: "fuzz_env \<Rightarrow> string \<Rightarrow> u64 \<Rightarrow> addr \<Rightarrow> fuzz_state \<Rightarrow> fuzz_state go" where
  "SendConsensus F channel targetID m s =
     go_bind (getType m s) (\<lambda>(_, s1).
     go_bind (load m s1) (\<lambda>msg.
     go_bind (bftMsgToClusterMsg F msg channel) (\<lambda>req.
     Ret (s1\<lparr>fs_sent := fs_sent s1 @ [RPC_SendConsensus targetID req]\<rparr>))))"

definition SendConsensusFuzz ::
  "fuzz_env \<Rightarrow> string \<Rightarrow> u64 \<Rightarrow> addr \<Rightarrow> source \<Rightarrow> fuzz_state \<Rightarrow> (source \<times> fuzz_state) go" where
  "SendConsensusFuzz F channel targetID m r s =
     go_bind (ConsensusMessageFuzzed F m r s) (\<lambda>(_, r1, s1).
     go_bind (getType m s1) (\<lambda>(_, s2).
     go_bind (load m s2) (\<lambda>msg.
     go_bind (bftMsgToClusterMsg F msg channel) (\<lambda>req.
     Ret (r1, s2\<lparr>fs_sent := fs_sent s2 @ [RPC_SendConsensus targetID req]\<rparr>)))))"

definition SendTransaction :: "libs \<Rightarrow> string \<Rightarrow> u64 \<Rightarrow> bytes \<Rightarrow> fuzz_state \<Rightarrow> fuzz_state go" where
  "SendTransaction L channel targetID request s =
     (case dec_envelope L request of
        None \<Rightarrow> Panic ''Failed unmarshaling request to envelope''
      | Some env \<Rightarrow>
          Ret (s\<lparr>fs_sent := fs_sent s @ [RPC_SendSubmit targetID
                 \<lparr>sr_Channel = channel, sr_LastValidationSeq = 0, sr_Payload = Some env\<rparr>]\<rparr>))"

definition SendTransactionFuzz ::
  "libs \<Rightarrow> fuzz_env \<Rightarrow> string \<Rightarrow> u64 \<Rightarrow> bytes \<Rightarrow> source \<Rightarrow> fuzz_state \<Rightarrow> (source \<times> fuzz_state) go" where
  "SendTransactionFuzz L F channel targetID request r s =
     (case dec_envelope L request of
        None \<Rightarrow> Panic ''Failed unmarshaling request to envelope''
      | Some env \<Rightarrow>
          (let (_, r1) = TransactionMessageFuzzed F (env_Payload env) r in
           Ret (r1, s\<lparr>fs_sent := fs_sent s @ [RPC_SendSubmit targetID
                 \<lparr>sr_Channel = channel, sr_LastValidationSeq = 0, sr_Payload = Some env\<rparr>]\<rparr>)))"

subsection \<open>Ingress\<close>

text \<open>
  \<open>ReceiverByChain\<close> is a parameter (the consenter provides it).  What the ingress does to
  the receiver it finds is a value of \<open>receiver_call\<close>.
\<close>

datatype 'r receiver_call =
    HandleMessage 'r u64 message
  | HandleRequest 'r u64 bytes

definition OnConsensus ::
  "fuzz_env \<Rightarrow> (string \<Rightarrow> 'r option) \<Rightarrow> string \<Rightarrow> u64 \<Rightarrow> ConsensusRequest \<Rightarrow> 'r receiver_call go" where
  "OnConsensus F ReceiverByChain channel sender request =
     (case ReceiverByChain channel of
        None \<Rightarrow> Err (Errorf ''channel doesn't exist'')
      | Some receiver \<Rightarrow>
          go_bind (wrap_err ''malformed message''
                    (unmarshal (dec_message F) (cr_Payload request))) (\<lambda>msg.
          Ret (HandleMessage receiver sender msg)))"

text \<open>Marshalling a nil envelope panics.\<close>

definition OnSubmit ::
  "libs \<Rightarrow> (string \<Rightarrow> 'r option) \<Rightarrow> string \<Rightarrow> u64 \<Rightarrow> SubmitRequest \<Rightarrow> 'r receiver_call go" where
  "OnSubmit L ReceiverByChain channel sender request =
     (case ReceiverByChain channel of
        None \<Rightarrow> Err (Errorf ''channel doesn't exist'')
      | Some receiver \<Rightarrow>
          (case sr_Payload request of
             None \<Rightarrow> Panic ''proto''
           | Some env \<Rightarrow>
               go_bind (MarshalOrPanic (enc_envelope L) env) (\<lambda>b.
               Ret (HandleRequest receiver sender b))))"

subsection \<open>The protocol fuzzer\<close>

definition getNextType :: "source \<Rightarrow> nat \<times> source" where
  "getNextType r = rand_Intn 11 r"

definition getNextMsgSeed :: "addr list \<Rightarrow> source \<Rightarrow> addr option \<times> source" where
  "getNextMsgSeed seeds r =
     (if seeds = [] then (None, r)
      else let (i, r1) = rand_Intn (length seeds) r in (Some (seeds ! i), r1))"

text \<open>
  One case of the switch in \<open>protocolFuzz\<close>: pick a seed, return nil when there is none,
  fuzz it, append what the fuzz function returned to the pool, return the picked pointer.
\<close>

definition fuzz_seed :: "(fuzz_state \<Rightarrow> addr list) \<Rightarrow> (addr \<Rightarrow> fuzz_state \<Rightarrow> fuzz_state) \<Rightarrow>
    (addr \<Rightarrow> addr fz) \<Rightarrow> addr option fz" where
  "fuzz_seed seeds append_seed fuzz r s =
     (case getNextMsgSeed (seeds s) r of
        (None, r1) \<Rightarrow> Ret (None, r1, s)
      | (Some msg, r1) \<Rightarrow>
          go_bind (fuzz msg r1 s) (\<lambda>(m', r2, s2). Ret (Some msg, r2, append_seed m' s2)))"

definition protocolFuzz :: "fuzz_env \<Rightarrow> addr option fz" where
  "protocolFuzz F r s =
     (let (nextType, r1) = getNextType r in
      if nextType = 0 then
        fuzz_seed PrePrePareMsgSeeds AddPrePrePareMsgSeeds (PrePrePareMsgFuzz F) r1 s
      else if nextType = 1 then
        fuzz_seed PrePareMsgSeeds AddPrePareMsgSeeds (PrePareMsgFuzz F) r1 s
      else if nextType = 2 then
        fuzz_seed CommitMsgSeeds AddCommitMsgSeeds (CommitFuzz F) r1 s
      else if nextType = 3 then
        fuzz_seed ViewChangeSeeds AddViewChangeSeeds (ViewChangeFuzz F) r1 s
      else if nextType = 4 then
        fuzz_seed ViewDataSeeds AddViewDataSeeds ViewDataFuzz r1 s
      else if nextType = 5 then
        fuzz_seed NewViewSeeds AddNewViewSeeds NewViewFuzz r1 s
      else if nextType = 6 then
        fuzz_seed HeartBeatSeeds AddHeartBeatSeeds (HeartBeatFuzz F) r1 s
      else if nextType = 7 then
        fuzz_seed HeartBeatResponseSeeds AddHeartBeatResponseSeeds (HeartBeatResponseFuzz F) r1 s
      else if nextType = 8 then
        fuzz_seed StateTransferRequestSeeds AddStateTransferRequestSeeds StateTransferRequest r1 s
      else if nextType = 9 then
        fuzz_seed StateTransferResponseSeeds AddStateTransferResponseSeeds
          (StateTransferResponse F) r1 s
      else Ret (None, r1, s))"

definition BroadcastConsensusFuzz ::
  "fuzz_env \<Rightarrow> controller \<Rightarrow> addr \<Rightarrow> source \<Rightarrow> fuzz_state \<Rightarrow> (source \<times> fuzz_state) go" where
  "BroadcastConsensusFuzz F c msg r s =
     (let (probability, r1) = percentageRandom r;
          send = (\<lambda>node s. SendConsensus F (ctl_Channel c) node msg s) in
      go_bind
        (if probability < float_0_7 then
           go_fold (\<lambda>s node. if ctl_ID c = node then Ret s else send node s) s (ctl_NodesList c)
         else if probability < float_0_85 then
           go_fold (\<lambda>s (i, node). if i < 6 then Ret s else send node s) s
             (List.enumerate 0 (ctl_NodesList c))
         else
           go_fold (\<lambda>s (i, node). if i < 8 then Ret s else send node s) s
             (List.enumerate 0 (ctl_NodesList c)))
        (\<lambda>s'. Ret (r1, s')))"

text \<open>One round of the loop in \<open>RunFuzz\<close>, and \<open>n\<close> rounds behind its guard.\<close>

definition RunFuzz_round ::
  "fuzz_env \<Rightarrow> controller \<Rightarrow> source \<Rightarrow> fuzz_state \<Rightarrow> (source \<times> fuzz_state) go" where
  "RunFuzz_round F c r s =
     go_bind (protocolFuzz F r s) (\<lambda>(msg, r1, s1).
     case msg of
       None \<Rightarrow> Ret (r1, s1)
     | Some m \<Rightarrow> BroadcastConsensusFuzz F c m r1 s1)"

fun RunFuzz_rounds ::
  "fuzz_env \<Rightarrow> controller \<Rightarrow> nat \<Rightarrow> source \<Rightarrow> fuzz_state \<Rightarrow> (source \<times> fuzz_state) go" where
  "RunFuzz_rounds F c 0 r s = Ret (r, s)"
| "RunFuzz_rounds F c (Suc n) r s =
     go_bind (RunFuzz_round F c r s) (\<lambda>(r1, s1). RunFuzz_rounds F c n r1 s1)"

definition bad_guy :: "controller \<Rightarrow> bool" where
  "bad_guy c \<longleftrightarrow> ctl_ID c = 1 \<or> ctl_ID c = 3 \<or> ctl_ID c = 5"

definition RunFuzz ::
  "fuzz_env \<Rightarrow> controller \<Rightarrow> nat \<Rightarrow> source \<Rightarrow> fuzz_state \<Rightarrow> (source \<times> fuzz_state) go" where
  "RunFuzz F c n r s = (if bad_guy c then RunFuzz_rounds F c n r s else Ret (r, s))"

subsection \<open>The transaction fuzzer\<close>

definition getNextTxSeed :: "source \<Rightarrow> fuzz_state \<Rightarrow> bytes option \<times> source" where
  "getNextTxSeed r s =
     (if transactionSeeds s = [] then (None, r)
      else let (i, r1) = rand_Intn (length (transactionSeeds s)) r in
           (Some (transactionSeeds s ! i), r1))"

definition transactionFuzz :: "source \<Rightarrow> fuzz_state \<Rightarrow> bytes option \<times> source" where
  "transactionFuzz r s = getNextTxSeed r s"

definition BroadcastTransactionsFuzz :: "libs \<Rightarrow> fuzz_env \<Rightarrow> controller \<Rightarrow> bytes \<Rightarrow> source \<Rightarrow>
    fuzz_state \<Rightarrow> (source \<times> fuzz_state) go" where
  "BroadcastTransactionsFuzz L F c req r s =
     (let (probability, r1) = percentageRandom r;
          fuzzed = (\<lambda>node (r, s). SendTransactionFuzz L F (ctl_Channel c) node req r s);
          plain = (\<lambda>node (r, s). go_bind (SendTransaction L (ctl_Channel c) node req s)
                                   (\<lambda>s'. Ret (r, s'))) in
      if probability < float_0_7 then
        go_fold (\<lambda>rs node. if ctl_ID c = node then Ret rs else fuzzed node rs) (r1, s)
          (ctl_NodesList c)
      else if probability < float_0_85 then
        go_fold (\<lambda>rs (i, node). if i < 6 then Ret rs else fuzzed node rs) (r1, s)
          (List.enumerate 0 (ctl_NodesList c))
      else
        go_fold (\<lambda>rs (i, node). if i < 8 then Ret rs else plain node rs) (r1, s)
          (List.enumerate 0 (ctl_NodesList c)))"

definition RunTxFuzz_round ::
  "libs \<Rightarrow> fuzz_env \<Rightarrow> controller \<Rightarrow> source \<Rightarrow> fuzz_state \<Rightarrow> (source \<times> fuzz_state) go" where
  "RunTxFuzz_round L F c r s =
     (case transactionFuzz r s of
        (None, r1) \<Rightarrow> Ret (r1, s)
      | (Some req, r1) \<Rightarrow> BroadcastTransactionsFuzz L F c req r1 s)"

fun RunTxFuzz_rounds :: "libs \<Rightarrow> fuzz_env \<Rightarrow> controller \<Rightarrow> nat \<Rightarrow> source \<Rightarrow> fuzz_state \<Rightarrow>
    (source \<times> fuzz_state) go" where
  "RunTxFuzz_rounds L F c 0 r s = Ret (r, s)"
| "RunTxFuzz_rounds L F c (Suc n) r s =
     go_bind (RunTxFuzz_round L F c r s) (\<lambda>(r1, s1). RunTxFuzz_rounds L F c n r1 s1)"

definition RunTxFuzz :: "libs \<Rightarrow> fuzz_env \<Rightarrow> controller \<Rightarrow> nat \<Rightarrow> source \<Rightarrow> fuzz_state \<Rightarrow>
    (source \<times> fuzz_state) go" where
  "RunTxFuzz L F c n r s = (if bad_guy c then RunTxFuzz_rounds L F c n r s else Ret (r, s))"

subsection \<open>Who receives a broadcast\<close>

definition recipients :: "controller \<Rightarrow> rat \<Rightarrow> u64 list" where
  "recipients c p =
     (if p < float_0_7 then filter (\<lambda>n. ctl_ID c \<noteq> n) (ctl_NodesList c)
      else if p < float_0_85 then drop 6 (ctl_NodesList c)
      else drop 8 (ctl_NodesList c))"

lemma BroadcastConsensusFuzz_fold:
  "BroadcastConsensusFuzz F c msg r s =
     go_bind (go_fold (\<lambda>s node. SendConsensus F (ctl_Channel c) node msg s) s
               (recipients c (fst (percentageRandom r))))
       (\<lambda>s'. Ret (snd (percentageRandom r), s'))"
  by (simp add: BroadcastConsensusFuzz_def recipients_def go_fold_continue go_fold_skip_first
      split: prod.split)

text \<open>A message becomes a seed of its own type when it is sent.\<close>

definition seeded :: "addr \<Rightarrow> message \<Rightarrow> fuzz_state \<Rightarrow> fuzz_state" where
  "seeded a m s = (case msg_Content m of None \<Rightarrow> s | Some c \<Rightarrow> add_seed (kind_of c) a s)"

definition log_rpc :: "rpc \<Rightarrow> fuzz_state \<Rightarrow> fuzz_state" where
  "log_rpc e s = s\<lparr>fs_sent := fs_sent s @ [e]\<rparr>"

lemma log_rpc_simps [simp]:
  "pool k (log_rpc e s) = pool k s"
  "fs_heap (log_rpc e s) = fs_heap s"
  "fs_sent (log_rpc e s) = fs_sent s @ [e]"
  "transactionSeeds (log_rpc e s) = transactionSeeds s"
  by (cases k) (simp_all add: log_rpc_def)

lemma seeded_simps [simp]:
  "fs_heap (seeded a m s) = fs_heap s"
  "fs_sent (seeded a m s) = fs_sent s"
  "transactionSeeds (seeded a m s) = transactionSeeds s"
  by (simp_all add: seeded_def split: option.split)

lemma pool_seeded:
  "pool k (seeded a m s) =
     pool k s @ (if \<exists>c. msg_Content m = Some c \<and> kind_of c = k then [a] else [])"
  by (auto simp: seeded_def split: option.split)

lemma SendConsensus_eq:
  assumes "fs_heap s a = Some m"
  shows "SendConsensus F ch t a s =
    (case enc_message F m of
       None \<Rightarrow> Panic ''proto''
     | Some b \<Rightarrow> Ret (log_rpc (RPC_SendConsensus t \<lparr>cr_Channel = ch, cr_Payload = b\<rparr>)
                       (seeded a m s)))"
proof (cases "msg_Content m")
  case None
  with assms getType_none [OF assms None] show ?thesis
    by (auto simp: SendConsensus_def seeded_def bftMsgToClusterMsg_def MarshalOrPanic_def
        log_rpc_def load_def split: option.split)
next
  case (Some c)
  with assms getType_typed [OF assms Some] show ?thesis
    by (auto simp: SendConsensus_def seeded_def bftMsgToClusterMsg_def MarshalOrPanic_def
        log_rpc_def load_def split: option.split)
qed

lemma send_all:
  assumes "fs_heap s a = Some m" "enc_message F m = Some b"
  shows "\<exists>s'. go_fold (\<lambda>s node. SendConsensus F ch node a s) s nodes = Ret s' \<and>
      fs_heap s' = fs_heap s \<and> transactionSeeds s' = transactionSeeds s \<and>
      fs_sent s' = fs_sent s @
        map (\<lambda>n. RPC_SendConsensus n \<lparr>cr_Channel = ch, cr_Payload = b\<rparr>) nodes \<and>
      (\<forall>k. pool k s' = pool k s @
        (if \<exists>c. msg_Content m = Some c \<and> kind_of c = k then replicate (length nodes) a else []))"
  using assms
proof (induction nodes arbitrary: s)
  case Nil
  then show ?case by simp
next
  case (Cons n nodes)
  let ?s1 = "log_rpc (RPC_SendConsensus n \<lparr>cr_Channel = ch, cr_Payload = b\<rparr>) (seeded a m s)"
  have one: "SendConsensus F ch n a s = Ret ?s1" using Cons.prems by (simp add: SendConsensus_eq)
  have "fs_heap ?s1 a = Some m" using Cons.prems by simp
  from Cons.IH [OF this Cons.prems(2)] one show ?case
    by (auto simp: pool_seeded)
qed

subsection \<open>The system and its invariant\<close>

text \<open>
  The environment step \<open>new_message\<close> is the consensus library building a message: its
  content, if any, wraps a struct that is there.
\<close>

inductive fuzz_step :: "libs \<Rightarrow> fuzz_env \<Rightarrow> controller \<Rightarrow> fuzz_state \<Rightarrow> fuzz_state \<Rightarrow> bool"
  for L F c where
  new_message: "fs_heap s a = None \<Longrightarrow> msg_ok m \<Longrightarrow> fuzz_step L F c s (set_cell a m s)"
| send: "fs_heap s a \<noteq> None \<Longrightarrow> SendConsensus F (ctl_Channel c) t a s = Ret s' \<Longrightarrow>
    fuzz_step L F c s s'"
| submit: "enc_envelope L env = Some b \<Longrightarrow> fuzz_step L F c s (addTx b s)"
| consensus_round: "bad_guy c \<Longrightarrow> RunFuzz_round F c r s = Ret (r', s') \<Longrightarrow> fuzz_step L F c s s'"
| tx_round: "bad_guy c \<Longrightarrow> RunTxFuzz_round L F c r s = Ret (r', s') \<Longrightarrow> fuzz_step L F c s s'"

definition fuzz_init :: fuzz_state where
  "fuzz_init =
     \<lparr>fs_heap = (\<lambda>_. None), PrePrePareMsgSeeds = [], PrePareMsgSeeds = [], CommitMsgSeeds = [],
      ViewChangeSeeds = [], ViewDataSeeds = [], NewViewSeeds = [], HeartBeatSeeds = [],
      HeartBeatResponseSeeds = [], StateTransferRequestSeeds = [],
      StateTransferResponseSeeds = [], transactionSeeds = [], fs_sent = []\<rparr>"

text \<open>
  Every message on the heap is well formed, every pool holds messages of its own type,
  transaction seeds are envelopes that were submitted, and a transaction that was sent
  is the decoding of one.
\<close>

definition heap_inv :: "fuzz_state \<Rightarrow> bool" where
  "heap_inv s \<longleftrightarrow>
     (\<forall>a m. fs_heap s a = Some m \<longrightarrow> msg_ok m) \<and>
     (\<forall>k. \<forall>a \<in> set (pool k s). typed k (fs_heap s a))"

definition submitted :: "libs \<Rightarrow> bytes \<Rightarrow> bool" where
  "submitted L b \<longleftrightarrow> (\<exists>env. enc_envelope L env = Some b)"

fun rpc_ok :: "libs \<Rightarrow> rpc \<Rightarrow> bool" where
  "rpc_ok L (RPC_SendConsensus _ _) = True"
| "rpc_ok L (RPC_SendSubmit _ req) =
     (\<exists>b. submitted L b \<and> sr_Payload req = dec_envelope L b \<and> sr_Payload req \<noteq> None)"

definition tx_inv :: "libs \<Rightarrow> fuzz_state \<Rightarrow> bool" where
  "tx_inv L s \<longleftrightarrow>
     (\<forall>b \<in> set (transactionSeeds s). submitted L b) \<and> (\<forall>e \<in> set (fs_sent s). rpc_ok L e)"

definition fuzz_inv :: "libs \<Rightarrow> fuzz_state \<Rightarrow> bool" where
  "fuzz_inv L s \<longleftrightarrow> heap_inv s \<and> tx_inv L s"

lemma heap_inv_frame:
  "(\<And>k. pool k s' = pool k s) \<Longrightarrow> fs_heap s' = fs_heap s \<Longrightarrow> heap_inv s' = heap_inv s"
  by (simp add: heap_inv_def)

lemma heap_inv_set_cell:
  assumes "heap_inv s" "msg_ok m"
    and "\<And>k. a \<in> set (pool k s) \<Longrightarrow> typed k (Some m)"
  shows "heap_inv (set_cell a m s)"
  using assms by (auto simp: heap_inv_def)

lemma heap_inv_add_seed:
  "heap_inv s \<Longrightarrow> typed k (fs_heap s a) \<Longrightarrow> heap_inv (add_seed k a s)"
  by (auto simp: heap_inv_def split: if_splits)

lemma heap_inv_seeded:
  assumes "heap_inv s" "fs_heap s a = Some m"
  shows "heap_inv (seeded a m s)"
proof (cases "msg_Content m")
  case None
  with assms show ?thesis by (simp add: seeded_def)
next
  case (Some c)
  from assms have "msg_ok m" by (simp add: heap_inv_def)
  with Some assms show ?thesis
    by (auto simp: seeded_def typed_def msg_ok_def intro!: heap_inv_add_seed)
qed

lemma SendConsensus_inv:
  assumes "fuzz_inv L s" "fs_heap s a \<noteq> None" "SendConsensus F ch t a s = Ret s'"
  shows "fuzz_inv L s' \<and> fs_heap s' = fs_heap s"
proof -
  from assms(2) obtain m where m: "fs_heap s a = Some m" by auto
  with assms(3) obtain b
    where s': "s' = log_rpc (RPC_SendConsensus t \<lparr>cr_Channel = ch, cr_Payload = b\<rparr>) (seeded a m s)"
    by (auto simp: SendConsensus_eq split: option.splits)
  have "heap_inv s'" using heap_inv_seeded [of s a m] m assms(1)
    by (subst heap_inv_frame [of s' "seeded a m s"]) (simp_all add: s' fuzz_inv_def)
  moreover have "tx_inv L s'" using assms(1) by (auto simp: s' fuzz_inv_def tx_inv_def)
  ultimately show ?thesis by (simp add: fuzz_inv_def s')
qed

subsection \<open>A round of the protocol fuzzer\<close>

definition type_of_number :: "nat \<Rightarrow> MessageType option" where
  "type_of_number n =
     (let ks = [PrePrePareMsg, PrePareMsg, CommitMsg, ViewChangeMsg, ViewDataMsg, NewViewMsg,
                HeartBeatMsg, HeartBeatResponseMsg, StateTransferRequestMsg,
                StateTransferResponseMsg]
      in if n < length ks then Some (ks ! n) else None)"

lemma protocolFuzz_eq:
  "protocolFuzz F r s =
     (case type_of_number (fst (getNextType r)) of
        None \<Rightarrow> Ret (None, snd (getNextType r), s)
      | Some k \<Rightarrow> fuzz_seed (pool k) (add_seed k) (fuzz_of F k) (snd (getNextType r)) s)"
proof -
  obtain t r1 where t: "getNextType r = (t, r1)" by (cases "getNextType r")
  have "t = 0 \<or> t = 1 \<or> t = 2 \<or> t = 3 \<or> t = 4 \<or> t = 5 \<or> t = 6 \<or> t = 7 \<or> t = 8 \<or> t = 9 \<or> 10 \<le> t"
    by arith
  then show ?thesis
    by (elim disjE) (simp_all add: protocolFuzz_def t type_of_number_def Let_def)
qed

lemma getNextMsgSeed_in:
  "getNextMsgSeed seeds r = (Some a, r') \<Longrightarrow> a \<in> set seeds"
  by (auto simp: getNextMsgSeed_def rand_Intn_def split: if_splits)

text \<open>The three ways a case of the switch can end.\<close>

lemma fuzz_seed_cases:
  assumes "heap_inv s"
  obtains r' where "fuzz_seed (pool k) (add_seed k) (fuzz_of F k) r s = Ret (None, r', s)"
    "pool k s = []"
  | a m r' where "fuzz_seed (pool k) (add_seed k) (fuzz_of F k) r s =
      Ret (Some a, r', add_seed k a (set_cell a m s))" "a \<in> set (pool k s)" "typed k (Some m)"
  | p where "fuzz_seed (pool k) (add_seed k) (fuzz_of F k) r s = Panic p"
    "gf_nil_panic F = Some p"
proof (cases "getNextMsgSeed (pool k s) r")
  case (Pair x r1)
  show thesis
  proof (cases x)
    case None
    with Pair show thesis
      by (intro that(1)) (auto simp: fuzz_seed_def getNextMsgSeed_def rand_Intn_def split: if_splits)
  next
    case (Some a)
    with Pair have a: "a \<in> set (pool k s)" by (simp add: getNextMsgSeed_in)
    with assms have "typed k (fs_heap s a)" by (simp add: heap_inv_def)
    from fuzz_of_result [OF this, of F r1] Pair Some a show thesis
      by (auto simp: fuzz_result_def fuzz_seed_def intro: that)
  qed
qed

lemma typed_unique: "typed k mo \<Longrightarrow> typed j mo \<Longrightarrow> j = k"
  by (auto elim!: typedE)

lemma heap_inv_fuzzed:
  assumes "heap_inv s" "a \<in> set (pool k s)" "typed k (Some m)"
  shows "heap_inv (add_seed k a (set_cell a m s))"
proof (rule heap_inv_add_seed)
  show "heap_inv (set_cell a m s)"
  proof (rule heap_inv_set_cell)
    show "heap_inv s" "msg_ok m" using assms by (auto intro: typed_imp_ok)
    show "typed j (Some m)" if "a \<in> set (pool j s)" for j
    proof -
      from that assms have "typed j (fs_heap s a)" "typed k (fs_heap s a)"
        by (auto simp: heap_inv_def)
      then have "j = k" by (rule typed_unique [rotated])
      with assms show ?thesis by simp
    qed
  qed
  show "typed k (fs_heap (set_cell a m s) a)" using assms by simp
qed

lemma protocolFuzz_cases:
  assumes "heap_inv s"
  obtains r' where "protocolFuzz F r s = Ret (None, r', s)"
  | k a m r' where "protocolFuzz F r s = Ret (Some a, r', add_seed k a (set_cell a m s))"
      "a \<in> set (pool k s)" "typed k (Some m)"
  | p where "protocolFuzz F r s = Panic p" "gf_nil_panic F = Some p"
proof (cases "type_of_number (fst (getNextType r))")
  case None
  then show thesis by (intro that(1)) (simp add: protocolFuzz_eq)
next
  case (Some k)
  then show thesis
    by (cases rule: fuzz_seed_cases [OF assms, of k F "snd (getNextType r)"])
      (auto simp: protocolFuzz_eq intro: that)
qed

lemma tx_inv_frame:
  "transactionSeeds s' = transactionSeeds s \<Longrightarrow> fs_sent s' = fs_sent s \<Longrightarrow> tx_inv L s' = tx_inv L s"
  by (simp add: tx_inv_def)

text \<open>
  A round keeps the invariant, and what can make it panic is a message that does not
  marshal or gofuzz refusing a nil pointer.
\<close>

lemma broadcast_cases:
  assumes "fuzz_inv L s" "fs_heap s a \<noteq> None"
  obtains r' s' where "BroadcastConsensusFuzz F c a r s = Ret (r', s')" "fuzz_inv L s'"
  | "BroadcastConsensusFuzz F c a r s = Panic ''proto''"
proof -
  let ?send = "\<lambda>s node. SendConsensus F (ctl_Channel c) node a s"
  let ?ns = "recipients c (fst (percentageRandom r))"
  obtain m where m: "fs_heap s a = Some m" using assms(2) by auto
  show thesis
  proof (cases "enc_message F m")
    case None
    then have one: "?send s n = Panic ''proto''" for n by (simp add: SendConsensus_eq m)
    show thesis
    proof (cases ?ns)
      case Nil
      then show thesis using assms(1) by (intro that(1)) (simp_all add: BroadcastConsensusFuzz_fold)
    next
      case (Cons n ns)
      then show thesis by (intro that(2)) (simp add: BroadcastConsensusFuzz_fold one)
    qed
  next
    case (Some b)
    from send_all [OF m Some, of "ctl_Channel c" ?ns] obtain t
      where t: "go_fold ?send s ?ns = Ret t" by blast
    have "fuzz_inv L t \<and> fs_heap t a \<noteq> None"
    proof (rule go_fold_invariant [OF t])
      show "fuzz_inv L s \<and> fs_heap s a \<noteq> None" using assms by simp
      show "fuzz_inv L v \<and> fs_heap v a \<noteq> None"
        if "fuzz_inv L u \<and> fs_heap u a \<noteq> None" "?send u n = Ret v" for u v n
        using SendConsensus_inv [of L u a F "ctl_Channel c" n v] that by metis
    qed
    with t show thesis by (intro that(1) [of "snd (percentageRandom r)" t])
        (auto simp: BroadcastConsensusFuzz_fold)
  qed
qed

lemma RunFuzz_round_cases:
  assumes "fuzz_inv L s"
  obtains r' s' where "RunFuzz_round F c r s = Ret (r', s')" "fuzz_inv L s'"
  | p where "RunFuzz_round F c r s = Panic p" "p = ''proto'' \<or> gf_nil_panic F = Some p"
proof -
  from assms have "heap_inv s" by (simp add: fuzz_inv_def)
  then show thesis
  proof (cases rule: protocolFuzz_cases [of s F r])
    case (1 r1)
    with assms show thesis by (intro that(1)) (simp_all add: RunFuzz_round_def)
  next
    case (2 k a m r1)
    let ?s1 = "add_seed k a (set_cell a m s)"
    have "heap_inv ?s1" using \<open>heap_inv s\<close> 2 by (intro heap_inv_fuzzed)
    moreover have "tx_inv L ?s1 = tx_inv L s" by (rule tx_inv_frame) simp_all
    ultimately have "fuzz_inv L ?s1" using assms by (simp add: fuzz_inv_def)
    moreover have "fs_heap ?s1 a \<noteq> None" by simp
    ultimately show thesis
      by (cases rule: broadcast_cases [of L ?s1 a F c r1])
        (auto simp: RunFuzz_round_def 2(1) intro: that)
  next
    case (3 q)
    then show thesis by (intro that(2) [of q]) (auto simp: RunFuzz_round_def)
  qed
qed

lemma RunFuzz_rounds_cases:
  assumes "fuzz_inv L s"
  shows "(\<exists>r' s'. RunFuzz_rounds F c n r s = Ret (r', s') \<and> fuzz_inv L s') \<or>
    (\<exists>p. RunFuzz_rounds F c n r s = Panic p \<and> (p = ''proto'' \<or> gf_nil_panic F = Some p))"
  using assms
proof (induction n arbitrary: r s)
  case 0
  then show ?case by simp
next
  case (Suc n)
  from Suc.prems show ?case
  proof (cases rule: RunFuzz_round_cases [of L s F c r])
    case (1 r1 s1)
    with Suc.IH [of s1 r1] show ?thesis by simp
  next
    case (2 p)
    then show ?thesis by simp
  qed
qed

subsection \<open>A round of the transaction fuzzer\<close>

lemma SendTransaction_inv:
  assumes "fuzz_inv L s" "submitted L req" "SendTransaction L ch t req s = Ret s'"
  shows "fuzz_inv L s'"
proof -
  from assms(3) obtain env where "dec_envelope L req = Some env"
    and s': "s' = log_rpc (RPC_SendSubmit t
      \<lparr>sr_Channel = ch, sr_LastValidationSeq = 0, sr_Payload = Some env\<rparr>) s"
    by (auto simp: SendTransaction_def log_rpc_def split: option.splits)
  with assms(1,2) have "tx_inv L s'" by (auto simp: fuzz_inv_def tx_inv_def)
  moreover have "heap_inv s' = heap_inv s" by (rule heap_inv_frame) (simp_all add: s')
  ultimately show ?thesis using assms(1) by (simp add: fuzz_inv_def)
qed

text \<open>The fuzzing variant sends what the plain one sends.\<close>

lemma SendTransactionFuzz_eq:
  "SendTransactionFuzz L F ch t req r s =
     go_bind (SendTransaction L ch t req s)
       (\<lambda>s'. Ret (snd (TransactionMessageFuzzed F [] r), s'))"
  by (simp add: SendTransactionFuzz_def SendTransaction_def TransactionMessageFuzzed_def
      split: option.split prod.split)

text \<open>One send of a transaction broadcast; the third strategy uses the plain call.\<close>

definition tx_send :: "libs \<Rightarrow> fuzz_env \<Rightarrow> controller \<Rightarrow> rat \<Rightarrow> bytes \<Rightarrow> source \<times> fuzz_state \<Rightarrow> u64 \<Rightarrow>
    (source \<times> fuzz_state) go" where
  "tx_send L F c p req rs node =
     (if p < float_0_85
      then SendTransactionFuzz L F (ctl_Channel c) node req (fst rs) (snd rs)
      else go_bind (SendTransaction L (ctl_Channel c) node req (snd rs)) (\<lambda>s'. Ret (fst rs, s')))"

lemma go_fold_skip_first_pair:
  "go_fold (\<lambda>s x. f s (snd x)) s (filter (\<lambda>x. \<not> fst x < n) (List.enumerate k xs)) =
   go_fold f s (drop (n - k) xs)"
  using go_fold_skip_first [of n f s k xs] by (simp add: case_prod_beta' go_fold_continue)

lemma BroadcastTransactionsFuzz_fold:
  "BroadcastTransactionsFuzz L F c req r s =
     go_fold (tx_send L F c (fst (percentageRandom r)) req) (snd (percentageRandom r), s)
       (recipients c (fst (percentageRandom r)))"
proof -
  obtain p r1 where pr: "percentageRandom r = (p, r1)" by (cases "percentageRandom r")
  have "float_0_7 < float_0_85" by (simp add: float_0_7_def float_0_85_def)
  then show ?thesis
    using go_fold_skip_first_pair [of "\<lambda>rs n.
        SendTransactionFuzz L F (ctl_Channel c) n req (fst rs) (snd rs)"
        "(r1, s)" 6 0 "ctl_NodesList c"]
      go_fold_skip_first_pair [of "\<lambda>rs n. go_bind (SendTransaction L (ctl_Channel c) n req (snd rs))
        (\<lambda>s'. Ret (fst rs, s'))" "(r1, s)" 8 0 "ctl_NodesList c"]
    by (cases "p < float_0_7"; cases "p < float_0_85")
      (auto simp: BroadcastTransactionsFuzz_def Let_def pr recipients_def go_fold_continue
        tx_send_def [abs_def] case_prod_beta')
qed

lemma tx_send_inv:
  assumes "submitted L req" "fuzz_inv L (snd u)" "tx_send L F c p req u n = Ret v"
  shows "fuzz_inv L (snd v)"
  using assms
  by (auto simp: tx_send_def SendTransactionFuzz_eq go_simps intro: SendTransaction_inv split: if_splits)

lemma RunTxFuzz_round_inv:
  assumes "fuzz_inv L s" "RunTxFuzz_round L F c r s = Ret (r', s')"
  shows "fuzz_inv L s'"
proof (cases "transactionSeeds s = []")
  case True
  with assms show ?thesis by (simp add: RunTxFuzz_round_def transactionFuzz_def getNextTxSeed_def)
next
  case False
  then obtain req r1 where req: "transactionFuzz r s = (Some req, r1)" "req \<in> set (transactionSeeds s)"
    by (auto simp: transactionFuzz_def getNextTxSeed_def rand_Intn_def)
  with assms(1) have sub: "submitted L req" by (auto simp: fuzz_inv_def tx_inv_def)
  from assms(2) req(1) have "BroadcastTransactionsFuzz L F c req r1 s = Ret (r', s')"
    by (simp add: RunTxFuzz_round_def)
  then have "fuzz_inv L (snd (r', s'))"
    unfolding BroadcastTransactionsFuzz_fold
    by (rule go_fold_invariant) (use assms(1) sub in \<open>auto intro: tx_send_inv\<close>)
  then show ?thesis by simp
qed

subsection \<open>Every run keeps the invariant\<close>

lemma two_steps: "step x y \<Longrightarrow> step y z \<Longrightarrow> rtranclp step x z"
  by (meson converse_rtranclp_into_rtranclp rtranclp.rtrancl_refl)

interpretation fuzz: transition_system "\<lambda>s. s = fuzz_init" "fuzz_step L F c" "fuzz_inv L" for L F c
proof
  have "pool k fuzz_init = []" for k by (cases k) (simp_all add: fuzz_init_def)
  then have "fuzz_inv L fuzz_init"
    by (simp add: fuzz_inv_def heap_inv_def tx_inv_def) (simp add: fuzz_init_def)
  then show "fuzz_inv L s" if "s = fuzz_init" for s using that by simp
next
  fix s t
  assume inv: "fuzz_inv L s" and "fuzz_step L F c s t"
  from this(2) show "fuzz_inv L t"
  proof cases
    case (new_message a m)
    have "heap_inv (set_cell a m s)"
    proof (rule heap_inv_set_cell)
      show "typed k (Some m)" if "a \<in> set (pool k s)" for k
      proof -
        from that inv have "typed k (fs_heap s a)" by (auto simp: fuzz_inv_def heap_inv_def)
        with new_message show ?thesis by (simp add: typed_def)
      qed
    qed (use inv new_message in \<open>simp_all add: fuzz_inv_def\<close>)
    moreover have "tx_inv L (set_cell a m s) = tx_inv L s" by (rule tx_inv_frame) simp_all
    ultimately show ?thesis using inv new_message by (simp add: fuzz_inv_def)
  next
    case (send a n)
    with inv show ?thesis using SendConsensus_inv by blast
  next
    case (submit env b)
    have "pool k (addTx b s) = pool k s" for k
      by (cases k) (simp_all add: addTx_def AddTransactionSeeds_def)
    then have "heap_inv (addTx b s) = heap_inv s"
      by (rule heap_inv_frame) (simp add: addTx_def AddTransactionSeeds_def)
    moreover have "tx_inv L (addTx b s)" using inv submit
      by (auto simp: fuzz_inv_def tx_inv_def addTx_def AddTransactionSeeds_def submitted_def)
    ultimately show ?thesis using inv submit by (simp add: fuzz_inv_def)
  next
    case (consensus_round r r')
    with inv show ?thesis by (cases rule: RunFuzz_round_cases [of L s F c r]) auto
  next
    case (tx_round r r')
    with inv show ?thesis using RunTxFuzz_round_inv by blast
  qed
qed

text \<open>
  C30: However the library's sends, the submissions and the two loops are interleaved, the
  protocol fuzzer never dereferences a nil struct: from any reachable state, any number of
  its rounds can only panic because a message does not marshal or because gofuzz itself
  panics on a nil pointer.  Each pool only ever holds messages of the type its fuzz
  function expects, although fuzzing rewrites the seeds in place.
\<close>

theorem RunFuzz_panics:
  assumes "rtranclp (fuzz_step L F c) fuzz_init s" and "RunFuzz F c n r s = Panic p"
  shows "p = ''proto'' \<or> gf_nil_panic F = Some p"
proof -
  have "fuzz_inv L s" using fuzz.runs_inv assms(1) by blast
  from RunFuzz_rounds_cases [OF this, of F c n r] assms(2) show ?thesis
    by (auto simp: RunFuzz_def split: if_splits)
qed

definition sample_prepare :: message where
  "sample_prepare = \<lparr>msg_Content = Some (Message_Prepare (Some
     \<lparr>pr_View = 0, pr_Seq = 7, pr_Digest = ''d'', pr_Assist = False\<rparr>))\<rparr>"

definition sample_commit :: message where
  "sample_commit = \<lparr>msg_Content = Some (Message_Commit (Some
     \<lparr>cm_View = 0, cm_Seq = 7, cm_Digest = ''d'', cm_Signature = None, cm_Assist = False\<rparr>))\<rparr>"

text \<open>Draws one number for every value it fills in; nil pointers make it panic.\<close>

definition sample_fuzz_env :: fuzz_env where
  "sample_fuzz_env =
     \<lparr>gf_uint64 = (\<lambda>r. (of_nat (fst (draw r)), snd (draw r))),
      gf_bool = (\<lambda>r. (even (fst (draw r)), snd (draw r))),
      gf_string = (\<lambda>r. ([], r)),
      gf_bytes = (\<lambda>r. (None, r)),
      gf_proposal = (\<lambda>r. (\<lparr>wp_Header = [], wp_Payload = [], wp_Metadata = [],
         wp_VerificationSequence = 0, wp_XXX_unrecognized = []\<rparr>, r)),
      gf_signature = (\<lambda>r. (\<lparr>ws_Signer = 0, ws_Value = [], ws_Msg = [],
         ws_XXX_unrecognized = []\<rparr>, r)),
      gf_nil_panic = Some ''reflect: call on zero Value'',
      enc_message = (\<lambda>m. Some []),
      dec_message = (\<lambda>b. Some sample_prepare)\<rparr>"

definition sample_controller :: controller where
  "sample_controller = \<lparr>ctl_ID = 1, ctl_NodesList = [1, 2, 3, 4], ctl_Channel = ''c''\<rparr>"

text \<open>A run in which a commit without a signature is sent and then picked by the fuzzer.\<close>

definition sample_state :: fuzz_state where
  "sample_state = (set_cell 0 sample_commit fuzz_init)
     \<lparr>CommitMsgSeeds := [0],
      fs_sent := [RPC_SendConsensus 2 \<lparr>cr_Channel = ''c'', cr_Payload = []\<rparr>]\<rparr>"

lemma sample_run:
  assumes "enc_message F sample_commit = Some []"
  shows "rtranclp (fuzz_step L F sample_controller) fuzz_init sample_state"
proof -
  let ?s = "set_cell 0 sample_commit fuzz_init"
  have 1: "fuzz_step L F sample_controller fuzz_init ?s"
    by (rule fuzz_step.new_message) (simp_all add: fuzz_init_def msg_ok_def sample_commit_def)
  have 2: "fuzz_step L F sample_controller ?s sample_state"
    by (rule fuzz_step.send [where a = 0 and t = 2])
      (simp, subst SendConsensus_eq [where m = sample_commit], simp,
       simp add: assms, simp add: seeded_def sample_commit_def sample_controller_def log_rpc_def
         AddCommitMsgSeeds_def set_cell_def fuzz_init_def sample_state_def)
  show ?thesis by (rule two_steps) (fact 1, fact 2)
qed

lemmas fuzz_eval =
  sample_state_def bad_guy_def sample_controller_def RunFuzz_round_def protocolFuzz_def
  getNextType_def rand_Intn_def draw_def fuzz_seed_def getNextMsgSeed_def CommitFuzz_def
  load_def GetCommit_def sample_commit_def fuzz_ptr_def sample_fuzz_env_def set_cell_def

theorem RunFuzz_panics_witness:
  "''reflect: call on zero Value'' = ''proto'' \<or>
   gf_nil_panic sample_fuzz_env = Some ''reflect: call on zero Value''"
  by (rule RunFuzz_panics [OF sample_run [of _ null_libs], of _ 1 "\<lambda>_. 2"])
    (simp_all add: RunFuzz_def fuzz_eval split: prod.split)


definition sample_envelope :: envelope where
  "sample_envelope = \<lparr>env_Payload = [7], env_Signature = []\<rparr>"

definition envelope_libs :: libs where
  "envelope_libs = null_libs
     \<lparr>enc_envelope := (\<lambda>e. if env_Signature e = [] then Some (env_Payload e) else None),
      dec_envelope := (\<lambda>b. Some \<lparr>env_Payload = b, env_Signature = []\<rparr>)\<rparr>"

text \<open>A transaction is submitted to node 1 of two nodes, and the fuzzer broadcasts it.\<close>

definition two_nodes :: controller where
  "two_nodes = \<lparr>ctl_ID = 1, ctl_NodesList = [1, 2], ctl_Channel = ''c''\<rparr>"

lemma sample_tx_run:
  "rtranclp (fuzz_step envelope_libs sample_fuzz_env two_nodes) fuzz_init
     (fuzz_init\<lparr>transactionSeeds := [[7]],
        fs_sent := [RPC_SendSubmit 2 \<lparr>sr_Channel = ''c'', sr_LastValidationSeq = 0,
                      sr_Payload = Some sample_envelope\<rparr>]\<rparr>)"
proof -
  let ?s = "fuzz_init\<lparr>transactionSeeds := [[7]]\<rparr>"
  have 1: "fuzz_step envelope_libs sample_fuzz_env two_nodes fuzz_init (addTx [7] fuzz_init)"
    by (rule fuzz_step.submit [where env = sample_envelope])
      (simp add: envelope_libs_def sample_envelope_def)
  have seeded: "addTx [7] fuzz_init = ?s"
    by (simp add: addTx_def AddTransactionSeeds_def fuzz_init_def)
  have 2: "fuzz_step envelope_libs sample_fuzz_env two_nodes ?s
     (?s\<lparr>fs_sent := [RPC_SendSubmit 2 \<lparr>sr_Channel = ''c'', sr_LastValidationSeq = 0,
                      sr_Payload = Some sample_envelope\<rparr>]\<rparr>)"
    by (rule fuzz_step.tx_round [where r = "\<lambda>_. 0" and r' = "\<lambda>_. 0"])
      (simp_all add: bad_guy_def two_nodes_def RunTxFuzz_round_def transactionFuzz_def
        getNextTxSeed_def rand_Intn_def draw_def BroadcastTransactionsFuzz_def percentageRandom_def
        float_0_7_def SendTransactionFuzz_def TransactionMessageFuzzed_def sample_fuzz_env_def
        envelope_libs_def sample_envelope_def fuzz_init_def)
  from 1 have 1: "fuzz_step envelope_libs sample_fuzz_env two_nodes fuzz_init ?s"
    by (simp only: seeded)
  show ?thesis by (rule two_steps) (fact 1, fact 2)
qed


text \<open>
  C32: Broadcasting a fuzzed message.  When the message marshals, the broadcast succeeds and
  sends the same bytes to every recipient of the drawn strategy: all other nodes below 0.7,
  the nodes from the seventh on below 0.85, the nodes from the ninth on otherwise (so
  nobody in a small cluster, and possibly the sender itself).  Each send makes the message
  a seed of its type once more.
\<close>

theorem BroadcastConsensusFuzz_sends:
  assumes "fs_heap s a = Some \<lparr>msg_Content = Some ct\<rparr>"
    and "enc_message F \<lparr>msg_Content = Some ct\<rparr> = Some b"
    and "p = fst (percentageRandom r)"
  shows "\<exists>s'. BroadcastConsensusFuzz F c a r s = Ret (snd (percentageRandom r), s') \<and>
    fs_sent s' = fs_sent s @
      map (\<lambda>n. RPC_SendConsensus n \<lparr>cr_Channel = ctl_Channel c, cr_Payload = b\<rparr>)
        (if p < float_0_7 then filter (\<lambda>n. n \<noteq> ctl_ID c) (ctl_NodesList c)
         else if p < float_0_85 then drop 6 (ctl_NodesList c)
         else drop 8 (ctl_NodesList c)) \<and>
    length (pool (kind_of ct) s') =
      length (pool (kind_of ct) s) + (length (fs_sent s') - length (fs_sent s)) \<and>
    fs_heap s' = fs_heap s"
proof -
  have rec: "recipients c p =
      (if p < float_0_7 then filter (\<lambda>n. n \<noteq> ctl_ID c) (ctl_NodesList c)
       else if p < float_0_85 then drop 6 (ctl_NodesList c) else drop 8 (ctl_NodesList c))"
    by (auto simp: recipients_def intro!: filter_cong)
  from send_all [OF assms(1,2), of "ctl_Channel c" "recipients c p"] obtain s' where
    s': "go_fold (\<lambda>s node. SendConsensus F (ctl_Channel c) node a s) s (recipients c p) = Ret s'"
      "fs_heap s' = fs_heap s"
      "fs_sent s' = fs_sent s @
        map (\<lambda>n. RPC_SendConsensus n \<lparr>cr_Channel = ctl_Channel c, cr_Payload = b\<rparr>) (recipients c p)"
      "\<forall>k. pool k s' = pool k s @
        (if kind_of ct = k then replicate (length (recipients c p)) a else [])"
    by auto
  then show ?thesis
    unfolding rec [symmetric] using assms(3) by (intro exI [of _ s'])
      (simp add: BroadcastConsensusFuzz_fold)
qed

theorem BroadcastConsensusFuzz_sends_witness:
  "\<exists>s'. BroadcastConsensusFuzz sample_fuzz_env sample_controller 0 (\<lambda>_. 0)
      (set_cell 0 sample_commit fuzz_init) = Ret (snd (percentageRandom (\<lambda>_. 0)), s') \<and>
    map (\<lambda>e. case e of RPC_SendConsensus n _ \<Rightarrow> n | RPC_SendSubmit n _ \<Rightarrow> n) (fs_sent s') = [2, 3, 4]"
  using BroadcastConsensusFuzz_sends [of "set_cell 0 sample_commit fuzz_init" 0
      "the (msg_Content sample_commit)" sample_fuzz_env "[]" 0 "\<lambda>_. 0" sample_controller]
  by (auto simp: sample_commit_def sample_fuzz_env_def percentageRandom_def draw_def float_0_7_def
      sample_controller_def fuzz_init_def)

text \<open>
  Fuzzing replaces a seed instead of adding one.  When a round of the fuzzer picks a
  message, the pointer it broadcasts is a seed that was already in the pool of its type;
  the pool gains a second reference to that same message, no pool gains a new message, and
  the only message whose content changes is the picked seed itself, which keeps its type.
\<close>

lemma protocolFuzz_overwrites_seed:
  assumes "rtranclp (fuzz_step L F c) fuzz_init s"
    and "protocolFuzz F r s = Ret (Some a, r', s')"
  shows "\<exists>k. a \<in> set (pool k s) \<and> pool k s' = pool k s @ [a] \<and>
    (\<forall>j. set (pool j s') = set (pool j s)) \<and>
    (\<forall>b. b \<noteq> a \<longrightarrow> fs_heap s' b = fs_heap s b) \<and>
    typed k (fs_heap s a) \<and> typed k (fs_heap s' a)"
proof -
  have inv: "heap_inv s" using fuzz.runs_inv assms(1) by (auto simp: fuzz_inv_def)
  then show ?thesis
  proof (cases rule: protocolFuzz_cases [of s F r])
    case (2 k a' m r1)
    with assms(2) have "a' = a" and s': "s' = add_seed k a (set_cell a m s)" by auto
    moreover have "typed k (fs_heap s a)" using inv 2 \<open>a' = a\<close> by (simp add: heap_inv_def)
    ultimately show ?thesis using 2 by (intro exI [of _ k]) auto
  qed (use assms(2) in auto)
qed

text \<open>
  What a node's egress sends for a consensus message, the ingress of the receiving node
  hands to the receiver of that channel as the same message from the same sender, provided
  the message survives the protobuf codec.
\<close>

lemma consensus_message_delivered:
  assumes "fs_heap s a = Some m" and "round_trips (enc_message F) (dec_message F) m"
    and "ReceiverByChain ch = Some receiver"
  shows "\<exists>s' req. SendConsensus F ch target a s = Ret s' \<and>
    fs_sent s' = fs_sent s @ [RPC_SendConsensus target req] \<and>
    OnConsensus F ReceiverByChain (cr_Channel req) sender req =
      Ret (HandleMessage receiver sender m)"
proof -
  from round_tripsD [OF assms(2)] obtain b where "enc_message F m = Some b" "dec_message F b = Some m"
    by blast
  with assms(1,3) show ?thesis by (simp add: SendConsensus_eq OnConsensus_def)
qed

end
