(* ===== verification/Codec.thy ===== *)
theory Codec
  imports Protos
begin

text \<open>
  What the components assume of protobuf, that a marshalled message unmarshals to itself,
  as the predicate \<open>lossless\<close> on the libraries, and a concrete library that has it.  The
  concrete one uses a tagged byte format of its own and is there to instantiate theorems;
  no theorem depends on the format.
\<close>

definition lossless :: "libs \<Rightarrow> bool" where
  "lossless L \<longleftrightarrow>
     (\<forall>x. round_trips (enc_envelope L) (dec_envelope L) x) \<and>
     (\<forall>x. round_trips (enc_signature_header L) (dec_signature_header L) x) \<and>
     (\<forall>x. round_trips (enc_block_data L) (dec_block_data L) x) \<and>
     (\<forall>x. round_trips (enc_block_metadata L) (dec_block_metadata L) x) \<and>
     (\<forall>x. round_trips (enc_metadata L) (dec_metadata L) x) \<and>
     (\<forall>x. round_trips (enc_last_config L) (dec_last_config L) x) \<and>
     (\<forall>x. round_trips (enc_orderer_block_metadata L) (dec_orderer_block_metadata L) x)"

lemma all_round_trips:
  assumes "\<forall>x. round_trips enc dec x"
  shows "enc y = Some b \<Longrightarrow> dec b = Some y" and "\<exists>b. enc y = Some b"
  using round_tripsD [OF spec [OF assms, of y]] by auto

lemma losslessD:
  assumes "lossless L"
  shows "\<forall>x. round_trips (enc_envelope L) (dec_envelope L) x"
    and "\<forall>x. round_trips (enc_signature_header L) (dec_signature_header L) x"
    and "\<forall>x. round_trips (enc_block_data L) (dec_block_data L) x"
    and "\<forall>x. round_trips (enc_block_metadata L) (dec_block_metadata L) x"
    and "\<forall>x. round_trips (enc_metadata L) (dec_metadata L) x"
    and "\<forall>x. round_trips (enc_last_config L) (dec_last_config L) x"
    and "\<forall>x. round_trips (enc_orderer_block_metadata L) (dec_orderer_block_metadata L) x"
  using assms by (simp_all add: lossless_def)

lemmas lossless_dec =
  all_round_trips(1) [OF losslessD(1)]
  all_round_trips(1) [OF losslessD(2)]
  all_round_trips(1) [OF losslessD(3)]
  all_round_trips(1) [OF losslessD(4)]
  all_round_trips(1) [OF losslessD(5)]
  all_round_trips(1) [OF losslessD(6)]
  all_round_trips(1) [OF losslessD(7)]

lemmas lossless_enc =
  all_round_trips(2) [OF losslessD(1)]
  all_round_trips(2) [OF losslessD(2)]
  all_round_trips(2) [OF losslessD(3)]
  all_round_trips(2) [OF losslessD(4)]
  all_round_trips(2) [OF losslessD(5)]
  all_round_trips(2) [OF losslessD(6)]
  all_round_trips(2) [OF losslessD(7)]

subsection \<open>A byte format\<close>

text \<open>A writer and a reader that takes back what was written and leaves the rest.\<close>

definition serial :: "('a \<Rightarrow> bytes) \<Rightarrow> (bytes \<Rightarrow> ('a \<times> bytes) option) \<Rightarrow> bool" where
  "serial put get \<longleftrightarrow> (\<forall>x rest. get (put x @ rest) = Some (x, rest))"

fun put_bytes :: "bytes \<Rightarrow> bytes" where
  "put_bytes [] = [0]"
| "put_bytes (x # xs) = 1 # x # put_bytes xs"

fun get_bytes :: "bytes \<Rightarrow> (bytes \<times> bytes) option" where
  "get_bytes [] = None"
| "get_bytes [t] = (if t = 0 then Some ([], []) else None)"
| "get_bytes (t # x # rest) =
     (if t = 0 then Some ([], x # rest)
      else map_option (\<lambda>(xs, r). (x # xs, r)) (get_bytes rest))"

lemma serial_bytes: "serial put_bytes get_bytes"
proof -
  have "get_bytes (put_bytes xs @ rest) = Some (xs, rest)" for xs rest
  proof (induction xs)
    case Nil
    show ?case by (cases rest) auto
  next
    case (Cons x xs)
    then show ?case by simp
  qed
  then show ?thesis by (simp add: serial_def)
qed

definition put_pair :: "('a \<Rightarrow> bytes) \<Rightarrow> ('b \<Rightarrow> bytes) \<Rightarrow> 'a \<times> 'b \<Rightarrow> bytes" where
  "put_pair p q x = p (fst x) @ q (snd x)"

definition get_pair :: "(bytes \<Rightarrow> ('a \<times> bytes) option) \<Rightarrow> (bytes \<Rightarrow> ('b \<times> bytes) option) \<Rightarrow>
    bytes \<Rightarrow> (('a \<times> 'b) \<times> bytes) option" where
  "get_pair g h bs = (case g bs of
       None \<Rightarrow> None
     | Some (x, r) \<Rightarrow> (case h r of None \<Rightarrow> None | Some (y, r') \<Rightarrow> Some ((x, y), r')))"

lemma serial_pair: "serial p g \<Longrightarrow> serial q h \<Longrightarrow> serial (put_pair p q) (get_pair g h)"
  by (simp add: serial_def put_pair_def get_pair_def)

fun put_list :: "('a \<Rightarrow> bytes) \<Rightarrow> 'a list \<Rightarrow> bytes" where
  "put_list p [] = [0]"
| "put_list p (x # xs) = 1 # p x @ put_list p xs"

fun get_list :: "(bytes \<Rightarrow> ('a \<times> bytes) option) \<Rightarrow> nat \<Rightarrow> bytes \<Rightarrow> ('a list \<times> bytes) option" where
  "get_list g 0 bs = None"
| "get_list g (Suc n) bs = (case bs of
       [] \<Rightarrow> None
     | t # r \<Rightarrow>
         if t = 0 then Some ([], r)
         else (case g r of
                 None \<Rightarrow> None
               | Some (x, r') \<Rightarrow> map_option (\<lambda>(xs, r''). (x # xs, r'')) (get_list g n r')))"

lemma get_put_list:
  "serial p g \<Longrightarrow> length xs < n \<Longrightarrow> get_list g n (put_list p xs @ rest) = Some (xs, rest)"
proof (induction xs arbitrary: n)
  case Nil
  then show ?case by (cases n) auto
next
  case (Cons x xs)
  then show ?case by (cases n) (auto simp: serial_def)
qed

lemma length_put_list: "length xs < length (put_list p xs @ rest)"
  by (induction xs) auto

lemma serial_list: "serial p g \<Longrightarrow> serial (put_list p) (\<lambda>bs. get_list g (length bs) bs)"
proof -
  assume "serial p g"
  then have "get_list g (length (put_list p xs @ rest)) (put_list p xs @ rest) = Some (xs, rest)"
    for xs rest by (rule get_put_list) (rule length_put_list)
  then show "serial (put_list p) (\<lambda>bs. get_list g (length bs) bs)" unfolding serial_def by blast
qed

definition put_opt :: "('a \<Rightarrow> bytes) \<Rightarrow> 'a option \<Rightarrow> bytes" where
  "put_opt p x = (case x of None \<Rightarrow> [0] | Some y \<Rightarrow> 1 # p y)"

definition get_opt :: "(bytes \<Rightarrow> ('a \<times> bytes) option) \<Rightarrow> bytes \<Rightarrow> ('a option \<times> bytes) option" where
  "get_opt g bs = (case bs of
       [] \<Rightarrow> None
     | t # r \<Rightarrow> if t = 0 then Some (None, r) else map_option (\<lambda>(y, r'). (Some y, r')) (g r))"

lemma serial_opt: "serial p g \<Longrightarrow> serial (put_opt p) (get_opt g)"
  by (auto simp: serial_def put_opt_def get_opt_def split: option.split)

definition put_u64 :: "u64 \<Rightarrow> bytes" where
  "put_u64 n = put_bytes (be_bytes (unat n))"

definition get_u64 :: "bytes \<Rightarrow> (u64 \<times> bytes) option" where
  "get_u64 bs = map_option (\<lambda>(x, r). (of_nat (be_value x), r)) (get_bytes bs)"

lemma serial_u64: "serial put_u64 get_u64"
  using serial_bytes by (simp add: serial_def put_u64_def get_u64_def be_value_be_bytes)

text \<open>A message is decoded only when its bytes are used up.\<close>

definition whole :: "(bytes \<Rightarrow> ('a \<times> bytes) option) \<Rightarrow> bytes \<Rightarrow> 'a option" where
  "whole get bs = (case get bs of Some (x, []) \<Rightarrow> Some x | _ \<Rightarrow> None)"

lemma whole_put: "serial put get \<Longrightarrow> whole get (put x) = Some x"
proof -
  assume "serial put get"
  then have "get (put x @ []) = Some (x, [])" unfolding serial_def by blast
  then show "whole get (put x) = Some x" by (simp add: whole_def)
qed

subsection \<open>A lossless library\<close>

definition put_ms :: "metadata_signature \<Rightarrow> bytes" where
  "put_ms m = put_pair put_bytes (put_pair put_bytes (put_pair put_u64 (put_pair put_bytes put_bytes)))
     (ms_SignatureHeader m, ms_Signature m, ms_SignerId m, ms_Nonce m, ms_AuxiliaryInput m)"

definition get_ms :: "bytes \<Rightarrow> (metadata_signature \<times> bytes) option" where
  "get_ms bs = map_option (\<lambda>((sh, sg, i, n, a), r).
       (\<lparr>ms_SignatureHeader = sh, ms_Signature = sg, ms_SignerId = i, ms_Nonce = n,
         ms_AuxiliaryInput = a\<rparr>, r))
     (get_pair get_bytes (get_pair get_bytes (get_pair get_u64 (get_pair get_bytes get_bytes))) bs)"

lemma serial_ms: "serial put_ms get_ms"
proof -
  have "serial (put_pair put_bytes (put_pair put_bytes (put_pair put_u64 (put_pair put_bytes put_bytes))))
    (get_pair get_bytes (get_pair get_bytes (get_pair get_u64 (get_pair get_bytes get_bytes))))"
    by (intro serial_pair serial_bytes serial_u64)
  then show ?thesis by (simp add: serial_def put_ms_def get_ms_def)
qed

abbreviation (input) put_md where
  "put_md \<equiv> put_pair put_bytes (put_list put_ms)"
abbreviation (input) get_md where
  "get_md \<equiv> get_pair get_bytes (\<lambda>bs. get_list get_ms (length bs) bs)"

definition plain_libs :: libs where
  "plain_libs = null_libs
     \<lparr>enc_envelope := (\<lambda>e. Some (put_pair put_bytes put_bytes (env_Payload e, env_Signature e))),
      dec_envelope := (\<lambda>bs. map_option (\<lambda>(p, s). \<lparr>env_Payload = p, env_Signature = s\<rparr>)
         (whole (get_pair get_bytes get_bytes) bs)),
      enc_signature_header := (\<lambda>h. Some (put_pair put_bytes put_bytes (sh_Creator h, sh_Nonce h))),
      dec_signature_header := (\<lambda>bs. map_option (\<lambda>(c, n). \<lparr>sh_Creator = c, sh_Nonce = n\<rparr>)
         (whole (get_pair get_bytes get_bytes) bs)),
      enc_block_data := (\<lambda>d. Some (put_list put_bytes d)),
      dec_block_data := whole (\<lambda>bs. get_list get_bytes (length bs) bs),
      enc_block_metadata := (\<lambda>d. Some (put_list put_bytes d)),
      dec_block_metadata := whole (\<lambda>bs. get_list get_bytes (length bs) bs),
      enc_metadata := (\<lambda>m. Some (put_md (md_Value m, md_Signatures m))),
      dec_metadata := (\<lambda>bs. map_option (\<lambda>(v, s). \<lparr>md_Value = v, md_Signatures = s\<rparr>)
         (whole get_md bs)),
      enc_last_config := (\<lambda>l. Some (put_u64 (lc_Index l))),
      dec_last_config := (\<lambda>bs. map_option (\<lambda>i. \<lparr>lc_Index = i\<rparr>) (whole get_u64 bs)),
      enc_orderer_block_metadata := (\<lambda>m. Some (put_pair (put_opt put_u64) put_bytes
         (map_option lc_Index (obm_LastConfig m), obm_ConsenterMetadata m))),
      dec_orderer_block_metadata := (\<lambda>bs. map_option
         (\<lambda>(l, c). \<lparr>obm_LastConfig = map_option (\<lambda>i. \<lparr>lc_Index = i\<rparr>) l, obm_ConsenterMetadata = c\<rparr>)
         (whole (get_pair (get_opt get_u64) get_bytes) bs))\<rparr>"

lemma lossless_plain_libs: "lossless plain_libs"
proof -
  note two = whole_put [OF serial_pair [OF serial_bytes serial_bytes]]
  note lst = whole_put [OF serial_list [OF serial_bytes]]
  note md = whole_put [OF serial_pair [OF serial_bytes serial_list [OF serial_ms]]]
  note num = whole_put [OF serial_u64]
  note om = whole_put [OF serial_pair [OF serial_opt [OF serial_u64] serial_bytes]]
  have opt: "map_option (\<lambda>i. \<lparr>lc_Index = i\<rparr>) (map_option lc_Index l) = l" for l
    by (cases l) simp_all
  show ?thesis
    unfolding lossless_def round_trips_def plain_libs_def
    by (simp add: two lst md num om opt)
qed

text \<open>
  The same library with transactions: the payload \<open>[t]\<close> is a transaction of type \<open>t\<close>
  created by \<open>[7]\<close> with nonce \<open>[8]\<close>.
\<close>

definition tx_channel_header :: "u8 \<Rightarrow> channel_header" where
  "tx_channel_header t = \<lparr>ch_Type = ucast t, ch_Version = 0, ch_Timestamp = None,
     ch_ChannelId = ''c'', ch_TxId = [], ch_Epoch = 0, ch_Extension = [], ch_TlsCertHash = []\<rparr>"

definition tx_payload :: "u8 \<Rightarrow> payload" where
  "tx_payload t = \<lparr>pl_Header = Some \<lparr>hd_ChannelHeader = Some [t],
       hd_SignatureHeader = put_pair put_bytes put_bytes ([7], [8])\<rparr>, pl_Data = []\<rparr>"

definition tx_libs :: libs where
  "tx_libs = plain_libs
     \<lparr>dec_payload := (\<lambda>b. case b of [t] \<Rightarrow> Some (tx_payload t) | _ \<Rightarrow> None),
      dec_channel_header := (\<lambda>b. case b of [t] \<Rightarrow> Some (tx_channel_header t) | _ \<Rightarrow> None),
      dec_serialized_identity := (\<lambda>b. Some \<lparr>si_Mspid = ''msp'', si_IdBytes = b\<rparr>),
      dec_view_metadata := (\<lambda>b. Some (empty_view_metadata\<lparr>vm_ViewId := of_nat (length b)\<rparr>)),
      dec_prepares_from := (\<lambda>b. Some \<lparr>pf_Ids = []\<rparr>)\<rparr>"

definition tx_bytes :: "u8 \<Rightarrow> bytes" where
  "tx_bytes t = put_pair put_bytes put_bytes ([t], [])"

lemma lossless_tx_libs: "lossless tx_libs"
  using lossless_plain_libs by (simp add: lossless_def tx_libs_def)

lemma tx_libs_simps [simp]:
  "dec_envelope tx_libs (tx_bytes t) = Some \<lparr>env_Payload = [t], env_Signature = []\<rparr>"
  "dec_payload tx_libs [t] = Some (tx_payload t)"
  "dec_channel_header tx_libs [t] = Some (tx_channel_header t)"
  "dec_signature_header tx_libs (put_pair put_bytes put_bytes (c, n)) =
     Some \<lparr>sh_Creator = c, sh_Nonce = n\<rparr>"
  "dec_serialized_identity tx_libs b = Some \<lparr>si_Mspid = ''msp'', si_IdBytes = b\<rparr>"
  "dec_view_metadata tx_libs b = Some (empty_view_metadata\<lparr>vm_ViewId := of_nat (length b)\<rparr>)"
  "dec_prepares_from tx_libs b = Some \<lparr>pf_Ids = []\<rparr>"
  "sha256 tx_libs b = b"
  using whole_put [OF serial_pair [OF serial_bytes serial_bytes]]
  by (simp_all add: tx_libs_def plain_libs_def tx_bytes_def null_libs_def)

lemma tx_libs_enc [simp]:
  "enc_envelope tx_libs e = Some (put_pair put_bytes put_bytes (env_Payload e, env_Signature e))"
  "enc_signature_header tx_libs h = Some (put_pair put_bytes put_bytes (sh_Creator h, sh_Nonce h))"
  "enc_block_data tx_libs d = Some (put_list put_bytes d)"
  "enc_block_metadata tx_libs d = Some (put_list put_bytes d)"
  "enc_metadata tx_libs m = Some (put_md (md_Value m, md_Signatures m))"
  "enc_last_config tx_libs l = Some (put_u64 (lc_Index l))"
  "enc_orderer_block_metadata tx_libs om = Some (put_pair (put_opt put_u64) put_bytes
     (map_option lc_Index (obm_LastConfig om), obm_ConsenterMetadata om))"
  by (simp_all add: tx_libs_def plain_libs_def)

lemma tx_libs_dec [simp]:
  "dec_metadata tx_libs (put_md (v, sigs)) = Some \<lparr>md_Value = v, md_Signatures = sigs\<rparr>"
  "dec_orderer_block_metadata tx_libs (put_pair (put_opt put_u64) put_bytes (Some n, c)) =
     Some \<lparr>obm_LastConfig = Some \<lparr>lc_Index = n\<rparr>, obm_ConsenterMetadata = c\<rparr>"
  "dec_last_config tx_libs (put_u64 n) = Some \<lparr>lc_Index = n\<rparr>"
  using lossless_dec(6) [OF lossless_tx_libs, of "\<lparr>lc_Index = n\<rparr>"] lossless_dec(5) [OF lossless_tx_libs, of "\<lparr>md_Value = v, md_Signatures = sigs\<rparr>"]
    lossless_dec(7) [OF lossless_tx_libs,
      of "\<lparr>obm_LastConfig = Some \<lparr>lc_Index = n\<rparr>, obm_ConsenterMetadata = c\<rparr>"]
  by simp_all

text \<open>Sizes in this format.\<close>

lemma length_put_simps [simp]:
  "length (put_bytes b) = 2 * length b + 1"
  "length (put_pair p q x) = length (p (fst x)) + length (q (snd x))"
  by (induction b) (simp_all add: put_pair_def)

lemma put_nonempty [simp]: "put_bytes b \<noteq> []" "put_pair put_bytes q x \<noteq> []"
  by (cases b, simp_all add: put_pair_def) (cases "fst x", simp_all)

lemma length_put_u64: "length (put_u64 n) \<le> 17"
proof -
  have "unat n < 256 ^ 8" using unsigned_less [of n, where ?'a = nat] by simp
  then show ?thesis using length_be_bytes_le [of "unat n" 8] by (simp add: put_u64_def)
qed

end
