(* ===== verification/Assembler.thy ===== *)
theory Assembler
  imports Codec BftSignature RuntimeConfig
begin

text \<open>
  Building and signing proposals: \<open>smartbft/assembler.go\<close> and \<open>smartbft/signer.go\<close>.

  The runtime configuration is the value the components load from the shared atomic
  variable.  A ledger is what the code sees of it, its height and its blocks; the signing
  identity is the record \<open>signer_serializer\<close>.
\<close>

subsection \<open>\<open>assembler.go\<close>\<close>

text \<open>
  The loop of \<open>singleConfigTxOrSeveralNonConfigTx\<close>: requests up to the first configuration
  transaction.
\<close>

fun non_config_prefix :: "libs \<Rightarrow> bytes list \<Rightarrow> bytes list go" where
  "non_config_prefix L [] = Ret []"
| "non_config_prefix L (r # rs) =
     (case UnmarshalEnvelope L r of
        Ret env \<Rightarrow>
          if IsConfigTransaction L env then Ret []
          else go_bind (non_config_prefix L rs) (\<lambda>bs. Ret (r # bs))
      | _ \<Rightarrow> Panic ''Programming error, received bad envelope but should have validated it'')"

definition singleConfigTxOrSeveralNonConfigTx :: "libs \<Rightarrow> bytes list \<Rightarrow> bytes list go" where
  "singleConfigTxOrSeveralNonConfigTx L requests =
     go_bind (non_config_prefix L requests) (\<lambda>batched.
     if batched = [] then go_bind (slice_get requests 0) (\<lambda>r. Ret [r]) else Ret batched)"

definition AssembleProposal ::
  "libs \<Rightarrow> runtime_config \<Rightarrow> u64 \<Rightarrow> bytes \<Rightarrow> bytes list \<Rightarrow> proposal go" where
  "AssembleProposal L rtc verificationSeq md requests =
     go_bind (deref (rtc_LastConfigBlock rtc)) (\<lambda>cb.
     go_bind (deref (blk_Header cb)) (\<lambda>cbh.
     if requests = [] then Panic ''Programming error, no requests in proposal''
     else
     go_bind (singleConfigTxOrSeveralNonConfigTx L requests) (\<lambda>batchedRequests.
     go_bind (deref (rtc_LastBlock rtc)) (\<lambda>lastBlock.
     go_bind (deref (blk_Header lastBlock)) (\<lambda>lbh.
     go_bind (header_Hash L lbh) (\<lambda>prevHash.
     let h = \<lparr>hdr_Number = hdr_Number lbh + 1, hdr_PreviousHash = prevHash,
              hdr_DataHash = data_Hash L batchedRequests\<rparr>;
         block = (NewBlock (hdr_Number lbh + 1) prevHash)
              \<lparr>blk_Data := Some batchedRequests, blk_Header := Some h\<rparr>;
         lastConfigBlockNum = (if isConfigBlock L block then hdr_Number h else hdr_Number cbh) in
     go_bind (MarshalOrPanic (enc_last_config L) \<lparr>lc_Index = lastConfigBlockNum\<rparr>) (\<lambda>lc.
     go_bind (MarshalOrPanic (enc_metadata L) \<lparr>md_Value = lc, md_Signatures = []\<rparr>) (\<lambda>lcmd.
     go_bind (MarshalOrPanic (enc_orderer_block_metadata L)
       \<lparr>obm_LastConfig = Some \<lparr>lc_Index = lastConfigBlockNum\<rparr>, obm_ConsenterMetadata = md\<rparr>)
       (\<lambda>obm.
     go_bind (MarshalOrPanic (enc_metadata L) \<lparr>md_Value = obm, md_Signatures = []\<rparr>) (\<lambda>sigmd.
     go_bind (deref (blk_Metadata block)) (\<lambda>mds.
     go_bind (slice_set mds LAST_CONFIG lcmd) (\<lambda>mds1.
     go_bind (slice_set mds1 SIGNATURES sigmd) (\<lambda>mds2.
     go_bind (MarshalOrPanic (enc_block_data L) batchedRequests) (\<lambda>a.
     go_bind (MarshalOrPanic (enc_block_metadata L) mds2) (\<lambda>b.
     go_bind (header_Bytes h) (\<lambda>hb.
     Ret \<lparr>prop_Payload = tuple_ToBytes a b, prop_Header = hb, prop_Metadata = md,
          prop_VerificationSequence = verificationSeq\<rparr>))))))))))))))))"

record ledger =
  ldg_Height :: u64
  ldg_Block :: "u64 \<Rightarrow> block option"

definition lastConfigBlockFromLedger :: "libs \<Rightarrow> ledger \<Rightarrow> block go" where
  "lastConfigBlockFromLedger L ldg =
     (let lastBlockSeq = ldg_Height ldg - 1 in
      case ldg_Block ldg lastBlockSeq of
        None \<Rightarrow> Err (Errorf ''unable to retrieve block'')
      | Some lastBlock \<Rightarrow> LastConfigBlock L (Some lastBlock) (Some (ldg_Block ldg)))"

definition LastConfigBlockFromLedgerOrPanic :: "libs \<Rightarrow> ledger \<Rightarrow> block go" where
  "LastConfigBlockFromLedgerOrPanic L ldg =
     or_panic ''Failed retrieving last config block'' (lastConfigBlockFromLedger L ldg)"

definition previousConfigBlockFromLedger :: "libs \<Rightarrow> ledger \<Rightarrow> block go" where
  "previousConfigBlockFromLedger L ldg =
     (let previousBlockSeq = (if ldg_Height ldg = 1 then 0 else ldg_Height ldg - 2) in
      case ldg_Block ldg previousBlockSeq of
        None \<Rightarrow> Err (Errorf ''unable to retrieve block'')
      | Some previousBlock \<Rightarrow> LastConfigBlock L (Some previousBlock) (Some (ldg_Block ldg)))"

definition PreviousConfigBlockFromLedgerOrPanic :: "libs \<Rightarrow> ledger \<Rightarrow> block go" where
  "PreviousConfigBlockFromLedgerOrPanic L ldg =
     or_panic ''Failed retrieving previous config block'' (previousConfigBlockFromLedger L ldg)"

definition LastBlockFromLedgerOrPanic :: "ledger \<Rightarrow> block go" where
  "LastBlockFromLedgerOrPanic ldg =
     (case ldg_Block ldg (ldg_Height ldg - 1) of
        None \<Rightarrow> Panic ''Failed retrieving last block''
      | Some b \<Rightarrow> Ret b)"

subsection \<open>\<open>signer.go\<close>\<close>

text \<open>The identity that signs, and the source of nonces.\<close>

record signer_serializer =
  ss_Sign :: "bytes \<Rightarrow> bytes go"
  ss_Serialize :: "bytes go"
  ss_GetRandomNonce :: "bytes go"

record signer =
  sgn_ID :: u64
  sgn_SignerSerializer :: signer_serializer
  sgn_LastConfigBlockNum :: "block \<Rightarrow> u64 go"

definition Sign :: "signer \<Rightarrow> bytes \<Rightarrow> bytes go" where
  "Sign s msg = or_panic ''Failed signing message'' (ss_Sign (sgn_SignerSerializer s) msg)"

definition SignOrPanic :: "signer_serializer \<Rightarrow> bytes \<Rightarrow> bytes go" where
  "SignOrPanic ss msg = or_panic ''failed generating signature'' (ss_Sign ss msg)"

definition newSignatureHeaderOrPanic :: "signer \<Rightarrow> bytes \<Rightarrow> signature_header go" where
  "newSignatureHeaderOrPanic s nonce =
     go_bind (or_panic ''Serialize'' (ss_Serialize (sgn_SignerSerializer s))) (\<lambda>creator.
     Ret \<lparr>sh_Creator = creator, sh_Nonce = nonce\<rparr>)"

definition randomNonceOrPanic :: "signer_serializer \<Rightarrow> bytes go" where
  "randomNonceOrPanic ss = or_panic ''GetRandomNonce'' (ss_GetRandomNonce ss)"

definition SignProposal :: "libs \<Rightarrow> signer \<Rightarrow> proposal \<Rightarrow> bytes \<Rightarrow> bft_signature go" where
  "SignProposal L s proposal auxiliaryInput =
     go_bind (or_panic ''Tried to sign bad proposal'' (ProposalToBlock L proposal)) (\<lambda>block.
     go_bind (randomNonceOrPanic (sgn_SignerSerializer s)) (\<lambda>nonce.
     go_bind (deref (blk_Header block)) (\<lambda>h.
     go_bind (header_Bytes h) (\<lambda>hb.
     go_bind (newSignatureHeaderOrPanic s nonce) (\<lambda>sh.
     go_bind (MarshalOrPanic (enc_signature_header L) sh) (\<lambda>shb.
     go_bind (sgn_LastConfigBlockNum s block) (\<lambda>lcn.
     go_bind (MarshalOrPanic (enc_orderer_block_metadata L)
        \<lparr>obm_LastConfig = Some \<lparr>lc_Index = lcn\<rparr>,
         obm_ConsenterMetadata = prop_Metadata proposal\<rparr>) (\<lambda>obm.
     let sig = \<lparr>sig_Nonce = nonce, sig_SignatureHeader = shb, sig_BlockHeader = hb,
                sig_OrdererBlockMetadata = obm, sig_AuxiliaryInput = auxiliaryInput\<rparr> in
     go_bind (SignOrPanic (sgn_SignerSerializer s) (sig_AsBytes sig)) (\<lambda>sg.
     Ret \<lparr>bsig_ID = sgn_ID s, bsig_Value = sg,
          bsig_Msg = sig_Marshal (sig\<lparr>sig_SignatureHeader := []\<rparr>)\<rparr>)))))))))"

text \<open>
  The function \<open>bftSmartConsensusBuild\<close> gives the signer: the number of the block itself
  for a configuration block, otherwise of the last configuration block.
\<close>

definition LastConfigBlockNum :: "libs \<Rightarrow> runtime_config \<Rightarrow> block \<Rightarrow> u64 go" where
  "LastConfigBlockNum L rtc block =
     (if isConfigBlock L block then go_bind (deref (blk_Header block)) (\<lambda>h. Ret (hdr_Number h))
      else go_bind (deref (rtc_LastConfigBlock rtc)) (\<lambda>cb.
           go_bind (deref (blk_Header cb)) (\<lambda>h. Ret (hdr_Number h))))"

subsection \<open>Batches\<close>

lemma non_config_prefix_Ret:
  assumes "non_config_prefix L rs = Ret bs"
  shows "\<exists>rest. rs = bs @ rest \<and>
    (\<forall>r \<in> set bs. \<exists>e. dec_envelope L r = Some e \<and> \<not> IsConfigTransaction L e) \<and>
    (rest = [] \<or> (\<exists>e. dec_envelope L (hd rest) = Some e \<and> IsConfigTransaction L e))"
  using assms
proof (induction rs arbitrary: bs)
  case Nil
  then show ?case by simp
next
  case (Cons r rs)
  from Cons.prems obtain e where e: "dec_envelope L r = Some e"
    by (cases "dec_envelope L r") (auto simp: UnmarshalEnvelope_def)
  show ?case
  proof (cases "IsConfigTransaction L e")
    case True
    with Cons.prems e have "bs = []" by (simp add: UnmarshalEnvelope_def)
    with e True show ?thesis by simp
  next
    case False
    with Cons.prems e obtain bs' where bs: "bs = r # bs'" "non_config_prefix L rs = Ret bs'"
      by (auto simp: UnmarshalEnvelope_def go_simps)
    from Cons.IH [OF bs(2)] e False bs(1) show ?thesis by auto
  qed
qed

subsection \<open>What an assembled proposal unpacks to\<close>

lemma isConfigBlock_cong: "blk_Data b = blk_Data b' \<Longrightarrow> isConfigBlock L b = isConfigBlock L b'"
  by (simp add: isConfigBlock_def)

text \<open>Sizes that the ASN.1 decoder accepts.\<close>

definition fits :: "proposal \<Rightarrow> bool" where
  "fits p \<longleftrightarrow> length (prop_Payload p) + 12 < 2 ^ 31 \<and> length (prop_Header p) + 40 < 2 ^ 31"

lemma length_der_octets_ge: "length b \<le> length (der_octets b)"
  by (simp add: der_octets_def der_tlv_def)

lemma length_tuple_ge: "length a + length b \<le> length (tuple_ToBytes a b)"
  using length_der_octets_ge [of a] length_der_octets_ge [of b]
  by (simp add: tuple_ToBytes_def der_sequence_def der_tlv_def)

lemma length_header_ge:
  assumes "header_Bytes h = Ret b"
  shows "length (hdr_PreviousHash h) + length (hdr_DataHash h) \<le> length b"
  using assms length_der_octets_ge [of "hdr_PreviousHash h"] length_der_octets_ge [of "hdr_DataHash h"]
  by (auto simp: header_Bytes_Ret_iff der_sequence_def der_tlv_def)

text \<open>The pieces of an assembled proposal, as they are marshalled.\<close>

lemma AssembleProposal_Ret:
  assumes "AssembleProposal L rtc vseq md requests = Ret p"
  obtains batch h lb lbh cb cbh n lc lcmd obm sigmd a b where
    "rtc_LastBlock rtc = Some lb" "blk_Header lb = Some lbh"
    "rtc_LastConfigBlock rtc = Some cb" "blk_Header cb = Some cbh"
    "singleConfigTxOrSeveralNonConfigTx L requests = Ret batch"
    "header_Hash L lbh = Ret (hdr_PreviousHash h)" "hdr_DataHash h = data_Hash L batch"
    "hdr_Number h = hdr_Number lbh + 1" "header_Bytes h = Ret (prop_Header p)"
    "n = (if isConfigBlock L \<lparr>blk_Header = Some h, blk_Data = Some batch,
            blk_Metadata = Some [sigmd, lcmd, [], [], []]\<rparr>
          then hdr_Number h else hdr_Number cbh)"
    "enc_last_config L \<lparr>lc_Index = n\<rparr> = Some lc"
    "enc_metadata L \<lparr>md_Value = lc, md_Signatures = []\<rparr> = Some lcmd"
    "enc_orderer_block_metadata L
       \<lparr>obm_LastConfig = Some \<lparr>lc_Index = n\<rparr>, obm_ConsenterMetadata = md\<rparr> = Some obm"
    "enc_metadata L \<lparr>md_Value = obm, md_Signatures = []\<rparr> = Some sigmd"
    "enc_block_data L batch = Some a" "enc_block_metadata L [sigmd, lcmd, [], [], []] = Some b"
    "prop_Payload p = tuple_ToBytes a b" "prop_Metadata p = md" "prop_VerificationSequence p = vseq"
proof -
  from assms obtain cb cbh batch lb lbh prevHash where pre:
    "rtc_LastConfigBlock rtc = Some cb" "blk_Header cb = Some cbh"
    "singleConfigTxOrSeveralNonConfigTx L requests = Ret batch"
    "rtc_LastBlock rtc = Some lb" "blk_Header lb = Some lbh" "header_Hash L lbh = Ret prevHash"
    unfolding AssembleProposal_def go_bind_Ret_iff deref_simps guard_Ret_iff by blast
  define h where "h = \<lparr>hdr_Number = hdr_Number lbh + 1, hdr_PreviousHash = prevHash,
              hdr_DataHash = data_Hash L batch\<rparr>"
  define n where "n = (if isConfigBlock L \<lparr>blk_Header = Some h, blk_Data = Some batch,
              blk_Metadata = Some [[], [], [], [], []]\<rparr> then hdr_Number h else hdr_Number cbh)"
  from assms pre obtain lc lcmd obm sigmd a b hb where enc:
    "enc_last_config L \<lparr>lc_Index = n\<rparr> = Some lc"
    "enc_metadata L \<lparr>md_Value = lc, md_Signatures = []\<rparr> = Some lcmd"
    "enc_orderer_block_metadata L
       \<lparr>obm_LastConfig = Some \<lparr>lc_Index = n\<rparr>, obm_ConsenterMetadata = md\<rparr> = Some obm"
    "enc_metadata L \<lparr>md_Value = obm, md_Signatures = []\<rparr> = Some sigmd"
    "enc_block_data L batch = Some a" "enc_block_metadata L [sigmd, lcmd, [], [], []] = Some b"
    "header_Bytes h = Ret hb"
    "p = \<lparr>prop_Payload = tuple_ToBytes a b, prop_Header = hb, prop_Metadata = md,
          prop_VerificationSequence = vseq\<rparr>"
    unfolding AssembleProposal_def go_bind_Ret_iff deref_simps guard_Ret_iff Let_def
    by (auto simp: n_def h_def NewBlock_def BlockMetadataIndex_count_def numeral_eq_Suc
        cong: if_cong)
  have cfg: "n = (if isConfigBlock L \<lparr>blk_Header = Some h, blk_Data = Some batch,
      blk_Metadata = Some [sigmd, lcmd, [], [], []]\<rparr> then hdr_Number h else hdr_Number cbh)"
    unfolding n_def by (simp add: isConfigBlock_def)
  show thesis
    by (rule that [OF pre(4,5,1,2,3) _ _ _ _ cfg enc(1-6)]) (simp_all add: pre enc(7,8) h_def enc(7) [unfolded h_def])
qed

lemma assembled_unpack:
  assumes "lossless L" and "fits p" and "prop_Payload p = tuple_ToBytes a b"
    and "header_Bytes h = Ret (prop_Header p)"
    and "enc_block_data L batch = Some a" and "enc_block_metadata L mds = Some b"
  shows "ProposalToBlock L p =
    Ret \<lparr>blk_Header = Some h, blk_Data = Some batch, blk_Metadata = Some mds\<rparr>"
proof -
  have fit: "length a + length b + 12 < 2 ^ 31"
      "length (hdr_PreviousHash h) + length (hdr_DataHash h) + 40 < 2 ^ 31"
    using assms(2) length_tuple_ge [of a b] length_header_ge [OF assms(4)]
    by (simp_all add: fits_def assms(3))
  show ?thesis
    by (rule ProposalToBlock_pack [OF assms(4,3) _ _ fit])
      (simp_all add: lossless_dec(3,4) [OF assms(1)] assms(5,6))
qed

lemma AssembleProposal_block:
  assumes "lossless L" and "AssembleProposal L rtc vseq md requests = Ret p" and "fits p"
  obtains batch h mds lb lbh cb cbh n where
    "rtc_LastBlock rtc = Some lb" "blk_Header lb = Some lbh"
    "rtc_LastConfigBlock rtc = Some cb" "blk_Header cb = Some cbh"
    "singleConfigTxOrSeveralNonConfigTx L requests = Ret batch"
    "ProposalToBlock L p = Ret \<lparr>blk_Header = Some h, blk_Data = Some batch, blk_Metadata = Some mds\<rparr>"
    "header_Bytes h = Ret (prop_Header p)" "header_Hash L lbh = Ret (hdr_PreviousHash h)"
    "hdr_DataHash h = data_Hash L batch" "hdr_Number h = hdr_Number lbh + 1"
    "n = (if isConfigBlock L \<lparr>blk_Header = Some h, blk_Data = Some batch, blk_Metadata = Some mds\<rparr>
          then hdr_Number h else hdr_Number cbh)"
    "length mds = BlockMetadataIndex_count"
    "\<exists>b. dec_metadata L (mds ! SIGNATURES) = Some \<lparr>md_Value = b, md_Signatures = []\<rparr> \<and>
         dec_orderer_block_metadata L b =
           Some \<lparr>obm_LastConfig = Some \<lparr>lc_Index = n\<rparr>, obm_ConsenterMetadata = md\<rparr>"
    "\<exists>b. dec_metadata L (mds ! LAST_CONFIG) = Some \<lparr>md_Value = b, md_Signatures = []\<rparr> \<and>
         dec_last_config L b = Some \<lparr>lc_Index = n\<rparr>"
    "prop_Metadata p = md" "prop_VerificationSequence p = vseq"
proof (rule AssembleProposal_Ret [OF assms(2)])
  fix batch h lb lbh cb cbh n lc lcmd obm sigmd a b
  let ?mds = "[sigmd, lcmd, [], [], []] :: bytes list"
  let ?b = "\<lparr>blk_Header = Some h, blk_Data = Some batch, blk_Metadata = Some ?mds\<rparr>"
  assume pre: "rtc_LastBlock rtc = Some lb" "blk_Header lb = Some lbh"
      "rtc_LastConfigBlock rtc = Some cb" "blk_Header cb = Some cbh"
      "singleConfigTxOrSeveralNonConfigTx L requests = Ret batch"
    and hdr: "header_Hash L lbh = Ret (hdr_PreviousHash h)" "hdr_DataHash h = data_Hash L batch"
      "hdr_Number h = hdr_Number lbh + 1" "header_Bytes h = Ret (prop_Header p)"
    and n: "n = (if isConfigBlock L ?b then hdr_Number h else hdr_Number cbh)"
    and enc: "enc_last_config L \<lparr>lc_Index = n\<rparr> = Some lc"
      "enc_metadata L \<lparr>md_Value = lc, md_Signatures = []\<rparr> = Some lcmd"
      "enc_orderer_block_metadata L
         \<lparr>obm_LastConfig = Some \<lparr>lc_Index = n\<rparr>, obm_ConsenterMetadata = md\<rparr> = Some obm"
      "enc_metadata L \<lparr>md_Value = obm, md_Signatures = []\<rparr> = Some sigmd"
      "enc_block_data L batch = Some a" "enc_block_metadata L ?mds = Some b"
    and p: "prop_Payload p = tuple_ToBytes a b" "prop_Metadata p = md" "prop_VerificationSequence p = vseq"
  have "ProposalToBlock L p = Ret ?b"
    by (rule assembled_unpack [OF assms(1,3) p(1) hdr(4) enc(5,6)])
  moreover have "\<exists>b. dec_metadata L (?mds ! SIGNATURES) = Some \<lparr>md_Value = b, md_Signatures = []\<rparr> \<and>
       dec_orderer_block_metadata L b =
         Some \<lparr>obm_LastConfig = Some \<lparr>lc_Index = n\<rparr>, obm_ConsenterMetadata = md\<rparr>"
    "\<exists>b. dec_metadata L (?mds ! LAST_CONFIG) = Some \<lparr>md_Value = b, md_Signatures = []\<rparr> \<and>
       dec_last_config L b = Some \<lparr>lc_Index = n\<rparr>"
    using enc lossless_dec [OF assms(1)] by auto
  ultimately show thesis
    using pre hdr n p by (intro that [of lb lbh cb cbh batch h ?mds n])
      (simp_all add: BlockMetadataIndex_count_def)
qed

text \<open>
  A batch is never empty and never mixes: it is a prefix of the requests that holds no
  configuration transaction and stops only at one or at the end, or it is the first
  request alone, which then is a configuration transaction.
\<close>

theorem batch_single_config_or_no_config:
  assumes "requests \<noteq> []" and "singleConfigTxOrSeveralNonConfigTx L requests = Ret batch"
  shows "\<exists>rest. requests = batch @ rest \<and> batch \<noteq> [] \<and>
    ((\<exists>r e. batch = [r] \<and> dec_envelope L r = Some e \<and> IsConfigTransaction L e) \<or>
     (\<forall>r \<in> set batch. \<exists>e. dec_envelope L r = Some e \<and> \<not> IsConfigTransaction L e) \<and>
     (rest = [] \<or> (\<exists>e. dec_envelope L (hd rest) = Some e \<and> IsConfigTransaction L e)))"
proof -
  from assms(2) obtain bs where bs: "non_config_prefix L requests = Ret bs"
    and cond: "(if bs = [] then go_bind (slice_get requests 0) (\<lambda>r. Ret [r]) else Ret bs) = Ret batch"
    by (auto simp: singleConfigTxOrSeveralNonConfigTx_def go_simps)
  have batch: "batch = (if bs = [] then [hd requests] else bs)"
    using cond assms(1) by (auto simp: hd_conv_nth split: if_splits)
  from non_config_prefix_Ret [OF bs] obtain rest where rest: "requests = bs @ rest"
    "\<forall>r \<in> set bs. \<exists>e. dec_envelope L r = Some e \<and> \<not> IsConfigTransaction L e"
    "rest = [] \<or> (\<exists>e. dec_envelope L (hd rest) = Some e \<and> IsConfigTransaction L e)"
    by blast
  show ?thesis
  proof (cases "bs = []")
    case True
    with rest assms(1) obtain e where "dec_envelope L (hd requests) = Some e"
        "IsConfigTransaction L e" by auto
    with True batch assms(1) show ?thesis by (intro exI [of _ "tl requests"]) auto
  next
    case False
    with rest batch show ?thesis by (intro exI [of _ rest]) auto
  qed
qed

theorem batch_single_config_or_no_config_witness:
  "\<exists>rest. [tx_bytes 3, tx_bytes 1] = [tx_bytes 3] @ rest \<and> [tx_bytes 3] \<noteq> [] \<and>
    ((\<exists>r e. [tx_bytes 3] = [r] \<and> dec_envelope tx_libs r = Some e \<and> IsConfigTransaction tx_libs e) \<or>
     (\<forall>r \<in> set [tx_bytes 3]. \<exists>e. dec_envelope tx_libs r = Some e \<and> \<not> IsConfigTransaction tx_libs e) \<and>
     (rest = [] \<or> (\<exists>e. dec_envelope tx_libs (hd rest) = Some e \<and> IsConfigTransaction tx_libs e)))"
  by (rule batch_single_config_or_no_config)
    (simp_all add: singleConfigTxOrSeveralNonConfigTx_def UnmarshalEnvelope_def
      IsConfigTransaction_iff tx_payload_def tx_channel_header_def)

end
