(* ===== verification/Verifier.thy ===== *)
theory Verifier
  imports Assembler "HOL-Library.Multiset"
begin

text \<open>
  Checking proposals, requests and signatures: \<open>smartbft/verifier.go\<close>.

  Policies are evaluated outside the model: \<open>v_ConsenterVerifier\<close> and \<open>v_AccessController\<close>
  take the signed data and return an error or nothing, and \<open>v_ConfigValidator\<close> is the
  configuration validator (the theory on \<open>configverifier.go\<close> provides one).
\<close>

record verifier =
  v_RuntimeConfig :: runtime_config
  v_ValidateIdentity :: "serialized_identity \<Rightarrow> unit go"
  v_ConsenterVerifier :: "signed_data list \<Rightarrow> unit go"
  v_AccessController :: "signed_data list \<Rightarrow> unit go"
  v_Sequence :: u64
  v_ConfigValidator :: "envelope \<Rightarrow> unit go"

text \<open>
  \<open>IdentityToID\<close> ranges over a Go map in an arbitrary order: \<open>entries\<close> lists it in the order
  of this call.  An entry that does not decode leaves \<open>partial\<close> in the message.
\<close>

fun IdentityToID_loop :: "libs \<Rightarrow> (bytes \<Rightarrow> serialized_identity) \<Rightarrow> serialized_identity \<Rightarrow>
    (u64 \<times> bytes) list \<Rightarrow> u64 \<times> bool" where
  "IdentityToID_loop L partial sID [] = (0, False)"
| "IdentityToID_loop L partial sID ((i, currIdentity) # rest) =
     (let currentID = (case dec_serialized_identity L currIdentity of
                         Some x \<Rightarrow> x | None \<Rightarrow> partial currIdentity) in
      if currentID = sID then (i, True) else IdentityToID_loop L partial sID rest)"

definition IdentityToID :: "libs \<Rightarrow> (bytes \<Rightarrow> serialized_identity) \<Rightarrow> (u64 \<times> bytes) list \<Rightarrow> bytes \<Rightarrow>
    u64 \<times> bool" where
  "IdentityToID L partial entries ident =
     (case dec_serialized_identity L ident of
        None \<Rightarrow> (0, False)
      | Some sID \<Rightarrow> IdentityToID_loop L partial sID entries)"

text \<open>A signature message that does not decode leaves \<open>partial\<close>, whose auxiliary input is returned.\<close>

definition AuxiliaryData :: "(bytes \<Rightarrow> signature) \<Rightarrow> bytes \<Rightarrow> bytes" where
  "AuxiliaryData partial msg =
     (case sig_Unmarshal msg of Ret sig \<Rightarrow> sig_AuxiliaryInput sig | _ \<Rightarrow> sig_AuxiliaryInput (partial msg))"

definition verifyHashChain :: "libs \<Rightarrow> block \<Rightarrow> string \<Rightarrow> unit go" where
  "verifyHashChain L b prevHeaderHash =
     go_bind (deref (blk_Header b)) (\<lambda>h.
     if prevHeaderHash \<noteq> hex_encode (hdr_PreviousHash h)
     then Err (Errorf ''previous header hash mismatch'')
     else
       go_bind (deref (blk_Data b)) (\<lambda>d.
       if hex_encode (hdr_DataHash h) \<noteq> hex_encode (data_Hash L d)
       then Err (Errorf ''data hash mismatch'') else Ret ()))"

definition verifyRequest :: "libs \<Rightarrow> verifier \<Rightarrow> bytes \<Rightarrow> bool \<Rightarrow> request_info go" where
  "verifyRequest L V rawRequest noConfigAllowed =
     go_bind (unwrapReq L rawRequest) (\<lambda>req.
     go_bind (wrap_err ''access denied'' (v_AccessController V
       [\<lparr>sd_Data = env_Payload (req_envelope req), sd_Identity = sh_Creator (req_sigHdr req),
         sd_Signature = env_Signature (req_envelope req)\<rparr>])) (\<lambda>_.
     let t = ch_Type (req_chHdr req) in
     if noConfigAllowed \<and> t \<noteq> HeaderType_ENDORSER_TRANSACTION
     then Err (Errorf ''only endorser transactions can be sent with other transactions'')
     else if \<not> (t = HeaderType_CONFIG \<or> t = HeaderType_ORDERER_TRANSACTION \<or>
                t = HeaderType_ENDORSER_TRANSACTION)
     then Err (Errorf ''transaction type is not allowed to be included in blocks'')
     else
       go_bind (if t = HeaderType_CONFIG \<or> t = HeaderType_ORDERER_TRANSACTION
                then v_ConfigValidator V (req_envelope req) else Ret ()) (\<lambda>_.
       requestIDFromSigHeader L (v_ValidateIdentity V) (req_sigHdr req))))"

definition VerifyRequest :: "libs \<Rightarrow> verifier \<Rightarrow> bytes \<Rightarrow> request_info go" where
  "VerifyRequest L V rawRequest = verifyRequest L V rawRequest False"

text \<open>
  \<open>validateTransactions\<close> checks every transaction in a goroutine of its own and reads the
  outcomes from a channel: \<open>order\<close> lists the indices in the order they arrive there.  A
  panic in any goroutine ends the process.
\<close>

fun first_panic :: "'a go list \<Rightarrow> string option" where
  "first_panic [] = None"
| "first_panic (x # xs) = (case x of Panic p \<Rightarrow> Some p | _ \<Rightarrow> first_panic xs)"

definition collect_validation ::
  "request_info go list \<Rightarrow> (nat \<Rightarrow> request_info option) \<Rightarrow> nat \<Rightarrow> (nat \<Rightarrow> request_info option) go" where
  "collect_validation results m i =
     go_bind (slice_get results i) (\<lambda>r. go_bind r (\<lambda>info. Ret (m(i \<mapsto> info))))"

definition validateTransactions ::
  "nat list \<Rightarrow> (bytes \<Rightarrow> bool \<Rightarrow> request_info go) \<Rightarrow> bytes list \<Rightarrow> request_info list go" where
  "validateTransactions order verifyReq blockData =
     (let noConfigAllowed = 1 < length blockData;
          results = map (\<lambda>payload. verifyReq payload noConfigAllowed) blockData in
      case first_panic results of
        Some p \<Rightarrow> Panic p
      | None \<Rightarrow>
          go_bind (go_fold (collect_validation results) Map.empty order) (\<lambda>m.
          Ret (map (\<lambda>i. case m i of Some info \<Rightarrow> info | None \<Rightarrow> empty_request_info)
                 [0..<length blockData])))"

text \<open>The number of the configuration block a block must point to (the \<open>lastConfig\<close> of the check below).\<close>

definition last_config_number :: "libs \<Rightarrow> verifier \<Rightarrow> block \<Rightarrow> u64 go" where
  "last_config_number L V b =
     go_bind (deref (rtc_LastConfigBlock (v_RuntimeConfig V))) (\<lambda>cb.
     go_bind (deref (blk_Header cb)) (\<lambda>cbh.
     if isConfigBlock L b then go_bind (deref (blk_Header b)) (\<lambda>h. Ret (hdr_Number h))
     else Ret (hdr_Number cbh)))"

definition verifyBlockDataAndMetadata ::
  "libs \<Rightarrow> verifier \<Rightarrow> nat list \<Rightarrow> block \<Rightarrow> bytes \<Rightarrow> request_info list go" where
  "verifyBlockDataAndMetadata L V order b md =
     (case blk_Data b of
        None \<Rightarrow> Err (Errorf ''empty block data'')
      | Some [] \<Rightarrow> Err (Errorf ''empty block data'')
      | Some d \<Rightarrow>
     (case blk_Metadata b of
        None \<Rightarrow> Err (Errorf ''block metadata is either missing or contains too few entries'')
      | Some mds \<Rightarrow>
     if length mds < BlockMetadataIndex_count
     then Err (Errorf ''block metadata is either missing or contains too few entries'')
     else
     go_bind (GetMetadataFromBlock L b SIGNATURES) (\<lambda>signatureMetadata.
     go_bind (wrap_err ''failed unmarshaling OrdererBlockMetadata''
       (unmarshal (dec_orderer_block_metadata L) (md_Value signatureMetadata))) (\<lambda>obm.
     go_bind (wrap_err ''failed unmarshaling smartbft metadata from block''
       (unmarshal (dec_view_metadata L) (obm_ConsenterMetadata obm))) (\<lambda>metadataInBlock.
     go_bind (wrap_err ''failed unmarshaling smartbft metadata from proposal''
       (unmarshal (dec_view_metadata L) md)) (\<lambda>metadataFromProposal.
     if metadataInBlock \<noteq> metadataFromProposal
     then Err (Errorf ''unexpected metadata in block'')
     else
     go_bind (last_config_number L V b) (\<lambda>lastConfig.
     case obm_LastConfig obm of
       None \<Rightarrow> Err (Errorf ''last config is nil'')
     | Some lc \<Rightarrow>
     if lc_Index lc \<noteq> lastConfig
     then Err (Errorf ''last config in block orderer metadata does not point to our last config'')
     else
     go_bind (GetMetadataFromBlock L b LAST_CONFIG) (\<lambda>rawLastConfig.
     go_bind (unmarshal (dec_last_config L) (md_Value rawLastConfig)) (\<lambda>lastConf.
     if lc_Index lastConf \<noteq> lastConfig
     then Err (Errorf ''last config in block metadata does not point to our last config'')
     else validateTransactions order (verifyRequest L V) d)))))))))"

definition VerifyProposal ::
  "libs \<Rightarrow> verifier \<Rightarrow> nat list \<Rightarrow> proposal \<Rightarrow> request_info list go" where
  "VerifyProposal L V order proposal =
     go_bind (ProposalToBlock L proposal) (\<lambda>b.
     go_bind (verifyHashChain L b (rtc_LastCommittedBlockHash (v_RuntimeConfig V))) (\<lambda>_.
     go_bind (verifyBlockDataAndMetadata L V order b (prop_Metadata proposal)) (\<lambda>requests.
     if v_Sequence V \<noteq> prop_VerificationSequence proposal
     then Err (Errorf ''unexpected verification sequence'')
     else Ret requests)))"

definition RequestsFromProposal :: "libs \<Rightarrow> verifier \<Rightarrow> proposal \<Rightarrow> request_info list go" where
  "RequestsFromProposal L V proposal =
     (case ProposalToBlock L proposal of
        Panic p \<Rightarrow> Panic p
      | Err _ \<Rightarrow> Ret []
      | Ret b \<Rightarrow>
          (case blk_Data b of
             None \<Rightarrow> Ret []
           | Some d \<Rightarrow> go_map (RequestID L (v_ValidateIdentity V)) d))"

definition VerifySignature :: "verifier \<Rightarrow> bft_signature \<Rightarrow> unit go" where
  "VerifySignature V sig =
     (case rtc_ID2Identities (v_RuntimeConfig V) (bsig_ID sig) of
        None \<Rightarrow> Err (Errorf ''node with id doesn't exist'')
      | Some ident \<Rightarrow>
          v_AccessController V [\<lparr>sd_Data = bsig_Msg sig, sd_Identity = ident,
                                 sd_Signature = bsig_Value sig\<rparr>])"

definition verifySignatureIsBoundToProposal ::
  "libs \<Rightarrow> signature \<Rightarrow> bytes \<Rightarrow> proposal \<Rightarrow> unit go" where
  "verifySignatureIsBoundToProposal L sig ident prop =
     (if prop_Header prop \<noteq> sig_BlockHeader sig then Err (Errorf ''mismatched block header'')
      else
      go_bind (wrap_err ''malformed signature header''
        (unmarshal (dec_signature_header L) (sig_SignatureHeader sig))) (\<lambda>sigHdr.
      if sh_Creator sigHdr \<noteq> ident
      then Err (Errorf ''identity in signature header does not match expected identity'')
      else
      go_bind (wrap_err ''malformed orderer metadata in signature''
        (unmarshal (dec_orderer_block_metadata L) (sig_OrdererBlockMetadata sig))) (\<lambda>ordererMD.
      if obm_ConsenterMetadata ordererMD \<noteq> prop_Metadata prop
      then Err (Errorf ''consenter metadata in OrdererBlockMetadata doesn't match proposal'')
      else
      go_bind (ProposalToBlock L prop) (\<lambda>b.
      go_bind (deref (blk_Metadata b)) (\<lambda>mds.
      if length mds \<noteq> BlockMetadataIndex_count
      then Err (Errorf ''block metadata is of the wrong size'')
      else
      go_bind (slice_get mds SIGNATURES) (\<lambda>raw.
      go_bind (wrap_err ''malformed signature metadata'' (unmarshal (dec_metadata L) raw))
        (\<lambda>signatureMetadata.
      go_bind (wrap_err ''malformed orderer metadata in block''
        (unmarshal (dec_orderer_block_metadata L) (md_Value signatureMetadata))) (\<lambda>fromBlock.
      if fromBlock \<noteq> ordererMD
      then Err (Errorf ''signature's OrdererBlockMetadata and that of the block do not match'')
      else Ret ()))))))))"

definition VerifyConsenterSig :: "libs \<Rightarrow> verifier \<Rightarrow> bft_signature \<Rightarrow> proposal \<Rightarrow> bytes go" where
  "VerifyConsenterSig L V s prop =
     (case rtc_ID2Identities (v_RuntimeConfig V) (bsig_ID s) of
        None \<Rightarrow> Err (Errorf ''node with id doesn't exist'')
      | Some ident \<Rightarrow>
          go_bind (wrap_err ''malformed signature format'' (sig_Unmarshal (bsig_Msg s))) (\<lambda>sig0.
          go_bind (MarshalOrPanic (enc_signature_header L)
            \<lparr>sh_Creator = ident, sh_Nonce = sig_Nonce sig0\<rparr>) (\<lambda>shb.
          let sig = sig0\<lparr>sig_SignatureHeader := shb\<rparr> in
          go_bind (verifySignatureIsBoundToProposal L sig ident prop) (\<lambda>_.
          go_bind (v_ConsenterVerifier V
            [\<lparr>sd_Data = ConcatenateBytes [sig_OrdererBlockMetadata sig, sig_SignatureHeader sig,
                 sig_BlockHeader sig, sig_AuxiliaryInput sig],
               sd_Identity = ident, sd_Signature = bsig_Value s\<rparr>]) (\<lambda>_.
          Ret (sig_AuxiliaryInput sig))))))"

text \<open>
  \<open>consenterVerifier.Evaluate\<close> and \<open>chainACL.Evaluate\<close>: a policy manager maps names to
  policies.
\<close>

definition consenterVerifier_Evaluate ::
  "(string \<Rightarrow> (signed_data list \<Rightarrow> unit go) option) \<Rightarrow> signed_data list \<Rightarrow> unit go" where
  "consenterVerifier_Evaluate GetPolicy signatureSet =
     (case GetPolicy ''/Channel/Orderer/Writers'' of
        None \<Rightarrow> Err (Errorf ''could not find policy'')
      | Some policy \<Rightarrow> policy signatureSet)"

definition chainACL_Evaluate ::
  "(string \<Rightarrow> (signed_data list \<Rightarrow> unit go) option) \<Rightarrow> signed_data list \<Rightarrow> unit go" where
  "chainACL_Evaluate GetPolicy signatureSet =
     (case GetPolicy ''/Channel/Writers'' of
        None \<Rightarrow> Err (Errorf ''could not find policy'')
      | Some policy \<Rightarrow> wrap_err ''permission denied'' (policy signatureSet))"

subsection \<open>Concurrent validation\<close>

definition info_of :: "request_info go \<Rightarrow> request_info" where
  "info_of r = (case r of Ret x \<Rightarrow> x | _ \<Rightarrow> empty_request_info)"

lemma info_of_Ret [simp]: "info_of (Ret x) = x"
  by (simp add: info_of_def)

lemma first_panic_None_iff: "first_panic xs = None \<longleftrightarrow> (\<forall>x \<in> set xs. no_panic x)"
  by (induction xs) (auto split: go.splits)

lemma collect_fold_Ret_iff:
  "go_fold (collect_validation rs) m order = Ret m' \<longleftrightarrow>
     (\<forall>i \<in> set order. i < length rs \<and> is_ok (rs ! i)) \<and>
     m' = (\<lambda>i. if i \<in> set order then Some (info_of (rs ! i)) else m i)"
proof (induction order arbitrary: m)
  case Nil
  then show ?case by auto
next
  case (Cons j order)
  show ?case
  proof (cases "j < length rs \<and> is_ok (rs ! j)")
    case True
    then obtain x where x: "rs ! j = Ret x" by (auto simp: is_ok_iff)
    with True have step: "collect_validation rs m j = Ret (m(j \<mapsto> x))"
      by (simp add: collect_validation_def)
    have "(\<lambda>i. if i \<in> set order then Some (info_of (rs ! i)) else (m(j \<mapsto> x)) i) =
        (\<lambda>i. if i \<in> set (j # order) then Some (info_of (rs ! i)) else m i)"
      using x by auto
    with True show ?thesis by (simp add: step Cons.IH)
  next
    case False
    then have "\<not> is_ok (collect_validation rs m j)"
      by (auto simp: collect_validation_def slice_get_def is_ok_def split: go.splits)
    then have "\<not> is_ok (go_fold (collect_validation rs) m (j # order))"
      by (cases "collect_validation rs m j") auto
    with False show ?thesis by (auto simp del: go_fold.simps)
  qed
qed

lemma is_ok_no_panic: "is_ok x \<Longrightarrow> no_panic x"
  by (cases x) auto

text \<open>
  Whatever the order in which the goroutines finish, the block passes exactly when each of
  its transactions passes, and the request infos come back in block order.
\<close>

lemma validateTransactions_Ret_iff:
  assumes "mset order = mset [0..<length d]"
  shows "validateTransactions order f d = Ret infos \<longleftrightarrow>
    list_all2 (\<lambda>r i. f r (1 < length d) = Ret i) d infos"
proof -
  define nc where "nc = (1 < length d)"
  let ?rs = "map (\<lambda>p. f p nc) d"
  let ?m = "\<lambda>i. if i \<in> set order then Some (info_of (?rs ! i)) else None"
  have order: "set order = {..<length d}"
    using assms by (metis atLeast_upt mset_eq_setD)
  have collect: "go_fold (collect_validation ?rs) Map.empty order = Ret m' \<longleftrightarrow>
      (\<forall>r \<in> set d. is_ok (f r nc)) \<and> m' = ?m" for m'
    unfolding collect_fold_Ret_iff by (auto simp: order all_set_conv_all_nth)
  have infos: "map (\<lambda>i. case ?m i of Some info \<Rightarrow> info | None \<Rightarrow> empty_request_info) [0..<length d] =
      map (\<lambda>r. info_of (f r nc)) d"
    by (rule nth_equalityI) (simp_all add: order)
  have "validateTransactions order f d = Ret infos \<longleftrightarrow>
      (\<forall>r \<in> set d. is_ok (f r nc)) \<and> infos = map (\<lambda>r. info_of (f r nc)) d"
  proof (cases "first_panic ?rs")
    case None
    then show ?thesis
      unfolding validateTransactions_def Let_def nc_def [symmetric] by (auto simp: go_bind_Ret_iff collect infos)
  next
    case (Some p)
    then have "\<not> (\<forall>x \<in> set ?rs. no_panic x)" using first_panic_None_iff [of ?rs] by auto
    then have "\<not> (\<forall>r \<in> set d. is_ok (f r nc))" by (auto dest: is_ok_no_panic)
    with Some show ?thesis unfolding validateTransactions_def Let_def nc_def [symmetric] by auto
  qed
  also have "\<dots> \<longleftrightarrow> list_all2 (\<lambda>r i. f r nc = Ret i) d infos"
    by (auto simp: list_all2_conv_all_nth all_set_conv_all_nth is_ok_iff intro!: nth_equalityI)
  finally show ?thesis unfolding nc_def .
qed

subsection \<open>Blocks and proposals\<close>

text \<open>The two places of the metadata that name the last configuration block.\<close>

definition metadata_ok :: "libs \<Rightarrow> bytes list \<Rightarrow> bytes \<Rightarrow> u64 \<Rightarrow> bool" where
  "metadata_ok L mds md n \<longleftrightarrow>
     BlockMetadataIndex_count \<le> length mds \<and>
     (\<exists>sm obm vm. dec_metadata L (mds ! SIGNATURES) = Some sm \<and>
        dec_orderer_block_metadata L (md_Value sm) = Some obm \<and>
        dec_view_metadata L (obm_ConsenterMetadata obm) = Some vm \<and>
        dec_view_metadata L md = Some vm \<and>
        obm_LastConfig obm = Some \<lparr>lc_Index = n\<rparr>) \<and>
     (\<exists>lm. dec_metadata L (mds ! LAST_CONFIG) = Some lm \<and>
        dec_last_config L (md_Value lm) = Some \<lparr>lc_Index = n\<rparr>)"

lemma last_config_eqI: "lc_Index lc = n \<Longrightarrow> lc = \<lparr>lc_Index = n\<rparr>"
  by (cases lc) simp

lemma GetMetadataFromBlock_Ret_iff:
  "GetMetadataFromBlock L b i = Ret m \<longleftrightarrow>
     (\<exists>mds. blk_Metadata b = Some mds \<and> i < length mds \<and> dec_metadata L (mds ! i) = Some m)"
  by (auto simp: GetMetadataFromBlock_def go_simps)

lemma verifyBlockDataAndMetadata_Ret_iff:
  "verifyBlockDataAndMetadata L V order b md = Ret infos \<longleftrightarrow>
     (\<exists>d mds n. blk_Data b = Some d \<and> d \<noteq> [] \<and> blk_Metadata b = Some mds \<and>
        last_config_number L V b = Ret n \<and> metadata_ok L mds md n \<and>
        validateTransactions order (verifyRequest L V) d = Ret infos)"
proof (cases "blk_Data b")
  case None
  then show ?thesis by (simp add: verifyBlockDataAndMetadata_def)
next
  case (Some d)
  note d = Some
  show ?thesis
  proof (cases "blk_Metadata b")
    case None
    with d show ?thesis by (cases d) (simp_all add: verifyBlockDataAndMetadata_def)
  next
    case (Some mds)
    let ?guard = "BlockMetadataIndex_count \<le> length mds \<and> d \<noteq> []"
    show ?thesis
    proof (cases ?guard)
      case False
      with d Some show ?thesis
        by (cases d) (auto simp: verifyBlockDataAndMetadata_def metadata_ok_def)
    next
      case True
      then obtain x d' where d': "d = x # d'" by (cases d) auto
      from True have len: "5 \<le> length mds" "\<not> length mds < BlockMetadataIndex_count"
        by (simp_all add: BlockMetadataIndex_count_def)
      then have idx: "0 < length mds" "1 < length mds" by auto
      have "verifyBlockDataAndMetadata L V order b md = Ret infos \<longleftrightarrow>
          (\<exists>sm obm vm n lc lm lc'. dec_metadata L (mds ! 0) = Some sm \<and>
             dec_orderer_block_metadata L (md_Value sm) = Some obm \<and>
             dec_view_metadata L (obm_ConsenterMetadata obm) = Some vm \<and>
             dec_view_metadata L md = Some vm \<and> last_config_number L V b = Ret n \<and>
             obm_LastConfig obm = Some lc \<and> lc_Index lc = n \<and>
             dec_metadata L (mds ! 1) = Some lm \<and> dec_last_config L (md_Value lm) = Some lc' \<and>
             lc_Index lc' = n \<and> validateTransactions order (verifyRequest L V) d = Ret infos)"
        unfolding verifyBlockDataAndMetadata_def d Some d' option.case list.case
        using len idx by (auto simp: go_simps guard_Ret_iff GetMetadataFromBlock_Ret_iff Some)
      also have "\<dots> \<longleftrightarrow> (\<exists>n. last_config_number L V b = Ret n \<and> metadata_ok L mds md n \<and>
          validateTransactions order (verifyRequest L V) d = Ret infos)"
        using True unfolding metadata_ok_def by (auto dest!: last_config_eqI)
      finally show ?thesis using d Some True by simp
    qed
  qed
qed

lemma ProposalToBlock_shape:
  assumes "ProposalToBlock L p = Ret b"
  obtains h d mds where "b = \<lparr>blk_Header = Some h, blk_Data = Some d, blk_Metadata = Some mds\<rparr>"
  using assms unfolding ProposalToBlock_def guard_Ret_iff go_bind_Ret_iff
  by (auto simp: guard_Ret_iff go_bind_Ret_iff)

lemma VerifyProposal_Ret_iff:
  assumes "ProposalToBlock L p = Ret \<lparr>blk_Header = Some h, blk_Data = Some d, blk_Metadata = Some mds\<rparr>"
    and "mset order = mset [0..<length d]"
  shows "VerifyProposal L V order p = Ret infos \<longleftrightarrow>
    hex_encode (hdr_PreviousHash h) = rtc_LastCommittedBlockHash (v_RuntimeConfig V) \<and>
    hdr_DataHash h = data_Hash L d \<and> d \<noteq> [] \<and>
    (\<exists>n. last_config_number L V
            \<lparr>blk_Header = Some h, blk_Data = Some d, blk_Metadata = Some mds\<rparr> = Ret n \<and>
         metadata_ok L mds (prop_Metadata p) n) \<and>
    list_all2 (\<lambda>r i. verifyRequest L V r (1 < length d) = Ret i) d infos \<and>
    v_Sequence V = prop_VerificationSequence p"
proof -
  let ?b = "\<lparr>blk_Header = Some h, blk_Data = Some d, blk_Metadata = Some mds\<rparr>"
  have hash: "verifyHashChain L ?b prev = Ret () \<longleftrightarrow>
      hex_encode (hdr_PreviousHash h) = prev \<and> hdr_DataHash h = data_Hash L d" for prev
    by (auto simp: verifyHashChain_def)
  have "VerifyProposal L V order p = Ret infos \<longleftrightarrow>
      verifyHashChain L ?b (rtc_LastCommittedBlockHash (v_RuntimeConfig V)) = Ret () \<and>
      verifyBlockDataAndMetadata L V order ?b (prop_Metadata p) = Ret infos \<and>
      v_Sequence V = prop_VerificationSequence p"
    unfolding VerifyProposal_def assms(1) by (auto simp: go_bind_Ret_iff guard_Ret_iff)
  then show ?thesis
    unfolding hash verifyBlockDataAndMetadata_Ret_iff validateTransactions_Ret_iff [OF assms(2)]
    using assms(2) by (auto simp: validateTransactions_Ret_iff)
qed

text \<open>
  C6: Which proposals a node accepts.  For every order in which the goroutines that check
  the transactions finish, \<open>VerifyProposal\<close> accepts exactly the proposals whose block points
  to the last committed block by hash, carries the hash of its own data, is not empty,
  names the right last configuration block and view metadata in its metadata, has the
  node's verification sequence, and consists of transactions that each verify; and it
  returns the request of each transaction in block order.
\<close>

theorem VerifyProposal_accepts_iff:
  assumes "ProposalToBlock L p = Ret \<lparr>blk_Header = Some h, blk_Data = Some d, blk_Metadata = Some mds\<rparr>"
    and "mset order = mset [0..<length d]"
  shows "VerifyProposal L V order p = Ret infos \<longleftrightarrow>
    hex_encode (hdr_PreviousHash h) = rtc_LastCommittedBlockHash (v_RuntimeConfig V) \<and>
    hdr_DataHash h = data_Hash L d \<and> d \<noteq> [] \<and>
    (\<exists>n. last_config_number L V
            \<lparr>blk_Header = Some h, blk_Data = Some d, blk_Metadata = Some mds\<rparr> = Ret n \<and>
         metadata_ok L mds (prop_Metadata p) n) \<and>
    list_all2 (\<lambda>r i. verifyRequest L V r (1 < length d) = Ret i) d infos \<and>
    v_Sequence V = prop_VerificationSequence p"
  using assms by (rule VerifyProposal_Ret_iff)

lemma assembled_accepted:
  assumes "lossless L" and "fits p"
    and "AssembleProposal L (v_RuntimeConfig V) (v_Sequence V) md requests = Ret p"
    and "rtc_LastBlock (v_RuntimeConfig V) = Some lb"
    and "block_Hash L lb = Ret hash"
    and "rtc_LastCommittedBlockHash (v_RuntimeConfig V) = hex_encode hash"
    and "dec_view_metadata L md = Some vm"
    and "singleConfigTxOrSeveralNonConfigTx L requests = Ret batch" and "batch \<noteq> []"
    and "\<forall>r \<in> set batch. verifyRequest L V r (1 < length batch) = Ret (info r)"
    and "mset order = mset [0..<length batch]"
  shows "VerifyProposal L V order p = Ret (map info batch)"
proof (rule AssembleProposal_block [OF assms(1,3,2)])
  fix batch' h mds lb' lbh cb cbh n
  let ?b = "\<lparr>blk_Header = Some h, blk_Data = Some batch', blk_Metadata = Some mds\<rparr>"
  assume lb: "rtc_LastBlock (v_RuntimeConfig V) = Some lb'" "blk_Header lb' = Some lbh"
    and cb: "rtc_LastConfigBlock (v_RuntimeConfig V) = Some cb" "blk_Header cb = Some cbh"
    and batch: "singleConfigTxOrSeveralNonConfigTx L requests = Ret batch'"
    and unpack: "ProposalToBlock L p = Ret ?b"
    and hdr: "header_Hash L lbh = Ret (hdr_PreviousHash h)" "hdr_DataHash h = data_Hash L batch'"
    and n: "n = (if isConfigBlock L ?b then hdr_Number h else hdr_Number cbh)"
    and md: "length mds = BlockMetadataIndex_count"
      "\<exists>b. dec_metadata L (mds ! SIGNATURES) = Some \<lparr>md_Value = b, md_Signatures = []\<rparr> \<and>
         dec_orderer_block_metadata L b =
           Some \<lparr>obm_LastConfig = Some \<lparr>lc_Index = n\<rparr>, obm_ConsenterMetadata = md\<rparr>"
      "\<exists>b. dec_metadata L (mds ! LAST_CONFIG) = Some \<lparr>md_Value = b, md_Signatures = []\<rparr> \<and>
         dec_last_config L b = Some \<lparr>lc_Index = n\<rparr>"
    and rest: "prop_Metadata p = md" "prop_VerificationSequence p = v_Sequence V"
  have b: "batch' = batch" using batch assms(8) by simp
  have "hex_encode (hdr_PreviousHash h) = rtc_LastCommittedBlockHash (v_RuntimeConfig V)"
    using lb hdr assms(4-6) by (simp add: block_Hash_def)
  moreover have "last_config_number L V ?b = Ret n"
    by (simp add: last_config_number_def cb n)
  moreover have "metadata_ok L mds (prop_Metadata p) n"
    using md rest assms(7) by (auto simp: metadata_ok_def)
  moreover have "list_all2 (\<lambda>r i. verifyRequest L V r (1 < length batch) = Ret i) batch (map info batch)"
    using assms(10) by (simp add: list_all2_conv_all_nth)
  ultimately show ?thesis
    using VerifyProposal_Ret_iff [OF unpack, of order V "map info batch"] assms(9,11) hdr(2) rest
    by (auto simp: b)
qed

text \<open>
  C7: A proposal an honest leader assembles is accepted by a node with the same runtime
  configuration: if the last committed hash is that of the last block (which
  \<open>BlockCommitted\<close> keeps true), the leader's metadata decodes, and every request of the
  batch verifies on its own, then \<open>VerifyProposal\<close> returns the requests of the batch.
\<close>

theorem assembled_proposal_accepted:
  assumes "lossless L" and "fits p"
    and "AssembleProposal L (v_RuntimeConfig V) (v_Sequence V) md requests = Ret p"
    and "rtc_LastBlock (v_RuntimeConfig V) = Some lb"
    and "block_Hash L lb = Ret hash"
    and "rtc_LastCommittedBlockHash (v_RuntimeConfig V) = hex_encode hash"
    and "dec_view_metadata L md = Some vm"
    and "singleConfigTxOrSeveralNonConfigTx L requests = Ret batch" and "batch \<noteq> []"
    and "\<forall>r \<in> set batch. verifyRequest L V r (1 < length batch) = Ret (info r)"
    and "mset order = mset [0..<length batch]"
  shows "VerifyProposal L V order p = Ret (map info batch)"
  using assms by (rule assembled_accepted)

subsection \<open>A node that accepts everything its policies are asked about\<close>

definition sample_last :: block where
  "sample_last = \<lparr>blk_Header = Some \<lparr>hdr_Number = 4, hdr_PreviousHash = [1], hdr_DataHash = [2]\<rparr>,
     blk_Data = Some [tx_bytes 3], blk_Metadata = Some [[], [], [], [], []]\<rparr>"

definition sample_rtc :: runtime_config where
  "sample_rtc = (initial_rtc 1)
     \<lparr>rtc_LastBlock := Some sample_last,
      rtc_LastConfigBlock := Some (sample_last\<lparr>blk_Header := Some
        \<lparr>hdr_Number = 2, hdr_PreviousHash = [], hdr_DataHash = []\<rparr>\<rparr>),
      rtc_LastCommittedBlockHash :=
        hex_encode (der_sequence [der_int 4, der_octets [1], der_octets [2]]),
      rtc_ID2Identities := [1 \<mapsto> [7]]\<rparr>"

definition sample_verifier :: verifier where
  "sample_verifier = \<lparr>v_RuntimeConfig = sample_rtc, v_ValidateIdentity = (\<lambda>_. Ret ()),
     v_ConsenterVerifier = (\<lambda>_. Ret ()), v_AccessController = (\<lambda>_. Ret ()), v_Sequence = 9,
     v_ConfigValidator = (\<lambda>_. Ret ())\<rparr>"

lemma length_der_octets_le: "length b < 1000 \<Longrightarrow> length (der_octets b) \<le> length b + 6"
  by (rule length_der_octets) simp

lemma fits_small:
  assumes "prop_Payload p = tuple_ToBytes a b" "length a < 500" "length b < 500"
    and "header_Bytes h = Ret (prop_Header p)"
    and "length (hdr_PreviousHash h) < 500" "length (hdr_DataHash h) < 500"
  shows "fits p \<and> length (prop_Header p) \<le> 1033"
proof -
  have tlv: "length (der_tlv t c) \<le> length c + 6" if "length c < 2000" for t c
    using length_der_length [of "length c"] that by (simp add: der_tlv_def)
  have "length (der_octets a @ der_octets b) \<le> 1012"
    using length_der_octets_le [of a] length_der_octets_le [of b] assms by simp
  then have pay: "length (prop_Payload p) \<le> 1018"
    using tlv [of "der_octets a @ der_octets b" 48]
    by (simp add: assms(1) tuple_ToBytes_def der_sequence_def)
  from assms(4) have n: "unat (hdr_Number h) < 2 ^ 63"
    and hb: "prop_Header p = der_sequence [der_int (unat (hdr_Number h)),
       der_octets (hdr_PreviousHash h), der_octets (hdr_DataHash h)]"
    by (auto simp: header_Bytes_Ret_iff)
  have "length (be_bytes (unat (hdr_Number h))) \<le> 8" using n by (intro length_be_bytes_le) simp
  then have c: "length (der_nat_contents (unat (hdr_Number h))) \<le> 9"
    by (auto simp: der_nat_contents_def Let_def split: list.splits)
  then have "length (der_int (unat (hdr_Number h))) \<le> 15"
    using tlv [of "der_nat_contents (unat (hdr_Number h))" 2] by (simp add: der_int_def)
  then have "length (concat [der_int (unat (hdr_Number h)), der_octets (hdr_PreviousHash h),
      der_octets (hdr_DataHash h)]) \<le> 1027"
    using length_der_octets_le [of "hdr_PreviousHash h"] length_der_octets_le [of "hdr_DataHash h"]
      assms by simp
  then have "length (prop_Header p) \<le> 1033"
    using tlv [of "concat [der_int (unat (hdr_Number h)), der_octets (hdr_PreviousHash h),
      der_octets (hdr_DataHash h)]" 48] by (simp add: hb der_sequence_def)
  with pay show ?thesis by (simp add: fits_def)
qed

lemma sample_batch:
  "singleConfigTxOrSeveralNonConfigTx tx_libs [tx_bytes 3, tx_bytes 3] = Ret [tx_bytes 3, tx_bytes 3]"
  by (simp add: singleConfigTxOrSeveralNonConfigTx_def UnmarshalEnvelope_def
      IsConfigTransaction_iff tx_payload_def tx_channel_header_def)

lemma sample_proposal:
  "\<exists>p. AssembleProposal tx_libs sample_rtc 9 [5] [tx_bytes 3, tx_bytes 3] = Ret p \<and> fits p \<and>
     length (prop_Header p) \<le> 1033"
proof -
  note batch = sample_batch
  have cfg: "\<not> isConfigBlock tx_libs
      \<lparr>blk_Header = h, blk_Data = Some [x, y], blk_Metadata = m\<rparr>" for h x y m
    by (simp add: isConfigBlock_def)
  have five: "replicate BlockMetadataIndex_count ([] :: bytes) = [[], [], [], [], []]"
    by (simp add: BlockMetadataIndex_count_def numeral_eq_Suc)
  let ?prev = "der_sequence [der_int 4, der_octets [1], der_octets [2]]"
  let ?h = "\<lparr>hdr_Number = 5, hdr_PreviousHash = ?prev, hdr_DataHash = data_Hash tx_libs [tx_bytes 3, tx_bytes 3]\<rparr>"
  have lb: "header_Hash tx_libs \<lparr>hdr_Number = 4, hdr_PreviousHash = [1], hdr_DataHash = [2]\<rparr> = Ret ?prev"
    by (simp add: header_Hash_def header_Bytes_def)
  obtain hb where hb: "header_Bytes ?h = Ret hb" by (simp add: header_Bytes_def)
  let ?lc = "put_u64 2"
  let ?mds = "[put_pair put_bytes (put_list put_ms)
       (put_pair (put_opt put_u64) put_bytes (Some 2, [5]), []),
     put_pair put_bytes (put_list put_ms) (?lc, []), [], [], []]"
  let ?p = "\<lparr>prop_Payload = tuple_ToBytes (put_list put_bytes [tx_bytes 3, tx_bytes 3])
       (put_list put_bytes ?mds), prop_Header = hb, prop_Metadata = [5],
       prop_VerificationSequence = 9\<rparr>"
  have "AssembleProposal tx_libs sample_rtc 9 [5] [tx_bytes 3, tx_bytes 3] = Ret ?p"
    unfolding AssembleProposal_def
    by (simp add: batch cfg lb hb sample_rtc_def initial_rtc_def sample_last_def NewBlock_def five
        Let_def)
  moreover have "fits ?p \<and> length (prop_Header ?p) \<le> 1033"
  proof (rule fits_small [where h = ?h and a = "put_list put_bytes [tx_bytes 3, tx_bytes 3]"
        and b = "put_list put_bytes ?mds"])
    show "header_Bytes ?h = Ret (prop_Header ?p)" using hb by simp
    have "length (der_int 4) \<le> 15 \<and> length ?prev < 500" by (simp add: der_sequence_def
      der_tlv_def der_int_def der_octets_def der_length_def der_nat_contents_def be_bytes.simps Let_def)
    then show "length (hdr_PreviousHash ?h) < 500" by simp
    show "length (put_list put_bytes ?mds) < 500"
      using length_put_u64 [of 2] by (simp add: put_opt_def)
  qed (simp_all add: data_Hash_def data_Bytes_def ConcatenateBytes_def tx_bytes_def)
  ultimately show ?thesis by blast
qed

text \<open>The premises of the acceptance theorem, for the sample proposal.\<close>

lemma sample_accepted_premises:
  assumes "AssembleProposal tx_libs sample_rtc 9 [5] [tx_bytes 3, tx_bytes 3] = Ret p"
  shows "AssembleProposal tx_libs (v_RuntimeConfig sample_verifier) (v_Sequence sample_verifier) [5]
      [tx_bytes 3, tx_bytes 3] = Ret p"
    and "rtc_LastBlock (v_RuntimeConfig sample_verifier) = Some sample_last"
    and "block_Hash tx_libs sample_last = Ret (der_sequence [der_int 4, der_octets [1], der_octets [2]])"
    and "rtc_LastCommittedBlockHash (v_RuntimeConfig sample_verifier) =
      hex_encode (der_sequence [der_int 4, der_octets [1], der_octets [2]])"
    and "dec_view_metadata tx_libs [5] = Some (empty_view_metadata\<lparr>vm_ViewId := 1\<rparr>)"
    and "[tx_bytes 3, tx_bytes 3] \<noteq> []"
    and "\<forall>r \<in> set [tx_bytes 3, tx_bytes 3]. verifyRequest tx_libs sample_verifier r
      (1 < length [tx_bytes 3, tx_bytes 3]) =
      Ret ((\<lambda>_. \<lparr>ri_ClientID = hex_encode [7], ri_ID = hex_encode [8, 7]\<rparr>) r)"
    and "mset [1, 0] = mset [0..<length [tx_bytes 3, tx_bytes 3]]"
  using assms by (simp_all add: sample_verifier_def sample_rtc_def upt_rec verifyRequest_def unwrapReq_def
      unmarshal_defs tx_payload_def tx_channel_header_def requestIDFromSigHeader_def block_Hash_def
      sample_last_def header_Hash_def header_Bytes_def)

lemma sample_proposal_accepted:
  assumes "AssembleProposal tx_libs sample_rtc 9 [5] [tx_bytes 3, tx_bytes 3] = Ret p" and "fits p"
  shows "\<exists>infos. VerifyProposal tx_libs sample_verifier [1, 0] p = Ret infos"
proof -
  note q = sample_accepted_premises [OF assms(1)]
  show ?thesis
    using assembled_accepted [OF lossless_tx_libs assms(2) q(1-5) sample_batch q(6-8)] by blast
qed

theorem assembled_proposal_accepted_witness:
  "\<exists>p. AssembleProposal tx_libs sample_rtc 9 [5] [tx_bytes 3, tx_bytes 3] = Ret p \<and>
     VerifyProposal tx_libs sample_verifier [1, 0] p =
       Ret [\<lparr>ri_ClientID = hex_encode [7], ri_ID = hex_encode [8, 7]\<rparr>,
            \<lparr>ri_ClientID = hex_encode [7], ri_ID = hex_encode [8, 7]\<rparr>]"
proof -
  obtain p where p: "AssembleProposal tx_libs sample_rtc 9 [5] [tx_bytes 3, tx_bytes 3] = Ret p" "fits p"
    using sample_proposal by blast
  note q = sample_accepted_premises [OF p(1)]
  from assembled_proposal_accepted [OF lossless_tx_libs p(2) q(1-5) sample_batch q(6-8)] p(1)
  show ?thesis by auto
qed

theorem VerifyProposal_accepts_iff_witness:
  "\<exists>p h d mds. ProposalToBlock tx_libs p =
      Ret \<lparr>blk_Header = Some h, blk_Data = Some d, blk_Metadata = Some mds\<rparr> \<and>
    mset [1, 0] = mset [0..<length d] \<and>
    (VerifyProposal tx_libs sample_verifier [1, 0] p = Ret [] \<longleftrightarrow> False)"
proof -
  obtain p where p: "AssembleProposal tx_libs sample_rtc 9 [5] [tx_bytes 3, tx_bytes 3] = Ret p" "fits p"
    using sample_proposal by blast
  note batch = sample_batch
  obtain h mds where b: "ProposalToBlock tx_libs p =
      Ret \<lparr>blk_Header = Some h, blk_Data = Some [tx_bytes 3, tx_bytes 3], blk_Metadata = Some mds\<rparr>"
    by (rule AssembleProposal_block [OF lossless_tx_libs p]) (use batch in auto)
  have perm: "mset [1, 0] = mset [0..<length [tx_bytes 3, tx_bytes 3]]" by (simp add: upt_rec)
  from VerifyProposal_accepts_iff [OF b perm, of sample_verifier "[]"]
  have "VerifyProposal tx_libs sample_verifier [1, 0] p \<noteq> Ret []" by simp
  with b perm show ?thesis by blast
qed

subsection \<open>Signatures\<close>

text \<open>
  C10: What an accepted consenter signature says.  If \<open>VerifyConsenterSig\<close> accepts, the
  signer is a node of the runtime configuration, and the policy accepted, under that node's
  identity, a signature over exactly: the orderer metadata, the reconstructed signature
  header for that identity, the header bytes of the proposal and the returned auxiliary
  input; and the signed orderer metadata carries the proposal's metadata and is the one
  stored in the proposal's own block.
\<close>

theorem VerifyConsenterSig_bound:
  assumes "VerifyConsenterSig L V s p = Ret aux"
  shows "\<exists>ident sig shb obm b mds sm.
    rtc_ID2Identities (v_RuntimeConfig V) (bsig_ID s) = Some ident \<and>
    sig_Unmarshal (bsig_Msg s) = Ret sig \<and> aux = sig_AuxiliaryInput sig \<and>
    enc_signature_header L \<lparr>sh_Creator = ident, sh_Nonce = sig_Nonce sig\<rparr> = Some shb \<and>
    v_ConsenterVerifier V [\<lparr>sd_Data = concat [sig_OrdererBlockMetadata sig, shb, prop_Header p, aux],
       sd_Identity = ident, sd_Signature = bsig_Value s\<rparr>] = Ret () \<and>
    dec_orderer_block_metadata L (sig_OrdererBlockMetadata sig) = Some obm \<and>
    obm_ConsenterMetadata obm = prop_Metadata p \<and>
    ProposalToBlock L p = Ret b \<and> blk_Metadata b = Some mds \<and>
    length mds = BlockMetadataIndex_count \<and>
    dec_metadata L (mds ! SIGNATURES) = Some sm \<and>
    dec_orderer_block_metadata L (md_Value sm) = Some obm"
  using assms
  unfolding VerifyConsenterSig_def verifySignatureIsBoundToProposal_def Let_def
    go_bind_Ret_iff guard_Ret_iff ConcatenateBytes_def
  by (auto simp: go_bind_Ret_iff guard_Ret_iff)

text \<open>The signature message as the signer marshals it, and sizes it must fit.\<close>

lemma SignProposal_Ret:
  assumes "SignProposal L S p aux = Ret s"
  obtains b h hb nonce creator shb n obm where
    "ProposalToBlock L p = Ret b" "blk_Header b = Some h" "header_Bytes h = Ret hb"
    "ss_Serialize (sgn_SignerSerializer S) = Ret creator"
    "enc_signature_header L \<lparr>sh_Creator = creator, sh_Nonce = nonce\<rparr> = Some shb"
    "sgn_LastConfigBlockNum S b = Ret n"
    "enc_orderer_block_metadata L \<lparr>obm_LastConfig = Some \<lparr>lc_Index = n\<rparr>,
       obm_ConsenterMetadata = prop_Metadata p\<rparr> = Some obm"
    "ss_Sign (sgn_SignerSerializer S) (concat [obm, shb, hb, aux]) = Ret (bsig_Value s)"
    "bsig_ID s = sgn_ID S"
    "bsig_Msg s = sig_Marshal \<lparr>sig_Nonce = nonce, sig_SignatureHeader = [], sig_BlockHeader = hb,
       sig_OrdererBlockMetadata = obm, sig_AuxiliaryInput = aux\<rparr>"
  using assms unfolding SignProposal_def Let_def
  by (auto simp: go_bind_Ret_iff newSignatureHeaderOrPanic_def SignOrPanic_def sig_AsBytes_def
      ConcatenateBytes_def)

lemma length_sig_Marshal_ge: "length (concat (sig_fields s)) \<le> length (sig_Marshal s)"
proof -
  have "length (concat fs) \<le> length (concat (map der_octets fs))" for fs
  proof (induction fs)
    case (Cons f fs)
    then show ?case using length_der_octets_ge [of f] by simp
  qed simp
  from this [of "sig_fields s"] show ?thesis
    by (simp add: sig_Marshal_def der_sequence_def der_tlv_def)
qed

lemma consenter_sig_accepted:
  assumes "lossless L" and "fits p"
    and "AssembleProposal L (v_RuntimeConfig V) vseq md requests = Ret p"
    and "SignProposal L S p aux = Ret s"
    and "sgn_LastConfigBlockNum S = LastConfigBlockNum L (v_RuntimeConfig V)"
    and "rtc_ID2Identities (v_RuntimeConfig V) (sgn_ID S) = Some ident"
    and "ss_Serialize (sgn_SignerSerializer S) = Ret ident"
    and "\<And>m sg. ss_Sign (sgn_SignerSerializer S) m = Ret sg \<Longrightarrow>
           v_ConsenterVerifier V [\<lparr>sd_Data = m, sd_Identity = ident, sd_Signature = sg\<rparr>] = Ret ()"
    and "length (bsig_Msg s) + 30 < 2 ^ 31"
  shows "VerifyConsenterSig L V s p = Ret aux"
proof (rule AssembleProposal_block [OF assms(1,3,2)], rule SignProposal_Ret [OF assms(4)])
  fix batch h mds lb lbh cb cbh n b h' hb nonce creator shb n' obm
  let ?b = "\<lparr>blk_Header = Some h, blk_Data = Some batch, blk_Metadata = Some mds\<rparr>"
  let ?sig = "\<lparr>sig_Nonce = nonce, sig_SignatureHeader = [], sig_BlockHeader = hb,
       sig_OrdererBlockMetadata = obm, sig_AuxiliaryInput = aux\<rparr>"
  assume cb: "rtc_LastConfigBlock (v_RuntimeConfig V) = Some cb" "blk_Header cb = Some cbh"
    and unpack: "ProposalToBlock L p = Ret ?b" "ProposalToBlock L p = Ret b"
    and hdr: "header_Bytes h = Ret (prop_Header p)" "blk_Header b = Some h'" "header_Bytes h' = Ret hb"
    and n: "n = (if isConfigBlock L ?b then hdr_Number h else hdr_Number cbh)"
      "sgn_LastConfigBlockNum S b = Ret n'"
    and md: "length mds = BlockMetadataIndex_count"
      "\<exists>b. dec_metadata L (mds ! SIGNATURES) = Some \<lparr>md_Value = b, md_Signatures = []\<rparr> \<and>
         dec_orderer_block_metadata L b =
           Some \<lparr>obm_LastConfig = Some \<lparr>lc_Index = n\<rparr>, obm_ConsenterMetadata = md\<rparr>"
      "prop_Metadata p = md"
    and sh: "ss_Serialize (sgn_SignerSerializer S) = Ret creator"
      "enc_signature_header L \<lparr>sh_Creator = creator, sh_Nonce = nonce\<rparr> = Some shb"
    and obm: "enc_orderer_block_metadata L \<lparr>obm_LastConfig = Some \<lparr>lc_Index = n'\<rparr>,
       obm_ConsenterMetadata = prop_Metadata p\<rparr> = Some obm"
    and sgn: "ss_Sign (sgn_SignerSerializer S) (concat [obm, shb, hb, aux]) = Ret (bsig_Value s)"
    and s: "bsig_ID s = sgn_ID S" "bsig_Msg s = sig_Marshal ?sig"
  have b: "b = ?b" using unpack by simp
  have creator: "creator = ident" using sh(1) assms(7) by simp
  have hb: "hb = prop_Header p" using hdr b by simp
  have n': "n' = n" using n cb assms(5) b by (auto simp: LastConfigBlockNum_def split: if_splits)
  have "length (concat (sig_fields ?sig)) + 30 < 2 ^ 31"
    using length_sig_Marshal_ge [of ?sig] assms(9) s(2) by simp
  from sig_roundtrip [OF this, of "[]"] have um: "sig_Unmarshal (bsig_Msg s) = Ret ?sig"
    using s(2) by simp
  have dec: "dec_orderer_block_metadata L obm = Some \<lparr>obm_LastConfig = Some \<lparr>lc_Index = n\<rparr>,
      obm_ConsenterMetadata = md\<rparr>" "dec_signature_header L shb = Some \<lparr>sh_Creator = ident, sh_Nonce = nonce\<rparr>"
    using lossless_dec(7) [OF assms(1) obm] lossless_dec(2) [OF assms(1) sh(2)] n' md(3) creator
    by simp_all
  have "verifySignatureIsBoundToProposal L (?sig\<lparr>sig_SignatureHeader := shb\<rparr>) ident p = Ret ()"
    using unpack(1) md dec hb
    by (auto simp: verifySignatureIsBoundToProposal_def BlockMetadataIndex_count_def)
  then show "VerifyConsenterSig L V s p = Ret aux"
    using um sh(2) creator assms(8) [OF sgn] s(1) assms(6)
    by (simp add: VerifyConsenterSig_def ConcatenateBytes_def)
qed

text \<open>
  C11: A signature an honest node makes on an assembled proposal is accepted by every node
  with the same runtime configuration that knows the signer's identity, given a signature
  scheme whose verification accepts what it signs.  The signature header is not
  transmitted: it is rebuilt from the nonce and the known identity.
\<close>

theorem signature_of_assembled_proposal_accepted:
  assumes "lossless L" and "fits p"
    and "AssembleProposal L (v_RuntimeConfig V) vseq md requests = Ret p"
    and "SignProposal L S p aux = Ret s"
    and "sgn_LastConfigBlockNum S = LastConfigBlockNum L (v_RuntimeConfig V)"
    and "rtc_ID2Identities (v_RuntimeConfig V) (sgn_ID S) = Some ident"
    and "ss_Serialize (sgn_SignerSerializer S) = Ret ident"
    and "\<And>m sg. ss_Sign (sgn_SignerSerializer S) m = Ret sg \<Longrightarrow>
           v_ConsenterVerifier V [\<lparr>sd_Data = m, sd_Identity = ident, sd_Signature = sg\<rparr>] = Ret ()"
    and "length (bsig_Msg s) + 30 < 2 ^ 31"
  shows "VerifyConsenterSig L V s p = Ret aux"
  using assms by (rule consenter_sig_accepted)

lemma length_sig_Marshal_le:
  assumes "length (concat (sig_fields s)) < 2000"
  shows "length (sig_Marshal s) \<le> length (concat (sig_fields s)) + 36"
proof -
  have "\<forall>f \<in> set (sig_fields s). length f < 2 ^ 31"
    using assms by (auto simp: sig_fields_def)
  from length_concat_der_octets [OF this]
  have le: "length (concat (map der_octets (sig_fields s))) \<le> length (concat (sig_fields s)) + 30"
    by (simp add: sig_fields_def)
  have "length (der_length (length (concat (map der_octets (sig_fields s))))) \<le> 5"
    by (rule length_der_length) (use le assms in simp)
  with le show ?thesis by (simp add: sig_Marshal_def der_sequence_def der_tlv_def)
qed

definition sample_signer :: signer where
  "sample_signer = \<lparr>sgn_ID = 1,
     sgn_SignerSerializer = \<lparr>ss_Sign = Ret, ss_Serialize = Ret [7], ss_GetRandomNonce = Ret [8]\<rparr>,
     sgn_LastConfigBlockNum = LastConfigBlockNum tx_libs sample_rtc\<rparr>"

lemma sample_signature:
  obtains p s where
    "AssembleProposal tx_libs sample_rtc 9 [5] [tx_bytes 3, tx_bytes 3] = Ret p" "fits p"
    "SignProposal tx_libs sample_signer p [2] = Ret s" "length (bsig_Msg s) + 30 < 2 ^ 31"
proof -
  obtain p where p: "AssembleProposal tx_libs sample_rtc 9 [5] [tx_bytes 3, tx_bytes 3] = Ret p"
    "fits p" "length (prop_Header p) \<le> 1033"
    using sample_proposal by blast
  obtain b h where b: "ProposalToBlock tx_libs p = Ret b" "blk_Header b = Some h"
    "header_Bytes h = Ret (prop_Header p)" "prop_Metadata p = [5]"
    by (rule AssembleProposal_block [OF lossless_tx_libs p(1,2)]) (auto intro: that)
  obtain n where n: "LastConfigBlockNum tx_libs sample_rtc b = Ret n"
    using b(2) by (cases "isConfigBlock tx_libs b") (auto simp: LastConfigBlockNum_def sample_rtc_def)
  let ?obm = "put_pair (put_opt put_u64) put_bytes (Some n, [5])"
  let ?sig = "\<lparr>sig_Nonce = [8], sig_SignatureHeader = [], sig_BlockHeader = prop_Header p,
       sig_OrdererBlockMetadata = ?obm, sig_AuxiliaryInput = [2]\<rparr>"
  obtain v where "SignProposal tx_libs sample_signer p [2] =
      Ret \<lparr>bsig_ID = 1, bsig_Value = v, bsig_Msg = sig_Marshal ?sig\<rparr>"
    using b n by (simp add: SignProposal_def sample_signer_def randomNonceOrPanic_def
        newSignatureHeaderOrPanic_def SignOrPanic_def)
  moreover have "length (concat (sig_fields ?sig)) \<le> 1100"
    using p(3) length_put_u64 [of n] by (simp add: sig_fields_def put_opt_def)
  then have "length (sig_Marshal ?sig) + 30 < 2 ^ 31"
    using length_sig_Marshal_le [of ?sig] by simp
  ultimately show thesis using p(1,2) by (intro that [of p]) auto
qed

lemma sample_setup:
  assumes "AssembleProposal tx_libs sample_rtc 9 [5] [tx_bytes 3, tx_bytes 3] = Ret p"
  shows "AssembleProposal tx_libs (v_RuntimeConfig sample_verifier) 9 [5] [tx_bytes 3, tx_bytes 3] = Ret p"
    and "sgn_LastConfigBlockNum sample_signer = LastConfigBlockNum tx_libs (v_RuntimeConfig sample_verifier)"
    and "rtc_ID2Identities (v_RuntimeConfig sample_verifier) (sgn_ID sample_signer) = Some [7]"
    and "ss_Serialize (sgn_SignerSerializer sample_signer) = Ret [7]"
    and "v_ConsenterVerifier sample_verifier x = Ret ()"
  using assms by (simp_all add: sample_verifier_def sample_signer_def) (simp add: sample_rtc_def)

theorem signature_of_assembled_proposal_accepted_witness:
  "\<exists>p s. SignProposal tx_libs sample_signer p [2] = Ret s \<and>
     VerifyConsenterSig tx_libs sample_verifier s p = Ret [2]"
proof (rule sample_signature)
  fix p s
  assume p: "AssembleProposal tx_libs sample_rtc 9 [5] [tx_bytes 3, tx_bytes 3] = Ret p" "fits p"
    and s: "SignProposal tx_libs sample_signer p [2] = Ret s" "length (bsig_Msg s) + 30 < 2 ^ 31"
  note set = sample_setup [OF p(1)]
  have "VerifyConsenterSig tx_libs sample_verifier s p = Ret [2]"
    by (rule signature_of_assembled_proposal_accepted
        [OF lossless_tx_libs p(2) set(1) s(1) set(2-4) set(5) s(2)])
  with s(1) show ?thesis by blast
qed

theorem VerifyConsenterSig_bound_witness:
  "\<exists>p s sig. VerifyConsenterSig tx_libs sample_verifier s p = Ret [2] \<and>
     sig_Unmarshal (bsig_Msg s) = Ret sig \<and> [2] = sig_AuxiliaryInput sig \<and>
     rtc_ID2Identities (v_RuntimeConfig sample_verifier) (bsig_ID s) \<noteq> None"
proof (rule sample_signature)
  fix p s
  assume p: "AssembleProposal tx_libs sample_rtc 9 [5] [tx_bytes 3, tx_bytes 3] = Ret p" "fits p"
    and s: "SignProposal tx_libs sample_signer p [2] = Ret s" "length (bsig_Msg s) + 30 < 2 ^ 31"
  note set = sample_setup [OF p(1)]
  have "VerifyConsenterSig tx_libs sample_verifier s p = Ret [2]"
    by (rule consenter_sig_accepted [OF lossless_tx_libs p(2) set(1) s(1) set(2-4) set(5) s(2)])
  from VerifyConsenterSig_bound [OF this] this show ?thesis by (metis option.distinct(1))
qed

end
