(* ===== verification/BlockWriter.thy ===== *)
theory BlockWriter
  imports Verifier
begin

text \<open>
  Writing blocks to the ledger: \<open>orderer/common/multichannel/blockwriter.go\<close>.

  A write changes the block it is given (its \<open>LAST_CONFIG\<close> metadata, and its signature when
  it has none); the caller holds the same pointer and reads the changed block afterwards, so
  a write returns the block beside the new state.  Channels of this consensus type write
  synchronously; where the code commits in a goroutine behind the lock, the model commits
  before returning.

  The channel's resources are outside the model: \<open>bw_Sequence\<close> is the sequence of the
  configuration in force, \<open>be_CreateBundle\<close> says which sequence and consensus type a new
  configuration brings, and \<open>be_Append\<close> whether the ledger takes a block.
\<close>

record bw_env =
  be_Validate :: "config_envelope \<Rightarrow> unit go"
  be_CreateBundle :: "string \<Rightarrow> config option \<Rightarrow> (u64 \<times> string option) go"
    \<comment> \<open>sequence of the new bundle, and the consensus type of its orderer section\<close>
  be_Append :: "block list \<Rightarrow> block \<Rightarrow> unit go"
  be_Signer :: signer_serializer

record block_writer =
  bw_lastConfigBlockNum :: u64
  bw_lastConfigSeq :: u64
  bw_lastBlock :: block
  bw_Sequence :: u64
  bw_ConsensusType :: string
  bw_ledger :: "block list"
  bw_newChains :: "envelope list"

definition newBlockWriter :: "libs \<Rightarrow> block \<Rightarrow> u64 \<Rightarrow> string \<Rightarrow> block list \<Rightarrow> block_writer go" where
  "newBlockWriter L lastBlock seq ctype ldg =
     go_bind (deref (blk_Header lastBlock)) (\<lambda>h.
     go_bind (if hdr_Number h = 0 then Ret 0
              else or_panic ''Error extracting last config block from block metadata''
                     (GetLastConfigIndexFromBlock L lastBlock)) (\<lambda>n.
     Ret \<lparr>bw_lastConfigBlockNum = n, bw_lastConfigSeq = seq, bw_lastBlock = lastBlock,
          bw_Sequence = seq, bw_ConsensusType = ctype, bw_ledger = ldg, bw_newChains = []\<rparr>))"

definition CreateNextBlock :: "libs \<Rightarrow> block_writer \<Rightarrow> envelope list \<Rightarrow> block go" where
  "CreateNextBlock L bw messages =
     go_bind (deref (blk_Header (bw_lastBlock bw))) (\<lambda>lh.
     go_bind (header_Hash L lh) (\<lambda>previousBlockHash.
     go_bind (go_map (MarshalOrPanic (enc_envelope L)) messages) (\<lambda>d.
     Ret ((NewBlock (hdr_Number lh + 1) previousBlockHash)
       \<lparr>blk_Header := Some \<lparr>hdr_Number = hdr_Number lh + 1, hdr_PreviousHash = previousBlockHash,
                            hdr_DataHash = data_Hash L d\<rparr>,
        blk_Data := Some d\<rparr>))))"

text \<open>Writing one entry of a block's metadata.\<close>

definition set_metadata :: "nat \<Rightarrow> bytes \<Rightarrow> block \<Rightarrow> block go" where
  "set_metadata i v b =
     go_bind (deref (blk_Metadata b)) (\<lambda>mds.
     go_bind (slice_set mds i v) (\<lambda>mds'. Ret (b\<lparr>blk_Metadata := Some mds'\<rparr>)))"

abbreviation (input) ORDERER :: nat where "ORDERER \<equiv> 3"

definition addLastConfigSignature :: "libs \<Rightarrow> block_writer \<Rightarrow> block \<Rightarrow> (block \<times> block_writer) go" where
  "addLastConfigSignature L bw b =
     (let configSeq = bw_Sequence bw in
      go_bind (if bw_lastConfigSeq bw < configSeq
               then go_bind (deref (blk_Header b)) (\<lambda>h.
                    Ret (bw\<lparr>bw_lastConfigBlockNum := hdr_Number h, bw_lastConfigSeq := configSeq\<rparr>))
               else Ret bw) (\<lambda>bw'.
      go_bind (MarshalOrPanic (enc_last_config L) \<lparr>lc_Index = bw_lastConfigBlockNum bw'\<rparr>) (\<lambda>v.
      go_bind (MarshalOrPanic (enc_metadata L) \<lparr>md_Value = v, md_Signatures = []\<rparr>) (\<lambda>m.
      go_bind (set_metadata LAST_CONFIG m b) (\<lambda>b'. Ret (b', bw'))))))"

definition addBlockSignature :: "libs \<Rightarrow> bw_env \<Rightarrow> block_writer \<Rightarrow> block \<Rightarrow> block go" where
  "addBlockSignature L E bw b =
     go_bind (or_panic ''failed generating a new SignatureHeader'' (ss_Serialize (be_Signer E))) (\<lambda>creator.
     go_bind (or_panic ''failed generating a new SignatureHeader'' (ss_GetRandomNonce (be_Signer E))) (\<lambda>nonce.
     go_bind (MarshalOrPanic (enc_signature_header L) \<lparr>sh_Creator = creator, sh_Nonce = nonce\<rparr>) (\<lambda>shb.
     go_bind (deref (blk_Metadata b)) (\<lambda>mds.
     go_bind (slice_get mds ORDERER) (\<lambda>consenterMD.
     go_bind (MarshalOrPanic (enc_orderer_block_metadata L)
       \<lparr>obm_LastConfig = Some \<lparr>lc_Index = bw_lastConfigBlockNum bw\<rparr>,
        obm_ConsenterMetadata = consenterMD\<rparr>) (\<lambda>v.
     go_bind (deref (blk_Header b)) (\<lambda>h.
     go_bind (header_Bytes h) (\<lambda>hb.
     go_bind (SignOrPanic (be_Signer E) (ConcatenateBytes [v, shb, hb])) (\<lambda>sg.
     go_bind (MarshalOrPanic (enc_metadata L) \<lparr>md_Value = v, md_Signatures =
       [\<lparr>ms_SignatureHeader = shb, ms_Signature = sg, ms_SignerId = 0, ms_Nonce = [],
         ms_AuxiliaryInput = []\<rparr>]\<rparr>) (\<lambda>m.
     set_metadata SIGNATURES m b))))))))))"

definition commitBlock ::
  "libs \<Rightarrow> bw_env \<Rightarrow> block_writer \<Rightarrow> bytes option \<Rightarrow> (block \<times> block_writer) go" where
  "commitBlock L E bw encodedMetadataValue =
     go_bind (case encodedMetadataValue of
                None \<Rightarrow> Ret (bw_lastBlock bw)
              | Some v \<Rightarrow>
                  go_bind (MarshalOrPanic (enc_metadata L) \<lparr>md_Value = v, md_Signatures = []\<rparr>)
                    (\<lambda>m. set_metadata ORDERER m (bw_lastBlock bw))) (\<lambda>b1.
     go_bind (addLastConfigSignature L bw b1) (\<lambda>(b2, bw1).
     go_bind (deref (blk_Metadata b2)) (\<lambda>mds.
     go_bind (slice_get mds SIGNATURES) (\<lambda>sg.
     go_bind (if sg = [] then addBlockSignature L E bw1 b2 else Ret b2) (\<lambda>b3.
     go_bind (or_panic ''Could not append block'' (be_Append E (bw_ledger bw1) b3)) (\<lambda>_.
     Ret (b3, bw1\<lparr>bw_lastBlock := b3, bw_ledger := bw_ledger bw1 @ [b3]\<rparr>)))))))"

definition writeBlockSync ::
  "libs \<Rightarrow> bw_env \<Rightarrow> block_writer \<Rightarrow> block \<Rightarrow> bytes option \<Rightarrow> (block \<times> block_writer) go" where
  "writeBlockSync L E bw b encodedMetadataValue =
     commitBlock L E (bw\<lparr>bw_lastBlock := b\<rparr>) encodedMetadataValue"

definition WriteBlock ::
  "libs \<Rightarrow> bw_env \<Rightarrow> block_writer \<Rightarrow> block \<Rightarrow> bytes option \<Rightarrow> (block \<times> block_writer) go" where
  "WriteBlock L E bw b encodedMetadataValue = writeBlockSync L E bw b encodedMetadataValue"

text \<open>The switch of \<open>WriteConfigBlock\<close> on the type of the transaction, and the final write.\<close>

definition write_config_switch :: "libs \<Rightarrow> bw_env \<Rightarrow> block_writer \<Rightarrow> block \<Rightarrow> bytes option \<Rightarrow> payload \<Rightarrow>
    channel_header \<Rightarrow> (block \<times> block_writer) go" where
  "write_config_switch L E bw b encodedMetadataValue pl chdr =
     (if ch_Type chdr = HeaderType_ORDERER_TRANSACTION then
       go_bind (or_panic ''did not have config update embedded'' (UnmarshalEnvelope L (pl_Data pl)))
         (\<lambda>newChannelConfig.
       WriteBlock L E (bw\<lparr>bw_newChains := bw_newChains bw @ [newChannelConfig]\<rparr>) b
         encodedMetadataValue)
     else if ch_Type chdr = HeaderType_CONFIG then
       go_bind (or_panic ''did not have config envelope encoded''
         (UnmarshalConfigEnvelope L (pl_Data pl))) (\<lambda>configEnvelope.
       go_bind (or_panic ''could not apply it'' (be_Validate E configEnvelope)) (\<lambda>_.
       go_bind (or_panic ''could not convert it to a bundle''
         (be_CreateBundle E (ch_ChannelId chdr) (ce_Config configEnvelope))) (\<lambda>(seq, oc).
       case oc of
         None \<Rightarrow> Panic ''OrdererConfig missing from bundle''
       | Some nextType \<Rightarrow>
           WriteBlock L E (bw\<lparr>bw_Sequence := seq, bw_ConsensusType := nextType\<rparr>) b
             (if bw_ConsensusType bw \<noteq> nextType then None else encodedMetadataValue))))
     else Panic ''unknown header type'')"

definition WriteConfigBlock ::
  "libs \<Rightarrow> bw_env \<Rightarrow> block_writer \<Rightarrow> block \<Rightarrow> bytes option \<Rightarrow> (block \<times> block_writer) go" where
  "WriteConfigBlock L E bw b encodedMetadataValue =
     go_bind (or_panic ''could not get configtx'' (ExtractEnvelope L b 0)) (\<lambda>ctx.
     go_bind (or_panic ''configtx payload is invalid'' (UnmarshalPayload L (env_Payload ctx))) (\<lambda>pl.
     case pl_Header pl of
       None \<Rightarrow> Panic ''configtx payload header is missing''
     | Some phdr \<Rightarrow>
         go_bind (or_panic ''invalid channel header''
           (UnmarshalChannelHeader L (nbytes (hd_ChannelHeader phdr)))) (\<lambda>chdr.
         write_config_switch L E bw b encodedMetadataValue pl chdr)))"

subsection \<open>What a write does\<close>

text \<open>Two blocks that differ in their metadata only.\<close>

definition same_content :: "block \<Rightarrow> block \<Rightarrow> bool" where
  "same_content b b' \<longleftrightarrow> blk_Header b' = blk_Header b \<and> blk_Data b' = blk_Data b"

lemma same_content_refl [simp]: "same_content b b"
  by (simp add: same_content_def)

lemma same_content_trans: "same_content a b \<Longrightarrow> same_content b c \<Longrightarrow> same_content a c"
  by (simp add: same_content_def)

lemma set_metadata_Ret_iff:
  "set_metadata i v b = Ret b' \<longleftrightarrow>
     (\<exists>mds. blk_Metadata b = Some mds \<and> i < length mds \<and> b' = b\<lparr>blk_Metadata := Some (mds[i := v])\<rparr>)"
  by (auto simp: set_metadata_def go_simps)

lemma set_metadata_content: "set_metadata i v b = Ret b' \<Longrightarrow> same_content b b'"
  by (auto simp: set_metadata_Ret_iff same_content_def)

lemma addLastConfigSignature_Ret:
  assumes "addLastConfigSignature L bw b = Ret (b', bw')"
  obtains n v m mds where
    "if bw_lastConfigSeq bw < bw_Sequence bw then \<exists>h. blk_Header b = Some h \<and> n = hdr_Number h
     else n = bw_lastConfigBlockNum bw"
    "bw' = bw\<lparr>bw_lastConfigBlockNum := n, bw_lastConfigSeq := max (bw_lastConfigSeq bw) (bw_Sequence bw)\<rparr>"
    "enc_last_config L \<lparr>lc_Index = n\<rparr> = Some v"
    "enc_metadata L \<lparr>md_Value = v, md_Signatures = []\<rparr> = Some m"
    "blk_Metadata b = Some mds" "1 < length mds" "b' = b\<lparr>blk_Metadata := Some (mds[1 := m])\<rparr>"
proof (cases "bw_lastConfigSeq bw < bw_Sequence bw")
  case True
  with assms show thesis
    unfolding addLastConfigSignature_def Let_def
    by (auto simp: go_simps set_metadata_Ret_iff max_def intro!: that)
next
  case False
  with assms show thesis
    unfolding addLastConfigSignature_def Let_def
    by (auto simp: go_simps set_metadata_Ret_iff max_def intro!: that)
qed

lemma addBlockSignature_Ret:
  assumes "addBlockSignature L E bw b = Ret b'"
  obtains m mds where "blk_Metadata b = Some mds" "0 < length mds"
    "b' = b\<lparr>blk_Metadata := Some (mds[0 := m])\<rparr>"
  using assms unfolding addBlockSignature_def
  by (auto simp: go_simps set_metadata_Ret_iff intro: that)

text \<open>A committed block: its content is kept, and its \<open>LAST_CONFIG\<close> entry names the last
  configuration block, which is the block itself when the configuration has advanced.\<close>

definition last_config_entry :: "libs \<Rightarrow> block \<Rightarrow> u64 \<Rightarrow> bool" where
  "last_config_entry L b n \<longleftrightarrow> (\<exists>mds v m. blk_Metadata b = Some mds \<and> 1 < length mds \<and> mds ! 1 = m \<and>
     enc_last_config L \<lparr>lc_Index = n\<rparr> = Some v \<and>
     enc_metadata L \<lparr>md_Value = v, md_Signatures = []\<rparr> = Some m)"

lemma commitBlock_Ret:
  assumes "commitBlock L E bw emd = Ret (b', bw')"
  shows "same_content (bw_lastBlock bw) b'"
    and "bw_ledger bw' = bw_ledger bw @ [b']" and "bw_lastBlock bw' = b'"
    and "bw_newChains bw' = bw_newChains bw" and "bw_Sequence bw' = bw_Sequence bw"
    and "last_config_entry L b' (bw_lastConfigBlockNum bw')"
    and "if bw_lastConfigSeq bw < bw_Sequence bw
         then \<exists>h. blk_Header b' = Some h \<and> bw_lastConfigBlockNum bw' = hdr_Number h
         else bw_lastConfigBlockNum bw' = bw_lastConfigBlockNum bw"
    and "be_Append E (bw_ledger bw) b' = Ret ()"
proof -
  from assms obtain b1 b2 bw1 mds sg b3 where
    b1: "(case emd of None \<Rightarrow> Ret (bw_lastBlock bw)
          | Some v \<Rightarrow> go_bind (MarshalOrPanic (enc_metadata L) \<lparr>md_Value = v, md_Signatures = []\<rparr>)
                    (\<lambda>m. set_metadata ORDERER m (bw_lastBlock bw))) = Ret b1"
    and b2: "addLastConfigSignature L bw b1 = Ret (b2, bw1)"
    and mds: "blk_Metadata b2 = Some mds" "0 < length mds"
    and b3: "(if mds ! 0 = [] then addBlockSignature L E bw1 b2 else Ret b2) = Ret b3"
    and app: "be_Append E (bw_ledger bw1) b3 = Ret ()"
    and res: "b' = b3" "bw' = bw1\<lparr>bw_lastBlock := b3, bw_ledger := bw_ledger bw1 @ [b3]\<rparr>"
    unfolding commitBlock_def by (auto simp: go_simps)
  have c1: "same_content (bw_lastBlock bw) b1"
    using b1 by (auto simp: go_simps dest: set_metadata_content split: option.splits)
  from b2 obtain n v m mds1 where
    n: "if bw_lastConfigSeq bw < bw_Sequence bw then \<exists>h. blk_Header b1 = Some h \<and> n = hdr_Number h
        else n = bw_lastConfigBlockNum bw"
    and bw1: "bw1 = bw\<lparr>bw_lastConfigBlockNum := n,
        bw_lastConfigSeq := max (bw_lastConfigSeq bw) (bw_Sequence bw)\<rparr>"
    and enc: "enc_last_config L \<lparr>lc_Index = n\<rparr> = Some v"
      "enc_metadata L \<lparr>md_Value = v, md_Signatures = []\<rparr> = Some m"
    and mds1: "blk_Metadata b1 = Some mds1" "1 < length mds1"
      "b2 = b1\<lparr>blk_Metadata := Some (mds1[1 := m])\<rparr>"
    by (rule addLastConfigSignature_Ret)
  have c3: "same_content b2 b3 \<and> (\<exists>mds3. blk_Metadata b3 = Some mds3 \<and> 1 < length mds3 \<and> mds3 ! 1 = m)"
  proof (cases "mds ! 0 = []")
    case True
    with b3 have "addBlockSignature L E bw1 b2 = Ret b3" by simp
    then show ?thesis
      by (rule addBlockSignature_Ret) (use mds1 in \<open>auto simp: same_content_def\<close>)
  next
    case False
    with b3 mds1 show ?thesis by auto
  qed
  have c: "same_content (bw_lastBlock bw) b3"
    using c1 c3 mds1(3) by (simp add: same_content_def)
  show "same_content (bw_lastBlock bw) b'" using c res by simp
  show "bw_ledger bw' = bw_ledger bw @ [b']" "bw_lastBlock bw' = b'"
    "bw_newChains bw' = bw_newChains bw" "bw_Sequence bw' = bw_Sequence bw"
    using res bw1 by simp_all
  show "be_Append E (bw_ledger bw) b' = Ret ()" using app res bw1 by simp
  show "last_config_entry L b' (bw_lastConfigBlockNum bw')"
    using c3 enc res bw1 by (auto simp: last_config_entry_def)
  have "blk_Header b3 = blk_Header b1" using c c1 by (simp add: same_content_def)
  with n show "if bw_lastConfigSeq bw < bw_Sequence bw
         then \<exists>h. blk_Header b' = Some h \<and> bw_lastConfigBlockNum bw' = hdr_Number h
         else bw_lastConfigBlockNum bw' = bw_lastConfigBlockNum bw"
    using res bw1 by simp
qed

lemma WriteBlock_Ret:
  assumes "WriteBlock L E bw b emd = Ret (b', bw')"
  shows "same_content b b'" and "bw_ledger bw' = bw_ledger bw @ [b']" and "bw_lastBlock bw' = b'"
    and "last_config_entry L b' (bw_lastConfigBlockNum bw')" and "be_Append E (bw_ledger bw) b' = Ret ()"
  using commitBlock_Ret [OF assms [unfolded WriteBlock_def writeBlockSync_def]] by simp_all

lemma WriteConfigBlock_Ret:
  assumes "WriteConfigBlock L E bw b emd = Ret (b', bw')"
  shows "\<exists>bw0 emd0. WriteBlock L E bw0 b emd0 = Ret (b', bw') \<and> (emd = None \<longrightarrow> emd0 = None) \<and>
    bw_ledger bw0 = bw_ledger bw \<and>
    bw_lastConfigBlockNum bw0 = bw_lastConfigBlockNum bw \<and> bw_lastConfigSeq bw0 = bw_lastConfigSeq bw"
proof -
  from assms obtain pl chdr where "write_config_switch L E bw b emd pl chdr = Ret (b', bw')"
    unfolding WriteConfigBlock_def by (auto simp: go_simps guard_Ret_iff)
  then consider e where "WriteBlock L E (bw\<lparr>bw_newChains := bw_newChains bw @ [e]\<rparr>) b emd = Ret (b', bw')"
    | seq ty emd' where
      "WriteBlock L E (bw\<lparr>bw_Sequence := seq, bw_ConsensusType := ty\<rparr>) b emd' = Ret (b', bw')"
      "emd = None \<longrightarrow> emd' = None"
    unfolding write_config_switch_def
    by (auto simp: go_simps guard_Ret_iff split: if_splits prod.splits)
  then show ?thesis by cases (fastforce, fastforce)
qed

text \<open>A block that is signed already keeps every entry but \<open>LAST_CONFIG\<close>, and is appended.\<close>

lemma commitBlock_signed:
  assumes "commitBlock L E bw None = Ret (b', bw')"
    and "blk_Metadata (bw_lastBlock bw) = Some mds" and "mds ! 0 \<noteq> []"
  shows "\<exists>v m. blk_Metadata b' = Some (mds[1 := m]) \<and> 1 < length mds \<and>
     enc_last_config L \<lparr>lc_Index = bw_lastConfigBlockNum bw'\<rparr> = Some v \<and>
     enc_metadata L \<lparr>md_Value = v, md_Signatures = []\<rparr> = Some m"
proof -
  from assms(1) obtain b2 bw1 mds2 b3 where
    b2: "addLastConfigSignature L bw (bw_lastBlock bw) = Ret (b2, bw1)"
    and mds2: "blk_Metadata b2 = Some mds2" "0 < length mds2"
    and b3: "(if mds2 ! 0 = [] then addBlockSignature L E bw1 b2 else Ret b2) = Ret b3"
    and res: "b' = b3" "bw' = bw1\<lparr>bw_lastBlock := b3, bw_ledger := bw_ledger bw1 @ [b3]\<rparr>"
    unfolding commitBlock_def by (auto simp: go_simps)
  from b2 obtain n v m where bw1: "bw1 = bw\<lparr>bw_lastConfigBlockNum := n,
        bw_lastConfigSeq := max (bw_lastConfigSeq bw) (bw_Sequence bw)\<rparr>"
    and enc: "enc_last_config L \<lparr>lc_Index = n\<rparr> = Some v"
      "enc_metadata L \<lparr>md_Value = v, md_Signatures = []\<rparr> = Some m"
    and mds1: "1 < length mds" "b2 = bw_lastBlock bw\<lparr>blk_Metadata := Some (mds[1 := m])\<rparr>"
    by (rule addLastConfigSignature_Ret) (use assms(2) in auto)
  have "mds2 = mds[1 := m]" using mds1 mds2 by simp
  then have "mds2 ! 0 \<noteq> []" using assms(3) by simp
  with b3 have b3: "b3 = b2" by simp
  with mds1 enc res bw1 show ?thesis by auto
qed

text \<open>The call both \<open>Deliver\<close> and \<open>synchronize\<close> make.\<close>

definition write_any :: "libs \<Rightarrow> bw_env \<Rightarrow> block_writer \<Rightarrow> block \<Rightarrow> (block \<times> block_writer) go" where
  "write_any L E bw b =
     (if IsConfigBlock L b then WriteConfigBlock L E bw b None else WriteBlock L E bw b None)"

lemma write_any_Ret:
  assumes "write_any L E bw b = Ret (b', bw')"
  shows "same_content b b'" and "bw_ledger bw' = bw_ledger bw @ [b']" and "bw_lastBlock bw' = b'"
    and "last_config_entry L b' (bw_lastConfigBlockNum bw')" and "be_Append E (bw_ledger bw) b' = Ret ()"
proof -
  obtain bw0 emd0 where "WriteBlock L E bw0 b emd0 = Ret (b', bw')" "bw_ledger bw0 = bw_ledger bw"
    using assms WriteConfigBlock_Ret [of L E bw b None b' bw']
    by (cases "IsConfigBlock L b") (auto simp: write_any_def)
  with WriteBlock_Ret [OF this(1)] show "same_content b b'" "bw_ledger bw' = bw_ledger bw @ [b']"
    "bw_lastBlock bw' = b'" "last_config_entry L b' (bw_lastConfigBlockNum bw')"
    "be_Append E (bw_ledger bw) b' = Ret ()"
    by simp_all
qed

lemma write_any_signed:
  assumes "write_any L E bw b = Ret (b', bw')"
    and "blk_Metadata b = Some mds" and "mds ! 0 \<noteq> []"
  shows "\<exists>v m. blk_Metadata b' = Some (mds[1 := m]) \<and> 1 < length mds \<and>
     enc_last_config L \<lparr>lc_Index = bw_lastConfigBlockNum bw'\<rparr> = Some v \<and>
     enc_metadata L \<lparr>md_Value = v, md_Signatures = []\<rparr> = Some m"
proof -
  obtain bw0 where w: "WriteBlock L E bw0 b None = Ret (b', bw')" "bw_ledger bw0 = bw_ledger bw"
    using assms(1) WriteConfigBlock_Ret [of L E bw b None b' bw']
    by (cases "IsConfigBlock L b") (auto simp: write_any_def)
  from commitBlock_signed [OF w(1) [unfolded WriteBlock_def writeBlockSync_def]] assms(2,3) show ?thesis by simp
qed

text \<open>Writing a block panics or succeeds; it never returns an error.\<close>

lemma set_metadata_not_Err: "set_metadata i v b \<noteq> Err e"
  by (auto simp: set_metadata_def go_bind_Err_iff)

lemma WriteBlock_not_Err: "WriteBlock L E bw b emd \<noteq> Err e"
proof -
  have sig: "addBlockSignature L E bw b \<noteq> Err e" for bw b e
    by (auto simp: addBlockSignature_def SignOrPanic_def go_bind_Err_iff set_metadata_not_Err
        header_Bytes_not_Err)
  have last: "addLastConfigSignature L bw b \<noteq> Err e" for bw b e
    by (auto simp: addLastConfigSignature_def Let_def go_bind_Err_iff set_metadata_not_Err split: if_splits)
  show ?thesis
    unfolding WriteBlock_def writeBlockSync_def commitBlock_def
    by (auto simp: go_bind_Err_iff set_metadata_not_Err sig last split: option.splits if_splits)
qed

lemma write_any_not_Err: "write_any L E bw b \<noteq> Err e"
proof -
  have "write_config_switch L E bw b emd pl chdr \<noteq> Err e" for emd pl chdr
    unfolding write_config_switch_def
    by (auto simp: go_bind_Err_iff WriteBlock_not_Err split: option.splits prod.splits)
  then show ?thesis
    unfolding write_any_def WriteConfigBlock_def
    by (auto simp: go_bind_Err_iff WriteBlock_not_Err split: option.splits)
qed

text \<open>
  A log that blocks are appended to: what is written is what was given, up to metadata, and
  nothing written before changes.
\<close>

locale block_log =
  fixes wr :: "'s \<Rightarrow> block \<Rightarrow> (block \<times> 's) go" and blocks :: "'s \<Rightarrow> block list"
  assumes write_appends: "wr s b = Ret (b', s') \<Longrightarrow> blocks s' = blocks s @ [b'] \<and> same_content b b'"
begin

fun write_all :: "'s \<Rightarrow> block list \<Rightarrow> 's go" where
  "write_all s [] = Ret s"
| "write_all s (b # bs) = go_bind (wr s b) (\<lambda>(_, s'). write_all s' bs)"

lemma write_all_blocks:
  "write_all s bs = Ret s' \<Longrightarrow>
     \<exists>ws. blocks s' = blocks s @ ws \<and> list_all2 same_content bs ws"
proof (induction bs arbitrary: s)
  case Nil
  then show ?case by simp
next
  case (Cons b bs)
  from Cons.prems obtain b' t where t: "wr s b = Ret (b', t)" "write_all t bs = Ret s'"
    by (auto simp: go_simps)
  from Cons.IH [OF t(2)] obtain ws where "blocks s' = blocks t @ ws" "list_all2 same_content bs ws"
    by blast
  with write_appends [OF t(1)] show ?case by (intro exI [of _ "b' # ws"]) auto
qed

lemma write_all_headers:
  "write_all s bs = Ret s' \<Longrightarrow> map blk_Header (blocks s') = map blk_Header (blocks s @ bs)"
proof -
  assume "write_all s bs = Ret s'"
  then obtain ws where ws: "blocks s' = blocks s @ ws" "list_all2 same_content bs ws"
    using write_all_blocks by blast
  from ws(2) have "map blk_Header ws = map blk_Header bs"
    by (induction rule: list_all2_induct) (auto simp: same_content_def)
  with ws(1) show ?thesis by simp
qed

end

interpretation bw: block_log "write_any L E" bw_ledger for L E
  by unfold_locales (auto dest: write_any_Ret)

subsection \<open>Properties\<close>

lemma last_config_entry_read:
  assumes "lossless L" "last_config_entry L b n"
  shows "GetLastConfigIndexFromBlock L b = Ret n"
  using assms by (auto simp: last_config_entry_def GetLastConfigIndexFromBlock_def
      GetMetadataFromBlock_def lossless_dec(5,6))

text \<open>
  A written block keeps its header and data, is appended to the ledger as the new last
  block, and its metadata, read back with \<open>GetLastConfigIndexFromBlock\<close>, names the last
  configuration block: the block itself when the configuration sequence has advanced since
  the last write, the one named before otherwise.
\<close>

theorem WriteBlock_last_config:
  assumes "lossless L" and "WriteBlock L E bw b emd = Ret (b', bw')"
  shows "blk_Header b' = blk_Header b \<and> blk_Data b' = blk_Data b \<and>
    bw_ledger bw' = bw_ledger bw @ [b'] \<and> bw_lastBlock bw' = b' \<and>
    GetLastConfigIndexFromBlock L b' = Ret (bw_lastConfigBlockNum bw') \<and>
    (if bw_lastConfigSeq bw < bw_Sequence bw
     then \<exists>h. blk_Header b = Some h \<and> bw_lastConfigBlockNum bw' = hdr_Number h
     else bw_lastConfigBlockNum bw' = bw_lastConfigBlockNum bw)"
proof -
  note w = WriteBlock_Ret [OF assms(2)]
  from commitBlock_Ret(7) [OF assms(2) [unfolded WriteBlock_def writeBlockSync_def]] w(1)
  have "if bw_lastConfigSeq bw < bw_Sequence bw
     then \<exists>h. blk_Header b = Some h \<and> bw_lastConfigBlockNum bw' = hdr_Number h
     else bw_lastConfigBlockNum bw' = bw_lastConfigBlockNum bw"
    by (cases "bw_lastConfigSeq bw < bw_Sequence bw") (auto simp: same_content_def)
  with w last_config_entry_read [OF assms(1) w(4)] show ?thesis by (simp add: same_content_def)
qed

definition sample_bw_env :: bw_env where
  "sample_bw_env = \<lparr>be_Validate = (\<lambda>_. Ret ()), be_CreateBundle = (\<lambda>_ _. Ret (1, Some ''smartbft'')),
     be_Append = (\<lambda>_ _. Ret ()),
     be_Signer = \<lparr>ss_Sign = Ret, ss_Serialize = Ret [7], ss_GetRandomNonce = Ret [8]\<rparr>\<rparr>"

definition sample_writer :: block_writer where
  "sample_writer = \<lparr>bw_lastConfigBlockNum = 2, bw_lastConfigSeq = 0, bw_lastBlock = sample_last,
     bw_Sequence = 1, bw_ConsensusType = ''smartbft'', bw_ledger = [sample_last], bw_newChains = []\<rparr>"

lemma sample_write:
  "\<exists>b' bw'. WriteBlock tx_libs sample_bw_env sample_writer sample_last None = Ret (b', bw')"
  by (simp add: WriteBlock_def writeBlockSync_def commitBlock_def addLastConfigSignature_def addBlockSignature_def
      set_metadata_def sample_writer_def sample_bw_env_def sample_last_def SignOrPanic_def
      header_Bytes_def)

theorem WriteBlock_last_config_witness:
  "\<exists>b' bw'. WriteBlock tx_libs sample_bw_env sample_writer sample_last None = Ret (b', bw') \<and>
     GetLastConfigIndexFromBlock tx_libs b' = Ret 4"
proof -
  obtain b' bw' where w: "WriteBlock tx_libs sample_bw_env sample_writer sample_last None = Ret (b', bw')"
    using sample_write by blast
  from WriteBlock_last_config [OF lossless_tx_libs w] have
    "GetLastConfigIndexFromBlock tx_libs b' = Ret 4"
    by (simp add: sample_writer_def sample_last_def)
  with w show ?thesis by blast
qed

text \<open>Blocks created from a series of batches and written one after the other.\<close>

definition order_batch :: "libs \<Rightarrow> bw_env \<Rightarrow> block_writer \<Rightarrow> envelope list \<Rightarrow> block_writer go" where
  "order_batch L E bw messages =
     go_bind (CreateNextBlock L bw messages) (\<lambda>b.
     go_bind (write_any L E bw b) (\<lambda>(_, bw'). Ret bw'))"

lemma linked_snoc:
  assumes "same_content b b'" "bs \<noteq> []"
  shows "linked L (bs @ [b']) (length bs) \<longleftrightarrow> linked L [last bs, b] 1"
  using assms by (simp add: linked_def same_content_def nth_append last_conv_nth split: option.splits)

lemma chained_snoc:
  "chained L (bs @ [b]) \<longleftrightarrow> chained L bs \<and> linked L (bs @ [b]) (length bs)"
proof -
  have "linked L (bs @ [b]) i = linked L bs i" if "i < length bs" for i
    using that by (cases i) (auto simp: linked_def nth_append split: option.splits)
  then show ?thesis by (auto simp: chained_def less_Suc_eq)
qed

definition chain_inv :: "libs \<Rightarrow> block_writer \<Rightarrow> bool" where
  "chain_inv L bw \<longleftrightarrow>
     chained L (bw_ledger bw) \<and> bw_ledger bw \<noteq> [] \<and> last (bw_ledger bw) = bw_lastBlock bw"

lemma CreateNextBlock_linked:
  assumes "CreateNextBlock L bw messages = Ret b"
  shows "linked L [bw_lastBlock bw, b] 1"
  using assms by (auto simp: CreateNextBlock_def go_simps linked_def)

lemma order_batch_inv:
  assumes "chain_inv L bw" "order_batch L E bw messages = Ret bw'"
  shows "chain_inv L bw'"
proof -
  from assms(2) obtain b b' where b: "CreateNextBlock L bw messages = Ret b"
      "write_any L E bw b = Ret (b', bw')"
    by (auto simp: order_batch_def go_simps)
  note w = write_any_Ret [OF b(2)]
  have "linked L (bw_ledger bw @ [b']) (length (bw_ledger bw))"
    using linked_snoc [OF w(1)] CreateNextBlock_linked [OF b(1)] assms(1) by (simp add: chain_inv_def)
  with assms(1) w show ?thesis by (simp add: chain_inv_def chained_snoc)
qed

text \<open>
  C26: The ledger stays a hash chain.  Starting from a chained ledger, blocks made by
  \<open>CreateNextBlock\<close> and written by the block writer extend it so that every block carries
  the hash of its data, the next number and the hash of its predecessor's header, although
  the writer rewrites their metadata.
\<close>

theorem written_blocks_chained:
  assumes "chained L (bw_ledger bw)" and "bw_ledger bw \<noteq> []" and "last (bw_ledger bw) = bw_lastBlock bw"
    and "go_fold (order_batch L E) bw batches = Ret bw'"
  shows "chained L (bw_ledger bw')"
proof -
  have "chain_inv L bw" using assms(1-3) by (simp add: chain_inv_def)
  then have "chain_inv L bw'"
    by (rule go_fold_invariant [OF assms(4)]) (auto intro: order_batch_inv)
  then show ?thesis by (simp add: chain_inv_def)
qed

theorem written_blocks_chained_witness:
  "\<exists>bw'. go_fold (order_batch tx_libs sample_bw_env)
       (let b = sample_last\<lparr>blk_Header := Some \<lparr>hdr_Number = 4, hdr_PreviousHash = [1],
                   hdr_DataHash = tx_bytes 3\<rparr>\<rparr>
        in sample_writer\<lparr>bw_lastBlock := b, bw_ledger := [b]\<rparr>)
       [[\<lparr>env_Payload = [3], env_Signature = []\<rparr>]] = Ret bw' \<and> chained tx_libs (bw_ledger bw')"
proof -
  let ?b = "sample_last\<lparr>blk_Header := Some \<lparr>hdr_Number = 4, hdr_PreviousHash = [1],
                   hdr_DataHash = tx_bytes 3\<rparr>\<rparr>"
  let ?w = "sample_writer\<lparr>bw_lastBlock := ?b, bw_ledger := [?b]\<rparr>"
  let ?msgs = "[[\<lparr>env_Payload = [3], env_Signature = []\<rparr>]] :: envelope list list"
  have mds: "replicate BlockMetadataIndex_count ([] :: bytes) = [[], [], [], [], []]"
    by (simp add: BlockMetadataIndex_count_def numeral_eq_Suc)
  have cfg: "\<not> IsConfigBlock tx_libs \<lparr>blk_Header = h, blk_Data = Some [tx_bytes 3], blk_Metadata = m\<rparr>" for h m
    by (simp add: IsConfigBlock_iff IsConfigTransaction_iff tx_payload_def tx_channel_header_def)
  have "\<exists>bw'. go_fold (order_batch tx_libs sample_bw_env) ?w ?msgs = Ret bw'"
    by (simp add: order_batch_def CreateNextBlock_def write_any_def cfg [unfolded tx_bytes_def]
        WriteBlock_def writeBlockSync_def commitBlock_def addLastConfigSignature_def addBlockSignature_def set_metadata_def
        sample_writer_def sample_bw_env_def sample_last_def SignOrPanic_def header_Hash_def
        header_Bytes_def NewBlock_def mds)
  then obtain bw' where run: "go_fold (order_batch tx_libs sample_bw_env) ?w ?msgs = Ret bw'" by blast
  have "chained tx_libs (bw_ledger ?w)"
    by (simp add: chained_def linked_def sample_last_def data_Hash_def data_Bytes_def ConcatenateBytes_def)
  then have "chained tx_libs (bw_ledger bw')"
    by (rule written_blocks_chained [OF _ _ _ run]) simp_all
  with run show ?thesis by (auto simp: Let_def)
qed

end
