(* ===== verification/Chain.thy ===== *)
theory Chain
  imports BlockWriter ProtocolFuzzer
begin

text \<open>
  The chain object that ties the parts of a channel together: \<open>smartbft/chain.go\<close>.

  The consensus library is outside the model: what the chain tells it (submitted requests,
  being stopped, the proposal and signatures it starts from) is recorded in the chain's
  state, and what the chain asks it is in \<open>chain_env\<close>.  The write-ahead log and the wiring
  of loggers are left out.  A nil and an empty node list are not distinguished.
\<close>

record reconfig =
  rc_InLatestDecision :: bool
  rc_CurrentNodes :: "u64 list"
  rc_CurrentConfig :: configuration

definition empty_reconfig :: reconfig where
  "empty_reconfig = \<lparr>rc_InLatestDecision = False, rc_CurrentNodes = [],
     rc_CurrentConfig = empty_configuration\<rparr>"

record chain_env =
  cx_fabric :: fabric_env
  cx_writer :: bw_env
  cx_GetLeaderID :: u64
  cx_ProcessNormalMsg :: "envelope \<Rightarrow> unit go"
  cx_ProcessConfigMsg :: "envelope \<Rightarrow> envelope go"
  cx_ConfigValidator :: "envelope \<Rightarrow> unit go"
  cx_ValidateConfiguration :: "u64 list \<Rightarrow> unit go"
  cx_partial_metadata :: "bytes \<Rightarrow> metadata"
    \<comment> \<open>what a failed \<open>proto.Unmarshal\<close> leaves in a \<open>common.Metadata\<close>\<close>

record bft_chain =
  bc_Channel :: string
  bc_SelfID :: u64
  bc_RuntimeConfig :: runtime_config
  bc_support :: block_writer
  bc_halted :: bool
  bc_Configured :: "remote_node list list"
  bc_Submitted :: "bytes list"
  bc_Handled :: "(u64 \<times> message) list"
  bc_started :: bool
  bc_fuzzing :: bool
  bc_fuzz :: fuzz_state
  bc_Metadata :: view_metadata
  bc_LastProposal :: proposal
  bc_LastSignatures :: "bft_signature list"
  bc_ClusterSize :: nat
  bc_CommittedBlockNumber :: u64
  bc_LeaderID :: u64
  bc_IsLeader :: bool

text \<open>The ledger behind the chain's support.\<close>

definition support_ledger :: "block_writer \<Rightarrow> ledger" where
  "support_ledger w = \<lparr>ldg_Height = of_nat (length (bw_ledger w)),
     ldg_Block = (\<lambda>n. if unat n < length (bw_ledger w) then Some (bw_ledger w ! unat n) else None)\<rparr>"

definition Halt :: "bft_chain \<Rightarrow> bft_chain" where
  "Halt c = c\<lparr>bc_halted := True\<rparr>"

definition reportIsLeader :: "chain_env \<Rightarrow> bft_chain \<Rightarrow> bft_chain" where
  "reportIsLeader X c =
     c\<lparr>bc_LeaderID := cx_GetLeaderID X, bc_IsLeader := (cx_GetLeaderID X = bc_SelfID c)\<rparr>"

definition updateRuntimeConfig ::
  "libs \<Rightarrow> chain_env \<Rightarrow> bft_chain \<Rightarrow> block \<Rightarrow> (reconfig \<times> bft_chain) go" where
  "updateRuntimeConfig L X c b =
     (let prevRTC = bc_RuntimeConfig c in
      case BlockCommitted L (cx_fabric X) prevRTC b of
        Panic p \<Rightarrow> Panic p
      | Err _ \<Rightarrow> go_bind (deref (blk_Header b)) (\<lambda>_. Ret (empty_reconfig, Halt c))
      | Ret newRTC \<Rightarrow>
          let c1 = c\<lparr>bc_RuntimeConfig := newRTC\<rparr>;
              c2 = (if IsConfigBlock L b
                    then c1\<lparr>bc_Configured := bc_Configured c1 @ [rtc_RemoteNodes newRTC]\<rparr> else c1);
              membershipDidNotChange = (rtc_Nodes newRTC = rtc_Nodes prevRTC);
              configDidNotChange = (rtc_BFTConfig newRTC = rtc_BFTConfig prevRTC) in
          Ret (\<lparr>rc_InLatestDecision = \<not> (membershipDidNotChange \<and> configDidNotChange),
                rc_CurrentNodes = rtc_Nodes newRTC, rc_CurrentConfig = rtc_BFTConfig newRTC\<rparr>, c2))"

text \<open>The loop of \<open>Deliver\<close> over the signatures; \<open>None\<close> is the early return that halts.\<close>

fun deliver_signatures ::
  "bytes option \<Rightarrow> metadata_signature list \<Rightarrow> bft_signature list \<Rightarrow>
     (bytes option \<times> metadata_signature list) option" where
  "deliver_signatures obm sigs [] = Some (obm, sigs)"
| "deliver_signatures obm sigs (s # ss) =
     (case sig_Unmarshal (bsig_Msg s) of
        Ret sig \<Rightarrow>
          deliver_signatures
            (case obm of None \<Rightarrow> Some (sig_OrdererBlockMetadata sig) | Some _ \<Rightarrow> obm)
            (sigs @ [\<lparr>ms_SignatureHeader = [], ms_Signature = bsig_Value s, ms_SignerId = bsig_ID s,
                      ms_Nonce = sig_Nonce sig, ms_AuxiliaryInput = sig_AuxiliaryInput sig\<rparr>])
            ss
      | _ \<Rightarrow> None)"

definition Deliver ::
  "libs \<Rightarrow> chain_env \<Rightarrow> bft_chain \<Rightarrow> proposal \<Rightarrow> bft_signature list \<Rightarrow> (reconfig \<times> bft_chain) go" where
  "Deliver L X c proposal signatures =
     go_bind (or_panic ''failed to read proposal'' (ProposalToBlock L proposal)) (\<lambda>b.
     case deliver_signatures None [] signatures of
       None \<Rightarrow> Ret (empty_reconfig, Halt c)
     | Some (ordererBlockMetadata, sigs) \<Rightarrow>
         go_bind (MarshalOrPanic (enc_metadata L)
           \<lparr>md_Value = nbytes ordererBlockMetadata, md_Signatures = sigs\<rparr>) (\<lambda>m.
         go_bind (set_metadata SIGNATURES m b) (\<lambda>b1.
         go_bind (deref (blk_Header b1)) (\<lambda>h.
         go_bind (deref (blk_Data b1)) (\<lambda>_.
         let c1 = reportIsLeader X (c\<lparr>bc_CommittedBlockNumber := hdr_Number h\<rparr>) in
         go_bind (write_any L (cx_writer X) (bc_support c1) b1) (\<lambda>(b2, w).
         updateRuntimeConfig L X (c1\<lparr>bc_support := w\<rparr>) b2))))))"

definition submit :: "libs \<Rightarrow> bft_chain \<Rightarrow> envelope \<Rightarrow> bft_chain go" where
  "submit L c env =
     go_bind (wrap_err ''failed to marshal request envelope''
       (ext_call ''proto'' (enc_envelope L env))) (\<lambda>reqBytes.
     Ret (c\<lparr>bc_fuzz := addTx reqBytes (bc_fuzz c), bc_Submitted := bc_Submitted c @ [reqBytes]\<rparr>))"

definition Order :: "libs \<Rightarrow> chain_env \<Rightarrow> bft_chain \<Rightarrow> envelope \<Rightarrow> u64 \<Rightarrow> bft_chain go" where
  "Order L X c env configSeq =
     (let seq = bw_Sequence (bc_support c) in
      go_bind (if configSeq < seq
               then (case cx_ProcessNormalMsg X env of
                       Err e \<Rightarrow> Err (Errorf ''bad normal message'')
                     | r \<Rightarrow> r)
               else Ret ()) (\<lambda>_.
      submit L c env))"

definition Configure :: "libs \<Rightarrow> chain_env \<Rightarrow> bft_chain \<Rightarrow> envelope \<Rightarrow> u64 \<Rightarrow> bft_chain go" where
  "Configure L X c config configSeq =
     (let seq = bw_Sequence (bc_support c) in
      go_bind (if configSeq < seq
               then (case cx_ProcessConfigMsg X config of
                       Err e \<Rightarrow> Err (Errorf ''bad normal message'')
                     | r \<Rightarrow> r)
               else Ret config) (\<lambda>config'.
      go_bind (wrap_err ''illegal config update attempted'' (cx_ConfigValidator X config')) (\<lambda>_.
      submit L c config')))"

subsection \<open>Decisions read back from the ledger\<close>

definition blockToProposalWithoutSignaturesInMetadata ::
  "libs \<Rightarrow> chain_env \<Rightarrow> bft_chain \<Rightarrow> block \<Rightarrow> proposal go" where
  "blockToProposalWithoutSignaturesInMetadata L X c b =
     go_bind (deref (blk_Metadata b)) (\<lambda>mds.
     go_bind (if SIGNATURES < length mds
              then (let sm = (case dec_metadata L (mds ! SIGNATURES) of
                                Some m \<Rightarrow> m | None \<Rightarrow> cx_partial_metadata X (mds ! SIGNATURES)) in
                    go_bind (MarshalOrPanic (enc_metadata L) (sm\<lparr>md_Signatures := []\<rparr>)) (\<lambda>raw.
                    Ret (mds[SIGNATURES := raw])))
              else Ret mds) (\<lambda>mds'.
     go_bind (deref (blk_Header b)) (\<lambda>h.
     go_bind (header_Bytes h) (\<lambda>hb.
     go_bind (deref (blk_Data b)) (\<lambda>d.
     go_bind (MarshalOrPanic (enc_block_data L) d) (\<lambda>a.
     go_bind (MarshalOrPanic (enc_block_metadata L) mds') (\<lambda>bm.
     let vs = bw_Sequence (bc_support c) in
     Ret \<lparr>prop_Payload = tuple_ToBytes a bm, prop_Header = hb, prop_Metadata = [],
          prop_VerificationSequence = (if isConfigBlock L b then vs - 1 else vs)\<rparr>)))))))"

definition decision_signature ::
  "libs \<Rightarrow> bytes \<Rightarrow> bytes \<Rightarrow> metadata_signature \<Rightarrow> bft_signature list" where
  "decision_signature L hb obm sigMD =
     (case dec_prepares_from L (ms_AuxiliaryInput sigMD) of
        None \<Rightarrow> []
      | Some _ \<Rightarrow>
          [\<lparr>bsig_ID = ms_SignerId sigMD, bsig_Value = ms_Signature sigMD,
            bsig_Msg = sig_Marshal \<lparr>sig_Nonce = ms_Nonce sigMD, sig_SignatureHeader = [],
              sig_BlockHeader = hb, sig_OrdererBlockMetadata = obm,
              sig_AuxiliaryInput = ms_AuxiliaryInput sigMD\<rparr>\<rparr>])"

definition blockToDecision :: "libs \<Rightarrow> chain_env \<Rightarrow> bft_chain \<Rightarrow> block \<Rightarrow> decision go" where
  "blockToDecision L X c b =
     go_bind (blockToProposalWithoutSignaturesInMetadata L X c b) (\<lambda>proposal.
     go_bind (deref (blk_Header b)) (\<lambda>h.
     if hdr_Number h = 0 then Ret \<lparr>dcs_Proposal = proposal, dcs_Signatures = []\<rparr>
     else
       go_bind (deref (blk_Metadata b)) (\<lambda>mds.
       go_bind (slice_get mds SIGNATURES) (\<lambda>raw.
       go_bind (or_panic ''Failed unmarshaling signatures from block metadata''
         (unmarshal (dec_metadata L) raw)) (\<lambda>sm.
       go_bind (or_panic ''Failed unmarshaling OrdererBlockMetadata from block signature metadata''
         (unmarshal (dec_orderer_block_metadata L) (md_Value sm))) (\<lambda>obm.
       go_bind (go_map (\<lambda>s. go_bind (header_Bytes h) (\<lambda>hb. Ret (decision_signature L hb (md_Value sm) s)))
                  (md_Signatures sm)) (\<lambda>sigs.
       Ret \<lparr>dcs_Proposal = proposal\<lparr>prop_Metadata := obm_ConsenterMetadata obm\<rparr>,
            dcs_Signatures = concat sigs\<rparr>)))))))"

definition lastPersistedProposalAndSignatures ::
  "libs \<Rightarrow> chain_env \<Rightarrow> bft_chain \<Rightarrow> (proposal \<times> bft_signature list \<times> bft_chain) go" where
  "lastPersistedProposalAndSignatures L X c =
     go_bind (LastBlockFromLedgerOrPanic (support_ledger (bc_support c))) (\<lambda>lastBlock.
     go_bind (deref (blk_Header lastBlock)) (\<lambda>h.
     go_bind (blockToDecision L X c lastBlock) (\<lambda>d.
     Ret (dcs_Proposal d, dcs_Signatures d, c\<lparr>bc_CommittedBlockNumber := hdr_Number h\<rparr>))))"

definition id2identities_step :: "fabric_env \<Rightarrow> identities \<Rightarrow> consenter \<Rightarrow> identities go" where
  "id2identities_step E m consenter =
     go_bind (or_panic ''Failed to sanitize identity'' (fe_SanitizeIdentity E (cst_Identity consenter)))
       (\<lambda>sanitizedID. Ret (m(cst_ConsenterId consenter \<mapsto> sanitizedID)))"

definition blockToID2Identities :: "libs \<Rightarrow> fabric_env \<Rightarrow> block \<Rightarrow> identities go" where
  "blockToID2Identities L E b =
     go_bind (deref (blk_Data b)) (\<lambda>d.
     go_bind (slice_get d 0) (\<lambda>raw.
     go_bind (or_panic ''Failed unmarshaling envelope of previous config block''
       (unmarshal (dec_envelope L) raw)) (\<lambda>env.
     go_bind (or_panic ''Failed getting a new bundle from envelope of previous config block''
       (fe_OrdererConfig E env)) (\<lambda>oc.
     case oc of
       None \<Rightarrow> Panic ''Orderer config of previous config block is nil''
     | Some (_, rawMD) \<Rightarrow>
         go_bind (or_panic ''Failed to unmarshal consensus metadata''
           (unmarshal (dec_config_metadata L) rawMD)) (\<lambda>m.
         go_fold (id2identities_step E) Map.empty (cm_Consenters m))))))"

subsection \<open>Starting a chain\<close>

definition bftSmartConsensusBuild :: "libs \<Rightarrow> chain_env \<Rightarrow> bft_chain \<Rightarrow> bft_chain go" where
  "bftSmartConsensusBuild L X c =
     go_bind (deref (rtc_LastBlock (bc_RuntimeConfig c))) (\<lambda>lastBlock.
     go_bind (or_panic ''Failed extracting view metadata from ledger''
       (getViewMetadataFromBlock L lastBlock)) (\<lambda>latestMetadata.
     let c1 = c\<lparr>bc_ClusterSize := length (rtc_Nodes (bc_RuntimeConfig c)),
                bc_Metadata := latestMetadata\<rparr> in
     go_bind (lastPersistedProposalAndSignatures L X c1) (\<lambda>(proposal, sigs, c2).
     Ret (c2\<lparr>bc_LastProposal := proposal, bc_LastSignatures := sigs\<rparr>))))"

text \<open>The chain object \<open>NewChain\<close> allocates, once its runtime configuration is stored.\<close>

definition initial_chain ::
  "string \<Rightarrow> configuration \<Rightarrow> runtime_config \<Rightarrow> block_writer \<Rightarrow> fuzz_state \<Rightarrow> bft_chain" where
  "initial_chain channel config rtc support seeds =
     \<lparr>bc_Channel = channel, bc_SelfID = cf_SelfID config, bc_RuntimeConfig = rtc,
      bc_support = support, bc_halted = False, bc_Configured = [], bc_Submitted = [],
      bc_Handled = [], bc_started = False, bc_fuzzing = False, bc_fuzz = seeds,
      bc_Metadata = empty_view_metadata,
      bc_LastProposal = \<lparr>prop_Payload = [], prop_Header = [], prop_Metadata = [],
                         prop_VerificationSequence = 0\<rparr>,
      bc_LastSignatures = [], bc_ClusterSize = 0, bc_CommittedBlockNumber = 0,
      bc_LeaderID = 0, bc_IsLeader = False\<rparr>"

definition NewChain ::
  "libs \<Rightarrow> chain_env \<Rightarrow> string \<Rightarrow> u64 \<Rightarrow> configuration \<Rightarrow> block_writer \<Rightarrow> fuzz_state \<Rightarrow> bft_chain go" where
  "NewChain L X channel selfID config support seeds =
     (let ldg = support_ledger support in
      go_bind (LastBlockFromLedgerOrPanic ldg) (\<lambda>lastBlock.
      go_bind (LastConfigBlockFromLedgerOrPanic L ldg) (\<lambda>lastConfigBlock.
      go_bind (wrap_err ''failed constructing RuntimeConfig''
        (BlockCommitted L (cx_fabric X) (initial_rtc selfID) lastConfigBlock)) (\<lambda>rtc1.
      go_bind (wrap_err ''failed constructing RuntimeConfig''
        (BlockCommitted L (cx_fabric X) rtc1 lastBlock)) (\<lambda>rtc.
      go_bind (bftSmartConsensusBuild L X (initial_chain channel config rtc support seeds)) (\<lambda>c1.
      let c2 = c1\<lparr>bc_Configured := bc_Configured c1 @ [rtc_RemoteNodes rtc]\<rparr> in
      go_bind (wrap_err ''failed to verify SmartBFT-Go configuration''
        (cx_ValidateConfiguration X (rtc_Nodes rtc))) (\<lambda>_.
      Ret c2)))))))"

text \<open>
  The verifier of a chain: it loads the runtime configuration of the moment, asks the
  policies of the channel, and the request inspector \<open>NewChain\<close> gives it accepts every
  identity structure.
\<close>

definition buildVerifier ::
  "(envelope \<Rightarrow> unit go) \<Rightarrow> runtime_config \<Rightarrow> block_writer \<Rightarrow>
     (string \<Rightarrow> (signed_data list \<Rightarrow> unit go) option) \<Rightarrow> verifier" where
  "buildVerifier cv rtc support GetPolicy =
     \<lparr>v_RuntimeConfig = rtc, v_ValidateIdentity = (\<lambda>_. Ret ()),
      v_ConsenterVerifier = consenterVerifier_Evaluate GetPolicy,
      v_AccessController = chainACL_Evaluate GetPolicy,
      v_Sequence = bw_Sequence support, v_ConfigValidator = cv\<rparr>"

text \<open>\<open>Start\<close> starts the library and the two fuzzing loops; the loops are modelled in the
  theory on the fuzzers.\<close>

definition Start :: "chain_env \<Rightarrow> bft_chain \<Rightarrow> bft_chain" where
  "Start X c = (reportIsLeader X (c\<lparr>bc_started := True\<rparr>))\<lparr>bc_fuzzing := True\<rparr>"

definition chain_HandleMessage :: "bft_chain \<Rightarrow> u64 \<Rightarrow> message \<Rightarrow> bft_chain" where
  "chain_HandleMessage c sender m = c\<lparr>bc_Handled := bc_Handled c @ [(sender, m)]\<rparr>"

definition chain_HandleRequest :: "bft_chain \<Rightarrow> u64 \<Rightarrow> bytes \<Rightarrow> bft_chain" where
  "chain_HandleRequest c sender req = c\<lparr>bc_Submitted := bc_Submitted c @ [req]\<rparr>"

subsection \<open>Delivery\<close>

text \<open>What \<open>Deliver\<close> stores of a signature.\<close>

definition ms_of :: "bft_signature \<Rightarrow> metadata_signature" where
  "ms_of s = (case sig_Unmarshal (bsig_Msg s) of
     Ret sig \<Rightarrow> \<lparr>ms_SignatureHeader = [], ms_Signature = bsig_Value s, ms_SignerId = bsig_ID s,
                 ms_Nonce = sig_Nonce sig, ms_AuxiliaryInput = sig_AuxiliaryInput sig\<rparr>
   | _ \<Rightarrow> \<lparr>ms_SignatureHeader = [], ms_Signature = [], ms_SignerId = 0, ms_Nonce = [],
          ms_AuxiliaryInput = []\<rparr>)"

abbreviation (input) well_formed :: "bft_signature list \<Rightarrow> bool" where
  "well_formed sigs \<equiv> \<forall>s \<in> set sigs. is_ok (sig_Unmarshal (bsig_Msg s))"

lemma deliver_signatures_eq:
  "deliver_signatures obm acc sigs =
     (if well_formed sigs
      then Some (case (obm, sigs) of
                   (None, s # _) \<Rightarrow>
                     (case sig_Unmarshal (bsig_Msg s) of Ret x \<Rightarrow> Some (sig_OrdererBlockMetadata x) | _ \<Rightarrow> None)
                 | _ \<Rightarrow> obm, acc @ map ms_of sigs)
      else None)"
proof (induction sigs arbitrary: obm acc)
  case Nil
  then show ?case by (cases obm) simp_all
next
  case (Cons s sigs)
  show ?case
  proof (cases "sig_Unmarshal (bsig_Msg s)")
    case (Ret x)
    then show ?thesis by (cases obm) (simp_all add: Cons.IH ms_of_def)
  qed simp_all
qed

text \<open>
  The answer and the new state after a block is committed: the runtime configuration after
  the block and whether it changed, or a halted chain when it cannot be built.
\<close>

definition commit_outcome ::
  "libs \<Rightarrow> chain_env \<Rightarrow> bft_chain \<Rightarrow> block \<Rightarrow> reconfig \<Rightarrow> bft_chain \<Rightarrow> bool" where
  "commit_outcome L X c b r c' \<longleftrightarrow>
     (case BlockCommitted L (cx_fabric X) (bc_RuntimeConfig c) b of
       Ret rtc \<Rightarrow>
         bc_RuntimeConfig c' = rtc \<and> bc_halted c' = bc_halted c \<and>
         r = \<lparr>rc_InLatestDecision = (rtc_Nodes rtc \<noteq> rtc_Nodes (bc_RuntimeConfig c) \<or>
                rtc_BFTConfig rtc \<noteq> rtc_BFTConfig (bc_RuntimeConfig c)),
              rc_CurrentNodes = rtc_Nodes rtc, rc_CurrentConfig = rtc_BFTConfig rtc\<rparr>
     | Err e \<Rightarrow> bc_halted c' \<and> bc_RuntimeConfig c' = bc_RuntimeConfig c \<and> r = empty_reconfig
     | Panic s \<Rightarrow> False)"

lemma updateRuntimeConfig_Ret:
  assumes "updateRuntimeConfig L X c b = Ret (r, c')"
  shows "bc_support c' = bc_support c \<and> commit_outcome L X c b r c'"
proof (cases "BlockCommitted L (cx_fabric X) (bc_RuntimeConfig c) b")
  case (Ret rtc)
  with assms have r: "r = \<lparr>rc_InLatestDecision = (\<not> (rtc_Nodes rtc = rtc_Nodes (bc_RuntimeConfig c) \<and>
        rtc_BFTConfig rtc = rtc_BFTConfig (bc_RuntimeConfig c))),
      rc_CurrentNodes = rtc_Nodes rtc, rc_CurrentConfig = rtc_BFTConfig rtc\<rparr>"
    unfolding updateRuntimeConfig_def Let_def by simp
  from Ret assms have c': "c' = c\<lparr>bc_RuntimeConfig := rtc, bc_Configured :=
      (if IsConfigBlock L b then bc_Configured c @ [rtc_RemoteNodes rtc] else bc_Configured c)\<rparr>"
    unfolding updateRuntimeConfig_def Let_def by (cases "IsConfigBlock L b") auto
  show ?thesis unfolding commit_outcome_def Ret go.case c' r by simp
next
  case (Err e)
  with assms have "r = empty_reconfig" "c' = Halt c"
    unfolding updateRuntimeConfig_def Let_def by (auto simp: go_simps)
  with Err show ?thesis by (simp add: Halt_def commit_outcome_def)
next
  case (Panic s)
  with assms show ?thesis by (simp add: updateRuntimeConfig_def)
qed

lemma updateRuntimeConfig_not_Err: "updateRuntimeConfig L X c b \<noteq> Err e"
  unfolding updateRuntimeConfig_def Let_def by (auto simp: go_bind_Err_iff split: go.splits)

lemma Deliver_Ret:
  assumes "Deliver L X c p sigs = Ret (r, c')" and "well_formed sigs"
  obtains b m b1 b2 w c1 where "ProposalToBlock L p = Ret b"
    "enc_metadata L \<lparr>md_Value =
        (case sigs of [] \<Rightarrow> [] | s # _ \<Rightarrow>
           (case sig_Unmarshal (bsig_Msg s) of Ret x \<Rightarrow> sig_OrdererBlockMetadata x | _ \<Rightarrow> [])),
        md_Signatures = map ms_of sigs\<rparr> = Some m"
    "set_metadata SIGNATURES m b = Ret b1"
    "write_any L (cx_writer X) (bc_support c) b1 = Ret (b2, w)"
    "bc_RuntimeConfig c1 = bc_RuntimeConfig c" "bc_halted c1 = bc_halted c" "bc_support c1 = w"
    "updateRuntimeConfig L X c1 b2 = Ret (r, c')"
proof -
  have first: "nbytes (case sigs of [] \<Rightarrow> None | s # _ \<Rightarrow>
       (case sig_Unmarshal (bsig_Msg s) of Ret x \<Rightarrow> Some (sig_OrdererBlockMetadata x) | _ \<Rightarrow> None)) =
     (case sigs of [] \<Rightarrow> [] | s # _ \<Rightarrow>
       (case sig_Unmarshal (bsig_Msg s) of Ret x \<Rightarrow> sig_OrdererBlockMetadata x | _ \<Rightarrow> []))"
    by (auto split: list.splits go.splits)
  let ?c = "\<lambda>(h :: block_header) w. reportIsLeader X (c\<lparr>bc_CommittedBlockNumber := hdr_Number h\<rparr>)\<lparr>bc_support := w\<rparr>"
  have rep: "bc_support (reportIsLeader X c0) = bc_support c0" for c0
    by (simp add: reportIsLeader_def)
  have "\<exists>b m b1 h b2 w. ProposalToBlock L p = Ret b \<and>
    enc_metadata L \<lparr>md_Value =
        (case sigs of [] \<Rightarrow> [] | s # _ \<Rightarrow>
           (case sig_Unmarshal (bsig_Msg s) of Ret x \<Rightarrow> sig_OrdererBlockMetadata x | _ \<Rightarrow> [])),
        md_Signatures = map ms_of sigs\<rparr> = Some m \<and>
    set_metadata SIGNATURES m b = Ret b1 \<and>
    write_any L (cx_writer X) (bc_support c) b1 = Ret (b2, w) \<and>
    updateRuntimeConfig L X (?c h w) b2 = Ret (r, c')"
    using assms unfolding Deliver_def deliver_signatures_eq
    by (auto simp: go_simps first rep Let_def)
  then obtain b m b1 h b2 w where "ProposalToBlock L p = Ret b"
    "enc_metadata L \<lparr>md_Value =
        (case sigs of [] \<Rightarrow> [] | s # _ \<Rightarrow>
           (case sig_Unmarshal (bsig_Msg s) of Ret x \<Rightarrow> sig_OrdererBlockMetadata x | _ \<Rightarrow> [])),
        md_Signatures = map ms_of sigs\<rparr> = Some m"
    "set_metadata SIGNATURES m b = Ret b1"
    "write_any L (cx_writer X) (bc_support c) b1 = Ret (b2, w)"
    "updateRuntimeConfig L X (?c h w) b2 = Ret (r, c')"
    by (elim exE conjE)
  note f = this
  show thesis by (rule that [of b m b1 b2 w "?c h w"]) (use f in \<open>simp_all add: reportIsLeader_def\<close>)
qed

lemma Deliver_writes:
  assumes "Deliver L X c p sigs = Ret (r, c')" and "well_formed sigs"
  shows "\<exists>b w. ProposalToBlock L p = Ret b \<and> same_content b w \<and>
    bw_ledger (bc_support c') = bw_ledger (bc_support c) @ [w] \<and>
    be_Append (cx_writer X) (bw_ledger (bc_support c)) w = Ret () \<and> commit_outcome L X c w r c'"
proof -
  from assms obtain b m b1 b2 w c1 where b: "ProposalToBlock L p = Ret b"
    and b1: "set_metadata SIGNATURES m b = Ret b1"
    and w: "write_any L (cx_writer X) (bc_support c) b1 = Ret (b2, w)"
    and c1: "bc_RuntimeConfig c1 = bc_RuntimeConfig c" "bc_halted c1 = bc_halted c" "bc_support c1 = w"
    and u: "updateRuntimeConfig L X c1 b2 = Ret (r, c')"
    by (rule Deliver_Ret)
  have "same_content b b2"
    using same_content_trans [OF set_metadata_content [OF b1] write_any_Ret(1) [OF w]] .
  moreover have "bw_ledger (bc_support c') = bw_ledger (bc_support c) @ [b2]"
    using write_any_Ret(2) [OF w] updateRuntimeConfig_Ret [OF u] c1(3) by simp
  moreover have "commit_outcome L X c b2 r c'"
    using updateRuntimeConfig_Ret [OF u] unfolding commit_outcome_def c1(1,2) by (rule conjunct2)
  ultimately show ?thesis using b write_any_Ret(5) [OF w] by blast
qed

lemma Deliver_halts:
  assumes "Deliver L X c p sigs = Ret (r, c')" and "\<not> well_formed sigs"
  shows "c' = Halt c \<and> r = empty_reconfig"
proof -
  have "deliver_signatures None [] sigs = None"
    using assms(2) unfolding deliver_signatures_eq by (rule if_not_P)
  with assms(1) show ?thesis by (simp add: Deliver_def go_simps)
qed

text \<open>
  C13: What delivering a decision does.  If some signature does not parse, the chain is
  halted and nothing is written.  Otherwise exactly one block is appended, with the header
  and data of the proposal, and the runtime configuration is that after this block; the
  answer to the library says a reconfiguration happened exactly when the node list or the
  BFT configuration changed.  If the runtime configuration cannot be built from the block,
  the chain is halted with the old one, although the block is in the ledger.
\<close>

theorem Deliver_outcome:
  assumes "Deliver L X c p sigs = Ret (r, c')"
  shows "if \<forall>s \<in> set sigs. is_ok (sig_Unmarshal (bsig_Msg s))
    then \<exists>b w. ProposalToBlock L p = Ret b \<and> same_content b w \<and>
      bw_ledger (bc_support c') = bw_ledger (bc_support c) @ [w] \<and>
      commit_outcome L X c w r c'
    else c' = c\<lparr>bc_halted := True\<rparr> \<and> r = empty_reconfig"
proof (cases "well_formed sigs")
  case True
  from Deliver_writes [OF assms True] show ?thesis unfolding if_P [OF True] by blast
next
  case False
  from Deliver_halts [OF assms False] show ?thesis unfolding if_not_P [OF False] by (simp add: Halt_def)
qed

subsection \<open>Decisions read back\<close>

text \<open>What the consensus library knows of a signature it hands to \<open>Deliver\<close>: an honest node with
  this runtime configuration made it on the proposal.\<close>

definition honest_signature ::
  "libs \<Rightarrow> runtime_config \<Rightarrow> proposal \<Rightarrow> bft_signature \<Rightarrow> bool" where
  "honest_signature L rtc p s \<longleftrightarrow>
     (\<exists>S aux. SignProposal L S p aux = Ret s \<and>
        sgn_LastConfigBlockNum S = LastConfigBlockNum L rtc \<and>
        length (bsig_Msg s) + 30 < 2 ^ 31 \<and> dec_prepares_from L aux \<noteq> None)"

lemma signed_message_parses:
  assumes "SignProposal L S p aux = Ret s" and "length (bsig_Msg s) + 30 < 2 ^ 31"
  shows "\<exists>sig. sig_Unmarshal (bsig_Msg s) = Ret sig \<and> bsig_Msg s = sig_Marshal sig"
  using assms(1)
proof (rule SignProposal_Ret)
  fix hb nonce obm
  assume msg: "bsig_Msg s = sig_Marshal \<lparr>sig_Nonce = nonce, sig_SignatureHeader = [],
    sig_BlockHeader = hb, sig_OrdererBlockMetadata = obm, sig_AuxiliaryInput = aux\<rparr>" (is "_ = sig_Marshal ?sig")
  have "length (concat (sig_fields ?sig)) + 30 < 2 ^ 31"
    using length_sig_Marshal_ge [of ?sig] assms(2) msg by simp
  from sig_roundtrip [OF this, of "[]"] show ?thesis using msg by auto
qed

lemma honest_signature_parts:
  assumes "honest_signature L rtc p s" and "ProposalToBlock L p = Ret b" and "blk_Header b = Some h"
    and "header_Bytes h = Ret hb" and "LastConfigBlockNum L rtc b = Ret n"
    and "enc_orderer_block_metadata L \<lparr>obm_LastConfig = Some \<lparr>lc_Index = n\<rparr>,
       obm_ConsenterMetadata = prop_Metadata p\<rparr> = Some obm"
  shows "\<exists>sig. sig_Unmarshal (bsig_Msg s) = Ret sig \<and> sig_OrdererBlockMetadata sig = obm \<and>
    decision_signature L hb obm (ms_of s) = [s]"
proof -
  from assms(1) obtain S aux where S: "SignProposal L S p aux = Ret s"
      "sgn_LastConfigBlockNum S = LastConfigBlockNum L rtc" "length (bsig_Msg s) + 30 < 2 ^ 31"
    and aux: "dec_prepares_from L aux \<noteq> None"
    by (auto simp: honest_signature_def)
  from S(1) obtain nonce where
    msg: "bsig_Msg s = sig_Marshal \<lparr>sig_Nonce = nonce, sig_SignatureHeader = [], sig_BlockHeader = hb,
       sig_OrdererBlockMetadata = obm, sig_AuxiliaryInput = aux\<rparr>" (is "_ = sig_Marshal ?sig")
    by (rule SignProposal_Ret) (use S(2) assms(2-6) in auto)
  have "length (concat (sig_fields ?sig)) + 30 < 2 ^ 31"
    using length_sig_Marshal_ge [of ?sig] S(3) msg by simp
  from sig_roundtrip [OF this, of "[]"] have um: "sig_Unmarshal (bsig_Msg s) = Ret ?sig"
    using msg by simp
  moreover have "decision_signature L hb obm (ms_of s) = [s]"
    using aux msg um by (cases s) (auto simp: decision_signature_def ms_of_def)
  ultimately show ?thesis by auto
qed

lemma blockToDecision_read:
  assumes "dec_metadata L m = Some \<lparr>md_Value = obm, md_Signatures = map ms_of sigs\<rparr>"
    and "enc_metadata L \<lparr>md_Value = obm, md_Signatures = []\<rparr> = Some sigmd"
    and "header_Bytes h = Ret hb" and "hdr_Number h \<noteq> 0"
    and "enc_block_data L batch = Some a" and "enc_block_metadata L [sigmd, lcmd, [], [], []] = Some bm"
    and "dec_orderer_block_metadata L obm = Some om"
    and "\<forall>s \<in> set sigs. decision_signature L hb obm (ms_of s) = [s]"
    and "\<not> isConfigBlock L b"
    and "b = \<lparr>blk_Header = Some h, blk_Data = Some batch, blk_Metadata = Some [m, lcmd, [], [], []]\<rparr>"
  shows "blockToDecision L X c b =
    Ret \<lparr>dcs_Proposal = \<lparr>prop_Payload = tuple_ToBytes a bm, prop_Header = hb,
          prop_Metadata = obm_ConsenterMetadata om, prop_VerificationSequence = bw_Sequence (bc_support c)\<rparr>,
        dcs_Signatures = sigs\<rparr>"
proof -
  have "blockToProposalWithoutSignaturesInMetadata L X c b =
    Ret \<lparr>prop_Payload = tuple_ToBytes a bm, prop_Header = hb, prop_Metadata = [],
         prop_VerificationSequence = bw_Sequence (bc_support c)\<rparr>"
    using assms(9) unfolding blockToProposalWithoutSignaturesInMetadata_def assms(10)
    by (simp add: assms(1-3,5,6))
  moreover have "go_map (\<lambda>s. go_bind (header_Bytes h) (\<lambda>hb. Ret (decision_signature L hb obm s)))
      (map ms_of sigs) = Ret (map (\<lambda>s. [s]) sigs)"
  proof -
    have "go_map f (map ms_of sigs) = Ret (map (\<lambda>s. [s]) sigs)"
      if "\<forall>s \<in> set sigs. f (ms_of s) = Ret [s]" for f :: "metadata_signature \<Rightarrow> bft_signature list go"
      using that by (induction sigs) auto
    then show ?thesis using assms(3,8) by simp
  qed
  moreover have "concat (map (\<lambda>s. [s]) sigs) = sigs" by (induction sigs) auto
  ultimately show ?thesis
    unfolding blockToDecision_def assms(10)
    by (simp add: assms(1,4,7))
qed

lemma write_any_normal:
  assumes "write_any L E bw b = Ret (b', bw')" and "\<not> IsConfigBlock L b"
    and "bw_lastConfigSeq bw = bw_Sequence bw"
  shows "bw_Sequence bw' = bw_Sequence bw \<and> bw_lastConfigBlockNum bw' = bw_lastConfigBlockNum bw"
  using commitBlock_Ret(5,7) [of L E "bw\<lparr>bw_lastBlock := b\<rparr>" None b' bw'] assms
  by (simp add: write_any_def WriteBlock_def writeBlockSync_def)

lemma header_number_not_0:
  assumes "header_Hash L lbh = Ret x" and "hdr_Number h = hdr_Number lbh + 1"
  shows "hdr_Number h \<noteq> 0"
proof -
  from assms(1) have "unat (hdr_Number lbh) < 2 ^ 63"
    by (auto simp: header_Hash_def go_simps header_Bytes_Ret_iff)
  then have "unat (hdr_Number lbh + 1) = unat (hdr_Number lbh) + 1"
    by (intro unat_Suc) simp
  then show ?thesis using assms(2) by (metis add_is_0 unat_0 zero_neq_one)
qed

text \<open>
  C12: Nothing of a decision is lost in the ledger.  After \<open>Deliver\<close> of an assembled proposal
  with honest signatures, the decision \<open>blockToDecision\<close> rebuilds from the last block of the
  ledger is the delivered one: the same proposal and the same signatures, although the
  block stores neither the signature headers nor the signed messages and the writer
  rewrites its metadata.  (Stated for blocks of normal transactions, on a node whose block
  writer and runtime configuration agree on the last configuration block.)
\<close>

theorem delivered_decision_recovered:
  assumes "lossless L" and "fits p"
    and "AssembleProposal L (bc_RuntimeConfig c) (bw_Sequence (bc_support c)) md requests = Ret p"
    and "sigs \<noteq> []" and "\<forall>s \<in> set sigs. honest_signature L (bc_RuntimeConfig c) p s"
    and "\<forall>x. enc_metadata L x = Some [] \<longrightarrow> md_Signatures x = []"
    and "Deliver L X c p sigs = Ret (r, c')"
    and "ProposalToBlock L p = Ret b0" and "\<not> IsConfigBlock L b0"
    and "bw_lastConfigSeq (bc_support c) = bw_Sequence (bc_support c)"
    and "rtc_LastConfigBlock (bc_RuntimeConfig c) = Some cb" and "blk_Header cb = Some cbh"
    and "bw_lastConfigBlockNum (bc_support c) = hdr_Number cbh"
  shows "blockToDecision L X c' (last (bw_ledger (bc_support c'))) =
    Ret \<lparr>dcs_Proposal = p, dcs_Signatures = sigs\<rparr>"
proof (rule AssembleProposal_Ret [OF assms(3)])
  fix batch h lb lbh cb' cbh' n lc lcmd obm sigmd a bm
  let ?mds = "[sigmd, lcmd, [], [], []] :: bytes list"
  let ?b = "\<lparr>blk_Header = Some h, blk_Data = Some batch, blk_Metadata = Some ?mds\<rparr>"
  assume cb': "rtc_LastConfigBlock (bc_RuntimeConfig c) = Some cb'" "blk_Header cb' = Some cbh'"
    and hdr: "header_Hash L lbh = Ret (hdr_PreviousHash h)" "hdr_Number h = hdr_Number lbh + 1"
      "header_Bytes h = Ret (prop_Header p)"
    and n: "n = (if isConfigBlock L ?b then hdr_Number h else hdr_Number cbh')"
    and enc: "enc_last_config L \<lparr>lc_Index = n\<rparr> = Some lc"
      "enc_metadata L \<lparr>md_Value = lc, md_Signatures = []\<rparr> = Some lcmd"
      "enc_orderer_block_metadata L
         \<lparr>obm_LastConfig = Some \<lparr>lc_Index = n\<rparr>, obm_ConsenterMetadata = md\<rparr> = Some obm"
      "enc_metadata L \<lparr>md_Value = obm, md_Signatures = []\<rparr> = Some sigmd"
      "enc_block_data L batch = Some a" "enc_block_metadata L ?mds = Some bm"
    and p: "prop_Payload p = tuple_ToBytes a bm" "prop_Metadata p = md"
      "prop_VerificationSequence p = bw_Sequence (bc_support c)"
  have b0: "ProposalToBlock L p = Ret ?b"
    using assembled_unpack [OF assms(1,2) p(1) hdr(3) enc(5,6)] .
  have cfg: "\<not> isConfigBlock L ?b" "\<not> IsConfigBlock L ?b"
    using assms(8,9) b0 isConfigBlock_IsConfigBlock [of L ?b] by auto
  then have n: "n = hdr_Number cbh" using n assms(11,12) cb' by simp
  have lcbn: "LastConfigBlockNum L (bc_RuntimeConfig c) ?b = Ret n"
    using cfg(1) assms(11,12) n by (simp add: LastConfigBlockNum_def)
  have sig: "\<exists>sig. sig_Unmarshal (bsig_Msg s) = Ret sig \<and> sig_OrdererBlockMetadata sig = obm \<and>
      decision_signature L (prop_Header p) obm (ms_of s) = [s]" if "s \<in> set sigs" for s
    by (rule honest_signature_parts [OF _ b0 _ hdr(3) lcbn]) (use that assms(5) enc(3) p(2) in auto)
  then have wf: "well_formed sigs" by fastforce
  have first: "(case sigs of [] \<Rightarrow> [] | s # _ \<Rightarrow>
      (case sig_Unmarshal (bsig_Msg s) of Ret x \<Rightarrow> sig_OrdererBlockMetadata x | _ \<Rightarrow> [])) = obm"
    using assms(4) sig [of "hd sigs"] by (cases sigs) auto
  from assms(7) wf obtain m b1 b2 w c1 where
    m: "enc_metadata L \<lparr>md_Value = obm, md_Signatures = map ms_of sigs\<rparr> = Some m"
    and b1: "b1 = ?b\<lparr>blk_Metadata := Some [m, lcmd, [], [], []]\<rparr>"
    and w: "write_any L (cx_writer X) (bc_support c) b1 = Ret (b2, w)"
    and c1: "bc_support c1 = w" and u: "updateRuntimeConfig L X c1 b2 = Ret (r, c')"
    by (rule Deliver_Ret) (use b0 first in \<open>auto simp: set_metadata_Ret_iff\<close>)
  have "m \<noteq> []" using assms(4,6) m by auto
  moreover have cfg1: "\<not> IsConfigBlock L b1" using cfg(2) by (simp add: b1 IsConfigBlock_iff)
  note w' = write_any_normal [OF w cfg1 assms(10)]
  ultimately have "b2 = \<lparr>blk_Header = Some h, blk_Data = Some batch,
      blk_Metadata = Some [m, lcmd, [], [], []]\<rparr>"
    using write_any_signed [OF w, of "[m, lcmd, [], [], []]"] write_any_Ret(1) [OF w] enc(1,2) n assms(13)
    by (cases b2) (auto simp: b1 same_content_def)
  moreover have "\<not> isConfigBlock L b2"
    using cfg(1) calculation by (simp add: isConfigBlock_def)
  moreover have "\<forall>s \<in> set sigs. decision_signature L (prop_Header p) obm (ms_of s) = [s]" using sig by blast
  ultimately have "blockToDecision L X c' b2 = Ret \<lparr>dcs_Proposal = \<lparr>prop_Payload = tuple_ToBytes a bm,
      prop_Header = prop_Header p, prop_Metadata = md,
      prop_VerificationSequence = bw_Sequence (bc_support c')\<rparr>, dcs_Signatures = sigs\<rparr>"
    using blockToDecision_read [OF lossless_dec(5) [OF assms(1) m] enc(4) hdr(3)
        header_number_not_0 [OF hdr(1,2)] enc(5,6) lossless_dec(7) [OF assms(1) enc(3)]] by simp
  moreover have "bc_support c' = w" using updateRuntimeConfig_Ret [OF u] c1 by simp
  ultimately show ?thesis
    using w' p write_any_Ret(2) [OF w] by (cases p) simp
qed

subsection \<open>A sample chain\<close>

definition sample_chain_env :: chain_env where
  "sample_chain_env = \<lparr>cx_fabric = sample_env, cx_writer = sample_bw_env, cx_GetLeaderID = 1,
     cx_ProcessNormalMsg = (\<lambda>_. Ret ()), cx_ProcessConfigMsg = Ret, cx_ConfigValidator = (\<lambda>_. Ret ()),
     cx_ValidateConfiguration = (\<lambda>_. Ret ()),
     cx_partial_metadata = (\<lambda>_. \<lparr>md_Value = [], md_Signatures = []\<rparr>)\<rparr>"

definition sample_chain :: bft_chain where
  "sample_chain = \<lparr>bc_Channel = ''c'', bc_SelfID = 1, bc_RuntimeConfig = sample_rtc,
     bc_support = sample_writer\<lparr>bw_lastConfigSeq := 9, bw_Sequence := 9\<rparr>, bc_halted = False,
     bc_Configured = [], bc_Submitted = [], bc_Handled = [], bc_started = True, bc_fuzzing = True,
     bc_fuzz = sample_state, bc_Metadata = empty_view_metadata,
     bc_LastProposal = \<lparr>prop_Payload = [], prop_Header = [], prop_Metadata = [],
       prop_VerificationSequence = 0\<rparr>,
     bc_LastSignatures = [], bc_ClusterSize = 1, bc_CommittedBlockNumber = 4, bc_LeaderID = 1,
     bc_IsLeader = True\<rparr>"

lemma sample_delivery:
  obtains p s r c' b where
    "AssembleProposal tx_libs sample_rtc 9 [5] [tx_bytes 3, tx_bytes 3] = Ret p" "fits p"
    "honest_signature tx_libs sample_rtc p s"
    "Deliver tx_libs sample_chain_env sample_chain p [s] = Ret (r, c')"
    "ProposalToBlock tx_libs p = Ret b" "\<not> IsConfigBlock tx_libs b"
proof (rule sample_signature)
  fix p s
  assume p: "AssembleProposal tx_libs sample_rtc 9 [5] [tx_bytes 3, tx_bytes 3] = Ret p" "fits p"
    and s: "SignProposal tx_libs sample_signer p [2] = Ret s" "length (bsig_Msg s) + 30 < 2 ^ 31"
  have hon: "honest_signature tx_libs sample_rtc p s"
    unfolding honest_signature_def using s by (intro exI [of _ sample_signer] exI [of _ "[2]"])
      (simp add: sample_signer_def)
  note batch = sample_batch
  obtain h mds where b: "ProposalToBlock tx_libs p =
      Ret \<lparr>blk_Header = Some h, blk_Data = Some [tx_bytes 3, tx_bytes 3], blk_Metadata = Some mds\<rparr>"
    and hdr: "header_Bytes h = Ret (prop_Header p)" "hdr_Number h = 5" and len: "length mds = 5"
    by (rule AssembleProposal_block [OF lossless_tx_libs p])
      (use batch in \<open>auto simp: BlockMetadataIndex_count_def sample_rtc_def sample_last_def\<close>)
  have cfg: "\<not> IsConfigBlock tx_libs \<lparr>blk_Header = x, blk_Data = Some [tx_bytes 3, tx_bytes 3], blk_Metadata = y\<rparr>" for x y
    by (simp add: IsConfigBlock_iff IsConfigTransaction_iff tx_payload_def tx_channel_header_def)
  obtain x where x: "sig_Unmarshal (bsig_Msg s) = Ret x"
    using signed_message_parses [OF s] by blast
  have "\<exists>r c'. Deliver tx_libs sample_chain_env sample_chain p [s] = Ret (r, c')"
    using x len unfolding Deliver_def b sample_chain_def sample_chain_env_def
    by (simp add: cfg set_metadata_def write_any_def WriteBlock_def writeBlockSync_def commitBlock_def
        addLastConfigSignature_def sample_writer_def sample_bw_env_def reportIsLeader_def
        updateRuntimeConfig_def BlockCommitted_def ConfigFromBlock_def block_Hash_def header_Hash_def hdr
        unmarshal_defs tx_payload_def tx_channel_header_def)
  then show thesis using that p hon b cfg by blast
qed

theorem Deliver_outcome_witness:
  "\<exists>p s r c'. Deliver tx_libs sample_chain_env sample_chain p [s] = Ret (r, c') \<and>
     (\<exists>w. bw_ledger (bc_support c') = [sample_last, w])"
proof (rule sample_delivery)
  fix p s r c'
  assume p: "honest_signature tx_libs sample_rtc p s"
    and d: "Deliver tx_libs sample_chain_env sample_chain p [s] = Ret (r, c')"
  have "\<forall>s \<in> set [s]. is_ok (sig_Unmarshal (bsig_Msg s))"
    using p by (auto simp: honest_signature_def is_ok_iff dest!: signed_message_parses)
  with Deliver_outcome [OF d] have "\<exists>w. bw_ledger (bc_support c') = [sample_last, w]"
    by (auto simp: sample_chain_def sample_writer_def)
  with d show ?thesis by blast
qed

theorem delivered_decision_recovered_witness:
  "\<exists>p s r c'. Deliver tx_libs sample_chain_env sample_chain p [s] = Ret (r, c') \<and>
     blockToDecision tx_libs sample_chain_env c' (last (bw_ledger (bc_support c'))) =
       Ret \<lparr>dcs_Proposal = p, dcs_Signatures = [s]\<rparr>"
proof (rule sample_delivery)
  fix p s r c' b
  assume p: "AssembleProposal tx_libs sample_rtc 9 [5] [tx_bytes 3, tx_bytes 3] = Ret p" "fits p"
      "honest_signature tx_libs sample_rtc p s"
    and d: "Deliver tx_libs sample_chain_env sample_chain p [s] = Ret (r, c')"
    and b: "ProposalToBlock tx_libs p = Ret b" "\<not> IsConfigBlock tx_libs b"
  have "blockToDecision tx_libs sample_chain_env c' (last (bw_ledger (bc_support c'))) =
       Ret \<lparr>dcs_Proposal = p, dcs_Signatures = [s]\<rparr>"
  proof (rule delivered_decision_recovered [OF lossless_tx_libs p(2) _ _ _ _ d b])
    show "\<forall>x. enc_metadata tx_libs x = Some [] \<longrightarrow> md_Signatures x = []"
      by simp
    show "rtc_LastConfigBlock (bc_RuntimeConfig sample_chain) = Some (sample_last\<lparr>blk_Header := Some
        \<lparr>hdr_Number = 2, hdr_PreviousHash = [], hdr_DataHash = []\<rparr>\<rparr>)"
      by (simp add: sample_chain_def sample_rtc_def)
    show "blk_Header (sample_last\<lparr>blk_Header := Some
        \<lparr>hdr_Number = 2, hdr_PreviousHash = [], hdr_DataHash = []\<rparr>\<rparr>) =
      Some \<lparr>hdr_Number = 2, hdr_PreviousHash = [], hdr_DataHash = []\<rparr>" by simp
  qed (use p in \<open>simp_all add: sample_chain_def sample_writer_def\<close>)
  with d show ?thesis by blast
qed

end
