(* ===== verification/Synchronizer.thy ===== *)
theory Synchronizer
  imports Chain
begin

text \<open>
  Catching up with the cluster: \<open>smartbft/synchronizer.go\<close>.

  The block puller is outside the model: \<open>se_HeightsByEndpoints\<close> is its answer to the height
  query (the entries of the Go map in the order this run ranges over them) and
  \<open>se_PullBlock\<close> the block it returns for a number, \<open>None\<close> being nil.  The synchronizer
  commits through the chain, so its state holds the chain.

  The loop counts with 64-bit numbers and does not end when the last number to fetch is
  \<open>2 ^ 64 - 1\<close>, so it is a partial function into \<open>option\<close> whose \<open>None\<close> is a loop that runs
  forever; \<open>synchronize\<close> never calls it there.
\<close>

record sync_env =
  se_HeightsByEndpoints :: "(string \<times> u64) list go"
  se_PullBlock :: "u64 \<Rightarrow> block option"

record synchronizer =
  sy_lastReconfig :: reconfig
  sy_chain :: bft_chain
  sy_Closed :: bool
    \<comment> \<open>whether the block puller has been closed\<close>

record sync_response =
  sr_Latest :: decision
  sr_InReplicatedDecisions :: bool
  sr_CurrentNodes :: "u64 list"
  sr_CurrentConfig :: configuration

definition sync_Close :: "synchronizer \<Rightarrow> synchronizer" where
  "sync_Close s = s\<lparr>sy_Closed := True\<rparr>"

definition computeTargetHeight :: "u64 list \<Rightarrow> u64 list \<Rightarrow> u64 go" where
  "computeTargetHeight nodes hs =
     (let heights = rev (sort hs);
          f = (length nodes - 1) div 3;
          lenH = length heights in
      if lenH < f + 1 then slice_get heights (lenH - 1) else slice_get heights f)"

text \<open>One iteration of the loop: write the block, commit it, remember a reconfiguration.\<close>

definition sync_iteration ::
  "libs \<Rightarrow> chain_env \<Rightarrow> synchronizer \<Rightarrow> block \<Rightarrow> (block \<times> synchronizer) go" where
  "sync_iteration L X s b =
     go_bind (write_any L (cx_writer X) (bc_support (sy_chain s)) b) (\<lambda>(b', w).
     let prevInLatestDecision = rc_InLatestDecision (sy_lastReconfig s) in
     go_bind (updateRuntimeConfig L X ((sy_chain s)\<lparr>bc_support := w\<rparr>) b') (\<lambda>(r, c).
     Ret (b', s\<lparr>sy_chain := c, sy_lastReconfig :=
       r\<lparr>rc_InLatestDecision := rc_InLatestDecision r \<or> prevInLatestDecision\<rparr>\<rparr>)))"

partial_function (option) sync_loop ::
  "libs \<Rightarrow> chain_env \<Rightarrow> (u64 \<Rightarrow> block option) \<Rightarrow> u64 \<Rightarrow> u64 \<Rightarrow> block option \<Rightarrow> synchronizer \<Rightarrow>
     (block option \<times> synchronizer) go option" where
  "sync_loop L X pull targetSeq seq lastPulled s =
     (if targetSeq < seq then Some (Ret (lastPulled, s))
      else case pull seq of
        None \<Rightarrow> Some (Ret (lastPulled, s))
      | Some b \<Rightarrow>
          (case sync_iteration L X s b of
             Ret (b', s') \<Rightarrow> sync_loop L X pull targetSeq (seq + 1) (Some b') s'
           | Err e \<Rightarrow> Some (Err e)
           | Panic p \<Rightarrow> Some (Panic p)))"

definition getViewMetadataLastConfigSqnFromBlock ::
  "libs \<Rightarrow> synchronizer \<Rightarrow> block \<Rightarrow> (view_metadata \<times> u64) go" where
  "getViewMetadataLastConfigSqnFromBlock L s b =
     (case getViewMetadataFromBlock L b of
        Panic p \<Rightarrow> Panic p
      | Err _ \<Rightarrow> Ret (empty_view_metadata, 0)
      | Ret vm \<Rightarrow> Ret (vm, bw_Sequence (bc_support (sy_chain s))))"

text \<open>What follows the loop: the decision of the last block it wrote.\<close>

definition sync_decision ::
  "libs \<Rightarrow> chain_env \<Rightarrow> block option \<Rightarrow> synchronizer \<Rightarrow> decision go" where
  "sync_decision L X lastPulledBlock s =
     (case lastPulledBlock of
        None \<Rightarrow> Err (Errorf ''failed pulling block'')
      | Some b \<Rightarrow>
          go_bind (deref (blk_Header b)) (\<lambda>_.
          go_bind (getViewMetadataLastConfigSqnFromBlock L s b) (\<lambda>_.
          blockToDecision L X (sy_chain s) b)))"

definition synchronize ::
  "libs \<Rightarrow> chain_env \<Rightarrow> sync_env \<Rightarrow> synchronizer \<Rightarrow> (decision go \<times> synchronizer) option" where
  "synchronize L X E s =
     (case se_HeightsByEndpoints E of
        Panic p \<Rightarrow> Some (Panic p, sync_Close s)
      | Err e \<Rightarrow> Some (Err (Wrapped ''cannot get HeightsByEndpoints'' e), sync_Close s)
      | Ret heightByEndpoint \<Rightarrow>
     if heightByEndpoint = []
     then Some (Err (Errorf ''no cluster members to synchronize with''), sync_Close s)
     else
     (case computeTargetHeight (rtc_Nodes (bc_RuntimeConfig (sy_chain s))) (map snd heightByEndpoint) of
        Err e \<Rightarrow> Some (Err e, sync_Close s)
      | Panic p \<Rightarrow> Some (Panic p, sync_Close s)
      | Ret targetHeight \<Rightarrow>
     let startHeight = ldg_Height (support_ledger (bc_support (sy_chain s))) in
     if targetHeight \<le> startHeight then Some (Err (Errorf ''already at height''), sync_Close s)
     else
     (case sync_loop L X (se_PullBlock E) (targetHeight - 1) startHeight None s of
        None \<Rightarrow> None
      | Some (Err e) \<Rightarrow> Some (Err e, sync_Close s)
      | Some (Panic p) \<Rightarrow> Some (Panic p, sync_Close s)
      | Some (Ret (lastPulledBlock, s')) \<Rightarrow>
          Some (sync_decision L X lastPulledBlock s', sync_Close s'))))"

text \<open>\<open>Sync\<close>: a failure falls back to the last block of the local ledger.\<close>

definition Sync ::
  "libs \<Rightarrow> chain_env \<Rightarrow> sync_env \<Rightarrow> synchronizer \<Rightarrow> (sync_response go \<times> synchronizer) option" where
  "Sync L X E s =
     (case synchronize L X E s of
        None \<Rightarrow> None
      | Some (Panic p, s') \<Rightarrow> Some (Panic p, s')
      | Some (Err e, s') \<Rightarrow>
          (let c = sy_chain s'; ldg = support_ledger (bc_support c); rtc = bc_RuntimeConfig c in
           Some (go_bind (deref (ldg_Block ldg (ldg_Height ldg - 1))) (\<lambda>b.
                 go_bind (blockToDecision L X c b) (\<lambda>d.
                 Ret \<lparr>sr_Latest = d, sr_InReplicatedDecisions = False,
                      sr_CurrentNodes = rtc_Nodes rtc, sr_CurrentConfig = rtc_BFTConfig rtc\<rparr>)), s'))
      | Some (Ret d, s') \<Rightarrow>
          Some (Ret \<lparr>sr_Latest = d,
                     sr_InReplicatedDecisions = rc_InLatestDecision (sy_lastReconfig s'),
                     sr_CurrentNodes = rc_CurrentNodes (sy_lastReconfig s'),
                     sr_CurrentConfig = rc_CurrentConfig (sy_lastReconfig s')\<rparr>,
                s'\<lparr>sy_lastReconfig := empty_reconfig\<rparr>))"

subsection \<open>The target height\<close>

text \<open>The \<open>f\<close>-th element of a descending list: at most \<open>f\<close> are above it, more than \<open>f\<close> reach it.\<close>

lemma descending_nth:
  fixes xs :: "'a :: linorder list"
  assumes "sorted (rev xs)" and "f < length xs"
  shows "length (filter (\<lambda>x. xs ! f < x) xs) \<le> f" and "f < length (filter (\<lambda>x. xs ! f \<le> x) xs)"
proof -
  have le: "xs ! j \<le> xs ! i" if "i \<le> j" "j < length xs" for i j
    using sorted_rev_nth_mono [OF assms(1) that] .
  have "{i. i < length xs \<and> xs ! f < xs ! i} \<subseteq> {..<f}"
    using le assms(2) by (force simp: not_less [symmetric])
  then show "length (filter (\<lambda>x. xs ! f < x) xs) \<le> f"
    unfolding length_filter_conv_card using card_mono [of "{..<f}"] by fastforce
  have "{..f} \<subseteq> {i. i < length xs \<and> xs ! f \<le> xs ! i}" using le assms(2) by auto
  then have "card {..f} \<le> card {i. i < length xs \<and> xs ! f \<le> xs ! i}" by (intro card_mono) auto
  then show "f < length (filter (\<lambda>x. xs ! f \<le> x) xs)"
    unfolding length_filter_conv_card by simp
qed

lemma length_filter_sort: "length (filter P (rev (sort xs))) = length (filter P xs)"
proof -
  have "mset (filter P (rev (sort xs))) = mset (filter P xs)" by simp
  then show ?thesis by (metis size_mset)
qed

lemma computeTargetHeight_order_statistic:
  assumes "(length nodes - 1) div 3 < length hs" and "computeTargetHeight nodes hs = Ret t"
  shows "t \<in> set hs" and "length (filter (\<lambda>h. t < h) hs) \<le> (length nodes - 1) div 3"
    and "(length nodes - 1) div 3 < length (filter (\<lambda>h. t \<le> h) hs)"
proof -
  let ?f = "(length nodes - 1) div 3"
  let ?ds = "rev (sort hs)"
  have f: "?f < length ?ds" using assms(1) by simp
  have t: "t = ?ds ! ?f" using assms by (simp add: computeTargetHeight_def Let_def)
  show "t \<in> set hs" unfolding t using nth_mem [OF f] by simp
  show "length (filter (\<lambda>h. t < h) hs) \<le> ?f" "?f < length (filter (\<lambda>h. t \<le> h) hs)"
    using descending_nth [of ?ds ?f] f unfolding t length_filter_sort by simp_all
qed

text \<open>
  C16: The height a node synchronizes to.  With answers from more than \<open>f = (n - 1) / 3\<close>
  endpoints, of which at most \<open>f\<close> lie, the target is not above what some honest endpoint
  reports, so the node never waits for blocks that do not exist, and not below what all
  but \<open>f\<close> endpoints reach.
\<close>

theorem target_height_bounded_by_honest:
  assumes "computeTargetHeight nodes (map snd answers) = Ret t"
    and "(length nodes - 1) div 3 < length answers"
    and "length (filter (\<lambda>a. \<not> honest (fst a)) answers) \<le> (length nodes - 1) div 3"
  shows "(\<exists>a \<in> set answers. honest (fst a) \<and> t \<le> snd a) \<and>
    length (filter (\<lambda>a. t < snd a) answers) \<le> (length nodes - 1) div 3"
proof -
  let ?f = "(length nodes - 1) div 3"
  have len: "length (filter P (map snd answers)) = length (filter (P \<circ> snd) answers)" for P
    by (simp add: filter_map comp_def)
  note o = computeTargetHeight_order_statistic [of nodes "map snd answers" t, unfolded length_map len,
      OF assms(2,1)]
  have "\<exists>a \<in> set answers. honest (fst a) \<and> t \<le> snd a"
  proof (rule ccontr)
    assume "\<not> ?thesis"
    then have "filter ((\<le>) t \<circ> snd) answers =
        filter (\<lambda>a. t \<le> snd a) (filter (\<lambda>a. \<not> honest (fst a)) answers)"
      by (auto simp: comp_def intro!: filter_cong)
    then have "length (filter ((\<le>) t \<circ> snd) answers) \<le> ?f"
      using assms(3) length_filter_le [of "\<lambda>a. t \<le> snd a" "filter (\<lambda>a. \<not> honest (fst a)) answers"]
      by simp
    with o(3) show False by (simp add: comp_def)
  qed
  with o(2) show ?thesis by (simp add: comp_def)
qed

theorem target_height_bounded_by_honest_witness:
  "computeTargetHeight [1, 2, 3, 4] (map snd [(''a'', 7), (''b'', 100), (''c'', 9)]) = Ret 9 \<and>
   (\<exists>a \<in> set [(''a'', 7 :: u64), (''b'', 100), (''c'', 9)]. fst a \<noteq> ''b'' \<and> 9 \<le> snd a)"
proof -
  have t: "computeTargetHeight [1, 2, 3, 4] (map snd [(''a'', 7), (''b'', 100), (''c'', 9)]) = Ret 9"
    by (simp add: computeTargetHeight_def Let_def)
  from target_height_bounded_by_honest [OF t, of "\<lambda>e. e \<noteq> ''b''"] t show ?thesis by simp
qed

subsection \<open>The loop\<close>

text \<open>An iteration is a write to the ledger behind the chain.\<close>

lemma sync_iteration_Ret:
  assumes "sync_iteration L X s b = Ret (b', s')"
  obtains w r c where
    "write_any L (cx_writer X) (bc_support (sy_chain s)) b = Ret (b', w)"
    "updateRuntimeConfig L X ((sy_chain s)\<lparr>bc_support := w\<rparr>) b' = Ret (r, c)"
    "s' = s\<lparr>sy_chain := c, sy_lastReconfig := r\<lparr>rc_InLatestDecision :=
       rc_InLatestDecision r \<or> rc_InLatestDecision (sy_lastReconfig s)\<rparr>\<rparr>"
  using assms unfolding sync_iteration_def Let_def
  by (auto simp: go_simps split: prod.splits intro: that)

interpretation sync: block_log "sync_iteration L X" "\<lambda>s. bw_ledger (bc_support (sy_chain s))" for L X
proof unfold_locales
  fix s b b' s'
  assume "sync_iteration L X s b = Ret (b', s')"
  then obtain w r c where w: "write_any L (cx_writer X) (bc_support (sy_chain s)) b = Ret (b', w)"
    and u: "updateRuntimeConfig L X ((sy_chain s)\<lparr>bc_support := w\<rparr>) b' = Ret (r, c)"
    and s': "sy_chain s' = c" by (rule sync_iteration_Ret) auto
  from updateRuntimeConfig_Ret [OF u] s' have "bc_support (sy_chain s') = w" by simp
  with write_any_Ret(1,2) [OF w] show
    "bw_ledger (bc_support (sy_chain s')) = bw_ledger (bc_support (sy_chain s)) @ [b'] \<and> same_content b b'"
    by simp
qed

text \<open>
  The loop fetches consecutive numbers up to the target or to the first one that is not
  available, and writes what it fetched.
\<close>

lemma sync_loop_terminates:
  assumes "unat T + 1 < 2 ^ 64"
  shows "\<exists>res. sync_loop L X pull T seq lst s = Some res"
proof (induction "unat T + 1 - unat seq" arbitrary: seq lst s)
  case 0
  then have "T < seq" by (simp add: word_less_nat_alt)
  then show ?case by (subst sync_loop.simps) simp
next
  case (Suc n)
  show ?case
  proof (cases "T < seq")
    case True
    then show ?thesis by (subst sync_loop.simps) simp
  next
    case False
    then have "unat seq \<le> unat T" by (simp add: word_less_nat_alt)
    then have "unat (seq + 1) = unat seq + 1" using assms by (intro unat_Suc) simp
    then have IH: "\<exists>res. sync_loop L X pull T (seq + 1) lst' s' = Some res" for lst' s'
      using Suc by (intro Suc.hyps) simp
    show ?thesis using IH
      by (subst sync_loop.simps) (auto split: option.splits go.splits)
  qed
qed

lemma sync_loop_Ret:
  assumes "unat T + 1 < 2 ^ 64" and "sync_loop L X pull T seq lst s = Some (Ret (lst', s'))"
  shows "\<exists>bs ws. bw_ledger (bc_support (sy_chain s')) = bw_ledger (bc_support (sy_chain s)) @ ws \<and>
    list_all2 same_content bs ws \<and> lst' = (if ws = [] then lst else Some (last ws)) \<and>
    length bs \<le> unat T + 1 - unat seq \<and>
    (\<forall>i < length bs. pull (seq + of_nat i) = Some (bs ! i)) \<and>
    (length bs = unat T + 1 - unat seq \<or> pull (seq + of_nat (length bs)) = None) \<and>
    (bs = [] \<longrightarrow> s' = s)"
  using assms(2)
proof (induction "unat T + 1 - unat seq" arbitrary: seq lst s)
  case 0
  then have "T < seq" by (simp add: word_less_nat_alt)
  with 0 show ?case by (subst (asm) sync_loop.simps) (auto intro!: exI [of _ "[]"])
next
  case (Suc n)
  show ?case
  proof (cases "T < seq")
    case True
    with Suc.hyps(2) show ?thesis by (simp add: word_less_nat_alt)
  next
    case False
    then have "unat seq \<le> unat T" by (simp add: word_less_nat_alt)
    then have next_seq: "unat (seq + 1) = unat seq + 1" using assms(1) by (intro unat_Suc) simp
    show ?thesis
    proof (cases "pull seq")
      case None
      with False Suc.prems show ?thesis
        by (subst (asm) sync_loop.simps) (auto intro!: exI [of _ "[]"])
    next
      case (Some b)
      from Suc.prems False Some obtain b' t where it: "sync_iteration L X s b = Ret (b', t)"
        and rest: "sync_loop L X pull T (seq + 1) (Some b') t = Some (Ret (lst', s'))"
        by (subst (asm) sync_loop.simps) (auto split: go.splits)
      have "n = unat T + 1 - unat (seq + 1)" using Suc.hyps(2) next_seq by simp
      from Suc.hyps(1) [OF this rest] obtain bs ws where
        IH: "bw_ledger (bc_support (sy_chain s')) = bw_ledger (bc_support (sy_chain t)) @ ws"
          "list_all2 same_content bs ws" "lst' = (if ws = [] then Some b' else Some (last ws))"
          "length bs \<le> unat T + 1 - unat (seq + 1)"
          "\<forall>i < length bs. pull (seq + 1 + of_nat i) = Some (bs ! i)"
          "length bs = unat T + 1 - unat (seq + 1) \<or> pull (seq + 1 + of_nat (length bs)) = None"
        by blast
      have pulls: "\<forall>i < length (b # bs). pull (seq + of_nat i) = Some ((b # bs) ! i)"
        using IH(5) Some by (auto simp: less_Suc_eq_0_disj add.assoc)
      show ?thesis
        using IH sync.write_appends [OF it] pulls next_seq Suc.hyps(2)
        by (intro exI [of _ "b # bs"] exI [of _ "b' # ws"]) (auto simp: add.assoc)
    qed
  qed
qed

lemma sync_iteration_not_Err: "sync_iteration L X s b \<noteq> Err e"
  unfolding sync_iteration_def Let_def
  by (auto simp: go_bind_Err_iff write_any_not_Err updateRuntimeConfig_not_Err split: prod.splits)

lemma sync_loop_not_Err:
  assumes "unat T + 1 < 2 ^ 64"
  shows "sync_loop L X pull T seq lst s \<noteq> Some (Err e)"
proof (induction "unat T + 1 - unat seq" arbitrary: seq lst s)
  case 0
  then have "T < seq" by (simp add: word_less_nat_alt)
  then show ?case by (subst sync_loop.simps) simp
next
  case (Suc n)
  show ?case
  proof (cases "T < seq")
    case False
    then have "unat seq \<le> unat T" by (simp add: word_less_nat_alt)
    then have "unat (seq + 1) = unat seq + 1" using assms by (intro unat_Suc) simp
    then have "sync_loop L X pull T (seq + 1) lst' s' \<noteq> Some (Err e)" for lst' s'
      using Suc by (intro Suc.hyps) simp
    then show ?thesis
      by (subst sync_loop.simps) (auto simp: sync_iteration_not_Err split: option.splits go.splits)
  qed (subst sync_loop.simps, simp)
qed

lemma target_no_wrap: "s < (t :: u64) \<Longrightarrow> unat (t - 1) + 1 < 2 ^ 64 \<and> unat (t - 1) + 1 = unat t"
proof -
  assume "s < t"
  then have "0 < unat t" by (auto simp: word_less_nat_alt)
  then have "t \<noteq> 0" by auto
  then have "unat (t - 1) = unat t - 1" by (rule unat_minus_one)
  then show ?thesis using \<open>0 < unat t\<close> unsigned_less [of t, where ?'a = nat] by simp
qed

lemma computeTargetHeight_not_Err: "computeTargetHeight nodes hs \<noteq> Err e"
  unfolding computeTargetHeight_def Let_def by simp


text \<open>What a run of \<open>synchronize\<close> that starts to fetch has computed.\<close>

lemma synchronize_result:
  assumes "synchronize L X E s = Some (res, s')" and "\<And>p. res \<noteq> Panic p"
  obtains (unchanged) e where "res = Err e" "s' = sync_Close s"
  | (fetched) hs t lst t' bs ws where
      "se_HeightsByEndpoints E = Ret hs"
      "computeTargetHeight (rtc_Nodes (bc_RuntimeConfig (sy_chain s))) (map snd hs) = Ret t"
      "of_nat (length (bw_ledger (bc_support (sy_chain s)))) < t"
      "res = sync_decision L X (Some (last ws)) t'" "s' = sync_Close t'" "bs \<noteq> []"
      "bw_ledger (bc_support (sy_chain t')) = bw_ledger (bc_support (sy_chain s)) @ ws"
      "list_all2 same_content bs ws"
      "length bs \<le> unat t - unat (of_nat (length (bw_ledger (bc_support (sy_chain s)))) :: u64)"
      "\<forall>i < length bs. se_PullBlock E (of_nat (length (bw_ledger (bc_support (sy_chain s)))) + of_nat i) =
         Some (bs ! i)"
      "length bs = unat t - unat (of_nat (length (bw_ledger (bc_support (sy_chain s)))) :: u64) \<or>
       se_PullBlock E (of_nat (length (bw_ledger (bc_support (sy_chain s)))) + of_nat (length bs)) = None"
proof -
  let ?start = "ldg_Height (support_ledger (bc_support (sy_chain s)))"
  have start: "?start = of_nat (length (bw_ledger (bc_support (sy_chain s))))"
    by (simp add: support_ledger_def)
  from assms consider e where "res = Err e" "s' = sync_Close s"
    | hs t lst t' where "se_HeightsByEndpoints E = Ret hs"
      "computeTargetHeight (rtc_Nodes (bc_RuntimeConfig (sy_chain s))) (map snd hs) = Ret t"
      "?start < t" "sync_loop L X (se_PullBlock E) (t - 1) ?start None s = Some (Ret (lst, t'))"
      "res = sync_decision L X lst t'" "s' = sync_Close t'"
    unfolding synchronize_def Let_def
    by (auto simp: not_le split: go.splits option.splits if_splits)
  then show thesis
  proof cases
    case 1
    then show ?thesis by (rule unchanged)
  next
    case (2 hs t lst t')
    from sync_loop_Ret [OF conjunct1 [OF target_no_wrap [OF 2(3)]] 2(4)] target_no_wrap [OF 2(3)]
    obtain bs ws where
      f: "bw_ledger (bc_support (sy_chain t')) = bw_ledger (bc_support (sy_chain s)) @ ws"
        "list_all2 same_content bs ws" "lst = (if ws = [] then None else Some (last ws))"
        "length bs \<le> unat t - unat ?start"
        "\<forall>i < length bs. se_PullBlock E (?start + of_nat i) = Some (bs ! i)"
        "length bs = unat t - unat ?start \<or> se_PullBlock E (?start + of_nat (length bs)) = None"
        "bs = [] \<longrightarrow> t' = s"
      by auto
    show ?thesis
    proof (cases "bs = []")
      case True
      with f(2,3,7) 2(5,6) show ?thesis by (intro unchanged) (auto simp: sync_decision_def)
    next
      case False
      with f(2) have "ws \<noteq> []" by auto
      with False f 2 show ?thesis by (intro fetched [of hs t ws t' bs]) (simp_all add: start)
    qed
  qed
qed

text \<open>
  C17: What a successful synchronization does.  It appends to the ledger the blocks with the
  numbers from the old height on, without a gap, each with the header and data the puller
  returned, at least one and none at or above the target height; it stops early only where
  the puller has no block; and the decision it returns is that of the last block written.
\<close>

theorem synchronize_extends_ledger:
  assumes "synchronize L X E s = Some (Ret d, s')"
    and "start = bw_ledger (bc_support (sy_chain s))" and "length start < 2 ^ 64"
  shows "\<exists>hs t bs ws. se_HeightsByEndpoints E = Ret hs \<and>
    computeTargetHeight (rtc_Nodes (bc_RuntimeConfig (sy_chain s))) (map snd hs) = Ret t \<and>
    bw_ledger (bc_support (sy_chain s')) = start @ ws \<and> list_all2 same_content bs ws \<and> bs \<noteq> [] \<and>
    length start + length bs \<le> unat t \<and>
    (\<forall>i < length bs. se_PullBlock E (of_nat (length start + i)) = Some (bs ! i)) \<and>
    (length start + length bs = unat t \<or> se_PullBlock E (of_nat (length start + length bs)) = None) \<and>
    blockToDecision L X (sy_chain s') (last ws) = Ret d"
proof -
  have u: "unat (of_nat (length start) :: u64) = length start"
    using assms(3) by (simp add: unsigned_of_nat take_bit_nat_eq_self)
  from assms(1) show ?thesis
  proof (rule synchronize_result)
    fix hs t t' bs ws
    assume f: "se_HeightsByEndpoints E = Ret hs"
      "computeTargetHeight (rtc_Nodes (bc_RuntimeConfig (sy_chain s))) (map snd hs) = Ret t"
      "of_nat (length (bw_ledger (bc_support (sy_chain s)))) < t"
      "Ret d = sync_decision L X (Some (last ws)) t'" "s' = sync_Close t'" "bs \<noteq> []"
      "bw_ledger (bc_support (sy_chain t')) = bw_ledger (bc_support (sy_chain s)) @ ws"
      "list_all2 same_content bs ws"
      "length bs \<le> unat t - unat (of_nat (length (bw_ledger (bc_support (sy_chain s)))) :: u64)"
      "\<forall>i < length bs. se_PullBlock E (of_nat (length (bw_ledger (bc_support (sy_chain s)))) + of_nat i) =
         Some (bs ! i)"
      "length bs = unat t - unat (of_nat (length (bw_ledger (bc_support (sy_chain s)))) :: u64) \<or>
       se_PullBlock E (of_nat (length (bw_ledger (bc_support (sy_chain s)))) + of_nat (length bs)) = None"
    from f(3) have lt: "length start < unat t" using u assms(2) by (simp add: word_less_nat_alt)
    have "blockToDecision L X (sy_chain s') (last ws) = Ret d"
      using f(4,5) by (auto simp: sync_decision_def sync_Close_def go_simps dest!: sym [of "Ret d"])
    with f lt u show ?thesis unfolding assms(2) [symmetric]
      by (intro exI [of _ hs] exI [of _ t] exI [of _ bs] exI [of _ ws]) (auto simp: sync_Close_def)
  qed simp_all
qed

lemma blockToDecision_not_Err: "blockToDecision L X c b \<noteq> Err e"
proof -
  have "go_map f xs \<noteq> Err e" if "\<And>x e. f x \<noteq> Err e"
    for f :: "metadata_signature \<Rightarrow> bft_signature list go" and xs e
    using that by (induction xs arbitrary: e) (auto simp: go_bind_Err_iff)
  then have sigs: "go_map (\<lambda>s. go_bind (header_Bytes h) (\<lambda>hb. Ret (decision_signature L hb v s))) xs \<noteq> Err e"
    for h v xs e by (auto simp: go_bind_Err_iff header_Bytes_not_Err)
  show ?thesis
    unfolding blockToDecision_def blockToProposalWithoutSignaturesInMetadata_def Let_def
    by (auto simp: go_bind_Err_iff header_Bytes_not_Err sigs split: if_splits)
qed

lemma sync_decision_not_Err: "sync_decision L X (Some b) s \<noteq> Err e"
  by (auto simp: sync_decision_def getViewMetadataLastConfigSqnFromBlock_def
      go_bind_Err_iff blockToDecision_not_Err split: go.splits)

text \<open>
  C18: Synchronization makes progress.  If the endpoints report a height above the node's own
  and the puller has every block up to the target, then, unless committing one of them
  panics, \<open>synchronize\<close> succeeds and the ledger reaches exactly the target height.
\<close>

theorem synchronize_reaches_target:
  assumes "se_HeightsByEndpoints E = Ret hs"
    and "computeTargetHeight (rtc_Nodes (bc_RuntimeConfig (sy_chain s))) (map snd hs) = Ret t"
    and "length (bw_ledger (bc_support (sy_chain s))) < unat t"
    and "\<forall>n < t. length (bw_ledger (bc_support (sy_chain s))) \<le> unat n \<longrightarrow> se_PullBlock E n \<noteq> None"
    and "\<forall>p s'. synchronize L X E s \<noteq> Some (Panic p, s')"
  shows "\<exists>d s'. synchronize L X E s = Some (Ret d, s') \<and>
    length (bw_ledger (bc_support (sy_chain s'))) = unat t"
proof -
  let ?n = "length (bw_ledger (bc_support (sy_chain s)))"
  let ?start = "of_nat ?n :: u64"
  have "?n < 2 ^ 64" using assms(3) unsigned_less [of t, where ?'a = nat] by simp
  then have u: "unat ?start = ?n" by (simp add: unsigned_of_nat take_bit_nat_eq_self)
  then have lt: "?start < t" using assms(3) by (simp add: word_less_nat_alt)
  have hs: "hs \<noteq> []" using assms(2) by (auto simp: computeTargetHeight_def Let_def)
  note T = conjunct1 [OF target_no_wrap [OF lt]]
  obtain res where loop: "sync_loop L X (se_PullBlock E) (t - 1) ?start None s = Some res"
    using sync_loop_terminates [OF T] by blast
  have sync: "synchronize L X E s = (case res of Ret (lst, s') \<Rightarrow> Some (sync_decision L X lst s', sync_Close s')
      | Err e \<Rightarrow> Some (Err e, sync_Close s) | Panic p \<Rightarrow> Some (Panic p, sync_Close s))"
    using assms(1,2) hs lt loop
    by (simp add: synchronize_def support_ledger_def Let_def not_le [symmetric] split: go.splits)
  then obtain lst s' where res: "res = Ret (lst, s')"
    using assms(5) loop sync_loop_not_Err [OF T] by (cases res) auto
  from sync_loop_Ret [OF T loop [unfolded res]] u target_no_wrap [OF lt] obtain bs ws where
    f: "bw_ledger (bc_support (sy_chain s')) = bw_ledger (bc_support (sy_chain s)) @ ws"
      "list_all2 same_content bs ws" "lst = (if ws = [] then None else Some (last ws))"
      "length bs \<le> unat t - ?n"
      "length bs = unat t - ?n \<or> se_PullBlock E (?start + of_nat (length bs)) = None"
    by auto
  have full: "length bs = unat t - ?n"
  proof (rule ccontr)
    assume less: "length bs \<noteq> unat t - ?n"
    with f(4) have l: "?n + length bs < unat t" by simp
    then have "?n + length bs < 2 ^ 64" using unsigned_less [of t, where ?'a = nat] by simp
    then have "unat (?start + of_nat (length bs)) = ?n + length bs"
      by (simp add: unsigned_of_nat take_bit_nat_eq_self flip: of_nat_add)
    with l less f(5) assms(4) [rule_format, of "?start + of_nat (length bs)"]
    show False by (simp add: word_less_nat_alt)
  qed
  with f(2) assms(3) have "ws \<noteq> []" "length (bw_ledger (bc_support (sy_chain s'))) = unat t"
    using f(1) list_all2_lengthD [OF f(2)] by auto
  moreover have "sync_decision L X lst s' \<noteq> Err e" for e
    using \<open>ws \<noteq> []\<close> f(3) by (simp add: sync_decision_not_Err)
  ultimately show ?thesis
    using sync res assms(5) by (cases "sync_decision L X lst s'") (auto simp: sync_Close_def)
qed

text \<open>
  A synchronization that fails changes nothing: the chain, its ledger and the pending
  reconfiguration are as before, and \<open>Sync\<close> answers with the decision of the last block of
  the local ledger, the current nodes and configuration, and no reconfiguration.
\<close>

theorem Sync_fallback:
  assumes "synchronize L X E s = Some (Err e, s')"
    and "bw_ledger (bc_support (sy_chain s)) \<noteq> []" and "length (bw_ledger (bc_support (sy_chain s))) < 2 ^ 64"
  shows "s' = s\<lparr>sy_Closed := True\<rparr> \<and>
    Sync L X E s =
      Some (go_bind (blockToDecision L X (sy_chain s) (last (bw_ledger (bc_support (sy_chain s))))) (\<lambda>d.
        Ret \<lparr>sr_Latest = d, sr_InReplicatedDecisions = False,
             sr_CurrentNodes = rtc_Nodes (bc_RuntimeConfig (sy_chain s)),
             sr_CurrentConfig = rtc_BFTConfig (bc_RuntimeConfig (sy_chain s))\<rparr>), s')"
proof -
  let ?ldg = "bw_ledger (bc_support (sy_chain s))"
  from assms(1) have s': "s' = sync_Close s"
    by (rule synchronize_result) (auto simp: sync_decision_not_Err dest: sym [of "Err e"])
  have "of_nat (length ?ldg) \<noteq> (0 :: u64)" "unat (of_nat (length ?ldg) :: u64) = length ?ldg"
    using assms(2,3) by (auto simp: unsigned_of_nat take_bit_nat_eq_self word_unat_eq_iff)
  then have "unat (of_nat (length ?ldg) - 1 :: u64) = length ?ldg - 1" using unat_minus_one by metis
  then have "ldg_Block (support_ledger (bc_support (sy_chain s)))
      (ldg_Height (support_ledger (bc_support (sy_chain s))) - 1) = Some (last ?ldg)"
    using assms(2) by (simp add: support_ledger_def last_conv_nth)
  with assms(1) s' show ?thesis by (simp add: Sync_def sync_Close_def Let_def)
qed

subsection \<open>A sample run\<close>

definition sample_pulled :: block where
  "sample_pulled = \<lparr>blk_Header = Some \<lparr>hdr_Number = 5, hdr_PreviousHash = [1], hdr_DataHash = [2]\<rparr>,
     blk_Data = Some [tx_bytes 3],
     blk_Metadata = Some [put_md (put_pair (put_opt put_u64) put_bytes (Some 2, [5]), []), [], [], [], []]\<rparr>"

definition sample_sync_env :: sync_env where
  "sample_sync_env = \<lparr>se_HeightsByEndpoints = Ret [(''a'', 2)],
     se_PullBlock = (\<lambda>n. if n = 1 then Some sample_pulled else None)\<rparr>"

definition sample_synchronizer :: synchronizer where
  "sample_synchronizer = \<lparr>sy_lastReconfig = empty_reconfig, sy_chain = sample_chain, sy_Closed = False\<rparr>"

lemma sample_iteration:
  "\<exists>b s'. sync_iteration tx_libs sample_chain_env sample_synchronizer sample_pulled = Ret (b, s') \<and>
     b = sample_pulled\<lparr>blk_Metadata := Some [put_md (put_pair (put_opt put_u64) put_bytes (Some 2, [5]), []),
       put_md (put_u64 2, []), [], [], []]\<rparr>"
proof -
  have cfg: "\<not> IsConfigBlock tx_libs sample_pulled"
    by (simp add: sample_pulled_def IsConfigBlock_iff IsConfigTransaction_iff tx_payload_def
        tx_channel_header_def)
  show ?thesis
    by (simp add: sync_iteration_def write_any_def cfg sample_synchronizer_def sample_chain_def
        sample_chain_env_def sample_writer_def WriteBlock_def writeBlockSync_def commitBlock_def
        addLastConfigSignature_def set_metadata_def sample_bw_env_def)
      (simp add: sample_pulled_def updateRuntimeConfig_def BlockCommitted_def ConfigFromBlock_def
        block_Hash_def header_Hash_def header_Bytes_def unmarshal_defs tx_payload_def tx_channel_header_def Let_def)
qed

lemma sample_synchronize:
  "\<exists>d s'. synchronize tx_libs sample_chain_env sample_sync_env sample_synchronizer = Some (Ret d, s')"
proof -
  obtain b s' where it: "sync_iteration tx_libs sample_chain_env sample_synchronizer sample_pulled = Ret (b, s')"
    and b: "b = sample_pulled\<lparr>blk_Metadata := Some
      [put_md (put_pair (put_opt put_u64) put_bytes (Some 2, [5]), []), put_md (put_u64 2, []), [], [], []]\<rparr>"
    using sample_iteration by blast
  have loop: "sync_loop tx_libs sample_chain_env (se_PullBlock sample_sync_env) 1 1 None sample_synchronizer =
      Some (Ret (Some b, s'))"
    by (subst sync_loop.simps) (simp add: sample_sync_env_def it, subst sync_loop.simps, simp)
  have "\<exists>d. sync_decision tx_libs sample_chain_env (Some b) s' = Ret d"
    by (simp add: b sample_pulled_def sync_decision_def getViewMetadataLastConfigSqnFromBlock_def
        getViewMetadataFromBlock_def GetMetadataFromBlockOrPanic_def GetMetadataFromBlock_def
        blockToDecision_def blockToProposalWithoutSignaturesInMetadata_def header_Bytes_def Let_def)
  moreover have "\<not> (2 :: u64) \<le> 1" by (simp add: word_le_nat_alt)
  ultimately show ?thesis using loop
    by (auto simp: synchronize_def sample_sync_env_def computeTargetHeight_def Let_def
        sample_synchronizer_def sample_chain_def support_ledger_def sample_writer_def sample_rtc_def
        initial_rtc_def)
qed

lemma sample_sync_ledger [simp]:
  "bw_ledger (bc_support (sy_chain sample_synchronizer)) = [sample_last]"
  "rtc_Nodes (bc_RuntimeConfig (sy_chain sample_synchronizer)) = []"
  by (simp_all add: sample_synchronizer_def sample_chain_def sample_writer_def sample_rtc_def initial_rtc_def)

theorem synchronize_extends_ledger_witness:
  "\<exists>d s'. synchronize tx_libs sample_chain_env sample_sync_env sample_synchronizer = Some (Ret d, s') \<and>
     (\<exists>ws. bw_ledger (bc_support (sy_chain s')) = [sample_last] @ ws \<and> ws \<noteq> [])"
proof -
  obtain d s' where run: "synchronize tx_libs sample_chain_env sample_sync_env sample_synchronizer = Some (Ret d, s')"
    using sample_synchronize by blast
  from synchronize_extends_ledger [OF run refl] have
    "\<exists>ws. bw_ledger (bc_support (sy_chain s')) = [sample_last] @ ws \<and> ws \<noteq> []"
    by fastforce
  with run show ?thesis by blast
qed

theorem synchronize_reaches_target_witness:
  "\<exists>d s'. synchronize tx_libs sample_chain_env sample_sync_env sample_synchronizer = Some (Ret d, s') \<and>
     length (bw_ledger (bc_support (sy_chain s'))) = unat (2 :: u64)"
proof (rule synchronize_reaches_target)
  show "se_HeightsByEndpoints sample_sync_env = Ret [(''a'', 2)]" by (simp add: sample_sync_env_def)
  show "computeTargetHeight (rtc_Nodes (bc_RuntimeConfig (sy_chain sample_synchronizer)))
      (map snd [(''a'', 2)]) = Ret 2" by (simp add: computeTargetHeight_def Let_def)
  show "\<forall>n < 2. length (bw_ledger (bc_support (sy_chain sample_synchronizer))) \<le> unat n \<longrightarrow>
      se_PullBlock sample_sync_env n \<noteq> None"
  proof (intro allI impI)
    fix n :: u64
    assume "n < 2" "length (bw_ledger (bc_support (sy_chain sample_synchronizer))) \<le> unat n"
    then have "unat n = unat (1 :: u64)" by (simp add: word_less_nat_alt)
    then have "n = 1" by (simp only: word_unat_eq_iff)
    then show "se_PullBlock sample_sync_env n \<noteq> None" by (simp add: sample_sync_env_def)
  qed
qed (use sample_synchronize in auto)

theorem Sync_fallback_witness:
  "Sync tx_libs sample_chain_env (sample_sync_env\<lparr>se_HeightsByEndpoints := Ret []\<rparr>) sample_synchronizer =
     Some (go_bind (blockToDecision tx_libs sample_chain_env (sy_chain sample_synchronizer) sample_last) (\<lambda>d.
       Ret \<lparr>sr_Latest = d, sr_InReplicatedDecisions = False, sr_CurrentNodes = [],
            sr_CurrentConfig = rtc_BFTConfig (bc_RuntimeConfig (sy_chain sample_synchronizer))\<rparr>),
       sample_synchronizer\<lparr>sy_Closed := True\<rparr>)"
proof -
  have run: "synchronize tx_libs sample_chain_env (sample_sync_env\<lparr>se_HeightsByEndpoints := Ret []\<rparr>)
      sample_synchronizer =
    Some (Err (Errorf ''no cluster members to synchronize with''), sample_synchronizer\<lparr>sy_Closed := True\<rparr>)"
    by (simp add: synchronize_def sync_Close_def)
  from Sync_fallback [OF run] show ?thesis by simp
qed

end
