(* ===== verification/ConfigVerifier.thy ===== *)
theory ConfigVerifier
  imports Chain
begin

text \<open>
  Validating configuration transactions before they are ordered: \<open>smartbft/configverifier.go\<close>.

  The registrar's services are the fields of \<open>config_block_validator\<close>: the filters, the
  computation of the configuration an update leads to, and the template of a new channel,
  whose bundle computes such a configuration in the same way.
\<close>

record config_block_validator =
  cbv_NewChannelConfig :: "envelope \<Rightarrow> (envelope \<Rightarrow> config_envelope go) go"
    \<comment> \<open>the result is \<open>ProposeConfigUpdate\<close> of the new bundle's validator\<close>
  cbv_ProposeConfigUpdate :: "string \<Rightarrow> envelope \<Rightarrow> config_envelope go"
  cbv_ValidatingChannel :: string
  cbv_ApplyFilters :: "string \<Rightarrow> envelope \<Rightarrow> unit go"

definition verifyConfigUpdateMsg ::
  "libs \<Rightarrow> config_block_validator \<Rightarrow> envelope \<Rightarrow> config_envelope \<Rightarrow> channel_header \<Rightarrow> unit go" where
  "verifyConfigUpdateMsg L cbv outEnv confEnv chdr =
     (case (ce_LastUpdate confEnv, ce_Config confEnv) of
        (Some lastUpdate, Some config) \<Rightarrow>
          go_bind (UnmarshalPayload L (env_Payload lastUpdate)) (\<lambda>envPayload.
          case pl_Header envPayload of
            None \<Rightarrow> Err (Errorf ''inner header is nil'')
          | Some h \<Rightarrow>
          if hd_ChannelHeader h = None then Err (Errorf ''inner channelheader is nil'')
          else
          go_bind (cbv_ApplyFilters cbv (ch_ChannelId chdr) outEnv) (\<lambda>_.
          go_bind (case ChannelID L lastUpdate of
                     Err _ \<Rightarrow> Err (Errorf ''error extracting channel ID from config update'')
                   | r \<Rightarrow> r) (\<lambda>channelID.
          go_bind
            (if cbv_ValidatingChannel cbv \<noteq> channelID
             then if ch_Type chdr \<noteq> HeaderType_ORDERER_TRANSACTION
                  then Err (Errorf ''config transaction to the wrong channel'')
                  else go_bind (cbv_NewChannelConfig cbv lastUpdate) (\<lambda>propose. propose lastUpdate)
             else if ch_Type chdr = HeaderType_ORDERER_TRANSACTION
                  then Err (Errorf ''expected config transaction but got orderer transaction'')
                  else cbv_ProposeConfigUpdate cbv (ch_ChannelId chdr) lastUpdate)
            (\<lambda>expectedConfigEnv.
          if Some config = ce_Config expectedConfigEnv then Ret ()
          else Err (Errorf ''pending config does not match calculated expected config'')))))
      | _ \<Rightarrow> Err (Errorf ''invalid config envelope''))"

definition ValidateConfig :: "libs \<Rightarrow> config_block_validator \<Rightarrow> envelope \<Rightarrow> unit go" where
  "ValidateConfig L cbv envelope =
     go_bind (UnmarshalPayload L (env_Payload envelope)) (\<lambda>payload.
     case pl_Header payload of
       None \<Rightarrow> Err (Errorf ''no header was set'')
     | Some h \<Rightarrow>
     (case hd_ChannelHeader h of
        None \<Rightarrow> Err (Errorf ''no channel header was set'')
      | Some raw \<Rightarrow>
     (case UnmarshalChannelHeader L raw of
        Panic p \<Rightarrow> Panic p
      | Err _ \<Rightarrow> Err (Errorf ''channel header unmarshalling error'')
      | Ret chdr \<Rightarrow>
     if ch_Type chdr = HeaderType_CONFIG then
       (case unmarshal (dec_config_envelope L) (pl_Data payload) of
          Ret configEnvelope \<Rightarrow> verifyConfigUpdateMsg L cbv envelope configEnvelope chdr
        | _ \<Rightarrow> Err (Errorf ''data unmarshalling error''))
     else if ch_Type chdr = HeaderType_ORDERER_TRANSACTION then
       (case UnmarshalEnvelope L (pl_Data payload) of
          Ret env \<Rightarrow>
            (case UnmarshalEnvelopeOfType L env HeaderType_CONFIG (dec_config_envelope L) of
               Ret (_, configEnvelope) \<Rightarrow> verifyConfigUpdateMsg L cbv envelope configEnvelope chdr
             | _ \<Rightarrow> Err (Errorf ''data unmarshalling error''))
        | _ \<Rightarrow> Err (Errorf ''data unmarshalling error''))
     else Err (Errorf ''unexpected envelope type''))))"

subsection \<open>What is accepted\<close>

text \<open>
  The configuration envelope a transaction carries: directly in a CONFIG transaction, in an
  inner CONFIG envelope in an ORDERER_TRANSACTION.
\<close>

definition carried_config ::
  "libs \<Rightarrow> payload \<Rightarrow> channel_header \<Rightarrow> config_envelope \<Rightarrow> bool" where
  "carried_config L pl chdr ce \<longleftrightarrow>
     (ch_Type chdr = HeaderType_CONFIG \<and> dec_config_envelope L (pl_Data pl) = Some ce) \<or>
     (ch_Type chdr = HeaderType_ORDERER_TRANSACTION \<and>
      (\<exists>inner ichdr. dec_envelope L (pl_Data pl) = Some inner \<and>
         UnmarshalEnvelopeOfType L inner HeaderType_CONFIG (dec_config_envelope L) = Ret (ichdr, ce)))"

text \<open>The configuration that an update leads to, on this channel or on a new one.\<close>

definition computed_config ::
  "libs \<Rightarrow> config_block_validator \<Rightarrow> channel_header \<Rightarrow> envelope \<Rightarrow> config_envelope go" where
  "computed_config L cbv chdr upd =
     (if ch_Type chdr = HeaderType_CONFIG then cbv_ProposeConfigUpdate cbv (ch_ChannelId chdr) upd
      else go_bind (cbv_NewChannelConfig cbv upd) (\<lambda>propose. propose upd))"

lemma ChannelID_Ret:
  assumes "ChannelID L e = Ret cid"
  shows "\<exists>pl h raw. dec_payload L (env_Payload e) = Some pl \<and> pl_Header pl = Some h \<and>
    hd_ChannelHeader h = Some raw"
  using assms by (auto simp: ChannelID_def ChannelHeader_def go_simps guard_Ret_iff unmarshal_defs)

lemma verifyConfigUpdateMsg_Ret_iff:
  assumes "ch_Type chdr = HeaderType_CONFIG \<or> ch_Type chdr = HeaderType_ORDERER_TRANSACTION"
  shows "verifyConfigUpdateMsg L cbv env ce chdr = Ret () \<longleftrightarrow>
    (\<exists>upd cfg cid e. ce_LastUpdate ce = Some upd \<and> ce_Config ce = Some cfg \<and>
       cbv_ApplyFilters cbv (ch_ChannelId chdr) env = Ret () \<and> ChannelID L upd = Ret cid \<and>
       (cid = cbv_ValidatingChannel cbv \<longleftrightarrow> ch_Type chdr = HeaderType_CONFIG) \<and>
       computed_config L cbv chdr upd = Ret e \<and> ce_Config e = Some cfg)"
proof (cases "\<exists>upd cfg. ce_LastUpdate ce = Some upd \<and> ce_Config ce = Some cfg")
  case False
  then show ?thesis
    by (cases "ce_LastUpdate ce"; cases "ce_Config ce") (auto simp: verifyConfigUpdateMsg_def)
next
  case True
  then obtain upd cfg where u: "ce_LastUpdate ce = Some upd" "ce_Config ce = Some cfg" by blast
  have chan: "(case ChannelID L upd of Err _ \<Rightarrow> Err x | r \<Rightarrow> r) = Ret cid \<longleftrightarrow> ChannelID L upd = Ret cid"
    for x cid by (cases "ChannelID L upd") auto
  show ?thesis
  proof (cases "\<exists>cid. ChannelID L upd = Ret cid")
    case False
    then show ?thesis
      unfolding verifyConfigUpdateMsg_def u option.case prod.case
      by (auto simp: go_bind_Ret_iff guard_Ret_iff chan)
  next
    case True
    then obtain cid where cid: "ChannelID L upd = Ret cid" by blast
    from ChannelID_Ret [OF cid] obtain pl h raw where
      pl: "dec_payload L (env_Payload upd) = Some pl" "pl_Header pl = Some h" "hd_ChannelHeader h = Some raw"
      by blast
    have eq: "(if Some cfg = x then Ret () else Err y) = Ret () \<longleftrightarrow> x = Some cfg" for x y by auto
    show ?thesis
      using assms unfolding verifyConfigUpdateMsg_def u option.case prod.case computed_config_def
      by (cases "cbv_ValidatingChannel cbv = cid")
        (auto simp: go_bind_Ret_iff guard_Ret_iff cid pl unmarshal_defs eq)
  qed
qed

text \<open>
  Which configuration transactions a node accepts into a block.  \<open>ValidateConfig\<close> accepts
  exactly the CONFIG transactions whose embedded update is for the validating channel, and
  the ORDERER_TRANSACTIONs whose embedded update is for another channel, that pass the
  filters and carry precisely the configuration the node itself computes from the update.
\<close>

lemma ValidateConfig_accepts_iff:
  "ValidateConfig L cbv env = Ret () \<longleftrightarrow>
     (\<exists>pl h raw chdr ce upd cfg cid e.
        dec_payload L (env_Payload env) = Some pl \<and> pl_Header pl = Some h \<and>
        hd_ChannelHeader h = Some raw \<and> dec_channel_header L raw = Some chdr \<and>
        carried_config L pl chdr ce \<and> ce_LastUpdate ce = Some upd \<and> ce_Config ce = Some cfg \<and>
        cbv_ApplyFilters cbv (ch_ChannelId chdr) env = Ret () \<and> ChannelID L upd = Ret cid \<and>
        (cid = cbv_ValidatingChannel cbv \<longleftrightarrow> ch_Type chdr = HeaderType_CONFIG) \<and>
        computed_config L cbv chdr upd = Ret e \<and> ce_Config e = Some cfg)"
proof (cases "\<exists>pl h raw chdr. dec_payload L (env_Payload env) = Some pl \<and> pl_Header pl = Some h \<and>
        hd_ChannelHeader h = Some raw \<and> dec_channel_header L raw = Some chdr")
  case False
  have hdr: "(case m of Panic p \<Rightarrow> Panic p | Err _ \<Rightarrow> Err e | Ret x \<Rightarrow> f x) = Ret y \<longleftrightarrow>
      (\<exists>x. m = Ret x \<and> f x = Ret y)" for m :: "channel_header go" and e f and y :: unit
    by (cases m) auto
  have "ValidateConfig L cbv env \<noteq> Ret ()"
    using False unfolding ValidateConfig_def go_bind_Ret_iff guard_Ret_iff hdr unmarshal_defs
    by (simp only: wrap_err_Ret_iff ext_call_simps) blast
  with False show ?thesis by blast
next
  case True
  then obtain pl h raw chdr where p: "dec_payload L (env_Payload env) = Some pl" "pl_Header pl = Some h"
      "hd_ChannelHeader h = Some raw" "dec_channel_header L raw = Some chdr"
    by blast
  have "ValidateConfig L cbv env = Ret () \<longleftrightarrow>
      (\<exists>ce. carried_config L pl chdr ce \<and> verifyConfigUpdateMsg L cbv env ce chdr = Ret ())"
    unfolding ValidateConfig_def carried_config_def
    by (auto simp: p unmarshal_defs ext_call_def split: option.splits go.splits)
  also have "\<dots> \<longleftrightarrow> (\<exists>ce upd cfg cid e. carried_config L pl chdr ce \<and>
        ce_LastUpdate ce = Some upd \<and> ce_Config ce = Some cfg \<and>
        cbv_ApplyFilters cbv (ch_ChannelId chdr) env = Ret () \<and> ChannelID L upd = Ret cid \<and>
        (cid = cbv_ValidatingChannel cbv \<longleftrightarrow> ch_Type chdr = HeaderType_CONFIG) \<and>
        computed_config L cbv chdr upd = Ret e \<and> ce_Config e = Some cfg)"
  proof (intro ex_cong1)
    fix ce
    show "carried_config L pl chdr ce \<and> verifyConfigUpdateMsg L cbv env ce chdr = Ret () \<longleftrightarrow>
      (\<exists>upd cfg cid e. carried_config L pl chdr ce \<and>
        ce_LastUpdate ce = Some upd \<and> ce_Config ce = Some cfg \<and>
        cbv_ApplyFilters cbv (ch_ChannelId chdr) env = Ret () \<and> ChannelID L upd = Ret cid \<and>
        (cid = cbv_ValidatingChannel cbv \<longleftrightarrow> ch_Type chdr = HeaderType_CONFIG) \<and>
        computed_config L cbv chdr upd = Ret e \<and> ce_Config e = Some cfg)"
    proof (cases "carried_config L pl chdr ce")
      case True
      then have "ch_Type chdr = HeaderType_CONFIG \<or> ch_Type chdr = HeaderType_ORDERER_TRANSACTION"
        by (auto simp: carried_config_def)
      with True show ?thesis by (simp only: verifyConfigUpdateMsg_Ret_iff simp_thms)
    qed simp
  qed
  finally show ?thesis using p by (simp only: option.inject simp_thms) auto
qed

end
