(* ===== verification/Consenter.thy ===== *)
theory Consenter
  imports ConfigVerifier
begin

text \<open>
  The consenter that creates chains and routes messages to them: \<open>smartbft/consenter.go\<close>,
  and the parts of \<open>ingress.go\<close> and \<open>egress.go\<close> that name message types and nodes.

  The registrar's table of chains is the argument \<open>GetChain\<close>: \<open>None\<close> when the channel is not
  known, \<open>Some None\<close> when it is known without a chain.  Building the block puller is outside
  the model.  \<open>New\<close> only wires loggers, metrics and the gRPC service.
\<close>

datatype chain_value =
    SmartBFT bft_chain
  | InactiveChain error
  | OtherChain

record consenter_state =
  cs_Cert :: bytes
  cs_Tracked :: "(string \<times> block option) list"
    \<comment> \<open>calls of \<open>TrackChain\<close>: channel and genesis block\<close>

definition ReceiverByChain ::
  "(string \<Rightarrow> chain_value option option) \<Rightarrow> string \<Rightarrow> bft_chain option go" where
  "ReceiverByChain GetChain channelID =
     (case GetChain channelID of
        None \<Rightarrow> Ret None
      | Some None \<Rightarrow> Panic ''Programming error - Chain is nil although it exists in the mapping''
      | Some (Some (SmartBFT c)) \<Rightarrow> Ret (Some c)
      | Some (Some _) \<Rightarrow> Ret None)"

definition HandleChain ::
  "libs \<Rightarrow> chain_env \<Rightarrow> consenter_state \<Rightarrow> string \<Rightarrow> bytes \<Rightarrow> unit go \<Rightarrow> block_writer \<Rightarrow> fuzz_state \<Rightarrow>
     (chain_value \<times> consenter_state) go" where
  "HandleChain L X cs chainID consensusMetadata puller support seeds =
     go_bind (wrap_err ''failed to unmarshal consensus metadata''
       (unmarshal (dec_config_metadata L) consensusMetadata)) (\<lambda>m.
     if cm_Options m = None then Err (Errorf ''failed to retrieve consensus metadata options'')
     else
     (case detectSelfID (cs_Cert cs) (cm_Consenters m) of
        Panic p \<Rightarrow> Panic p
      | Err _ \<Rightarrow>
          Ret (InactiveChain (Errorf ''channel is not serviced by me''),
            cs\<lparr>cs_Tracked := cs_Tracked cs @ [(chainID, ldg_Block (support_ledger support) 0)]\<rparr>)
      | Ret selfID \<Rightarrow>
          go_bind (or_panic ''Failed initializing block puller'' puller) (\<lambda>_.
          go_bind (wrap_err ''failed parsing smartbft configuration''
            (configFromMetadataOptions (cx_fabric X) selfID (cm_Options m))) (\<lambda>config.
          go_bind (wrap_err ''failed creating a new BFTChain''
            (NewChain L X chainID selfID config support seeds)) (\<lambda>chain.
          Ret (SmartBFT chain, cs))))))"

text \<open>The messages \<open>TargetChannel\<close> distinguishes.\<close>

datatype cluster_message =
    Consensus_Request ConsensusRequest
  | Submit_Request SubmitRequest
  | Other_Message

fun TargetChannel :: "cluster_message \<Rightarrow> string" where
  "TargetChannel (Consensus_Request req) = cr_Channel req"
| "TargetChannel (Submit_Request req) = sr_Channel req"
| "TargetChannel Other_Message = []"

definition ingress_getType :: "message \<Rightarrow> string" where
  "ingress_getType m =
     (case msg_Content m of
        Some (Message_PrePrepare _) \<Rightarrow> ''PrePrepare''
      | Some (Message_Prepare _) \<Rightarrow> ''Prepare''
      | Some (Message_Commit _) \<Rightarrow> ''Commit''
      | Some (Message_ViewChange _) \<Rightarrow> ''ViewChange''
      | Some (Message_ViewData _) \<Rightarrow> ''ViewData''
      | Some (Message_NewView _) \<Rightarrow> ''NewView''
      | Some (Message_HeartBeat _) \<Rightarrow> ''HeartBeat''
      | Some (Message_HeartBeatResponse _) \<Rightarrow> ''HeartBeatResponse''
      | Some (Message_StateTransferRequest _) \<Rightarrow> ''StateTransferRequest''
      | Some (Message_StateTransferResponse _) \<Rightarrow> ''StateTransferResponse''
      | None \<Rightarrow> [])"

definition egress_Nodes :: "runtime_config \<Rightarrow> u64 list" where
  "egress_Nodes rtc = rtc_Nodes rtc"

subsection \<open>Chains that are created\<close>

lemma detectSelfID_not_Panic: "detectSelfID cert cs \<noteq> Panic p"
  by (induction cs) auto

lemma detectSelfID_Ret_iff:
  "detectSelfID cert cs = Ret i \<longleftrightarrow>
     (\<exists>c. find (\<lambda>c. cst_ServerTlsCert c = cert) cs = Some c \<and> cst_ConsenterId c = i)"
  by (induction cs) auto

lemma detectSelfID_Err_iff:
  "(\<exists>e. detectSelfID cert cs = Err e) \<longleftrightarrow> cert \<notin> cst_ServerTlsCert ` set cs"
  by (induction cs) auto

lemma NewChain_Ret:
  assumes "NewChain L X channel selfID config support seeds = Ret c"
  shows "bc_support c = support" and "bc_SelfID c = cf_SelfID config" and "\<not> bc_halted c"
    and "\<exists>lastBlock configBlock rtc1.
      LastBlockFromLedgerOrPanic (support_ledger support) = Ret lastBlock \<and>
      LastConfigBlockFromLedgerOrPanic L (support_ledger support) = Ret configBlock \<and>
      BlockCommitted L (cx_fabric X) (initial_rtc selfID) configBlock = Ret rtc1 \<and>
      BlockCommitted L (cx_fabric X) rtc1 lastBlock = Ret (bc_RuntimeConfig c)"
proof -
  let ?c0 = "\<lambda>rtc. initial_chain channel config rtc support seeds"
  from assms obtain lastBlock configBlock rtc1 rtc c1 where
    b: "LastBlockFromLedgerOrPanic (support_ledger support) = Ret lastBlock"
      "LastConfigBlockFromLedgerOrPanic L (support_ledger support) = Ret configBlock"
      "BlockCommitted L (cx_fabric X) (initial_rtc selfID) configBlock = Ret rtc1"
      "BlockCommitted L (cx_fabric X) rtc1 lastBlock = Ret rtc"
    and build: "bftSmartConsensusBuild L X (?c0 rtc) = Ret c1"
    and c: "c = c1\<lparr>bc_Configured := bc_Configured c1 @ [rtc_RemoteNodes rtc]\<rparr>"
    unfolding NewChain_def Let_def go_bind_Ret_iff wrap_err_Ret_iff go.inject by blast
  have c0: "bc_SelfID (?c0 rtc) = cf_SelfID config" "bc_RuntimeConfig (?c0 rtc) = rtc"
      "bc_support (?c0 rtc) = support" "\<not> bc_halted (?c0 rtc)"
    by (simp_all add: initial_chain_def)
  have "bc_SelfID c1 = bc_SelfID (?c0 rtc) \<and> bc_RuntimeConfig c1 = bc_RuntimeConfig (?c0 rtc) \<and>
      bc_support c1 = bc_support (?c0 rtc) \<and> bc_halted c1 = bc_halted (?c0 rtc)"
    using build
    unfolding bftSmartConsensusBuild_def lastPersistedProposalAndSignatures_def Let_def
    by (auto simp: go_simps)
  with c0 c b show "bc_support c = support" "bc_SelfID c = cf_SelfID config" "\<not> bc_halted c"
    "\<exists>lastBlock configBlock rtc1.
      LastBlockFromLedgerOrPanic (support_ledger support) = Ret lastBlock \<and>
      LastConfigBlockFromLedgerOrPanic L (support_ledger support) = Ret configBlock \<and>
      BlockCommitted L (cx_fabric X) (initial_rtc selfID) configBlock = Ret rtc1 \<and>
      BlockCommitted L (cx_fabric X) rtc1 lastBlock = Ret (bc_RuntimeConfig c)"
    by auto
qed

text \<open>
  C25: Which chain a node runs.  When \<open>HandleChain\<close> succeeds, it returns an inactive chain,
  and registers the channel with its genesis block for later, exactly when the node's
  certificate is not among those of the consenters; otherwise it returns a running
  SmartBFT chain on the given ledger whose identifier is that of the first consenter with
  the node's certificate, with a runtime configuration for that identifier whose nodes
  are sorted and all have a known identity.
\<close>

theorem HandleChain_outcome:
  assumes "HandleChain L X cs chainID raw puller support seeds = Ret (v, cs')"
    and "dec_config_metadata L raw = Some m"
  shows "if cs_Cert cs \<in> cst_ServerTlsCert ` set (cm_Consenters m)
    then cs' = cs \<and> (\<exists>c k. v = SmartBFT c \<and> bc_support c = support \<and> \<not> bc_halted c \<and>
      find (\<lambda>k. cst_ServerTlsCert k = cs_Cert cs) (cm_Consenters m) = Some k \<and>
      bc_SelfID c = cst_ConsenterId k \<and> rtc_id (bc_RuntimeConfig c) = cst_ConsenterId k \<and>
      sorted (rtc_Nodes (bc_RuntimeConfig c)) \<and>
      dom (rtc_ID2Identities (bc_RuntimeConfig c)) = set (rtc_Nodes (bc_RuntimeConfig c)))
    else (\<exists>e. v = InactiveChain e) \<and>
      cs_Tracked cs' = cs_Tracked cs @ [(chainID, ldg_Block (support_ledger support) 0)] \<and>
      cs_Cert cs' = cs_Cert cs"
proof (cases "detectSelfID (cs_Cert cs) (cm_Consenters m)")
  case (Ret i)
  then obtain k where k: "find (\<lambda>k. cst_ServerTlsCert k = cs_Cert cs) (cm_Consenters m) = Some k"
      "cst_ConsenterId k = i"
    by (auto simp: detectSelfID_Ret_iff)
  have mem: "cs_Cert cs \<in> cst_ServerTlsCert ` set (cm_Consenters m)"
    using Ret detectSelfID_Err_iff [of "cs_Cert cs" "cm_Consenters m"] by auto
  from assms Ret obtain config c where cfg: "configFromMetadataOptions (cx_fabric X) i (cm_Options m) = Ret config"
    and c: "NewChain L X chainID i config support seeds = Ret c" and v: "v = SmartBFT c" "cs' = cs"
    by (auto simp: HandleChain_def go_bind_Ret_iff guard_Ret_iff)
  note n = NewChain_Ret [OF c]
  have id: "bc_SelfID c = i" using n(2) configFromMetadataOptions_Ret [OF cfg] by simp
  from n(4) have "rtc_inv (bc_RuntimeConfig c)" "rtc_id (bc_RuntimeConfig c) = i"
    using BlockCommitted_Ret(1,3) rtc_inv_initial by (blast, force simp: initial_rtc_def)
  with n id k mem v show ?thesis by (auto simp: rtc_inv_def)
next
  case (Err e)
  then have "cs_Cert cs \<notin> cst_ServerTlsCert ` set (cm_Consenters m)"
    using detectSelfID_Err_iff by blast
  with assms Err show ?thesis
    by (auto simp: HandleChain_def go_bind_Ret_iff guard_Ret_iff)
qed (simp add: detectSelfID_not_Panic)

theorem HandleChain_outcome_witness:
  "\<exists>v cs'. HandleChain
       (tx_libs\<lparr>dec_config_metadata := \<lambda>_. Some \<lparr>cm_Consenters = [], cm_Options = Some (sample_options 1)\<rparr>\<rparr>)
       sample_chain_env \<lparr>cs_Cert = [9], cs_Tracked = []\<rparr> ''c'' [] (Ret ()) (bc_support sample_chain) sample_state =
     Ret (v, cs') \<and> (\<exists>e. v = InactiveChain e) \<and> cs_Tracked cs' = [(''c'', Some sample_last)]"
proof -
  let ?m = "\<lparr>cm_Consenters = [], cm_Options = Some (sample_options 1)\<rparr>"
  let ?L = "tx_libs\<lparr>dec_config_metadata := \<lambda>_. Some ?m\<rparr>"
  obtain v cs' where run: "HandleChain ?L sample_chain_env \<lparr>cs_Cert = [9], cs_Tracked = []\<rparr> ''c'' []
      (Ret ()) (bc_support sample_chain) sample_state = Ret (v, cs')"
    by (simp add: HandleChain_def)
  from HandleChain_outcome [OF run, of ?m] run show ?thesis
    by (auto simp: sample_chain_def sample_writer_def support_ledger_def)
qed

end
