(* ===== verification/Node.thy ===== *)
theory Node
  imports Consenter Synchronizer
begin

text \<open>
  A running node: a chain started by \<open>NewChain\<close> that verifies proposals before they are
  delivered, takes requests, and catches up through the synchronizer.  Its ledger stays a
  hash chain and only grows.

  What is assumed of the ledger (\<open>orderer/common/blockledger\<close>) is that it refuses a block
  whose number is not its height.
\<close>

definition ordered_ledger :: "chain_env \<Rightarrow> bool" where
  "ordered_ledger X \<longleftrightarrow> (\<forall>bs b. be_Append (cx_writer X) bs b = Ret () \<longrightarrow>
     (\<exists>h. blk_Header b = Some h \<and> unat (hdr_Number h) = length bs))"

definition numbered :: "block list \<Rightarrow> bool" where
  "numbered bs \<longleftrightarrow> (\<forall>i < length bs. \<exists>h. blk_Header (bs ! i) = Some h \<and> unat (hdr_Number h) = i)"

lemma numbered_snoc:
  "numbered (bs @ [b]) \<longleftrightarrow>
     numbered bs \<and> (\<exists>h. blk_Header b = Some h \<and> unat (hdr_Number h) = length bs)"
  by (auto simp: numbered_def nth_append less_Suc_eq)

text \<open>
  The steps.  The library calls \<open>Deliver\<close> only with a proposal that the node's own verifier
  accepted, and not after it was stopped; a block the synchronizer's loop fetches is linked
  to the tip of the ledger, which is what the block puller checks of the batches it pulls.
\<close>

inductive node_step ::
  "libs \<Rightarrow> chain_env \<Rightarrow> (string \<Rightarrow> (signed_data list \<Rightarrow> unit go) option) \<Rightarrow> bft_chain \<Rightarrow> bft_chain \<Rightarrow> bool"
  for L X GetPolicy where
  deliver: "\<lbrakk>\<not> bc_halted c;
     VerifyProposal L (buildVerifier (cx_ConfigValidator X) (bc_RuntimeConfig c) (bc_support c) GetPolicy)
       order p = Ret infos;
     Deliver L X c p sigs = Ret (r, c')\<rbrakk> \<Longrightarrow> node_step L X GetPolicy c c'"
| pull: "\<lbrakk>linked L [last (bw_ledger (bc_support (sy_chain s))), b] 1;
     sync_iteration L X s b = Ret (b', s')\<rbrakk> \<Longrightarrow> node_step L X GetPolicy (sy_chain s) (sy_chain s')"
| order: "Order L X c env seq = Ret c' \<Longrightarrow> node_step L X GetPolicy c c'"
| configure: "Configure L X c env seq = Ret c' \<Longrightarrow> node_step L X GetPolicy c c'"
| message: "node_step L X GetPolicy c (chain_HandleMessage c sender m)"
| request: "node_step L X GetPolicy c (chain_HandleRequest c sender req)"
| start: "node_step L X GetPolicy c (Start X c)"
| halt: "node_step L X GetPolicy c (Halt c)"

text \<open>The runtime configuration of a node that is not halted is at the end of its ledger.\<close>

definition at_tip :: "libs \<Rightarrow> bft_chain \<Rightarrow> bool" where
  "at_tip L c \<longleftrightarrow> (\<exists>hash. block_Hash L (last (bw_ledger (bc_support c))) = Ret hash \<and>
     rtc_LastBlock (bc_RuntimeConfig c) = Some (last (bw_ledger (bc_support c))) \<and>
     rtc_LastCommittedBlockHash (bc_RuntimeConfig c) = hex_encode hash)"

definition node_inv :: "libs \<Rightarrow> block list \<Rightarrow> bft_chain \<Rightarrow> bool" where
  "node_inv L start c \<longleftrightarrow>
     chained L (bw_ledger (bc_support c)) \<and> numbered (bw_ledger (bc_support c)) \<and>
     bw_ledger (bc_support c) \<noteq> [] \<and> (\<exists>new. bw_ledger (bc_support c) = start @ new) \<and>
     (\<not> bc_halted c \<longrightarrow> at_tip L c)"

lemma node_inv_cong:
  assumes "bc_support c' = bc_support c" "bc_RuntimeConfig c' = bc_RuntimeConfig c"
    and "bc_halted c \<longrightarrow> bc_halted c'" and "node_inv L start c"
  shows "node_inv L start c'"
  using assms by (simp add: node_inv_def at_tip_def) blast

text \<open>An appended block continues the chain when it points to the tip and has the right hash.\<close>

lemma linked_append:
  assumes "numbered (bs @ [w])" and "bs \<noteq> []"
    and "blk_Header w = Some h" and "blk_Data w = Some d" and "hdr_DataHash h = data_Hash L d"
    and "block_Hash L (last bs) = Ret (hdr_PreviousHash h)"
  shows "linked L (bs @ [w]) (length bs)"
proof -
  let ?n = "length bs - 1"
  have pos: "0 < length bs" using assms(2) by simp
  then have "?n < length bs" by simp
  moreover have "numbered bs" using assms(1) by (simp add: numbered_snoc)
  ultimately obtain ph where ph: "blk_Header (bs ! ?n) = Some ph" "unat (hdr_Number ph) = ?n"
    unfolding numbered_def by blast
  have "unat (hdr_Number h) = length bs" using assms(1,3) by (auto simp: numbered_snoc)
  then have h: "unat (hdr_Number h) = unat (hdr_Number ph) + 1" using ph(2) pos by simp
  then have "unat (hdr_Number ph) + 1 < 2 ^ 64"
    using unsigned_less [of "hdr_Number h", where ?'a = nat] by simp
  then have "unat (hdr_Number h) = unat (hdr_Number ph + 1)" using h unat_Suc by simp
  then have "hdr_Number h = hdr_Number ph + 1" by (simp only: word_unat_eq_iff)
  moreover have "header_Hash L ph = Ret (hdr_PreviousHash h)"
    using assms(2,6) ph(1) by (simp add: block_Hash_def last_conv_nth)
  ultimately show ?thesis
    using assms(2-5) ph(1) by (simp add: linked_def nth_append)
qed

lemma VerifyProposal_header:
  assumes "VerifyProposal L V order p = Ret infos" and "ProposalToBlock L p = Ret b"
  obtains h d where "blk_Header b = Some h" "blk_Data b = Some d" "hdr_DataHash h = data_Hash L d"
    "hex_encode (hdr_PreviousHash h) = rtc_LastCommittedBlockHash (v_RuntimeConfig V)"
  using assms unfolding VerifyProposal_def verifyHashChain_def
  by (auto simp: go_simps guard_Ret_iff intro: that)

lemma deliver_inv:
  assumes "node_inv L start c" and "ordered_ledger X" and "\<not> bc_halted c"
    and v: "VerifyProposal L V order p = Ret infos" "v_RuntimeConfig V = bc_RuntimeConfig c"
    and d: "Deliver L X c p sigs = Ret (r, c')"
  shows "node_inv L start c'"
proof (cases "\<forall>s \<in> set sigs. is_ok (sig_Unmarshal (bsig_Msg s))")
  case False
  with Deliver_halts [OF d] have "c' = Halt c" by simp
  with assms(1) show ?thesis by (intro node_inv_cong [of c' c]) (simp_all add: Halt_def)
next
  case True
  from Deliver_writes [OF d True] obtain b w where b: "ProposalToBlock L p = Ret b" "same_content b w"
    and ldg: "bw_ledger (bc_support c') = bw_ledger (bc_support c) @ [w]"
    and app: "be_Append (cx_writer X) (bw_ledger (bc_support c)) w = Ret ()"
    and out: "commit_outcome L X c w r c'"
    by blast
  obtain h dt where h: "blk_Header b = Some h" "blk_Data b = Some dt" "hdr_DataHash h = data_Hash L dt"
    "hex_encode (hdr_PreviousHash h) = rtc_LastCommittedBlockHash (bc_RuntimeConfig c)"
    using VerifyProposal_header [OF v(1) b(1)] v(2) by metis
  then have w: "blk_Header w = Some h" "blk_Data w = Some dt" using b(2) by (simp_all add: same_content_def)
  let ?bs = "bw_ledger (bc_support c)"
  from assms(1) have old: "chained L ?bs" "numbered ?bs" "?bs \<noteq> []" "at_tip L c"
    using assms(3) by (auto simp: node_inv_def)
  have num: "numbered (?bs @ [w])" using old(2) app assms(2) by (simp add: numbered_snoc ordered_ledger_def)
  have "block_Hash L (last ?bs) = Ret (hdr_PreviousHash h)" using old(4) h(4) by (auto simp: at_tip_def)
  from linked_append [OF num old(3) w h(3) this] have "chained L (?bs @ [w])"
    using old(1) by (simp add: chained_snoc)
  moreover have "at_tip L c'" if "\<not> bc_halted c'"
  proof -
    from out that obtain rtc where "BlockCommitted L (cx_fabric X) (bc_RuntimeConfig c) w = Ret rtc"
      "bc_RuntimeConfig c' = rtc" by (auto simp: commit_outcome_def split: go.splits)
    then show ?thesis using BlockCommitted_Ret(2,5) ldg by (fastforce simp: at_tip_def)
  qed
  ultimately show ?thesis using num ldg assms(1) by (auto simp: node_inv_def)
qed

lemma commit_at_tip:
  assumes "commit_outcome L X c w r c'" and "\<not> bc_halted c'"
    and "bw_ledger (bc_support c') = bs @ [w]"
  shows "at_tip L c'"
proof -
  from assms(1,2) obtain rtc where "BlockCommitted L (cx_fabric X) (bc_RuntimeConfig c) w = Ret rtc"
    "bc_RuntimeConfig c' = rtc" by (auto simp: commit_outcome_def split: go.splits)
  then show ?thesis using BlockCommitted_Ret(2,5) assms(3) by (fastforce simp: at_tip_def)
qed

lemma pull_inv:
  assumes "node_inv L start (sy_chain s)" and "ordered_ledger X"
    and "linked L [last (bw_ledger (bc_support (sy_chain s))), b] 1"
    and "sync_iteration L X s b = Ret (b', s')"
  shows "node_inv L start (sy_chain s')"
proof -
  let ?bs = "bw_ledger (bc_support (sy_chain s))"
  from assms(4) obtain w r where
    w: "write_any L (cx_writer X) (bc_support (sy_chain s)) b = Ret (b', w)"
    and u: "updateRuntimeConfig L X ((sy_chain s)\<lparr>bc_support := w\<rparr>) b' = Ret (r, sy_chain s')"
    by (rule sync_iteration_Ret) auto
  note wr = write_any_Ret [OF w] and up = updateRuntimeConfig_Ret [OF u]
  have ldg: "bw_ledger (bc_support (sy_chain s')) = ?bs @ [b']" using wr(2) up by simp
  from assms(1) have old: "chained L ?bs" "numbered ?bs" "?bs \<noteq> []" by (auto simp: node_inv_def)
  have "numbered (?bs @ [b'])" using old(2) wr(5) assms(2) by (simp add: numbered_snoc ordered_ledger_def)
  moreover have "chained L (?bs @ [b'])"
    using old(1) linked_snoc [OF wr(1) old(3)] assms(3) by (simp add: chained_snoc)
  moreover have "at_tip L (sy_chain s')" if "\<not> bc_halted (sy_chain s')"
    using commit_at_tip [OF conjunct2 [OF up] that ldg] .
  ultimately show ?thesis using ldg assms(1) by (auto simp: node_inv_def)
qed

lemma submit_keeps:
  assumes "submit L c env = Ret c'"
  shows "bc_support c' = bc_support c" "bc_RuntimeConfig c' = bc_RuntimeConfig c" "bc_halted c' = bc_halted c"
  using assms by (auto simp: submit_def go_simps)

lemma node_step_inv:
  assumes "node_inv L start c" and "ordered_ledger X" and "node_step L X GetPolicy c c'"
  shows "node_inv L start c'"
  using assms(3,1)
proof cases
  case (deliver order p infos sigs r)
  show ?thesis
    by (rule deliver_inv [OF assms(1,2) deliver(1,2) _ deliver(3)]) (simp add: buildVerifier_def)
next
  case (pull s b b' s')
  with assms(1,2) show ?thesis using pull_inv by blast
next
  case (order env seq)
  then have "submit L c env = Ret c'" by (auto simp: Order_def Let_def go_simps)
  from submit_keeps [OF this] assms(1) show ?thesis by (intro node_inv_cong [of c' c]) simp_all
next
  case (configure env seq)
  then obtain env' where "submit L c env' = Ret c'" by (auto simp: Configure_def Let_def go_simps)
  from submit_keeps [OF this] assms(1) show ?thesis by (intro node_inv_cong [of c' c]) simp_all
qed (use assms(1) in \<open>auto intro!: node_inv_cong [of _ c] simp: chain_HandleMessage_def
  chain_HandleRequest_def Start_def reportIsLeader_def Halt_def\<close>)

subsection \<open>A node from its start\<close>

lemma last_block_of_ledger:
  assumes "LastBlockFromLedgerOrPanic (support_ledger w) = Ret b" and "numbered (bw_ledger w)"
    and "bw_ledger w \<noteq> []"
  shows "b = last (bw_ledger w)"
proof -
  let ?n = "length (bw_ledger w)"
  from assms(3) have "?n - 1 < ?n" by simp
  with assms(2) obtain h where "unat (hdr_Number (h :: block_header)) = ?n - 1" unfolding numbered_def by blast
  then have "?n - 1 < 2 ^ 64" using unsigned_less [of "hdr_Number h", where ?'a = nat] by simp
  then have "unat (of_nat (?n - 1) :: u64) = ?n - 1" by (simp add: unsigned_of_nat take_bit_nat_eq_self)
  moreover have "(of_nat ?n - 1 :: u64) = of_nat (?n - 1)" using assms(3) by (simp add: of_nat_diff Suc_leI)
  ultimately have "unat (of_nat ?n - 1 :: u64) = ?n - 1" by simp
  with assms(1,3) show ?thesis
    by (auto simp: LastBlockFromLedgerOrPanic_def support_ledger_def last_conv_nth split: if_splits)
qed

definition node_init ::
  "libs \<Rightarrow> chain_env \<Rightarrow> block_writer \<Rightarrow> bft_chain \<Rightarrow> bool" where
  "node_init L X support c \<longleftrightarrow>
     ordered_ledger X \<and> chained L (bw_ledger support) \<and> numbered (bw_ledger support) \<and>
     bw_ledger support \<noteq> [] \<and>
     (\<exists>channel selfID config seeds. NewChain L X channel selfID config support seeds = Ret c)"

lemma node_init_inv:
  assumes "node_init L X support c"
  shows "ordered_ledger X \<and> node_inv L (bw_ledger support) c"
proof -
  from assms obtain channel selfID config seeds where
    c: "NewChain L X channel selfID config support seeds = Ret c" and l: "chained L (bw_ledger support)"
      "numbered (bw_ledger support)" "bw_ledger support \<noteq> []" "ordered_ledger X"
    by (auto simp: node_init_def)
  note n = NewChain_Ret [OF c]
  from n(4) obtain b rtc1 where b: "LastBlockFromLedgerOrPanic (support_ledger support) = Ret b"
      "BlockCommitted L (cx_fabric X) rtc1 b = Ret (bc_RuntimeConfig c)"
    by blast
  have "b = last (bw_ledger support)" by (rule last_block_of_ledger [OF b(1) l(2,3)])
  with BlockCommitted_Ret(2,5) [OF b(2)] n(1) have "at_tip L c" by (auto simp: at_tip_def)
  with l n(1) show ?thesis by (simp add: node_inv_def)
qed

interpretation node: transition_system "node_init L X support" "node_step L X GetPolicy"
  "\<lambda>c. ordered_ledger X \<and> node_inv L (bw_ledger support) c" for L X support GetPolicy
  by unfold_locales (auto dest: node_init_inv intro: node_step_inv)


subsection \<open>Two nodes\<close>

lemma chained_take: "chained L bs \<Longrightarrow> chained L (take n bs)"
proof -
  have "linked L (take n bs) i = linked L bs i" if "i < n" for i
    using that by (cases i) (auto simp: linked_def split: option.splits)
  then show "chained L bs \<Longrightarrow> chained L (take n bs)" by (auto simp: chained_def)
qed


subsection \<open>Restart\<close>

lemma BlockCommitted_config:
  assumes "config_of L b \<noteq> None" and "rtc_id r = rtc_id r'"
  shows "BlockCommitted L E r b = BlockCommitted L E r' b"
  using assms
  by (auto simp: config_of_def BlockCommitted_def configBlockCommitted_def split: go.splits)

lemma BlockCommitted_twice:
  assumes "config_of L a = None" and "config_of L b = None"
    and "BlockCommitted L E r a = Ret r1" and "BlockCommitted L E r1 b = Ret r2"
  shows "BlockCommitted L E r b = Ret r2"
  using assms by (auto simp: config_of_def BlockCommitted_def go_simps split: go.splits)

lemma commits_without_config:
  assumes "go_fold (BlockCommitted L E) r bs = Ret r'" and "bs \<noteq> []" and "\<forall>b \<in> set bs. config_of L b = None"
  shows "BlockCommitted L E r (last bs) = Ret r'"
  using assms
proof (induction bs arbitrary: r)
  case Nil
  then show ?case by simp
next
  case (Cons a bs)
  then obtain t where t: "BlockCommitted L E r a = Ret t" "go_fold (BlockCommitted L E) t bs = Ret r'"
    by (auto simp: go_simps)
  show ?case
  proof (cases "bs = []")
    case True
    with t show ?thesis by simp
  next
    case False
    with Cons.IH [OF t(2)] Cons.prems(3) have "BlockCommitted L E t (last bs) = Ret r'" by simp
    with False Cons.prems(3) BlockCommitted_twice [OF _ _ t(1)] show ?thesis by simp
  qed
qed

text \<open>The runtime configuration after a ledger is determined by its last configuration block and
  its last block.\<close>

lemma replay_last_two:
  assumes "go_fold (BlockCommitted L E) (initial_rtc i) (pre @ cb # post) = Ret rtc"
    and "config_of L cb \<noteq> None" and "\<forall>b \<in> set post. config_of L b = None"
  shows "\<exists>rtc1. BlockCommitted L E (initial_rtc i) cb = Ret rtc1 \<and>
    BlockCommitted L E rtc1 (last (cb # post)) = Ret rtc"
proof -
  from assms(1) obtain t rtc1 where t: "go_fold (BlockCommitted L E) (initial_rtc i) pre = Ret t"
    and r1: "BlockCommitted L E t cb = Ret rtc1" and post: "go_fold (BlockCommitted L E) rtc1 post = Ret rtc"
    by (auto simp: go_fold_append go_simps)
  have "rtc_id t = rtc_id (initial_rtc i)" using rtc.commits_id [OF t] .
  from BlockCommitted_config [OF assms(2) this] r1 have r1': "BlockCommitted L E (initial_rtc i) cb = Ret rtc1"
    by simp
  show ?thesis
  proof (cases "post = []")
    case True
    have "BlockCommitted L E rtc1 cb = BlockCommitted L E t cb"
      by (rule BlockCommitted_config [OF assms(2) BlockCommitted_Ret(3) [OF r1]])
    with True r1 r1' post show ?thesis by simp
  next
    case False
    with commits_without_config [OF post False assms(3)] r1' show ?thesis by simp
  qed
qed

text \<open>
  C14: Restarting a node loses nothing.  \<open>NewChain\<close> rebuilds the runtime configuration from two
  blocks only, the last one and the configuration block its metadata names; the result is
  the one obtained by committing every block of the ledger in turn from the beginning, if
  the metadata names the last configuration block of the ledger (which the block writer
  keeps true).
\<close>

theorem restart_recovers_runtime_config:
  assumes "NewChain L X channel selfID config support seeds = Ret c"
    and "bw_ledger support = pre @ cb # post" and "numbered (bw_ledger support)"
    and "config_of L cb \<noteq> None" and "\<forall>b \<in> set post. config_of L b = None"
    and "GetLastConfigIndexFromBlock L (last (cb # post)) = Ret (of_nat (length pre))"
    and "go_fold (BlockCommitted L (cx_fabric X)) (initial_rtc selfID) (bw_ledger support) = Ret rtc"
  shows "bc_RuntimeConfig c = rtc"
proof -
  from NewChain_Ret(4) [OF assms(1)] obtain lb cb' rtc1 where
    lb: "LastBlockFromLedgerOrPanic (support_ledger support) = Ret lb"
    and cb': "LastConfigBlockFromLedgerOrPanic L (support_ledger support) = Ret cb'"
    and r: "BlockCommitted L (cx_fabric X) (initial_rtc selfID) cb' = Ret rtc1"
      "BlockCommitted L (cx_fabric X) rtc1 lb = Ret (bc_RuntimeConfig c)"
    by blast
  have last: "lb = last (cb # post)"
    using last_block_of_ledger [OF lb assms(3)] assms(2) by simp
  have "length pre < length (bw_ledger support)" using assms(2) by simp
  with assms(3) obtain h where "unat (hdr_Number (h :: block_header)) = length pre" unfolding numbered_def by blast
  then have "length pre < 2 ^ 64" using unsigned_less [of "hdr_Number h", where ?'a = nat] by simp
  then have u: "unat (of_nat (length pre) :: u64) = length pre"
    by (simp add: unsigned_of_nat take_bit_nat_eq_self)
  have "cb' = cb"
    using cb' lb assms(6) last u assms(2)
    by (auto simp: LastConfigBlockFromLedgerOrPanic_def lastConfigBlockFromLedger_def Let_def
        LastBlockFromLedgerOrPanic_def LastConfigBlock_def go_simps guard_Ret_iff support_ledger_def
        nth_append split: option.splits if_splits)
  with replay_last_two [of L "cx_fabric X" selfID pre cb post rtc] assms(2,4,5,7) r last
  show ?thesis by auto
qed

subsection \<open>The number of a proposed block\<close>

lemma ProposalToBlock_renumber:
  assumes "ProposalToBlock L p = Ret b" and "blk_Header b = Some h"
    and "header_Bytes (h\<lparr>hdr_Number := n\<rparr>) = Ret hb"
    and "length (hdr_PreviousHash h) + length (hdr_DataHash h) + 40 < 2 ^ 31"
  shows "ProposalToBlock L (p\<lparr>prop_Header := hb\<rparr>) = Ret (b\<lparr>blk_Header := Some (h\<lparr>hdr_Number := n\<rparr>)\<rparr>)"
proof -
  have "asn1Header_Unmarshal hb = Some (int (unat n), hdr_PreviousHash h, hdr_DataHash h)"
    using asn1Header_Unmarshal_Bytes [OF assms(3)] assms(4) by simp
  moreover have "hb \<noteq> []" using assms(3) by (metis header_Bytes_Ret_iff der_sequence_nonempty(1))
  ultimately show ?thesis
    using assms(1,2) unfolding ProposalToBlock_def go_bind_Ret_iff guard_Ret_iff
    by (auto simp: go_simps guard_Ret_iff)
qed

lemma VerifyProposal_renumber:
  assumes "VerifyProposal L V order p = Ret infos" and "ProposalToBlock L p = Ret b"
    and "ProposalToBlock L (p\<lparr>prop_Header := hb\<rparr>) = Ret (b\<lparr>blk_Header := Some (h\<lparr>hdr_Number := n\<rparr>)\<rparr>)"
    and "blk_Header b = Some h" and "\<not> isConfigBlock L b"
  shows "VerifyProposal L V order (p\<lparr>prop_Header := hb\<rparr>) = Ret infos"
proof -
  let ?b = "b\<lparr>blk_Header := Some (h\<lparr>hdr_Number := n\<rparr>)\<rparr>"
  have "verifyHashChain L ?b x = verifyHashChain L b x" for x
    using assms(4) by (simp add: verifyHashChain_def)
  moreover have "\<not> isConfigBlock L ?b" using assms(5) by (simp add: isConfigBlock_def)
  then have "last_config_number L V ?b = last_config_number L V b"
    using assms(5) by (simp add: last_config_number_def)
  then have "verifyBlockDataAndMetadata L V order ?b md = Ret infos \<longleftrightarrow>
      verifyBlockDataAndMetadata L V order b md = Ret infos" for md
    by (simp add: verifyBlockDataAndMetadata_Ret_iff)
  ultimately show ?thesis
    using assms(1,2) by (auto simp: VerifyProposal_def assms(3) go_simps guard_Ret_iff)
qed

lemma Deliver_not_Err: "Deliver L X c p sigs \<noteq> Err e"
  unfolding Deliver_def Let_def
  by (auto simp: go_bind_Err_iff set_metadata_not_Err write_any_not_Err updateRuntimeConfig_not_Err
      split: option.splits prod.splits)

text \<open>
  C20: The verifier does not look at the number of a proposed block.  A proposal of normal
  transactions that is accepted stays accepted when its header is given any other number
  below \<open>2 ^ 63\<close>; delivering it then panics, since the ledger refuses the block, so a leader
  that proposes a misnumbered block brings down every node that follows the protocol.
\<close>

theorem misnumbered_proposal_accepted:
  assumes "VerifyProposal L V order p = Ret infos" and "ProposalToBlock L p = Ret b"
    and "blk_Header b = Some h" and "\<not> isConfigBlock L b"
    and "header_Bytes (h\<lparr>hdr_Number := n\<rparr>) = Ret hb"
    and "length (hdr_PreviousHash h) + length (hdr_DataHash h) + 40 < 2 ^ 31"
    and "ordered_ledger X" and "unat n \<noteq> length (bw_ledger (bc_support c))"
    and "\<forall>s \<in> set sigs. is_ok (sig_Unmarshal (bsig_Msg s))"
  shows "VerifyProposal L V order (p\<lparr>prop_Header := hb\<rparr>) = Ret infos \<and>
    (\<exists>msg. Deliver L X c (p\<lparr>prop_Header := hb\<rparr>) sigs = Panic msg)"
proof -
  note re = ProposalToBlock_renumber [OF assms(2,3,5,6)]
  have "Deliver L X c (p\<lparr>prop_Header := hb\<rparr>) sigs \<noteq> Ret (r, c')" for r c'
  proof
    assume d: "Deliver L X c (p\<lparr>prop_Header := hb\<rparr>) sigs = Ret (r, c')"
    from Deliver_writes [OF d assms(9)] re obtain w where "same_content (b\<lparr>blk_Header := Some (h\<lparr>hdr_Number := n\<rparr>)\<rparr>) w"
      "be_Append (cx_writer X) (bw_ledger (bc_support c)) w = Ret ()" by auto
    with assms(7,8) show False by (fastforce simp: ordered_ledger_def same_content_def)
  qed
  then have "\<exists>msg. Deliver L X c (p\<lparr>prop_Header := hb\<rparr>) sigs = Panic msg"
    using Deliver_not_Err [of L X c "p\<lparr>prop_Header := hb\<rparr>" sigs]
    by (cases "Deliver L X c (p\<lparr>prop_Header := hb\<rparr>) sigs") auto
  with VerifyProposal_renumber [OF assms(1,2) re assms(3,4)] show ?thesis by simp
qed

subsection \<open>A sample node\<close>

definition cfg_libs :: libs where
  "cfg_libs = tx_libs
     \<lparr>dec_config_envelope := (\<lambda>_. Some \<lparr>ce_Config = None, ce_LastUpdate = None\<rparr>),
      dec_config_metadata := (\<lambda>_. Some \<lparr>cm_Consenters = [], cm_Options = Some (sample_options 1)\<rparr>)\<rparr>"

definition node_env :: chain_env where
  "node_env = sample_chain_env
     \<lparr>cx_fabric := sample_env\<lparr>fe_OrdererConfig := \<lambda>_. Ret (Some (''smartbft'', []))\<rparr>,
      cx_writer := sample_bw_env\<lparr>be_Append := \<lambda>bs b. case blk_Header b of
         Some h \<Rightarrow> if unat (hdr_Number h) = length bs then Ret () else Err (External ''ledger'')
       | None \<Rightarrow> Err (External ''ledger'')\<rparr>\<rparr>"

definition genesis :: block where
  "genesis = \<lparr>blk_Header = Some \<lparr>hdr_Number = 0, hdr_PreviousHash = [], hdr_DataHash = tx_bytes 1\<rparr>,
     blk_Data = Some [tx_bytes 1], blk_Metadata = Some [[], put_md (put_u64 0, []), [], [], []]\<rparr>"

definition genesis_writer :: block_writer where
  "genesis_writer = sample_writer\<lparr>bw_lastBlock := genesis, bw_ledger := [genesis]\<rparr>"

lemma ordered_node_env: "ordered_ledger node_env"
  by (auto simp: ordered_ledger_def node_env_def split: option.splits if_splits)

lemma genesis_ok: "chained cfg_libs [genesis]" "numbered [genesis]" "config_of cfg_libs genesis \<noteq> None"
  by (simp_all add: chained_def linked_def numbered_def genesis_def data_Hash_def data_Bytes_def
      ConcatenateBytes_def cfg_libs_def config_of_def ConfigFromBlock_def unmarshal_defs)

lemma genesis_committed:
  assumes "rtc_id r = 1"
  shows "\<exists>rtc. BlockCommitted cfg_libs (cx_fabric node_env) r genesis = Ret rtc"
proof -
  have "\<exists>cf. configFromMetadataOptions (cx_fabric node_env) 1 (Some (sample_options 1)) = Ret cf"
    by (simp add: configFromMetadataOptions_def parse_duration_option_def node_env_def sample_env_def
        sample_options_def Validate_def DefaultConfig_def Let_def)
  moreover have "fe_OrdererConfig (cx_fabric node_env) = (\<lambda>_. Ret (Some (''smartbft'', [])))"
    by (simp add: node_env_def)
  ultimately show ?thesis
    using assms by (auto simp: BlockCommitted_def ConfigFromBlock_def genesis_def cfg_libs_def unmarshal_defs
        configBlockCommitted_def RemoteNodesFromConfigBlock_def configBlockToBFTConfig_def block_Hash_def
        header_Hash_def header_Bytes_def)
qed

lemma sample_node:
  "\<exists>c. NewChain cfg_libs node_env ''c'' 1 DefaultConfig genesis_writer sample_state = Ret c"
proof -
  obtain rtc1 where r1: "BlockCommitted cfg_libs (cx_fabric node_env) (initial_rtc 1) genesis = Ret rtc1"
    using genesis_committed [of "initial_rtc 1"] by (auto simp: initial_rtc_def)
  then have "rtc_id rtc1 = 1" using BlockCommitted_Ret(3) by (fastforce simp: initial_rtc_def)
  then obtain rtc where r2: "BlockCommitted cfg_libs (cx_fabric node_env) rtc1 genesis = Ret rtc"
    using genesis_committed by blast
  have ldg: "LastBlockFromLedgerOrPanic (support_ledger genesis_writer) = Ret genesis"
    "LastConfigBlockFromLedgerOrPanic cfg_libs (support_ledger genesis_writer) = Ret genesis"
    by (simp_all add: LastBlockFromLedgerOrPanic_def LastConfigBlockFromLedgerOrPanic_def
        lastConfigBlockFromLedger_def LastConfigBlock_def support_ledger_def genesis_writer_def Let_def
        GetLastConfigIndexFromBlock_def GetMetadataFromBlock_def genesis_def cfg_libs_def)
  have "\<exists>d. blockToDecision cfg_libs node_env c genesis = Ret d" for c
    by (simp add: blockToDecision_def blockToProposalWithoutSignaturesInMetadata_def genesis_def
        cfg_libs_def header_Bytes_def Let_def split: option.splits)
  then obtain d where d: "blockToDecision cfg_libs node_env c genesis = Ret (d c)" for c by metis
  have env: "cx_ValidateConfiguration node_env = (\<lambda>_. Ret ())"
    by (simp add: node_env_def sample_chain_env_def)
  have rtc: "rtc_LastBlock rtc = Some genesis" by (rule BlockCommitted_Ret(2) [OF r2])
  have vm: "getViewMetadataFromBlock cfg_libs genesis = Ret empty_view_metadata"
    by (simp add: getViewMetadataFromBlock_def genesis_def)
  have hdr: "blk_Header genesis = Some \<lparr>hdr_Number = 0, hdr_PreviousHash = [], hdr_DataHash = tx_bytes 1\<rparr>"
    by (simp add: genesis_def)
  show ?thesis
    by (simp add: NewChain_def ldg r1 r2 bftSmartConsensusBuild_def initial_chain_def
        lastPersistedProposalAndSignatures_def d env rtc vm hdr Let_def)
qed

lemma sample_node_run:
  obtains c where "node_init cfg_libs node_env genesis_writer c"
    "node_step cfg_libs node_env GetPolicy c (chain_HandleRequest c 2 [1])"
    "NewChain cfg_libs node_env ''c'' 1 DefaultConfig genesis_writer sample_state = Ret c"
    "bw_ledger (bc_support c) = [genesis]"
proof -
  obtain c where c: "NewChain cfg_libs node_env ''c'' 1 DefaultConfig genesis_writer sample_state = Ret c"
    using sample_node by blast
  moreover have "bw_ledger genesis_writer = [genesis]" by (simp add: genesis_writer_def)
  ultimately have "node_init cfg_libs node_env genesis_writer c"
    using ordered_node_env genesis_ok(1,2) by (auto simp: node_init_def)
  with c that node_step.request NewChain_Ret(1) [OF c] \<open>bw_ledger genesis_writer = [genesis]\<close>
  show thesis by metis
qed



theorem restart_recovers_runtime_config_witness:
  "\<exists>c rtc. NewChain cfg_libs node_env ''c'' 1 DefaultConfig genesis_writer sample_state = Ret c \<and>
     go_fold (BlockCommitted cfg_libs (cx_fabric node_env)) (initial_rtc 1) [genesis] = Ret rtc \<and>
     bc_RuntimeConfig c = rtc"
proof -
  obtain c where c: "NewChain cfg_libs node_env ''c'' 1 DefaultConfig genesis_writer sample_state = Ret c"
    using sample_node by blast
  obtain rtc where rtc: "BlockCommitted cfg_libs (cx_fabric node_env) (initial_rtc 1) genesis = Ret rtc"
    using genesis_committed [of "initial_rtc 1"] by (auto simp: initial_rtc_def)
  have idx: "GetLastConfigIndexFromBlock cfg_libs (last [genesis]) = Ret (of_nat (length ([] :: block list)))"
    by (simp add: GetLastConfigIndexFromBlock_def GetMetadataFromBlock_def genesis_def cfg_libs_def)
  have "bc_RuntimeConfig c = rtc"
    by (rule restart_recovers_runtime_config [OF c, of "[]" genesis "[]"])
      (use idx rtc genesis_ok(2,3) in \<open>simp_all add: genesis_writer_def\<close>)
  with c rtc show ?thesis by simp
qed

theorem misnumbered_proposal_accepted_witness:
  "\<exists>p hb infos. VerifyProposal tx_libs sample_verifier [1, 0] p = Ret infos \<and>
     VerifyProposal tx_libs sample_verifier [1, 0] (p\<lparr>prop_Header := hb\<rparr>) = Ret infos \<and>
     (\<exists>msg. Deliver tx_libs node_env sample_chain (p\<lparr>prop_Header := hb\<rparr>) [] = Panic msg)"
proof -
  obtain p where p: "AssembleProposal tx_libs sample_rtc 9 [5] [tx_bytes 3, tx_bytes 3] = Ret p" "fits p"
    using sample_proposal by blast
  obtain infos where acc: "VerifyProposal tx_libs sample_verifier [1, 0] p = Ret infos"
    using sample_proposal_accepted [OF p] by blast
  obtain h mds where b: "ProposalToBlock tx_libs p =
      Ret \<lparr>blk_Header = Some h, blk_Data = Some [tx_bytes 3, tx_bytes 3], blk_Metadata = Some mds\<rparr>"
    and hb: "header_Bytes h = Ret (prop_Header p)"
    by (rule AssembleProposal_block [OF lossless_tx_libs p]) (use sample_batch in auto)
  obtain hb' where hb': "header_Bytes (h\<lparr>hdr_Number := 77\<rparr>) = Ret hb'"
    by (simp add: header_Bytes_def)
  have "length (hdr_PreviousHash h) + length (hdr_DataHash h) + 40 < 2 ^ 31"
    using length_header_ge [OF hb] p(2) by (simp add: fits_def)
  from misnumbered_proposal_accepted [OF acc b _ _ hb' this ordered_node_env, of sample_chain "[]"] acc
  show ?thesis by (auto simp: isConfigBlock_def sample_chain_def sample_writer_def)
qed

end
