(* ===== verification/Rlp.thy ===== *)
theory Rlp
  imports Prelude
begin

text \<open>
  RLP, the serialisation of Ethereum headers and messages (\<open>geth_fuzz/rlp\<close>):
  \<open>encode.go\<close>, the encoder with its two-part buffer, and \<open>raw.go\<close>, the functions that
  take encoded values apart.

  The encoder is driven by reflection: the writer of a value is chosen by its Go type.
  Here a value carries its type as the constructor of \<open>rval\<close>, one constructor for each
  writer of \<open>encode.go\<close>, and \<open>rlp_write\<close> is the writer.  Types with an \<open>EncodeRLP\<close> method
  of their own are not modelled.  The lengths and offsets of the buffer, Go \<open>int\<close>s that
  count bytes in memory, are natural numbers and integers without a bound; the sizes that
  are encoded are 64-bit words, as in the code.

  The lemmas lead to two results.  \<open>EncodeToBytes\<close>, which collects string data and list
  headers separately and weaves them together at the end, computes the recursive
  definition \<open>rlp_enc\<close> of the format.  \<open>Split\<close> takes from an encoded value followed by
  other bytes exactly the value's content, and the functions built on it agree.
\<close>

unbundle bit_operations_syntax

subsection \<open>Errors and kinds\<close>

definition ErrExpectedString :: error where
  "ErrExpectedString = Errorf ''rlp: expected String or Byte''"

definition ErrExpectedList :: error where
  "ErrExpectedList = Errorf ''rlp: expected List''"

definition ErrCanonInt :: error where
  "ErrCanonInt = Errorf ''rlp: non-canonical integer format''"

definition ErrCanonSize :: error where
  "ErrCanonSize = Errorf ''rlp: non-canonical size information''"

definition ErrValueTooLarge :: error where
  "ErrValueTooLarge = Errorf ''rlp: value size exceeds available input length''"

definition errUintOverflow :: error where
  "errUintOverflow = Errorf ''rlp: uint overflow''"

definition ErrUnexpectedEOF :: error where
  "ErrUnexpectedEOF = External ''unexpected EOF''"

datatype kind = Byte | String | List

subsection \<open>Integers (\<open>putint\<close>, \<open>intsize\<close>, \<open>headsize\<close>, \<open>puthead\<close>)\<close>

text \<open>The \<open>k\<close> low bytes of a word, \<open>byte(i >> 8*(k-1)), ..., byte(i >> 8), byte(i)\<close>.\<close>

primrec low_bytes :: "nat \<Rightarrow> u64 \<Rightarrow> bytes" where
  "low_bytes 0 i = []"
| "low_bytes (Suc k) i = ucast (drop_bit (8 * k) i) # low_bytes k i"

text \<open>
  \<open>putint\<close> writes into a buffer and returns the number of bytes written; here it returns
  the bytes.
\<close>

definition putint :: "u64 \<Rightarrow> bytes" where
  "putint i =
     (if i < push_bit 8 1 then low_bytes 1 i
      else if i < push_bit 16 1 then low_bytes 2 i
      else if i < push_bit 24 1 then low_bytes 3 i
      else if i < push_bit 32 1 then low_bytes 4 i
      else if i < push_bit 40 1 then low_bytes 5 i
      else if i < push_bit 48 1 then low_bytes 6 i
      else if i < push_bit 56 1 then low_bytes 7 i
      else low_bytes 8 i)"

function intsize :: "u64 \<Rightarrow> nat" where
  "intsize i = (let j = drop_bit 8 i in if j = 0 then 1 else Suc (intsize j))"
  by auto

lemma unat_drop_bit: fixes i :: u64 shows "unat (drop_bit n i) = unat i div 2 ^ n"
proof -
  have "unat (drop_bit n i) = drop_bit n (unat i)"
    by (rule unat_drop_bit_eq)
  then show ?thesis by (simp add: drop_bit_eq_div)
qed

termination intsize
proof (relation "measure unat")
  fix i j :: u64
  assume "j = drop_bit 8 i" "j \<noteq> 0"
  then have "unat j = unat i div 256" "0 < unat j"
    using unat_drop_bit [of 8 i] by (simp, metis unat_gt_0)
  then show "(j, i) \<in> measure unat" by simp
qed simp

declare intsize.simps [simp del]

definition headsize :: "u64 \<Rightarrow> nat" where
  "headsize sz = (if sz < 56 then 1 else 1 + intsize sz)"

definition puthead :: "u8 \<Rightarrow> u8 \<Rightarrow> u64 \<Rightarrow> bytes" where
  "puthead smalltag largetag sz =
     (if sz < 56 then [smalltag + ucast sz]
      else (largetag + of_nat (length (putint sz))) # putint sz)"

definition ListSize :: "u64 \<Rightarrow> u64" where
  "ListSize contentSize = of_nat (headsize contentSize) + contentSize"

definition IntSize :: "u64 \<Rightarrow> nat" where
  "IntSize x = (if x < 0x80 then 1 else 1 + intsize x)"

subsection \<open>Values\<close>

text \<open>
  One constructor for each writer.  A nil slice, pointer or interface is \<open>None\<close>.  A pointer
  carries the kind its nil value is encoded as; a struct the index of its first field
  with the tag \<open>optional\<close>, or its number of fields when there is none; a slice with the
  tag \<open>tail\<close> has a constructor of its own.
\<close>

datatype rval =
    RawVal bytes
  | BigIntVal "int option"
  | UintVal u64
  | BoolVal bool
  | StringVal bytes
  | BytesVal "bytes option"
  | ByteArrayVal bytes
  | SliceVal "rval list option"
  | TailVal "rval list option"
  | StructVal nat "rval list"
  | PtrVal kind "rval option"
  | InterfaceVal "rval option"

text \<open>\<open>reflect.Value.IsZero\<close>.  An array is zero when its elements are, a slice when it is nil.\<close>

fun IsZero :: "rval \<Rightarrow> bool" where
  "IsZero (RawVal b) = (b = [])"
| "IsZero (BigIntVal p) = (p = None)"
| "IsZero (UintVal i) = (i = 0)"
| "IsZero (BoolVal b) = (\<not> b)"
| "IsZero (StringVal s) = (s = [])"
| "IsZero (BytesVal b) = (b = None)"
| "IsZero (ByteArrayVal b) = (\<forall>x \<in> set b. x = 0)"
| "IsZero (SliceVal s) = (s = None)"
| "IsZero (TailVal s) = (s = None)"
| "IsZero (StructVal n vs) = (\<forall>v \<in> set vs. IsZero v)"
| "IsZero (PtrVal k p) = (p = None)"
| "IsZero (InterfaceVal p) = (p = None)"

text \<open>
  The fields a struct writes: trailing optional fields that are zero are left out
  (the loop over \<open>lastField\<close> in \<open>makeStructWriter\<close>).
\<close>

function written_fields :: "nat \<Rightarrow> rval list \<Rightarrow> rval list" where
  "written_fields n vs =
     (if n < length vs \<and> IsZero (last vs) then written_fields n (butlast vs) else vs)"
  by auto
termination by (relation "measure (\<lambda>(n, vs). length vs)") auto

declare written_fields.simps [simp del]

lemma set_written_fields: "set (written_fields n vs) \<subseteq> set vs"
proof (induction n vs rule: written_fields.induct)
  case (1 n vs)
  show ?case
  proof (cases "n < length vs \<and> IsZero (last vs)")
    case True
    with 1 have "set (written_fields n (butlast vs)) \<subseteq> set (butlast vs)" by simp
    with True show ?thesis
      by (subst written_fields.simps) (auto dest: in_set_butlastD)
  next
    case False
    then show ?thesis by (subst written_fields.simps) (simp only: if_False subset_refl)
  qed
qed

lemma size_written_fields [termination_simp]:
  "v \<in> set (written_fields n vs) \<Longrightarrow> size v < Suc (size_list size vs)"
  using set_written_fields [of n vs] size_list_estimation' [of v vs "size v" size] by auto

subsection \<open>The encoder buffer (\<open>encbuf\<close>)\<close>

record listhead =
  lh_offset :: nat
  lh_size :: int

record encbuf =
  eb_str :: bytes
  eb_lheads :: "listhead list"
  eb_lhsize :: int

definition empty_encbuf :: encbuf where
  "empty_encbuf = \<lparr>eb_str = [], eb_lheads = [], eb_lhsize = 0\<rparr>"

definition encbuf_append :: "bytes \<Rightarrow> encbuf \<Rightarrow> encbuf" where
  "encbuf_append b w = w\<lparr>eb_str := eb_str w @ b\<rparr>"

definition encbuf_size :: "encbuf \<Rightarrow> int" where
  "encbuf_size w = int (length (eb_str w)) + eb_lhsize w"

definition encodeStringHeader :: "nat \<Rightarrow> encbuf \<Rightarrow> encbuf" where
  "encodeStringHeader sz w =
     (if sz < 56 then encbuf_append [0x80 + of_nat sz] w
      else let b = putint (of_nat sz) in encbuf_append ((0xB7 + of_nat (length b)) # b) w)"

definition encodeString :: "bytes \<Rightarrow> encbuf \<Rightarrow> encbuf" where
  "encodeString b w =
     (if length b = 1 \<and> b ! 0 \<le> 0x7F then encbuf_append [b ! 0] w
      else encbuf_append b (encodeStringHeader (length b) w))"

definition encodeUint :: "u64 \<Rightarrow> encbuf \<Rightarrow> encbuf" where
  "encodeUint i w =
     (if i = 0 then encbuf_append [0x80] w
      else if i < 128 then encbuf_append [ucast i] w
      else let b = putint i in encbuf_append ((0x80 + of_nat (length b)) # b) w)"

text \<open>\<open>list\<close> opens a list and returns the index of its header; \<open>listEnd\<close> closes it.\<close>

definition encbuf_list :: "encbuf \<Rightarrow> encbuf \<times> nat" where
  "encbuf_list w =
     (w\<lparr>eb_lheads := eb_lheads w @ [\<lparr>lh_offset = length (eb_str w), lh_size = eb_lhsize w\<rparr>]\<rparr>,
      length (eb_lheads w))"

definition listEnd :: "nat \<Rightarrow> encbuf \<Rightarrow> encbuf go" where
  "listEnd index w =
     go_bind (slice_get (eb_lheads w) index) (\<lambda>lh.
       let sz = encbuf_size w - int (lh_offset lh) - lh_size lh in
       Ret (w\<lparr>eb_lheads := (eb_lheads w)[index := lh\<lparr>lh_size := sz\<rparr>],
              eb_lhsize := eb_lhsize w +
                (if sz < 56 then 1 else 1 + int (intsize (of_int sz)))\<rparr>))"

text \<open>\<open>big.Int.BitLen\<close>.\<close>

fun nat_BitLen :: "nat \<Rightarrow> nat" where
  "nat_BitLen n = (if n = 0 then 0 else Suc (nat_BitLen (n div 2)))"

declare nat_BitLen.simps [simp del]

text \<open>
  The loop of \<open>writeBigInt\<close> that fills a buffer of \<open>k\<close> bytes from its end with the low
  bytes of a number.
\<close>

primrec fill_bytes :: "nat \<Rightarrow> nat \<Rightarrow> bytes" where
  "fill_bytes 0 n = []"
| "fill_bytes (Suc k) n = fill_bytes k (n div 256) @ [of_nat n]"

definition writeBigInt :: "int \<Rightarrow> encbuf \<Rightarrow> encbuf go" where
  "writeBigInt i w =
     (if i < 0 then Err (Errorf ''rlp: cannot encode negative *big.Int'')
      else let bitlen = nat_BitLen (nat i) in
        if bitlen \<le> 64 then Ret (encodeUint (of_int i) w)
        else let len = (bitlen + 7) div 8 in
          Ret (encbuf_append (fill_bytes len (nat i)) (encodeStringHeader len w)))"

subsection \<open>The writers\<close>

lemma go_fold_cong [fundef_cong]:
  "xs = ys \<Longrightarrow> s = t \<Longrightarrow> (\<And>u x. x \<in> set ys \<Longrightarrow> f u x = g u x) \<Longrightarrow> go_fold f s xs = go_fold g t ys"
  by (induction ys arbitrary: xs s t) (auto intro: arg_cong [where f = "go_bind _"])

fun rlp_write :: "rval \<Rightarrow> encbuf \<Rightarrow> encbuf go" where
  "rlp_write (RawVal b) w = Ret (encbuf_append b w)"
| "rlp_write (BigIntVal None) w = Ret (encbuf_append [0x80] w)"
| "rlp_write (BigIntVal (Some i)) w = writeBigInt i w"
| "rlp_write (UintVal i) w = Ret (encodeUint i w)"
| "rlp_write (BoolVal b) w = Ret (encbuf_append [if b then 0x01 else 0x80] w)"
| "rlp_write (StringVal s) w =
     Ret (if length s = 1 \<and> s ! 0 \<le> 0x7f then encbuf_append [s ! 0] w
          else encbuf_append s (encodeStringHeader (length s) w))"
| "rlp_write (BytesVal b) w = Ret (encodeString (case b of None \<Rightarrow> [] | Some x \<Rightarrow> x) w)"
| "rlp_write (ByteArrayVal b) w =
     Ret (if length b = 0 then encbuf_append [0x80] w
          else if length b = 1 then
            (if b ! 0 \<le> 0x7f then encbuf_append [b ! 0] w else encbuf_append [0x81, b ! 0] w)
          else encbuf_append b (encodeStringHeader (length b) w))"
| "rlp_write (SliceVal None) w = Ret (encbuf_append [0xC0] w)"
| "rlp_write (SliceVal (Some vs)) w =
     (if length vs = 0 then Ret (encbuf_append [0xC0] w)
      else let (w1, listOffset) = encbuf_list w in
        go_bind (go_fold (\<lambda>u v. rlp_write v u) w1 vs) (listEnd listOffset))"
| "rlp_write (TailVal None) w = Ret w"
| "rlp_write (TailVal (Some vs)) w = go_fold (\<lambda>u v. rlp_write v u) w vs"
| "rlp_write (StructVal firstOptionalField vs) w =
     (let (w1, lh) = encbuf_list w in
      go_bind (go_fold (\<lambda>u v. rlp_write v u) w1 (written_fields firstOptionalField vs)) (listEnd lh))"
| "rlp_write (PtrVal nilKind None) w =
     (case nilKind of String \<Rightarrow> Ret (encbuf_append [0x80] w)
        | List \<Rightarrow> Ret (encbuf_append [0xC0] w)
        | Byte \<Rightarrow> Panic ''rlp: invalid nil kind 0'')"
| "rlp_write (PtrVal nilKind (Some v)) w = rlp_write v w"
| "rlp_write (InterfaceVal None) w = Ret (encbuf_append [0xC0] w)"
| "rlp_write (InterfaceVal (Some v)) w = rlp_write v w"

subsection \<open>The output (\<open>toBytes\<close>)\<close>

text \<open>\<open>copy(out[pos:], src)\<close>: the new contents of \<open>out\<close> and the number of bytes copied.\<close>

definition copy_at :: "bytes \<Rightarrow> nat \<Rightarrow> bytes \<Rightarrow> (bytes \<times> nat) go" where
  "copy_at out pos src =
     (if pos \<le> length out then
        let n = min (length src) (length out - pos) in
        Ret (take pos out @ take n src @ drop (pos + n) out, n)
      else Panic ''slice bounds out of range'')"

text \<open>\<open>head.encode(out[pos:])\<close> writes byte by byte and panics beyond the end.\<close>

definition encode_head_at :: "bytes \<Rightarrow> nat \<Rightarrow> listhead \<Rightarrow> (bytes \<times> nat) go" where
  "encode_head_at out pos head =
     (let b = puthead 0xC0 0xF7 (of_int (lh_size head)) in
      if pos + length b \<le> length out
      then Ret (take pos out @ b @ drop (pos + length b) out, length b)
      else Panic ''index out of range'')"

definition slice_range :: "'a list \<Rightarrow> nat \<Rightarrow> nat \<Rightarrow> 'a list go" where
  "slice_range xs i j =
     (if i \<le> j \<and> j \<le> length xs then Ret (take (j - i) (drop i xs))
      else Panic ''slice bounds out of range'')"

fun toBytes_loop :: "bytes \<Rightarrow> listhead list \<Rightarrow> bytes \<Rightarrow> nat \<Rightarrow> nat \<Rightarrow> bytes go" where
  "toBytes_loop str [] out pos strpos =
     go_bind (slice_range str strpos (length str)) (\<lambda>piece.
     go_bind (copy_at out pos piece) (\<lambda>(out', n). Ret out'))"
| "toBytes_loop str (head # heads) out pos strpos =
     go_bind (slice_range str strpos (lh_offset head)) (\<lambda>piece.
     go_bind (copy_at out pos piece) (\<lambda>(out1, n).
     go_bind (encode_head_at out1 (pos + n) head) (\<lambda>(out2, m).
     toBytes_loop str heads out2 (pos + n + m) (strpos + n))))"

definition toBytes :: "encbuf \<Rightarrow> bytes go" where
  "toBytes w =
     (if encbuf_size w < 0 then Panic ''makeslice: len out of range''
      else toBytes_loop (eb_str w) (eb_lheads w) (replicate (nat (encbuf_size w)) 0) 0 0)"

text \<open>The buffer comes from a pool and is reset before it is used.\<close>

definition encbuf_reset :: "encbuf \<Rightarrow> encbuf" where
  "encbuf_reset w = w\<lparr>eb_lhsize := 0, eb_str := [], eb_lheads := []\<rparr>"

definition EncodeToBytes :: "encbuf \<Rightarrow> rval \<Rightarrow> bytes go" where
  "EncodeToBytes pooled v = go_bind (rlp_write v (encbuf_reset pooled)) toBytes"

text \<open>
  \<open>toWriter\<close> with a writer that takes everything it is given, as a hash or a buffer does:
  the bytes written.
\<close>

fun toWriter_loop :: "bytes \<Rightarrow> listhead list \<Rightarrow> nat \<Rightarrow> bytes go" where
  "toWriter_loop str [] strpos =
     (if strpos < length str then slice_range str strpos (length str) else Ret [])"
| "toWriter_loop str (head # heads) strpos =
     go_bind (if int (lh_offset head) - int strpos > 0
              then slice_range str strpos (lh_offset head) else Ret []) (\<lambda>piece.
     go_bind (toWriter_loop str heads (strpos + length piece)) (\<lambda>rest.
     Ret (piece @ puthead 0xC0 0xF7 (of_int (lh_size head)) @ rest)))"

definition toWriter :: "encbuf \<Rightarrow> bytes go" where
  "toWriter w = toWriter_loop (eb_str w) (eb_lheads w) 0"

definition Encode :: "encbuf \<Rightarrow> rval \<Rightarrow> bytes go" where
  "Encode pooled v = go_bind (rlp_write v (encbuf_reset pooled)) toWriter"

subsection \<open>Taking encoded values apart (\<open>raw.go\<close>)\<close>

text \<open>
  The value read by \<open>readSize\<close>: the code has one case for each length, which shifts the
  bytes into place and joins them with \<open>|\<close>.
\<close>

definition join_bytes :: "bytes \<Rightarrow> u64" where
  "join_bytes = foldl (\<lambda>s x. push_bit 8 s OR ucast x) 0"

definition readSize :: "bytes \<Rightarrow> u8 \<Rightarrow> u64 go" where
  "readSize b slen =
     (if unat slen > length b then Err ErrUnexpectedEOF
      else let s = (if 1 \<le> slen \<and> slen \<le> 8 then join_bytes (take (unat slen) b) else 0) in
        if s < 56 then Err ErrCanonSize
        else go_bind (slice_get b 0) (\<lambda>b0.
          if b0 = 0 then Err ErrCanonSize else Ret s))"

definition readKind :: "bytes \<Rightarrow> (kind \<times> u64 \<times> u64) go" where
  "readKind buf =
     (if length buf = 0 then Err ErrUnexpectedEOF
      else let b = buf ! 0 in
        go_bind
          (if b < 0x80 then Ret (Byte, 0, 1)
           else if b < 0xB8 then
             (let contentsize = ucast (b - 0x80) in
              if contentsize = (1 :: u64) \<and> length buf > 1 \<and> buf ! 1 < 128 then Err ErrCanonSize
              else Ret (String, 1, contentsize))
           else if b < 0xC0 then
             go_bind (readSize (drop 1 buf) (b - 0xB7)) (\<lambda>contentsize.
               Ret (String, ucast (b - 0xB7) + 1, contentsize))
           else if b < 0xF8 then Ret (List, 1, ucast (b - 0xC0))
           else
             go_bind (readSize (drop 1 buf) (b - 0xF7)) (\<lambda>contentsize.
               Ret (List, ucast (b - 0xF7) + 1, contentsize)))
          (\<lambda>(k, tagsize, contentsize).
             if contentsize > of_nat (length buf) - tagsize then Err ErrValueTooLarge
             else Ret (k, tagsize, contentsize)))"

definition Split :: "bytes \<Rightarrow> (kind \<times> bytes \<times> bytes) go" where
  "Split b =
     go_bind (readKind b) (\<lambda>(k, ts, cs).
     go_bind (slice_range b (unat ts) (unat (ts + cs))) (\<lambda>content.
     go_bind (slice_range b (unat (ts + cs)) (length b)) (\<lambda>rest.
     Ret (k, content, rest))))"

definition SplitString :: "bytes \<Rightarrow> (bytes \<times> bytes) go" where
  "SplitString b =
     go_bind (Split b) (\<lambda>(k, content, rest).
       if k = List then Err ErrExpectedString else Ret (content, rest))"

definition SplitList :: "bytes \<Rightarrow> (bytes \<times> bytes) go" where
  "SplitList b =
     go_bind (Split b) (\<lambda>(k, content, rest).
       if k \<noteq> List then Err ErrExpectedList else Ret (content, rest))"

definition SplitUint64 :: "bytes \<Rightarrow> (u64 \<times> bytes) go" where
  "SplitUint64 b =
     go_bind (SplitString b) (\<lambda>(content, rest).
       if length content = 0 then Ret (0, rest)
       else if length content = 1 then
         (if content ! 0 = 0 then Err ErrCanonInt else Ret (ucast (content ! 0), rest))
       else if length content > 8 then Err errUintOverflow
       else (case readSize content (of_nat (length content)) of
           Ret x \<Rightarrow> Ret (x, rest)
         | Err e \<Rightarrow> Err ErrCanonInt
         | Panic s \<Rightarrow> Panic s))"

text \<open>
  \<open>CountValues\<close>: every iteration consumes at least one byte, so the length of the input is
  enough fuel; running out of it is a panic of the model that never happens.
\<close>

fun CountValues_loop :: "nat \<Rightarrow> bytes \<Rightarrow> nat \<Rightarrow> nat go" where
  "CountValues_loop fuel b i =
     (if length b = 0 then Ret i
      else case fuel of 0 \<Rightarrow> Panic ''out of fuel''
      | Suc fuel' \<Rightarrow>
          go_bind (readKind b) (\<lambda>(k, tagsize, size').
          go_bind (slice_range b (unat (tagsize + size')) (length b)) (\<lambda>b'.
          CountValues_loop fuel' b' (Suc i))))"

declare CountValues_loop.simps [simp del]

definition CountValues :: "bytes \<Rightarrow> nat go" where
  "CountValues b = CountValues_loop (length b) b 0"

definition AppendUint64 :: "bytes \<Rightarrow> u64 \<Rightarrow> bytes" where
  "AppendUint64 b i =
     (if i = 0 then b @ [0x80]
      else if i < 128 then b @ [ucast i]
      else if i < push_bit 8 1 then b @ 0x81 # low_bytes 1 i
      else if i < push_bit 16 1 then b @ 0x82 # low_bytes 2 i
      else if i < push_bit 24 1 then b @ 0x83 # low_bytes 3 i
      else if i < push_bit 32 1 then b @ 0x84 # low_bytes 4 i
      else if i < push_bit 40 1 then b @ 0x85 # low_bytes 5 i
      else if i < push_bit 48 1 then b @ 0x86 # low_bytes 6 i
      else if i < push_bit 56 1 then b @ 0x87 # low_bytes 7 i
      else b @ 0x88 # low_bytes 8 i)"

subsection \<open>The format\<close>

text \<open>
  The recursive definition of the encoding.  A number is the string of its bytes, most
  significant first, without leading zeros.
\<close>

fun nat_be :: "nat \<Rightarrow> bytes" where
  "nat_be n = (if n = 0 then [] else nat_be (n div 256) @ [of_nat n])"

declare nat_be.simps [simp del]

definition rlp_head :: "u8 \<Rightarrow> u8 \<Rightarrow> nat \<Rightarrow> bytes" where
  "rlp_head small large n =
     (if n < 56 then [small + of_nat n]
      else (large + of_nat (length (nat_be n))) # nat_be n)"

definition rlp_string :: "bytes \<Rightarrow> bytes" where
  "rlp_string b = (if length b = 1 \<and> b ! 0 \<le> 0x7F then b else rlp_head 0x80 0xB7 (length b) @ b)"

definition rlp_list :: "bytes \<Rightarrow> bytes" where
  "rlp_list b = rlp_head 0xC0 0xF7 (length b) @ b"

fun rlp_enc :: "rval \<Rightarrow> bytes" where
  "rlp_enc (RawVal b) = b"
| "rlp_enc (BigIntVal p) = rlp_string (case p of None \<Rightarrow> [] | Some i \<Rightarrow> nat_be (nat i))"
| "rlp_enc (UintVal i) = rlp_string (nat_be (unat i))"
| "rlp_enc (BoolVal b) = rlp_string (nat_be (of_bool b))"
| "rlp_enc (StringVal s) = rlp_string s"
| "rlp_enc (BytesVal b) = rlp_string (case b of None \<Rightarrow> [] | Some x \<Rightarrow> x)"
| "rlp_enc (ByteArrayVal b) = rlp_string b"
| "rlp_enc (SliceVal None) = rlp_list []"
| "rlp_enc (SliceVal (Some vs)) = rlp_list (concat (map rlp_enc vs))"
| "rlp_enc (TailVal None) = []"
| "rlp_enc (TailVal (Some vs)) = concat (map rlp_enc vs)"
| "rlp_enc (StructVal n vs) = rlp_list (concat (map rlp_enc (written_fields n vs)))"
| "rlp_enc (PtrVal k None) = (if k = List then rlp_list [] else rlp_string [])"
| "rlp_enc (PtrVal k (Some v)) = rlp_enc v"
| "rlp_enc (InterfaceVal None) = rlp_list []"
| "rlp_enc (InterfaceVal (Some v)) = rlp_enc v"

text \<open>
  Values that can be encoded: no negative integer among what is written, and no nil
  pointer of a kind that has no encoding.
\<close>

fun encodable :: "rval \<Rightarrow> bool" where
  "encodable (BigIntVal (Some i)) = (0 \<le> i)"
| "encodable (SliceVal (Some vs)) = (\<forall>v \<in> set vs. encodable v)"
| "encodable (TailVal (Some vs)) = (\<forall>v \<in> set vs. encodable v)"
| "encodable (StructVal n vs) = (\<forall>v \<in> set (written_fields n vs). encodable v)"
| "encodable (PtrVal k None) = (k \<noteq> Byte)"
| "encodable (PtrVal k (Some v)) = encodable v"
| "encodable (InterfaceVal (Some v)) = encodable v"
| "encodable v = True"

subsection \<open>Big-endian bytes\<close>

lemma ucast_of_nat: "(ucast (w :: u64) :: u8) = of_nat (unat w)"
  by simp

lemma fill_bytes_top: "fill_bytes (Suc k) n = of_nat (n div 256 ^ k) # fill_bytes k n"
proof (induction k arbitrary: n)
  case (Suc k)
  have "fill_bytes (Suc (Suc k)) n = fill_bytes (Suc k) (n div 256) @ [of_nat n]" by simp
  also have "\<dots> = of_nat (n div 256 div 256 ^ k) # fill_bytes k (n div 256) @ [of_nat n]"
    by (simp only: Suc.IH append_Cons)
  finally show ?case by (simp add: div_mult2_eq)
qed simp

lemma low_bytes_fill: "low_bytes k i = fill_bytes k (unat i)"
proof (induction k)
  case (Suc k)
  have "(ucast (drop_bit (8 * k) i) :: u8) = of_nat (unat i div 256 ^ k)"
    by (simp add: ucast_of_nat unat_drop_bit power_mult)
  with Suc show ?case by (simp only: low_bytes.simps fill_bytes_top)
qed simp

lemma fill_nat_be: "256 ^ k \<le> n \<Longrightarrow> n < 256 ^ Suc k \<Longrightarrow> fill_bytes (Suc k) n = nat_be n"
proof (induction k arbitrary: n)
  case 0
  then show ?case by (simp add: nat_be.simps [of n] nat_be.simps [of 0])
next
  case (Suc k)
  from Suc.prems have "256 ^ k \<le> n div 256" "n div 256 < 256 ^ Suc k"
    by (simp_all add: less_eq_div_iff_mult_less_eq div_less_iff_less_mult mult.commute)
  from Suc.IH [OF this] have "fill_bytes (Suc (Suc k)) n = nat_be (n div 256) @ [of_nat n]"
    by simp
  moreover have "n \<noteq> 0" using Suc.prems(1) by (intro notI) simp
  ultimately show ?case by (simp add: nat_be.simps [of n])
qed

lemma length_fill_bytes [simp]: "length (fill_bytes k n) = k"
  by (induction k arbitrary: n) auto

lemma putint_nat_be: "i \<noteq> 0 \<Longrightarrow> putint i = nat_be (unat i)"
proof -
  assume "i \<noteq> 0"
  then have pos: "0 < unat i" by (simp add: unat_gt_0)
  have top: "unat i < 256 ^ 8" using unsigned_less [of i, where ?'a = nat] by simp
  have fill: "low_bytes (Suc k) i = nat_be (unat i)"
    if "256 ^ k \<le> unat i" "unat i < 256 ^ Suc k" for k
    using that by (simp only: low_bytes_fill fill_nat_be)
  have two: "low_bytes 2 i = low_bytes (Suc (Suc 0)) i" by (simp only: numeral_2_eq_2)
  show ?thesis
    using pos top fill [of 0] fill [of 1] fill [of 2] fill [of 3] fill [of 4] fill [of 5]
      fill [of 6] fill [of 7]
    by (simp add: putint_def word_less_nat_alt two del: low_bytes.simps)
qed

lemma intsize_nat_be: "i \<noteq> 0 \<Longrightarrow> intsize i = length (nat_be (unat i))"
proof (induction i rule: intsize.induct)
  case (1 i)
  have div: "unat (drop_bit 8 i) = unat i div 256" using unat_drop_bit [of 8 i] by simp
  have be: "nat_be (unat i) = nat_be (unat i div 256) @ [of_nat (unat i)]"
    using 1(2) by (subst nat_be.simps) (simp add: unat_eq_0)
  show ?case
  proof (cases "drop_bit 8 i = 0")
    case True
    with div have "unat i div 256 = 0" by simp
    with True be show ?thesis
      by (subst intsize.simps) (simp add: nat_be.simps [of 0])
  next
    case False
    with 1(1) div have "intsize (drop_bit 8 i) = length (nat_be (unat i div 256))" by simp
    with False be show ?thesis by (subst intsize.simps) (simp add: Let_def)
  qed
qed

text \<open>The value of a byte string.\<close>

definition be_nat :: "bytes \<Rightarrow> nat" where
  "be_nat = foldl (\<lambda>s x. s * 256 + unat x) 0"

lemma be_nat_nat_be [simp]: "be_nat (nat_be n) = n"
proof (induction n rule: nat_be.induct)
  case (1 n)
  show ?case
  proof (cases "n = 0")
    case True
    then show ?thesis by (simp add: nat_be.simps be_nat_def)
  next
    case False
    with 1 have "be_nat (nat_be (n div 256)) = n div 256" by simp
    with False show ?thesis
      by (subst nat_be.simps) (simp add: be_nat_def unsigned_of_nat take_bit_eq_mod)
  qed
qed

lemma nat_be_eq_Nil [simp]: "nat_be n = [] \<longleftrightarrow> n = 0"
  by (subst nat_be.simps) simp

lemma nat_be_nth_0: "n \<noteq> 0 \<Longrightarrow> nat_be n ! 0 \<noteq> 0"
proof (induction n rule: nat_be.induct)
  case (1 n)
  show ?case
  proof (cases "n div 256 = 0")
    case True
    then have "n < 256" by simp
    from True 1(2) have "nat_be n = [of_nat n]"
      by (subst nat_be.simps) (simp add: nat_be.simps [of 0])
    moreover have "unat (of_nat n :: u8) = n"
      using \<open>n < 256\<close> by (simp add: unsigned_of_nat take_bit_nat_eq_self)
    ultimately show ?thesis using 1(2) by (metis nth_Cons_0 unat_0)
  next
    case False
    then have "nat_be (n div 256) \<noteq> []" by simp
    then show ?thesis
      using 1 False by (subst nat_be.simps) (simp add: nth_append)
  qed
qed

lemma length_nat_be_le: "n < 256 ^ k \<Longrightarrow> length (nat_be n) \<le> k"
proof (induction k arbitrary: n)
  case (Suc k)
  then have "length (nat_be (n div 256)) \<le> k"
    by (simp add: div_less_iff_less_mult mult.commute)
  then show ?case by (subst nat_be.simps) simp
qed (simp add: nat_be.simps)

lemma be_nat_less: "be_nat b < 256 ^ length b"
proof (induction b rule: rev_induct)
  case (snoc x b)
  have "unat x < 256" using unsigned_less [of x, where ?'a = nat] by simp
  with snoc show ?case by (simp add: be_nat_def)
qed (simp add: be_nat_def)

lemma join_bytes_nat: "length b \<le> 8 \<Longrightarrow> unat (join_bytes b) = be_nat b"
proof (induction b rule: rev_induct)
  case (snoc x b)
  then have IH: "unat (join_bytes b) = be_nat b" and len: "length b \<le> 7" by simp_all
  have "be_nat b < 256 ^ 7"
    using be_nat_less [of b] power_increasing [OF len, of "256 :: nat"] by simp
  moreover have "unat x < 256" using unsigned_less [of x, where ?'a = nat] by simp
  ultimately have small: "unat (join_bytes b) * 256 + unat x < 2 ^ 64" by (simp add: IH)
  have "push_bit 8 (join_bytes b) OR (ucast x :: u64) = push_bit 8 (join_bytes b) + ucast x"
    by (rule disjunctive_add_eq_or [symmetric]) (auto simp: bit_eq_iff bit_simps dest: bit_imp_le_length)
  also have "\<dots> = of_nat (unat (join_bytes b) * 256 + unat x)"
    by (simp add: push_bit_eq_mult mult.commute)
  finally have "join_bytes (b @ [x]) = of_nat (unat (join_bytes b) * 256 + unat x)"
    by (simp add: join_bytes_def)
  moreover have "unat (of_nat m :: u64) = m" if "m < 2 ^ 64" for m
    using that by (simp add: unsigned_of_nat take_bit_nat_eq_self)
  ultimately have "unat (join_bytes (b @ [x])) = unat (join_bytes b) * 256 + unat x"
    using small by (simp only:)
  with IH show ?case by (simp add: be_nat_def)
qed (simp add: be_nat_def join_bytes_def)

subsection \<open>Weaving string data and list headers\<close>

abbreviation head_bytes :: "listhead \<Rightarrow> bytes" where
  "head_bytes h \<equiv> puthead 0xC0 0xF7 (of_int (lh_size h))"

text \<open>
  What a buffer stands for: its string data from position \<open>p\<close> on, with every header put
  in at its offset.  The offsets of headers in a buffer never decrease.
\<close>

fun weave :: "bytes \<Rightarrow> listhead list \<Rightarrow> nat \<Rightarrow> bytes" where
  "weave str [] p = drop p str"
| "weave str (h # hs) p =
     take (lh_offset h - p) (drop p str) @ head_bytes h @ weave str hs (lh_offset h)"

fun offsets_ok :: "nat \<Rightarrow> listhead list \<Rightarrow> nat \<Rightarrow> bool" where
  "offsets_ok p [] q = (p \<le> q)"
| "offsets_ok p (h # hs) q = (p \<le> lh_offset h \<and> offsets_ok (lh_offset h) hs q)"

definition shift_head :: "nat \<Rightarrow> listhead \<Rightarrow> listhead" where
  "shift_head n h = h\<lparr>lh_offset := n + lh_offset h\<rparr>"

lemma shift_head_simps [simp]:
  "lh_offset (shift_head n h) = n + lh_offset h" "lh_size (shift_head n h) = lh_size h"
  by (simp_all add: shift_head_def)

lemma offsets_ok_le: "offsets_ok p hs q \<Longrightarrow> p \<le> q"
  by (induction hs arbitrary: p) (auto intro: le_trans)

lemma offsets_ok_shift [simp]:
  "offsets_ok (n + p) (map (shift_head n) hs) (n + q) = offsets_ok p hs q"
  by (induction hs arbitrary: p) auto

lemma offsets_ok_append: "offsets_ok p hs q \<Longrightarrow> offsets_ok q hs' r \<Longrightarrow> offsets_ok p (hs @ hs') r"
proof (induction hs arbitrary: p)
  case Nil
  then show ?case by (cases hs') auto
qed simp

lemma weave_shift: "weave (pre @ str) (map (shift_head (length pre)) hs) (length pre + p) = weave str hs p"
  by (induction hs arbitrary: p) auto

lemma weave_append:
  assumes "offsets_ok p hs (length str)"
  shows "weave (str @ str') (hs @ map (shift_head (length str)) hs') p =
    weave str hs p @ weave str' hs' 0"
  using assms
proof (induction hs arbitrary: p)
  case Nil
  then show ?case
  proof (cases hs')
    case (Cons h t)
    have "weave (str @ str') (map (shift_head (length str)) t) (length str + lh_offset h) =
        weave str' t (lh_offset h)"
      by (rule weave_shift)
    with Cons Nil show ?thesis by simp
  qed simp
next
  case (Cons h hs)
  then have "lh_offset h \<le> length str" by (auto dest: offsets_ok_le)
  with Cons show ?case by simp
qed

lemma slice_range_in [simp]:
  "i \<le> j \<Longrightarrow> j \<le> length xs \<Longrightarrow> slice_range xs i j = Ret (take (j - i) (drop i xs))"
  by (simp add: slice_range_def)

lemma copy_at_in: "pos + length src \<le> length out \<Longrightarrow>
    copy_at out pos src = Ret (take pos out @ src @ drop (pos + length src) out, length src)"
  by (simp add: copy_at_def Let_def)

lemma encode_head_at_in: "pos + length (head_bytes h) \<le> length out \<Longrightarrow>
    encode_head_at out pos h =
      Ret (take pos out @ head_bytes h @ drop (pos + length (head_bytes h)) out, length (head_bytes h))"
  by (simp add: encode_head_at_def Let_def)

text \<open>When the output has the right size, \<open>toBytes\<close> fills it without going out of range.\<close>

lemma toBytes_loop_weave:
  assumes "offsets_ok p hs (length str)" and "pos + length (weave str hs p) = length out"
  shows "toBytes_loop str hs out pos p = Ret (take pos out @ weave str hs p)"
  using assms
proof (induction hs arbitrary: p pos out)
  case Nil
  then show ?case by (simp add: copy_at_in)
next
  case (Cons h hs)
  let ?piece = "take (lh_offset h - p) (drop p str)"
  let ?out1 = "take pos out @ ?piece @ drop (pos + length ?piece) out"
  let ?pos1 = "pos + length ?piece"
  let ?out2 = "take ?pos1 ?out1 @ head_bytes h @ drop (?pos1 + length (head_bytes h)) ?out1"
  have off: "p \<le> lh_offset h" "lh_offset h \<le> length str" and ok: "offsets_ok (lh_offset h) hs (length str)"
    using Cons.prems(1) by (auto dest: offsets_ok_le)
  have len: "?pos1 + length (head_bytes h) + length (weave str hs (lh_offset h)) = length out"
    using Cons.prems(2) by simp
  have plen: "length ?piece = lh_offset h - p" using off by simp
  have "length ?out1 = length out" using len by simp
  then have len2: "?pos1 + length (head_bytes h) + length (weave str hs (lh_offset h)) = length ?out2"
    using len by simp
  have "toBytes_loop str (h # hs) out pos p =
      toBytes_loop str hs ?out2 (?pos1 + length (head_bytes h)) (p + length ?piece)"
    using off len \<open>length ?out1 = length out\<close> by (simp add: copy_at_in encode_head_at_in)
  also have "p + length ?piece = lh_offset h" using off plen by simp
  also have "toBytes_loop str hs ?out2 (?pos1 + length (head_bytes h)) (lh_offset h) =
      Ret (take (?pos1 + length (head_bytes h)) ?out2 @ weave str hs (lh_offset h))"
    using ok len2 by (rule Cons.IH)
  also have "take (?pos1 + length (head_bytes h)) ?out2 = take pos out @ ?piece @ head_bytes h"
    using len off by simp
  finally show ?case by simp
qed

lemma toWriter_loop_weave:
  "offsets_ok p hs (length str) \<Longrightarrow> toWriter_loop str hs p = Ret (weave str hs p)"
proof (induction hs arbitrary: p)
  case Nil
  then show ?case by simp
next
  case (Cons h hs)
  then have off: "p \<le> lh_offset h" "lh_offset h \<le> length str" by (auto dest: offsets_ok_le)
  show ?case
  proof (cases "p < lh_offset h")
    case True
    with off Cons show ?thesis by simp
  next
    case False
    with off have "p = lh_offset h" by simp
    with Cons show ?thesis by simp
  qed
qed

subsection \<open>What the writers append\<close>

lemma unat_of_nat_64 [simp]: "n < 2 ^ 64 \<Longrightarrow> unat (of_nat n :: u64) = n"
  by (simp add: unsigned_of_nat take_bit_nat_eq_self)

lemma puthead_rlp_head: "n < 2 ^ 64 \<Longrightarrow> puthead small large (of_nat n) = rlp_head small large n"
proof -
  assume n: "n < 2 ^ 64"
  then have lt: "(of_nat n :: u64) < 56 \<longleftrightarrow> n < 56" by (simp add: word_less_nat_alt)
  show ?thesis
  proof (cases "n < 56")
    case True
    with n lt show ?thesis by (simp add: puthead_def rlp_head_def ucast_of_nat del: of_nat_unat)
  next
    case False
    then have "(of_nat n :: u64) \<noteq> 0" using n lt by auto
    then have "putint (of_nat n) = nat_be n" using n by (simp add: putint_nat_be)
    with False lt show ?thesis by (simp add: puthead_def rlp_head_def)
  qed
qed

lemma encodeStringHeader_head:
  "n < 2 ^ 64 \<Longrightarrow> encodeStringHeader n w = encbuf_append (rlp_head 0x80 0xB7 n) w"
proof -
  assume n: "n < 2 ^ 64"
  show ?thesis
  proof (cases "n < 56")
    case False
    then have "(of_nat n :: u64) \<noteq> 0" using n by (metis gr_implies_not_zero unat_0 unat_of_nat_64 zero_less_numeral)
    then have "putint (of_nat n) = nat_be n" using n by (simp add: putint_nat_be)
    with False show ?thesis by (simp add: encodeStringHeader_def rlp_head_def Let_def)
  qed (simp add: encodeStringHeader_def rlp_head_def)
qed

lemma encbuf_append_append [simp]: "encbuf_append b (encbuf_append a w) = encbuf_append (a @ b) w"
  by (simp add: encbuf_append_def)

lemma encodeString_rlp: "length b < 2 ^ 64 \<Longrightarrow> encodeString b w = encbuf_append (rlp_string b) w"
proof -
  assume len: "length b < 2 ^ 64"
  show ?thesis
  proof (cases "length b = 1")
    case True
    then obtain x where "b = [x]" by (cases b) auto
    then show ?thesis by (simp add: encodeString_def rlp_string_def encodeStringHeader_head)
  next
    case False
    with len show ?thesis by (simp add: encodeString_def rlp_string_def encodeStringHeader_head)
  qed
qed

lemma nat_be_small: "0 < n \<Longrightarrow> n < 256 \<Longrightarrow> nat_be n = [of_nat n]"
  by (simp add: nat_be.simps [of n] nat_be.simps [of 0])

lemma encodeUint_rlp: "encodeUint i w = encbuf_append (rlp_string (nat_be (unat i))) w"
proof -
  consider "i = 0" | "0 < unat i" "unat i < 128" | "128 \<le> unat i"
    by (metis linorder_not_le unat_gt_0)
  then show ?thesis
  proof cases
    case 1
    then show ?thesis by (simp add: encodeUint_def rlp_string_def rlp_head_def nat_be.simps)
  next
    case 2
    then have be: "nat_be (unat i) = [of_nat (unat i)]" by (simp add: nat_be_small del: of_nat_unat)
    have "unat (of_nat (unat i) :: u8) = unat i"
      using 2 by (simp add: unsigned_of_nat take_bit_nat_eq_self del: of_nat_unat)
    then have "(of_nat (unat i) :: u8) \<le> 0x7F"
      using 2 by (simp add: word_le_nat_alt del: of_nat_unat)
    then have "rlp_string (nat_be (unat i)) = [ucast i]"
      by (simp add: be rlp_string_def)
    moreover have "i \<noteq> 0" "i < 128" using 2 by (auto simp: word_less_nat_alt)
    ultimately show ?thesis by (simp add: encodeUint_def)
  next
    case 3
    then have i: "i \<noteq> 0" "\<not> i < 128" by (auto simp: word_less_nat_alt)
    have "unat i < 256 ^ 8" using unsigned_less [of i, where ?'a = nat] by simp
    then have len: "length (nat_be (unat i)) \<le> 8" by (rule length_nat_be_le)
    have "rlp_string (nat_be (unat i)) = rlp_head 0x80 0xB7 (length (nat_be (unat i))) @ nat_be (unat i)"
    proof (cases "unat i < 256")
      case True
      have "unat (of_nat (unat i) :: u8) = unat i"
        using True by (simp add: unsigned_of_nat take_bit_nat_eq_self del: of_nat_unat)
      then have "\<not> (of_nat (unat i) :: u8) \<le> 0x7F"
        using 3 by (simp add: word_le_nat_alt del: of_nat_unat)
      with 3 True show ?thesis by (simp add: rlp_string_def nat_be_small)
    next
      case False
      then have "nat_be (unat i div 256) \<noteq> []" by simp
      then have "length (nat_be (unat i)) \<noteq> 1"
        using False by (subst nat_be.simps) simp
      then show ?thesis by (simp add: rlp_string_def)
    qed
    with i len show ?thesis by (simp add: encodeUint_def putint_nat_be rlp_head_def Let_def)
  qed
qed

lemma nat_BitLen_bounds: "0 < n \<Longrightarrow> 2 ^ (nat_BitLen n - 1) \<le> n \<and> n < 2 ^ nat_BitLen n"
proof (induction n rule: nat_BitLen.induct)
  case (1 n)
  show ?case
  proof (cases "n div 2 = 0")
    case True
    with 1(2) have "n = 1" by simp
    then show ?thesis by (simp add: nat_BitLen.simps [of "Suc 0"] nat_BitLen.simps [of 0])
  next
    case False
    then have IH: "2 ^ (nat_BitLen (n div 2) - 1) \<le> n div 2" "n div 2 < 2 ^ nat_BitLen (n div 2)"
      using 1 by auto
    have "nat_BitLen (n div 2) \<noteq> 0" using False by (subst nat_BitLen.simps) simp
    then obtain k where "nat_BitLen (n div 2) = Suc k" by (cases "nat_BitLen (n div 2)") auto
    with IH 1(2) show ?thesis by (subst (1 2) nat_BitLen.simps) (simp, linarith)
  qed
qed

lemma writeBigInt_rlp:
  assumes "0 \<le> i" and "length (nat_be (nat i)) < 2 ^ 64"
  shows "writeBigInt i w = Ret (encbuf_append (rlp_string (nat_be (nat i))) w)"
proof (cases "nat_BitLen (nat i) \<le> 64")
  case True
  have "nat i < 2 ^ 64"
  proof (cases "nat i = 0")
    case False
    then have "nat i < 2 ^ nat_BitLen (nat i)" using nat_BitLen_bounds [of "nat i"] by blast
    also have "\<dots> \<le> 2 ^ 64" using True by (rule power_increasing) simp
    finally show ?thesis .
  qed simp
  then have "unat (of_int i :: u64) = nat i"
    using assms(1) unat_of_nat_64 [of "nat i"] by simp
  with True assms(1) show ?thesis by (simp add: writeBigInt_def encodeUint_rlp)
next
  case False
  let ?n = "nat i" and ?bl = "nat_BitLen (nat i)"
  define k where "k = (?bl - 1) div 8"
  have len: "(?bl + 7) div 8 = Suc k" using False by (simp add: k_def div_if)
  have "?n \<noteq> 0" using False by (intro notI) (simp add: nat_BitLen.simps)
  then have bounds: "2 ^ (?bl - 1) \<le> ?n" "?n < 2 ^ ?bl" using nat_BitLen_bounds [of ?n] by auto
  have "256 ^ k = (2 :: nat) ^ (8 * k)" by (simp add: power_mult)
  also have "\<dots> \<le> 2 ^ (?bl - 1)" by (rule power_increasing) (simp_all add: k_def)
  finally have lo: "256 ^ k \<le> ?n" using bounds(1) by (rule le_trans)
  have "(2 :: nat) ^ ?bl \<le> 2 ^ (8 * Suc k)"
    by (rule power_increasing) (use False in \<open>simp_all add: k_def\<close>)
  also have "\<dots> = 256 ^ Suc k" by (simp add: power_mult power_add)
  finally have hi: "?n < 256 ^ Suc k" using bounds(2) by (rule less_le_trans [rotated])
  from lo hi have be: "fill_bytes (Suc k) ?n = nat_be ?n" by (rule fill_nat_be)
  then have blen: "length (nat_be ?n) = Suc k" by (metis length_fill_bytes)
  then have "Suc k \<noteq> 1" using False by (simp add: k_def)
  with blen have "rlp_string (nat_be ?n) = rlp_head 0x80 0xB7 (Suc k) @ nat_be ?n"
    by (simp add: rlp_string_def)
  with False assms be blen len show ?thesis
    by (simp add: writeBigInt_def Let_def encodeStringHeader_head del: fill_bytes.simps)
qed

text \<open>
  A writer \<open>writes\<close> a byte string when, whatever the buffer holds already, it appends string
  data and headers that weave together to that byte string, and accounts for the size of
  the headers.
\<close>

definition writes :: "(encbuf \<Rightarrow> encbuf go) \<Rightarrow> bytes \<Rightarrow> bool" where
  "writes f e \<longleftrightarrow>
     (\<exists>b hs. offsets_ok 0 hs (length b) \<and> weave b hs 0 = e \<and>
       (\<forall>w. f w = Ret \<lparr>eb_str = eb_str w @ b,
          eb_lheads = eb_lheads w @ map (shift_head (length (eb_str w))) hs,
          eb_lhsize = eb_lhsize w + int (length e) - int (length b)\<rparr>))"

lemma writes_append [intro]: "writes (\<lambda>w. Ret (encbuf_append b w)) b"
  unfolding writes_def
  by (rule exI [of _ b], rule exI [of _ "[]"]) (simp add: encbuf_append_def)

lemma writes_nothing: "writes Ret []"
  unfolding writes_def by (rule exI [of _ "[]"], rule exI [of _ "[]"]) simp

lemma shift_head_shift: "shift_head m (shift_head n h) = shift_head (m + n) h"
  by (simp add: shift_head_def)

lemma writes_bind:
  assumes "writes f e" and "writes g e'"
  shows "writes (\<lambda>w. go_bind (f w) g) (e @ e')"
proof -
  from assms obtain b hs b' hs' where
    f: "offsets_ok 0 hs (length b)" "weave b hs 0 = e"
      "\<And>w. f w = Ret \<lparr>eb_str = eb_str w @ b,
          eb_lheads = eb_lheads w @ map (shift_head (length (eb_str w))) hs,
          eb_lhsize = eb_lhsize w + int (length e) - int (length b)\<rparr>" and
    g: "offsets_ok 0 hs' (length b')" "weave b' hs' 0 = e'"
      "\<And>w. g w = Ret \<lparr>eb_str = eb_str w @ b',
          eb_lheads = eb_lheads w @ map (shift_head (length (eb_str w))) hs',
          eb_lhsize = eb_lhsize w + int (length e') - int (length b')\<rparr>"
    unfolding writes_def by metis
  let ?hs = "hs @ map (shift_head (length b)) hs'"
  have "offsets_ok (length b + 0) (map (shift_head (length b)) hs') (length b + length b')"
    using g(1) by (simp only: offsets_ok_shift)
  then have "offsets_ok 0 ?hs (length (b @ b'))" using f(1) by (auto intro: offsets_ok_append)
  moreover have "weave (b @ b') ?hs 0 = e @ e'" using f(1,2) g(2) by (simp add: weave_append)
  ultimately show ?thesis
    unfolding writes_def
    by (intro exI [of _ "b @ b'"] exI [of _ ?hs]) (simp add: f(3) g(3) shift_head_shift comp_def)
qed

lemma writes_go_fold:
  "(\<And>v. v \<in> set vs \<Longrightarrow> writes (rlp_write v) (e v)) \<Longrightarrow>
   writes (\<lambda>w. go_fold (\<lambda>u v. rlp_write v u) w vs) (concat (map e vs))"
proof (induction vs)
  case Nil
  then show ?case using writes_nothing by simp
next
  case (Cons v vs)
  then have "writes (\<lambda>w. go_bind (rlp_write v w) (\<lambda>u. go_fold (\<lambda>u v. rlp_write v u) u vs))
      (e v @ concat (map e vs))"
    by (intro writes_bind) auto
  then show ?case by simp
qed

lemma length_rlp_head:
  "n < 2 ^ 64 \<Longrightarrow>
   int (length (rlp_head small large n)) = (if n < 56 then 1 else 1 + int (intsize (of_nat n)))"
proof -
  assume n: "n < 2 ^ 64"
  show ?thesis
  proof (cases "n < 56")
    case False
    then have "(of_nat n :: u64) \<noteq> 0"
      using n by (metis gr_implies_not_zero unat_0 unat_of_nat_64 zero_less_numeral)
    with False n show ?thesis by (simp add: rlp_head_def intsize_nat_be)
  qed (simp add: rlp_head_def)
qed

lemma writes_list:
  assumes "writes f e" and "length e < 2 ^ 64"
  shows "writes (\<lambda>w. let (w1, i) = encbuf_list w in go_bind (f w1) (listEnd i)) (rlp_list e)"
proof -
  from assms(1) obtain b hs where
    f: "offsets_ok 0 hs (length b)" "weave b hs 0 = e"
      "\<And>w. f w = Ret \<lparr>eb_str = eb_str w @ b,
          eb_lheads = eb_lheads w @ map (shift_head (length (eb_str w))) hs,
          eb_lhsize = eb_lhsize w + int (length e) - int (length b)\<rparr>"
    unfolding writes_def by metis
  let ?h = "\<lparr>lh_offset = 0, lh_size = int (length e)\<rparr>"
  have "weave b (?h # hs) 0 = rlp_list e"
    using f(2) assms(2) by (simp add: rlp_list_def puthead_rlp_head)
  moreover have "(let (w1, i) = encbuf_list w in go_bind (f w1) (listEnd i)) =
      Ret \<lparr>eb_str = eb_str w @ b,
        eb_lheads = eb_lheads w @ map (shift_head (length (eb_str w))) (?h # hs),
        eb_lhsize = eb_lhsize w + int (length (rlp_list e)) - int (length b)\<rparr>" for w
    using assms(2)
    by (simp add: encbuf_list_def f(3) listEnd_def encbuf_size_def rlp_list_def length_rlp_head
        shift_head_def list_update_append nth_append Let_def)
  ultimately show ?thesis
    using f(1) unfolding writes_def by (intro exI [of _ b] exI [of _ "?h # hs"]) auto
qed

text \<open>The values whose encoding, and the encodings inside it, have a length of 64 bits.\<close>

lemma length_rlp_list: "length e \<le> length (rlp_list e)"
  by (simp add: rlp_list_def)

lemma length_rlp_string: "length b \<le> length (rlp_string b)"
  by (simp add: rlp_string_def)

lemma length_concat_member: "v \<in> set vs \<Longrightarrow> length (e v) \<le> length (concat (map e vs))"
  by (induction vs) auto

lemma rlp_write_atoms:
  "rlp_write (RawVal b) = (\<lambda>w. Ret (encbuf_append b w))"
  "rlp_write (UintVal i) = (\<lambda>w. Ret (encbuf_append (rlp_string (nat_be (unat i))) w))"
  "rlp_write (SliceVal None) = (\<lambda>w. Ret (encbuf_append (rlp_list []) w))"
  "rlp_write (TailVal None) = Ret"
  "k \<noteq> Byte \<Longrightarrow> rlp_write (PtrVal k None) =
     (\<lambda>w. Ret (encbuf_append (if k = List then rlp_list [] else rlp_string []) w))"
  "rlp_write (PtrVal k (Some v)) = rlp_write v"
  "rlp_write (InterfaceVal None) = (\<lambda>w. Ret (encbuf_append (rlp_list []) w))"
  "rlp_write (InterfaceVal (Some v)) = rlp_write v"
  by (auto simp: fun_eq_iff encodeUint_rlp rlp_list_def rlp_head_def rlp_string_def split: kind.splits)

lemma rlp_write_writes:
  "encodable v \<Longrightarrow> length (rlp_enc v) < 2 ^ 64 \<Longrightarrow> writes (rlp_write v) (rlp_enc v)"
proof (induction v rule: rlp_enc.induct)
  case (2 p)
  then show ?case
  proof (cases p)
    case None
    then show ?thesis using writes_append [of "[0x80]"] by (simp add: rlp_string_def rlp_head_def)
  next
    case (Some i)
    have "length (nat_be (nat i)) < 2 ^ 64"
      using 2(2) Some length_rlp_string [of "nat_be (nat i)"] by simp
    with 2(1) Some show ?thesis by (auto simp: writeBigInt_rlp)
  qed
next
  case (4 b)
  then show ?case
    using writes_append [of "[if b then 0x01 else 0x80]"]
    by (simp add: rlp_string_def rlp_head_def nat_be.simps [of 0] nat_be_small split: if_splits)
next
  case (5 s)
  then have "length s < 2 ^ 64" using length_rlp_string [of s] by simp
  then have "rlp_write (StringVal s) = (\<lambda>w. Ret (encbuf_append (rlp_string s) w))"
    by (auto simp: encodeString_rlp [symmetric] encodeString_def)
  then show ?case by auto
next
  case (6 b)
  then have "length (case b of None \<Rightarrow> [] | Some x \<Rightarrow> x) < 2 ^ 64"
    using length_rlp_string [of "case b of None \<Rightarrow> [] | Some x \<Rightarrow> x"] by simp
  then show ?case by (auto simp: encodeString_rlp)
next
  case (7 b)
  then have len: "length b < 2 ^ 64" using length_rlp_string [of b] by simp
  have "rlp_write (ByteArrayVal b) w = Ret (encodeString b w)" for w
    by (cases b) (auto simp: encodeString_def encodeStringHeader_def)
  with len have "rlp_write (ByteArrayVal b) = (\<lambda>w. Ret (encbuf_append (rlp_string b) w))"
    by (auto simp: encodeString_rlp simp del: rlp_write.simps)
  then show ?case by auto
next
  case (9 vs)
  let ?e = "concat (map rlp_enc vs)"
  have len: "length ?e < 2 ^ 64" using 9(3) length_rlp_list [of ?e] by simp
  have "writes (\<lambda>w. go_fold (\<lambda>u v. rlp_write v u) w vs) ?e"
    using 9 len le_less_trans [OF length_concat_member len] by (intro writes_go_fold) auto
  from writes_list [OF this len] show ?case
    using writes_append [of "[0xC0]"] by (cases "vs = []") (simp_all add: rlp_list_def rlp_head_def)
next
  case (11 vs)
  then have len: "length (concat (map rlp_enc vs)) < 2 ^ 64" by simp
  have "writes (\<lambda>w. go_fold (\<lambda>u v. rlp_write v u) w vs) (concat (map rlp_enc vs))"
    using 11 le_less_trans [OF length_concat_member len] by (intro writes_go_fold) auto
  then show ?case by simp
next
  case (12 n vs)
  let ?ws = "written_fields n vs"
  let ?e = "concat (map rlp_enc ?ws)"
  have len: "length ?e < 2 ^ 64" using 12(3) length_rlp_list [of ?e] by simp
  have "writes (\<lambda>w. go_fold (\<lambda>u v. rlp_write v u) w ?ws) ?e"
    using 12 len le_less_trans [OF length_concat_member len] by (intro writes_go_fold) auto
  from writes_list [OF this len] show ?case by simp
qed (auto simp: rlp_write_atoms writes_nothing)

lemma encbuf_reset_fields [simp]:
  "eb_str (encbuf_reset w) = []" "eb_lheads (encbuf_reset w) = []" "eb_lhsize (encbuf_reset w) = 0"
  by (simp_all add: encbuf_reset_def)

lemma shift_head_0 [simp]: "shift_head 0 = id"
  by (simp add: fun_eq_iff shift_head_def)

lemma writes_output:
  assumes "writes f e"
  shows "go_bind (f (encbuf_reset pooled)) toBytes = Ret e"
    and "go_bind (f (encbuf_reset pooled)) toWriter = Ret e"
proof -
  from assms obtain b hs where
    f: "offsets_ok 0 hs (length b)" "weave b hs 0 = e"
      "f (encbuf_reset pooled) = Ret \<lparr>eb_str = b, eb_lheads = hs,
         eb_lhsize = int (length e) - int (length b)\<rparr>"
    unfolding writes_def by force
  then show "go_bind (f (encbuf_reset pooled)) toBytes = Ret e"
    by (simp add: toBytes_def encbuf_size_def toBytes_loop_weave)
  from f show "go_bind (f (encbuf_reset pooled)) toWriter = Ret e"
    by (simp add: toWriter_def toWriter_loop_weave)
qed

lemma Encode_rlp_enc:
  assumes "encodable v" and "length (rlp_enc v) < 2 ^ 64"
  shows "EncodeToBytes pooled v = Ret (rlp_enc v)" and "Encode pooled v = Ret (rlp_enc v)"
  unfolding EncodeToBytes_def Encode_def
  using writes_output [OF rlp_write_writes [OF assms], of pooled] by auto

text \<open>A negative integer anywhere in what is written makes the encoder fail.\<close>

lemma go_fold_not_ok:
  "v \<in> set vs \<Longrightarrow> (\<And>s. \<not> is_ok (f s v)) \<Longrightarrow> \<not> is_ok (go_fold f s vs)"
proof (induction vs arbitrary: s)
  case (Cons x xs)
  then show ?case by (cases "f s x") (auto simp: is_ok_iff)
qed simp

lemma bind_not_ok: "\<not> is_ok m \<Longrightarrow> \<not> is_ok (go_bind m f)"
  by (cases m) auto

lemma rlp_write_not_ok: "\<not> encodable v \<Longrightarrow> \<not> is_ok (rlp_write v w)"
proof (induction v arbitrary: w rule: rlp_enc.induct)
  case (2 p)
  then show ?case by (cases p) (auto simp: writeBigInt_def)
next
  case (9 vs)
  then obtain v where v: "v \<in> set vs" "\<not> encodable v" by auto
  with 9(1) have "\<not> is_ok (go_fold (\<lambda>u v. rlp_write v u) u vs)" for u
    by (intro go_fold_not_ok [of v]) auto
  with v show ?case by (auto simp: encbuf_list_def intro!: bind_not_ok)
next
  case (11 vs)
  then obtain v where v: "v \<in> set vs" "\<not> encodable v" by auto
  with 11(1) have "\<not> is_ok (go_fold (\<lambda>u v. rlp_write v u) u vs)" for u
    by (intro go_fold_not_ok [of v]) auto
  then show ?case by simp
next
  case (12 n vs)
  then obtain v where v: "v \<in> set (written_fields n vs)" "\<not> encodable v" by auto
  with 12(1) have "\<not> is_ok (go_fold (\<lambda>u v. rlp_write v u) u (written_fields n vs))" for u
    by (intro go_fold_not_ok [of v]) auto
  then show ?case by (auto simp: encbuf_list_def intro!: bind_not_ok)
qed auto

text \<open>
  C37: Encoding succeeds exactly on the encodable values, and then, whatever the pooled
  buffer held before, both outputs of the two-part buffer, \<open>EncodeToBytes\<close> and \<open>Encode\<close>,
  are the recursive definition of the format.
\<close>

theorem encoder_refines_format:
  assumes "length (rlp_enc v) < 2 ^ 64"
  shows "(is_ok (EncodeToBytes pooled v) \<longleftrightarrow> encodable v) \<and>
    (encodable v \<longrightarrow>
       EncodeToBytes pooled v = Ret (rlp_enc v) \<and> Encode pooled v = Ret (rlp_enc v))"
proof (cases "encodable v")
  case True
  with assms show ?thesis by (simp add: Encode_rlp_enc)
next
  case False
  then have "\<not> is_ok (EncodeToBytes pooled v)"
    unfolding EncodeToBytes_def by (intro bind_not_ok rlp_write_not_ok)
  with False show ?thesis by simp
qed

text \<open>A struct with an integer, a list of two strings, and an optional field that is left out.\<close>

theorem encoder_refines_format_witness:
  "EncodeToBytes empty_encbuf
     (StructVal 2 [UintVal 1024, SliceVal (Some [StringVal [97], BytesVal (Some [200, 1])]),
        BigIntVal None]) =
   Ret [0xC8, 0x82, 4, 0, 0xC4, 97, 0x82, 200, 1]"
proof -
  let ?v = "StructVal 2 [UintVal 1024, SliceVal (Some [StringVal [97], BytesVal (Some [200, 1])]),
    BigIntVal None]"
  have "written_fields 2 [UintVal 1024, SliceVal (Some [StringVal [97], BytesVal (Some [200, 1])]),
      BigIntVal None] =
    [UintVal 1024, SliceVal (Some [StringVal [97], BytesVal (Some [200, 1])])]"
    by (subst written_fields.simps, simp, subst written_fields.simps, simp)
  then have "encodable ?v" "rlp_enc ?v = [0xC8, 0x82, 4, 0, 0xC4, 97, 0x82, 200, 1]"
    by (simp_all add: rlp_list_def rlp_head_def rlp_string_def nat_be.simps)
  then show ?thesis using encoder_refines_format [of ?v empty_encbuf] by simp
qed

subsection \<open>Reading encoded values back\<close>

lemma readSize_nat_be:
  assumes "56 \<le> n" and "n < 2 ^ 64"
  shows "readSize (nat_be n @ xs) (of_nat (length (nat_be n))) = Ret (of_nat n)"
proof -
  let ?k = "length (nat_be n)"
  have k: "1 \<le> ?k" "?k \<le> 8"
    using assms length_nat_be_le [of n 8] by (simp_all add: Suc_le_eq)
  then have slen: "unat (of_nat ?k :: u8) = ?k"
    by (simp add: unsigned_of_nat take_bit_nat_eq_self)
  with k have range: "1 \<le> (of_nat ?k :: u8)" "(of_nat ?k :: u8) \<le> 8"
    by (simp_all add: word_le_nat_alt)
  have "unat (join_bytes (nat_be n)) = n" using k(2) by (simp add: join_bytes_nat)
  then have "join_bytes (nat_be n) = of_nat n" by (metis of_nat_unat ucast_id)
  moreover have "\<not> (of_nat n :: u64) < 56" using assms by (simp add: word_less_nat_alt)
  moreover have "(nat_be n @ xs) ! 0 \<noteq> 0" "nat_be n \<noteq> []"
    using assms(1) nat_be_nth_0 [of n] k by (auto simp: nth_append)
  ultimately show ?thesis using range slen by (simp add: readSize_def)
qed

text \<open>The last check of \<open>readKind\<close>, on a header that is followed by its content.\<close>

lemma readKind_size:
  assumes "length buf < 2 ^ 64" and "t + n \<le> length buf"
  shows "\<not> (of_nat n :: u64) > of_nat (length buf) - of_nat t"
proof -
  have "(of_nat (length buf) :: u64) - of_nat t = of_nat (length buf - t)"
    using assms(2) by (simp add: of_nat_diff)
  moreover have "unat (of_nat (length buf - t) :: u64) = length buf - t"
    using assms by (intro unat_of_nat_64) simp
  moreover have "unat (of_nat n :: u64) = n" using assms by (intro unat_of_nat_64) simp
  ultimately show ?thesis using assms(2) by (simp only: word_less_nat_alt)
qed

lemma Split_tagged:
  assumes "readKind b = Ret (k, of_nat (length t), of_nat (length c))"
    and "b = t @ c @ rest" and "length b < 2 ^ 64"
  shows "Split b = Ret (k, c, rest)"
proof -
  have "unat (of_nat (length t) :: u64) = length t"
    "unat (of_nat (length t) + of_nat (length c) :: u64) = length t + length c"
    using assms(2,3) unat_of_nat_64 [of "length t"] unat_of_nat_64 [of "length t + length c"] by auto
  with assms(1,2) show ?thesis by (simp add: Split_def)
qed

lemma unat_tag: "unat tag + n < 256 \<Longrightarrow> unat (tag + of_nat n :: u8) = unat tag + n"
  by (simp add: unat_word_ariths unsigned_of_nat take_bit_nat_eq_self)

lemma ucast_of_nat_8: "n < 256 \<Longrightarrow> (ucast (of_nat n :: u8) :: u64) = of_nat n"
  by (simp add: unsigned_of_nat take_bit_nat_eq_self)

lemma readKind_list:
  assumes "length (rlp_list c @ rest) < 2 ^ 64"
  shows "readKind (rlp_list c @ rest) =
    Ret (List, of_nat (length (rlp_head 0xC0 0xF7 (length c))), of_nat (length c))"
proof (cases "length c < 56")
  case True
  let ?b = "0xC0 + of_nat (length c) :: u8"
  have b: "unat ?b = 0xC0 + length c" using True by (simp add: unat_tag)
  then have tags: "\<not> ?b < 0x80" "\<not> ?b < 0xB8" "\<not> ?b < 0xC0" "?b < 0xF8"
    using True by (simp_all add: word_less_nat_alt)
  have "\<not> (of_nat (length c) :: u64) > of_nat (length (rlp_list c @ rest)) - of_nat 1"
    using assms True by (intro readKind_size) (simp_all add: rlp_list_def rlp_head_def)
  with True tags show ?thesis
    by (simp add: readKind_def rlp_list_def rlp_head_def ucast_of_nat_8 Let_def)
next
  case False
  let ?k = "length (nat_be (length c))"
  let ?b = "0xF7 + of_nat ?k :: u8"
  have len: "length c < 2 ^ 64" using assms by (simp add: rlp_list_def)
  then have k: "?k \<le> 8" using length_nat_be_le [of "length c" 8] by simp
  moreover have "nat_be (length c) \<noteq> []" using False by auto
  ultimately have b: "unat ?b = 0xF7 + ?k" "1 \<le> ?k" by (simp_all add: unat_tag Suc_le_eq)
  then have tags: "\<not> ?b < 0x80" "\<not> ?b < 0xB8" "\<not> ?b < 0xC0" "\<not> ?b < 0xF8"
    using False by (auto simp: word_less_nat_alt)
  have "\<not> (of_nat (length c) :: u64) > of_nat (length (rlp_list c @ rest)) - of_nat (Suc ?k)"
    using assms False by (intro readKind_size) (simp_all add: rlp_list_def rlp_head_def)
  with False tags k len show ?thesis
    by (simp add: readKind_def rlp_list_def rlp_head_def readSize_nat_be ucast_of_nat_8 Let_def add.commute)
qed

lemma readKind_string:
  assumes "length (rlp_string c @ rest) < 2 ^ 64" and "\<not> (length c = 1 \<and> c ! 0 \<le> 0x7F)"
  shows "readKind (rlp_string c @ rest) =
    Ret (String, of_nat (length (rlp_head 0x80 0xB7 (length c))), of_nat (length c))"
proof (cases "length c < 56")
  case True
  let ?b = "0x80 + of_nat (length c) :: u8"
  have enc: "rlp_string c = ?b # c" using assms(2) True by (auto simp: rlp_string_def rlp_head_def)
  have b: "unat ?b = 0x80 + length c" using True by (simp add: unat_tag)
  then have tags: "\<not> ?b < 0x80" "?b < 0xB8"
    using True by (simp_all add: word_less_nat_alt)
  have canon: "\<not> ((of_nat (length c) :: u64) = 1 \<and> (?b # c @ rest) ! 1 < 128)"
  proof
    assume one: "(of_nat (length c) :: u64) = 1 \<and> (?b # c @ rest) ! 1 < 128"
    moreover have "length c < 2 ^ 64" using True by simp
    ultimately have "length c = 1" by (metis unat_1 unat_of_nat_64)
    then obtain x where "c = [x]" by (cases c) auto
    with one assms(2) show False by (simp add: word_less_nat_alt word_le_nat_alt)
  qed
  have "\<not> (of_nat (length c) :: u64) > of_nat (length (?b # c @ rest)) - of_nat 1"
    using assms True by (intro readKind_size) (simp_all add: enc)
  with True tags canon show ?thesis
    by (simp add: readKind_def enc rlp_head_def ucast_of_nat_8 Let_def)
next
  case False
  let ?k = "length (nat_be (length c))"
  let ?b = "0xB7 + of_nat ?k :: u8"
  have enc: "rlp_string c = ?b # nat_be (length c) @ c"
    using False by (auto simp: rlp_string_def rlp_head_def)
  have len: "length c < 2 ^ 64" using assms by (simp add: enc)
  then have k: "?k \<le> 8" using length_nat_be_le [of "length c" 8] by simp
  moreover have "nat_be (length c) \<noteq> []" using False by auto
  ultimately have b: "unat ?b = 0xB7 + ?k" "1 \<le> ?k" by (simp_all add: unat_tag Suc_le_eq)
  then have tags: "\<not> ?b < 0x80" "\<not> ?b < 0xB8" "?b < 0xC0"
    using k False by (auto simp: word_less_nat_alt)
  have "\<not> (of_nat (length c) :: u64) > of_nat (length (rlp_string c @ rest)) - of_nat (Suc ?k)"
    using assms False by (intro readKind_size) (simp_all add: enc)
  with False tags k len show ?thesis
    by (simp add: readKind_def enc rlp_head_def readSize_nat_be ucast_of_nat_8 Let_def add.commute)
qed

lemma readKind_byte: "x \<le> 0x7F \<Longrightarrow> length (x # rest) < 2 ^ 64 \<Longrightarrow> readKind (x # rest) = Ret (Byte, 0, 1)"
proof -
  assume x: "x \<le> 0x7F" and len: "length (x # rest) < 2 ^ 64"
  have "\<not> (of_nat 1 :: u64) > of_nat (length (x # rest)) - of_nat 0"
    using len by (intro readKind_size) simp_all
  moreover have "x < 0x80" using x by (simp add: word_less_nat_alt word_le_nat_alt)
  ultimately show ?thesis by (simp add: readKind_def)
qed

text \<open>
  The items of the format: everything but raw bytes and tails.  An item is a string or a
  list with a content.
\<close>

fun is_item :: "rval \<Rightarrow> bool" where
  "is_item (RawVal b) = False"
| "is_item (TailVal vs) = False"
| "is_item (PtrVal k (Some v)) = is_item v"
| "is_item (InterfaceVal (Some v)) = is_item v"
| "is_item v = True"

fun is_list :: "rval \<Rightarrow> bool" where
  "is_list (SliceVal vs) = True"
| "is_list (StructVal n vs) = True"
| "is_list (PtrVal k None) = (k = List)"
| "is_list (PtrVal k (Some v)) = is_list v"
| "is_list (InterfaceVal None) = True"
| "is_list (InterfaceVal (Some v)) = is_list v"
| "is_list v = False"

fun content :: "rval \<Rightarrow> bytes" where
  "content (BigIntVal (Some i)) = nat_be (nat i)"
| "content (UintVal i) = nat_be (unat i)"
| "content (BoolVal b) = nat_be (of_bool b)"
| "content (StringVal s) = s"
| "content (BytesVal (Some b)) = b"
| "content (ByteArrayVal b) = b"
| "content (SliceVal (Some vs)) = concat (map rlp_enc vs)"
| "content (StructVal n vs) = concat (map rlp_enc (written_fields n vs))"
| "content (PtrVal k (Some v)) = content v"
| "content (InterfaceVal (Some v)) = content v"
| "content v = []"

lemma rlp_enc_item:
  "is_item v \<Longrightarrow> rlp_enc v = (if is_list v then rlp_list (content v) else rlp_string (content v))"
  by (induction v rule: rlp_enc.induct) (auto split: option.splits)

definition item_kind :: "rval \<Rightarrow> kind" where
  "item_kind v =
     (if is_list v then List
      else if length (content v) = 1 \<and> content v ! 0 \<le> 0x7F then Byte else String)"

lemma readKind_item:
  assumes "is_item v" and "length (rlp_enc v @ rest) < 2 ^ 64"
  shows "\<exists>t. rlp_enc v = t @ content v \<and>
    readKind (rlp_enc v @ rest) = Ret (item_kind v, of_nat (length t), of_nat (length (content v)))"
proof (cases "is_list v")
  case True
  with assms have "rlp_enc v = rlp_list (content v)" by (simp add: rlp_enc_item)
  with assms True show ?thesis
    using readKind_list [of "content v" rest] by (simp add: item_kind_def rlp_list_def)
next
  case string: False
  with assms(1) have enc: "rlp_enc v = rlp_string (content v)" by (simp add: rlp_enc_item)
  show ?thesis
  proof (cases "length (content v) = 1 \<and> content v ! 0 \<le> 0x7F")
    case True
    then obtain x where x: "content v = [x]" by (cases "content v") auto
    with True enc have "rlp_enc v = [] @ content v" by (simp add: rlp_string_def)
    with True x assms(2) string show ?thesis
      by (intro exI [of _ "[]"]) (simp add: readKind_byte item_kind_def)
  next
    case False
    then have "rlp_enc v = rlp_head 0x80 0xB7 (length (content v)) @ content v"
      using enc by (auto simp: rlp_string_def)
    moreover have "readKind (rlp_enc v @ rest) = Ret (item_kind v,
        of_nat (length (rlp_head 0x80 0xB7 (length (content v)))), of_nat (length (content v)))"
      using readKind_string [of "content v" rest] False assms(2) string
      by (simp only: enc item_kind_def) simp
    ultimately show ?thesis by blast
  qed
qed

lemma Split_item:
  assumes "is_item v" and "length (rlp_enc v @ rest) < 2 ^ 64"
  shows "Split (rlp_enc v @ rest) = Ret (item_kind v, content v, rest)"
  using readKind_item [OF assms] assms(2) by (auto intro!: Split_tagged)

lemma rlp_enc_nonempty: "is_item v \<Longrightarrow> rlp_enc v \<noteq> []"
  by (auto simp: rlp_enc_item rlp_list_def rlp_string_def rlp_head_def)

lemma CountValues_loop_items:
  assumes "\<And>v. v \<in> set vs \<Longrightarrow> is_item v" and "length (concat (map rlp_enc vs)) < 2 ^ 64"
    and "length (concat (map rlp_enc vs)) \<le> fuel"
  shows "CountValues_loop fuel (concat (map rlp_enc vs)) i = Ret (i + length vs)"
  using assms
proof (induction vs arbitrary: fuel i)
  case Nil
  then show ?case by (simp add: CountValues_loop.simps)
next
  case (Cons v vs)
  let ?rest = "concat (map rlp_enc vs)"
  have v: "is_item v" and len: "length (rlp_enc v @ ?rest) < 2 ^ 64" using Cons.prems by simp_all
  obtain t where t: "rlp_enc v = t @ content v"
    "readKind (rlp_enc v @ ?rest) = Ret (item_kind v, of_nat (length t), of_nat (length (content v)))"
    using readKind_item [OF v len] by blast
  have ne: "0 < length (rlp_enc v)" using rlp_enc_nonempty [OF v] by simp
  with Cons.prems(3) obtain f where f: "fuel = Suc f" by (cases fuel) auto
  have "unat (of_nat (length t) + of_nat (length (content v)) :: u64) = length (rlp_enc v)"
    using len t(1) unat_of_nat_64 [of "length t + length (content v)"] by auto
  with t(2) ne f have "CountValues_loop fuel (rlp_enc v @ ?rest) i = CountValues_loop f ?rest (Suc i)"
    by (subst CountValues_loop.simps) simp
  also have "length ?rest \<le> f"
    using Cons.prems(3) ne unfolding f by (simp only: list.map concat.simps length_append)
  then have "CountValues_loop f ?rest (Suc i) = Ret (Suc i + length vs)"
    using Cons.prems(1,2) by (intro Cons.IH) auto
  finally show ?case by simp
qed

lemma CountValues_items:
  "(\<And>v. v \<in> set vs \<Longrightarrow> is_item v) \<Longrightarrow> length (concat (map rlp_enc vs)) < 2 ^ 64 \<Longrightarrow>
   CountValues (concat (map rlp_enc vs)) = Ret (length vs)"
  by (simp add: CountValues_def CountValues_loop_items)

lemma AppendUint64_enc: "AppendUint64 b i = b @ rlp_enc (UintVal i)"
proof -
  have "AppendUint64 [] i = eb_str (encodeUint i empty_encbuf)"
    by (simp add: AppendUint64_def encodeUint_def putint_def encbuf_append_def empty_encbuf_def
        low_bytes_fill)
  then have "AppendUint64 [] i = rlp_enc (UintVal i)"
    by (simp add: encodeUint_rlp encbuf_append_def empty_encbuf_def)
  moreover have "AppendUint64 b i = b @ AppendUint64 [] i" by (simp add: AppendUint64_def)
  ultimately show ?thesis by simp
qed

lemma SplitUint64_enc:
  assumes "length (rlp_enc (UintVal i) @ rest) < 2 ^ 64"
  shows "SplitUint64 (rlp_enc (UintVal i) @ rest) = Ret (i, rest)"
proof -
  let ?b = "nat_be (unat i)"
  have "Split (rlp_enc (UintVal i) @ rest) = Ret (item_kind (UintVal i), ?b, rest)"
    using Split_item [of "UintVal i" rest] assms by simp
  then have str: "SplitString (rlp_enc (UintVal i) @ rest) = Ret (?b, rest)"
    by (simp add: SplitString_def item_kind_def)
  have small: "unat i < 2 ^ 64" using unsigned_less [of i, where ?'a = nat] by simp
  then have len: "length ?b \<le> 8" using length_nat_be_le [of "unat i" 8] by simp
  consider "unat i = 0" | "0 < unat i" "unat i < 256" | "256 \<le> unat i" by linarith
  then show ?thesis
  proof cases
    case 1
    then show ?thesis using str by (simp add: SplitUint64_def unat_eq_0)
  next
    case 2
    then have b: "?b = [of_nat (unat i)]" by (simp add: nat_be_small del: of_nat_unat)
    have "(ucast (of_nat (unat i) :: u8) :: u64) = i"
      using 2 by (simp add: ucast_of_nat_8 del: of_nat_unat) simp
    moreover have "(of_nat (unat i) :: u8) \<noteq> 0" using nat_be_nth_0 [of "unat i"] 2 b by simp
    ultimately show ?thesis using str b by (simp add: SplitUint64_def)
  next
    case 3
    then have "nat_be (unat i div 256) \<noteq> []" by simp
    then have "length ?b \<noteq> 0" "length ?b \<noteq> 1" using 3 by (subst nat_be.simps, simp)+
    moreover have "readSize ?b (of_nat (length ?b)) = Ret i"
      using readSize_nat_be [of "unat i" "[]"] 3 small by simp
    ultimately show ?thesis using str len by (simp add: SplitUint64_def)
  qed
qed

text \<open>
  C38: What \<open>EncodeToBytes\<close> writes for a struct, followed by any other bytes, is taken apart
  again: \<open>SplitList\<close> returns the content and the other bytes, the content is the encodings
  of the written fields one after the other, \<open>CountValues\<close> counts them, and \<open>Split\<close> returns
  the content of the first field and the encodings of the others.
\<close>

theorem encoded_struct_taken_apart:
  assumes "EncodeToBytes pooled (StructVal n vs) = Ret e"
    and "written_fields n vs = v # ws" and "\<forall>x \<in> set (v # ws). is_item x"
    and "length (rlp_enc (StructVal n vs) @ rest) < 2 ^ 64"
  shows "\<exists>c. SplitList (e @ rest) = Ret (c, rest) \<and> c = concat (map rlp_enc (v # ws)) \<and>
    CountValues c = Ret (length (v # ws)) \<and>
    Split c = Ret (item_kind v, content v, concat (map rlp_enc ws))"
proof -
  let ?s = "StructVal n vs" and ?c = "concat (map rlp_enc (v # ws))"
  have len: "length (rlp_enc ?s) < 2 ^ 64" using assms(4) by simp
  have "is_ok (rlp_write ?s (encbuf_reset pooled))"
    using assms(1) unfolding EncodeToBytes_def by (metis bind_not_ok is_ok_simps(1))
  then have "encodable ?s" using rlp_write_not_ok by blast
  with assms(1) len have e: "e = rlp_enc ?s" using Encode_rlp_enc(1) [of ?s pooled] by simp
  have "Split (e @ rest) = Ret (List, ?c, rest)"
    using Split_item [of ?s rest] assms(2,4) by (simp add: e item_kind_def)
  then have "SplitList (e @ rest) = Ret (?c, rest)" by (simp add: SplitList_def)
  moreover have clen: "length ?c < 2 ^ 64" using len assms(2) length_rlp_list [of ?c] by simp
  then have "CountValues ?c = Ret (length (v # ws))"
    using assms(3) by (intro CountValues_items) auto
  moreover have "Split ?c = Ret (item_kind v, content v, concat (map rlp_enc ws))"
    using Split_item [of v "concat (map rlp_enc ws)"] assms(3) clen by simp
  ultimately show ?thesis by blast
qed

theorem encoded_struct_taken_apart_witness:
  "\<exists>c. SplitList ([0xC4, 0x82, 4, 0, 97] @ [7]) = Ret (c, [7]) \<and>
     c = concat (map rlp_enc [UintVal 1024, StringVal [97]]) \<and>
     CountValues c = Ret (length [UintVal 1024, StringVal [97]]) \<and>
     Split c = Ret (item_kind (UintVal 1024), content (UintVal 1024), concat (map rlp_enc [StringVal [97]]))"
proof -
  have fields: "written_fields 2 [UintVal 1024, StringVal [97]] = [UintVal 1024, StringVal [97]]"
    by (subst written_fields.simps) simp
  then have enc: "rlp_enc (StructVal 2 [UintVal 1024, StringVal [97]]) = [0xC4, 0x82, 4, 0, 97]"
    by (simp add: rlp_list_def rlp_head_def rlp_string_def nat_be.simps)
  with fields have "EncodeToBytes empty_encbuf (StructVal 2 [UintVal 1024, StringVal [97]]) =
      Ret [0xC4, 0x82, 4, 0, 97]"
    using Encode_rlp_enc(1) [of "StructVal 2 [UintVal 1024, StringVal [97]]"] by simp
  from encoded_struct_taken_apart [OF this fields, of "[7]"] enc show ?thesis by simp
qed

text \<open>
  The integer \<open>AppendUint64\<close> appends to a byte string is what \<open>encodeUint\<close> writes for it,
  and \<open>SplitUint64\<close> reads it back, whatever follows.
\<close>

lemma SplitUint64_AppendUint64:
  assumes "length (AppendUint64 [] i @ rest) < 2 ^ 64"
  shows "AppendUint64 b i = b @ eb_str (encodeUint i empty_encbuf)"
    and "SplitUint64 (AppendUint64 [] i @ rest) = Ret (i, rest)"
  using assms SplitUint64_enc [of i rest]
  by (simp_all add: AppendUint64_enc encodeUint_rlp encbuf_append_def empty_encbuf_def)

text \<open>Encodings of items followed by other bytes determine the content of the item.\<close>

lemma rlp_enc_item_inj:
  assumes "is_item v" and "is_item w" and "rlp_enc v @ r = rlp_enc w @ s"
    and "length (rlp_enc v @ r) < 2 ^ 64"
  shows "item_kind v = item_kind w \<and> content v = content w \<and> r = s"
  using Split_item [of v r] Split_item [of w s] assms by simp

lemma concat_enc_inj:
  assumes "concat (map rlp_enc vs) = concat (map rlp_enc ws)"
    and "\<forall>v \<in> set vs. is_item v" and "\<forall>w \<in> set ws. is_item w"
    and "length (concat (map rlp_enc vs)) < 2 ^ 64"
  shows "map content vs = map content ws"
  using assms
proof (induction vs arbitrary: ws)
  case Nil
  then show ?case by (cases ws) (auto dest: rlp_enc_nonempty)
next
  case (Cons v vs)
  then obtain w ws' where ws: "ws = w # ws'"
    by (cases ws) (auto dest: rlp_enc_nonempty)
  with Cons.prems have eq: "content v = content w \<and> concat (map rlp_enc vs) = concat (map rlp_enc ws')"
    using rlp_enc_item_inj [of v w "concat (map rlp_enc vs)" "concat (map rlp_enc ws')"] by auto
  have "map content vs = map content ws'" using Cons eq ws by (intro Cons.IH) auto
  with eq ws show ?case by simp
qed

lemma nat_be_inj [simp]: "nat_be m = nat_be n \<longleftrightarrow> m = n"
  by (metis be_nat_nat_be)

end
