(* ===== verification/GethTypes.thy ===== *)
theory GethTypes
  imports Rlp
begin

text \<open>
  Block headers of Ethereum (\<open>core/types/block.go\<close>), their hashes, the fork schedule of a
  chain (\<open>params/config.go\<close>).

  A \<open>*big.Int\<close> is an \<open>int option\<close> whose \<open>None\<close> is nil; hashes, addresses and nonces are
  byte strings of length 32, 20 and 8.  Keccak-256, from \<open>golang.org/x/crypto\<close>, is an
  argument of what hashes.
\<close>

subsection \<open>Headers\<close>

type_synonym address = bytes
type_synonym hash = bytes

record eth_header =
  ParentHash :: hash
  UncleHash :: hash
  Coinbase :: address
  Root :: hash
  TxHash :: hash
  ReceiptHash :: hash
  Bloom :: bytes
  Difficulty :: "int option"
  Number :: "int option"
  GasLimit :: u64
  GasUsed :: u64
  Time :: u64
  Extra :: bytes
  MixDigest :: hash
  Nonce :: bytes
  BaseFee :: "int option"

definition zero_hash :: hash where
  "zero_hash = replicate 32 0"

definition zero_address :: address where
  "zero_address = replicate 20 0"

text \<open>The types of the fields: what the Go types of a header guarantee.\<close>

definition header_typed :: "eth_header \<Rightarrow> bool" where
  "header_typed h \<longleftrightarrow>
     length (ParentHash h) = 32 \<and> length (UncleHash h) = 32 \<and> length (Coinbase h) = 20 \<and>
     length (Root h) = 32 \<and> length (TxHash h) = 32 \<and> length (ReceiptHash h) = 32 \<and>
     length (Bloom h) = 256 \<and> length (MixDigest h) = 32 \<and> length (Nonce h) = 8"

text \<open>The struct as the encoder sees it: \<open>BaseFee\<close>, the last field, is optional.\<close>

definition header_rval :: "eth_header \<Rightarrow> rval" where
  "header_rval h = StructVal 15
     [ByteArrayVal (ParentHash h), ByteArrayVal (UncleHash h), ByteArrayVal (Coinbase h),
      ByteArrayVal (Root h), ByteArrayVal (TxHash h), ByteArrayVal (ReceiptHash h),
      ByteArrayVal (Bloom h), BigIntVal (Difficulty h), BigIntVal (Number h),
      UintVal (GasLimit h), UintVal (GasUsed h), UintVal (Time h), BytesVal (Some (Extra h)),
      ByteArrayVal (MixDigest h), ByteArrayVal (Nonce h), BigIntVal (BaseFee h)]"

text \<open>
  \<open>rlpHash\<close>: the error of the encoder is dropped, and then nothing has been written to the
  hash.  The nil slice of headers behind \<open>EmptyUncleHash\<close> is \<open>SliceVal None\<close>.
\<close>

definition rlpHash :: "(bytes \<Rightarrow> hash) \<Rightarrow> rval \<Rightarrow> hash" where
  "rlpHash keccak x = keccak (case Encode empty_encbuf x of Ret b \<Rightarrow> b | _ \<Rightarrow> [])"

definition Header_Hash :: "(bytes \<Rightarrow> hash) \<Rightarrow> eth_header \<Rightarrow> hash" where
  "Header_Hash keccak h = rlpHash keccak (header_rval h)"

definition EmptyUncleHash :: "(bytes \<Rightarrow> hash) \<Rightarrow> hash" where
  "EmptyUncleHash keccak = rlpHash keccak (SliceVal None)"

definition CalcUncleHash :: "(bytes \<Rightarrow> hash) \<Rightarrow> eth_header list \<Rightarrow> hash" where
  "CalcUncleHash keccak uncles =
     (if length uncles = 0 then EmptyUncleHash keccak
      else rlpHash keccak (SliceVal (Some (map (\<lambda>h. PtrVal List (Some (header_rval h))) uncles))))"

definition CopyHeader :: "eth_header \<Rightarrow> eth_header" where
  "CopyHeader h = h\<lparr>
     Difficulty := (case Difficulty h of None \<Rightarrow> Some 0 | Some d \<Rightarrow> Some d),
     Number := (case Number h of None \<Rightarrow> Some 0 | Some n \<Rightarrow> Some n)\<rparr>"

definition bitlen_above :: "nat \<Rightarrow> int option \<Rightarrow> bool" where
  "bitlen_above n p = (case p of None \<Rightarrow> False | Some i \<Rightarrow> nat_BitLen (nat \<bar>i\<bar>) > n)"

definition header_SanityCheck :: "eth_header \<Rightarrow> unit go" where
  "header_SanityCheck h =
     (if (case Number h of None \<Rightarrow> False | Some n \<Rightarrow> \<not> (0 \<le> n \<and> n < 2 ^ 64))
      then Err (Errorf ''too large block number'')
      else if bitlen_above 80 (Difficulty h) then Err (Errorf ''too large block difficulty'')
      else if length (Extra h) > 100 * 1024 then Err (Errorf ''too large block extradata'')
      else if bitlen_above 256 (BaseFee h) then Err (Errorf ''too large base fee'')
      else Ret ())"

text \<open>\<open>big.Int.Uint64\<close>: the low 64 bits of the absolute value; a nil pointer panics.\<close>

definition big_Uint64 :: "int option \<Rightarrow> u64 go" where
  "big_Uint64 p = go_bind (deref p) (\<lambda>i. Ret (of_int \<bar>i\<bar>))"

subsection \<open>The fork schedule\<close>

record chain_config =
  HomesteadBlock :: "int option"
  DAOForkBlock :: "int option"
  DAOForkSupport :: bool
  EIP150Block :: "int option"
  EIP150Hash :: hash
  EIP158Block :: "int option"
  ByzantiumBlock :: "int option"
  ConstantinopleBlock :: "int option"
  MuirGlacierBlock :: "int option"
  LondonBlock :: "int option"
  CatalystBlock :: "int option"

definition isForked :: "int option \<Rightarrow> int option \<Rightarrow> bool" where
  "isForked s head = (case (s, head) of (Some a, Some b) \<Rightarrow> a \<le> b | _ \<Rightarrow> False)"

definition IsHomestead :: "chain_config \<Rightarrow> int option \<Rightarrow> bool" where
  "IsHomestead c num = isForked (HomesteadBlock c) num"

definition IsEIP158 :: "chain_config \<Rightarrow> int option \<Rightarrow> bool" where
  "IsEIP158 c num = isForked (EIP158Block c) num"

definition IsByzantium :: "chain_config \<Rightarrow> int option \<Rightarrow> bool" where
  "IsByzantium c num = isForked (ByzantiumBlock c) num"

definition IsConstantinople :: "chain_config \<Rightarrow> int option \<Rightarrow> bool" where
  "IsConstantinople c num = isForked (ConstantinopleBlock c) num"

definition IsMuirGlacier :: "chain_config \<Rightarrow> int option \<Rightarrow> bool" where
  "IsMuirGlacier c num = isForked (MuirGlacierBlock c) num"

definition IsLondon :: "chain_config \<Rightarrow> int option \<Rightarrow> bool" where
  "IsLondon c num = isForked (LondonBlock c) num"

definition IsCatalyst :: "chain_config \<Rightarrow> int option \<Rightarrow> bool" where
  "IsCatalyst c num = isForked (CatalystBlock c) num"

subsection \<open>What a hash determines\<close>

text \<open>
  A nil integer is encoded like zero.  Up to that, and up to collisions of the hash
  function, the hash of a header determines every field.
\<close>

definition non_nil :: "int option \<Rightarrow> int" where
  "non_nil p = (case p of None \<Rightarrow> 0 | Some i \<Rightarrow> i)"

definition header_nonneg :: "eth_header \<Rightarrow> bool" where
  "header_nonneg h \<longleftrightarrow>
     0 \<le> non_nil (Difficulty h) \<and> 0 \<le> non_nil (Number h) \<and> 0 \<le> non_nil (BaseFee h)"

lemma header_fields_written:
  "written_fields 15 (a @ [BigIntVal b]) = (if b = None then a else a @ [BigIntVal b])"
  if "length a = 15"
proof -
  have "written_fields 15 a = a" using that by (subst written_fields.simps) simp
  with that show ?thesis by (subst written_fields.simps) simp
qed

lemma content_BigIntVal: "content (BigIntVal p) = nat_be (nat (non_nil p))"
  by (cases p) (simp_all add: non_nil_def nat_be.simps)

end
