(* ===== verification/GethMisc.thy ===== *)
theory GethMisc
  imports GethTypes
begin

text \<open>
  The header rules both consensus engines share (\<open>consensus/misc\<close>): \<open>gaslimit.go\<close>,
  \<open>eip1559.go\<close>, \<open>forks.go\<close> and the header check of \<open>dao.go\<close>, with the constants of
  \<open>params\<close>.  Gas amounts are 64-bit words and wrap around as in the code; the base fee is an
  unbounded integer.
\<close>

subsection \<open>Constants\<close>

definition GasLimitBoundDivisor :: u64 where "GasLimitBoundDivisor = 1024"
definition MinGasLimit :: u64 where "MinGasLimit = 5000"
definition BaseFeeChangeDenominator :: int where "BaseFeeChangeDenominator = 8"
definition ElasticityMultiplier :: u64 where "ElasticityMultiplier = 2"
definition InitialBaseFee :: int where "InitialBaseFee = 1000000000"
definition DAOForkExtraRange :: int where "DAOForkExtraRange = 10"

definition DAOForkBlockExtra :: bytes where
  "DAOForkBlockExtra = [0x64, 0x61, 0x6f, 0x2d, 0x68, 0x61, 0x72, 0x64, 0x2d, 0x66, 0x6f, 0x72, 0x6b]"

lemmas params_defs =
  GasLimitBoundDivisor_def MinGasLimit_def BaseFeeChangeDenominator_def ElasticityMultiplier_def
  InitialBaseFee_def

subsection \<open>Rules\<close>

text \<open>The difference is taken on \<open>int64\<close>, where a limit of \<open>2 ^ 63\<close> or more is negative.\<close>

definition VerifyGaslimit :: "u64 \<Rightarrow> u64 \<Rightarrow> unit go" where
  "VerifyGaslimit parentGasLimit headerGasLimit =
     (let diff = parentGasLimit - headerGasLimit;
          diff' = (if sint diff < 0 then diff * (- 1) else diff);
          limit = parentGasLimit div GasLimitBoundDivisor in
      if diff' \<ge> limit then Err (Errorf ''invalid gas limit'')
      else if headerGasLimit < MinGasLimit then Err (Errorf ''invalid gas limit below 5000'')
      else Ret ())"

text \<open>\<open>big.Int.Div\<close>: division by zero panics; a positive divisor rounds down.\<close>

definition big_Div :: "int \<Rightarrow> int \<Rightarrow> int go" where
  "big_Div x y = (if y = 0 then Panic ''division by zero'' else Ret (x div y))"

definition CalcBaseFee :: "chain_config \<Rightarrow> eth_header \<Rightarrow> int go" where
  "CalcBaseFee config parent =
     (if \<not> IsLondon config (Number parent) then Ret InitialBaseFee
      else let parentGasTarget = GasLimit parent div ElasticityMultiplier in
        if GasUsed parent = parentGasTarget then deref (BaseFee parent)
        else if GasUsed parent > parentGasTarget then
          let gasUsedDelta = int (unat (GasUsed parent - parentGasTarget)) in
          go_bind (deref (BaseFee parent)) (\<lambda>baseFee.
          go_bind (big_Div (baseFee * gasUsedDelta) (int (unat parentGasTarget))) (\<lambda>y.
          go_bind (big_Div y BaseFeeChangeDenominator) (\<lambda>z.
          Ret (baseFee + max z 1))))
        else
          let gasUsedDelta = int (unat (parentGasTarget - GasUsed parent)) in
          go_bind (deref (BaseFee parent)) (\<lambda>baseFee.
          go_bind (big_Div (baseFee * gasUsedDelta) (int (unat parentGasTarget))) (\<lambda>y.
          go_bind (big_Div y BaseFeeChangeDenominator) (\<lambda>baseFeeDelta.
          Ret (max (baseFee - baseFeeDelta) 0)))))"

definition VerifyEip1559Header :: "chain_config \<Rightarrow> eth_header \<Rightarrow> eth_header \<Rightarrow> unit go" where
  "VerifyEip1559Header config parent header =
     (let parentGasLimit =
        (if \<not> IsLondon config (Number parent) then GasLimit parent * ElasticityMultiplier
         else GasLimit parent) in
      go_bind (VerifyGaslimit parentGasLimit (GasLimit header)) (\<lambda>_.
      case BaseFee header of None \<Rightarrow> Err (Errorf ''header is missing baseFee'')
      | Some baseFee \<Rightarrow>
          go_bind (CalcBaseFee config parent) (\<lambda>expectedBaseFee.
          if baseFee \<noteq> expectedBaseFee then Err (Errorf ''invalid baseFee'') else Ret ())))"

definition VerifyForkHashes :: "(bytes \<Rightarrow> hash) \<Rightarrow> chain_config \<Rightarrow> eth_header \<Rightarrow> bool \<Rightarrow> unit go" where
  "VerifyForkHashes keccak config header uncle =
     (if uncle then Ret ()
      else case EIP150Block config of None \<Rightarrow> Ret ()
      | Some fork \<Rightarrow>
          go_bind (deref (Number header)) (\<lambda>number.
          if fork = number \<and> EIP150Hash config \<noteq> zero_hash \<and>
             EIP150Hash config \<noteq> Header_Hash keccak header
          then Err (Errorf ''homestead gas reprice fork'') else Ret ()))"

definition ErrBadProDAOExtra :: error where
  "ErrBadProDAOExtra = Errorf ''bad DAO pro-fork extra-data''"

definition ErrBadNoDAOExtra :: error where
  "ErrBadNoDAOExtra = Errorf ''bad DAO no-fork extra-data''"

definition VerifyDAOHeaderExtraData :: "chain_config \<Rightarrow> eth_header \<Rightarrow> unit go" where
  "VerifyDAOHeaderExtraData config header =
     (case DAOForkBlock config of None \<Rightarrow> Ret ()
      | Some fork \<Rightarrow>
          let limit = fork + DAOForkExtraRange in
          go_bind (deref (Number header)) (\<lambda>number.
          if number < fork \<or> number \<ge> limit then Ret ()
          else if DAOForkSupport config then
            (if Extra header \<noteq> DAOForkBlockExtra then Err ErrBadProDAOExtra else Ret ())
          else if Extra header = DAOForkBlockExtra then Err ErrBadNoDAOExtra
          else Ret ()))"

subsection \<open>The gas limit\<close>

lemma mod_above: "M \<le> x \<Longrightarrow> x < 2 * M \<Longrightarrow> x mod M = x - (M :: int)"
  using mod_pos_pos_trivial [of "x - M" M] by simp

lemma mod_below: "- M \<le> x \<Longrightarrow> x < 0 \<Longrightarrow> x mod M = x + (M :: int)"
  using mod_pos_pos_trivial [of "x + M" M] by simp

lemma uint_bounds: "0 \<le> uint (w :: u64)" "uint (w :: u64) < 2 ^ 64"
  using unsigned_less [of w, where ?'a = int] by simp_all

lemma sint_negative_iff: "sint (w :: u64) < 0 \<longleftrightarrow> 2 ^ 63 \<le> uint w"
proof -
  have eq: "sint w = (uint w + 2 ^ 63) mod 2 ^ 64 - 2 ^ 63"
    by (simp add: sint_uint signed_take_bit_eq_take_bit_shift take_bit_eq_mod)
  show ?thesis
  proof (cases "uint w < 2 ^ 63")
    case True
    then have "(uint w + 2 ^ 63) mod 2 ^ 64 = uint w + 2 ^ 63"
      using uint_bounds [of w] by (intro mod_pos_pos_trivial) simp_all
    with True eq uint_bounds [of w] show ?thesis by simp
  next
    case False
    then have "(uint w + 2 ^ 63) mod 2 ^ 64 = uint w + 2 ^ 63 - 2 ^ 64"
      using uint_bounds [of w] by (intro mod_above) simp_all
    with False eq uint_bounds [of w] show ?thesis by simp
  qed
qed

lemma uint_diff:
  "uint (p - h :: u64) = (if uint h \<le> uint p then uint p - uint h else uint p - uint h + 2 ^ 64)"
proof -
  have eq: "uint (p - h) = (uint p - uint h) mod 2 ^ 64" by (simp add: uint_word_ariths)
  show ?thesis
  proof (cases "uint h \<le> uint p")
    case True
    then have "(uint p - uint h) mod 2 ^ 64 = uint p - uint h"
      using uint_bounds [of p] uint_bounds [of h] by (intro mod_pos_pos_trivial) linarith+
    with True eq show ?thesis by simp
  next
    case False
    then have "(uint p - uint h) mod 2 ^ 64 = uint p - uint h + 2 ^ 64"
      using uint_bounds [of p] uint_bounds [of h] by (intro mod_below) linarith+
    with False eq show ?thesis by simp
  qed
qed

lemma uint_neg: "uint (- w :: u64) = (if uint w = 0 then 0 else 2 ^ 64 - uint w)"
proof -
  have eq: "uint (- w) = (- uint w) mod 2 ^ 64" by (simp add: uint_word_ariths)
  show ?thesis
  proof (cases "uint w = 0")
    case False
    then have "(- uint w) mod 2 ^ 64 = - uint w + 2 ^ 64"
      using uint_bounds [of w] by (intro mod_below) linarith+
    with False eq show ?thesis by simp
  qed (simp add: eq)
qed

text \<open>The distance of two words on the circle of 64-bit words.\<close>

definition word_distance :: "u64 \<Rightarrow> u64 \<Rightarrow> int" where
  "word_distance p h =
     min \<bar>int (unat p) - int (unat h)\<bar> (2 ^ 64 - \<bar>int (unat p) - int (unat h)\<bar>)"

lemma abs_diff_word:
  "int (unat (if sint (p - h) < 0 then (p - h) * (- 1) else p - h)) = word_distance p h"
proof -
  have "uint (if sint (p - h) < 0 then (p - h) * (- 1) else p - h) =
      (if 2 ^ 63 \<le> uint (p - h) then 2 ^ 64 - uint (p - h) else uint (p - h))"
    using uint_neg [of "p - h"] by (simp add: sint_negative_iff del: minus_diff_eq)
  then show ?thesis
    using uint_bounds [of p] uint_bounds [of h]
    by (simp add: uint_diff word_distance_def flip: uint_nat)
qed

lemma VerifyGaslimit_distance:
  "VerifyGaslimit p h = Ret () \<longleftrightarrow> word_distance p h < int (unat p div 1024) \<and> 5000 \<le> unat h"
proof -
  let ?d = "if sint (p - h) < 0 then (p - h) * (- 1) else p - h"
  have "?d \<ge> p div 1024 \<longleftrightarrow> \<not> word_distance p h < int (unat p div 1024)"
    using abs_diff_word [of p h]
    by (simp only: word_le_nat_alt unat_div) (simp add: not_less flip: zdiv_int of_nat_le_iff [where ?'a = int])
  moreover have "h < 5000 \<longleftrightarrow> \<not> 5000 \<le> unat h" by (simp add: word_less_nat_alt not_le)
  ultimately show ?thesis by (simp only: VerifyGaslimit_def Let_def params_defs guard_Ret_iff simp_thms)
qed

text \<open>Between limits below \<open>2 ^ 63\<close> the distance is the difference.\<close>

lemma word_distance_small:
  "unat p < 2 ^ 63 \<Longrightarrow> unat h < 2 ^ 63 \<Longrightarrow> word_distance p h = \<bar>int (unat p) - int (unat h)\<bar>"
proof -
  assume "unat p < 2 ^ 63" "unat h < 2 ^ 63"
  then have "uint p < 2 ^ 63" "uint h < 2 ^ 63"
    using of_nat_less_iff [of "unat p" "2 ^ 63", where ?'a = int]
      of_nat_less_iff [of "unat h" "2 ^ 63", where ?'a = int] by simp_all
  moreover have "min \<bar>a - b\<bar> (2 ^ 64 - \<bar>a - b\<bar>) = \<bar>a - b\<bar>"
    if "0 \<le> a" "a < 2 ^ 63" "0 \<le> b" "b < 2 ^ 63" for a b :: int
    using that by (simp add: abs_if min_def)
  ultimately show ?thesis
    using uint_bounds(1) [of p] uint_bounds(1) [of h] by (simp only: word_distance_def flip: uint_nat)
qed

text \<open>
  C40: \<open>VerifyGaslimit\<close> accepts a gas limit of at least 5000 whose distance from the parent's
  is less than a 1024th of the parent's, where the distance is taken on the circle of
  64-bit words.  For limits below \<open>2 ^ 63\<close> this is the difference of the two limits.  It is
  not when the parent's limit is doubled at the London fork: the largest limit the engines
  accept in a parent, \<open>2 ^ 63 - 1\<close>, may then be followed by a limit of 5000.
\<close>

theorem VerifyGaslimit_accepts_iff:
  "(VerifyGaslimit p h = Ret () \<longleftrightarrow>
      word_distance p h < int (unat p div 1024) \<and> 5000 \<le> unat h) \<and>
   (unat p < 2 ^ 63 \<and> unat h < 2 ^ 63 \<longrightarrow>
      word_distance p h = \<bar>int (unat p) - int (unat h)\<bar>) \<and>
   VerifyGaslimit (0x7FFFFFFFFFFFFFFF * ElasticityMultiplier) 5000 = Ret ()"
proof -
  have "VerifyGaslimit (0x7FFFFFFFFFFFFFFF * ElasticityMultiplier) 5000 = Ret ()"
    by (simp add: VerifyGaslimit_distance word_distance_def ElasticityMultiplier_def)
  then show ?thesis using VerifyGaslimit_distance word_distance_small by blast
qed

theorem VerifyGaslimit_accepts_iff_witness:
  "VerifyGaslimit 30000000 30029000 = Ret () \<and> VerifyGaslimit 30000000 30029296 \<noteq> Ret ()"
  using VerifyGaslimit_accepts_iff [of 30000000 30029000] VerifyGaslimit_accepts_iff [of 30000000 30029296]
  by (simp add: word_distance_def)

subsection \<open>The base fee\<close>

lemma VerifyEip1559Header_Ret_iff:
  "VerifyEip1559Header config parent header = Ret () \<longleftrightarrow>
     VerifyGaslimit (if IsLondon config (Number parent) then GasLimit parent
        else GasLimit parent * ElasticityMultiplier) (GasLimit header) = Ret () \<and>
     (\<exists>f. BaseFee header = Some f \<and> CalcBaseFee config parent = Ret f)"
  by (auto simp: VerifyEip1559Header_def go_simps guard_Ret_iff split: option.splits)

text \<open>The share of the base fee by which it moves.\<close>

lemma fee_delta_bound:
  fixes b d t :: int
  assumes "0 \<le> b" "0 \<le> d" "d \<le> t" "0 < t"
  shows "0 \<le> b * d div t div 8" and "b * d div t div 8 \<le> b div 8"
proof -
  have "b * d \<le> b * t" using assms by (intro mult_left_mono) auto
  then have "b * d div t \<le> b" using assms(4) by (metis nonzero_mult_div_cancel_right order_less_irrefl zdiv_mono1)
  then show "b * d div t div 8 \<le> b div 8" by (rule zdiv_mono1) simp
  show "0 \<le> b * d div t div 8" using assms by (simp add: pos_imp_zdiv_nonneg_iff)
qed

lemma fee_delta_bound_above:
  fixes b d t :: int
  assumes "0 \<le> b" "0 \<le> d" "d \<le> t + 1" "0 < t"
  shows "b * d div t div 8 \<le> (b + b div t) div 8"
proof -
  have "b * d \<le> b * (t + 1)" using assms by (intro mult_left_mono) auto
  then have "b * d div t \<le> b * (t + 1) div t" using assms(4) by (rule zdiv_mono1)
  also have "b * (t + 1) div t = b + b div t"
    using assms(4) by (simp add: distrib_left)
  finally show ?thesis by (rule zdiv_mono1) simp
qed

lemma CalcBaseFee_London:
  assumes "CalcBaseFee config parent = Ret f" and "IsLondon config (Number parent)"
    and "BaseFee parent = Some b" and "0 \<le> b" and "GasUsed parent \<le> GasLimit parent"
  defines "t \<equiv> int (unat (GasLimit parent)) div 2" and "u \<equiv> int (unat (GasUsed parent))"
  shows "(u = t \<longrightarrow> f = b) \<and>
    (t < u \<longrightarrow> b < f \<and> f \<le> b + max 1 ((b + b div t) div 8)) \<and>
    (u < t \<longrightarrow> b - b div 8 \<le> f \<and> f \<le> b)"
proof -
  let ?t = "GasLimit parent div ElasticityMultiplier"
  have t: "int (unat ?t) = t" by (simp add: t_def ElasticityMultiplier_def unat_div zdiv_int)
  have le: "u \<le> 2 * t + 1" using assms(5) by (simp add: t_def u_def word_le_def)
  consider "u = t" | "t < u" | "u < t" by linarith
  then show ?thesis
  proof cases
    case 1
    then have "GasUsed parent = ?t" using t by (simp add: u_def word_uint_eq_iff)
    with assms(1-3) have "f = b" by (simp add: CalcBaseFee_def Let_def)
    with 1 show ?thesis by simp
  next
    case 2
    then have w: "GasUsed parent > ?t" using t by (simp add: u_def word_less_def)
    then have "int (unat (GasUsed parent - ?t)) = u - t"
      using t by (simp add: u_def uint_diff word_less_def)
    with assms(1-3) w t have f: "t \<noteq> 0" "f = b + max (b * (u - t) div t div 8) 1"
      by (auto simp: CalcBaseFee_def Let_def big_Div_def params_defs go_simps split: if_splits)
    then have "0 < t" using t by (metis of_nat_0_le_iff order_le_less)
    then have "b * (u - t) div t div 8 \<le> (b + b div t) div 8"
      using 2 le assms(4) by (intro fee_delta_bound_above) auto
    with 2 f show ?thesis by auto
  next
    case 3
    then have w: "GasUsed parent < ?t" using t by (simp add: u_def word_less_def)
    then have d: "int (unat (?t - GasUsed parent)) = t - u"
      using t by (simp add: u_def uint_diff word_less_def)
    have "0 \<le> u" by (simp add: u_def)
    have "\<not> GasUsed parent > ?t" "GasUsed parent \<noteq> ?t" using w by auto
    with assms(1-3) t d have f: "f = max (b - b * (t - u) div t div 8) 0"
      by (auto simp: CalcBaseFee_def Let_def big_Div_def params_defs go_simps split: if_splits)
    have "0 \<le> b * (t - u) div t div 8" "b * (t - u) div t div 8 \<le> b div 8"
      using 3 \<open>0 \<le> u\<close> assms(4) by (intro fee_delta_bound; simp)+
    with 3 f assms(4) show ?thesis by auto
  qed
qed

text \<open>
  A header that passes the EIP-1559 check after a London parent, with limits below
  \<open>2 ^ 63\<close>, has a gas limit within a 1024th of its parent's.  Its base fee equals the parent's
  when the parent used exactly half its limit, is higher when it used more, by at most an
  eighth (or one wei), and lower by at most an eighth when it used less.
\<close>

lemma eip1559_header_bounds:
  assumes "VerifyEip1559Header config parent header = Ret ()"
    and "IsLondon config (Number parent)" and "BaseFee parent = Some b" and "0 \<le> b"
    and "GasUsed parent \<le> GasLimit parent"
    and "unat (GasLimit parent) < 2 ^ 63" and "unat (GasLimit header) < 2 ^ 63"
  defines "t \<equiv> int (unat (GasLimit parent)) div 2" and "u \<equiv> int (unat (GasUsed parent))"
  shows "\<bar>int (unat (GasLimit parent)) - int (unat (GasLimit header))\<bar> <
      int (unat (GasLimit parent) div 1024) \<and> 5000 \<le> unat (GasLimit header) \<and>
    (\<exists>f. BaseFee header = Some f \<and> (u = t \<longrightarrow> f = b) \<and>
       (t < u \<longrightarrow> b < f \<and> f \<le> b + max 1 ((b + b div t) div 8)) \<and>
       (u < t \<longrightarrow> b - b div 8 \<le> f \<and> f \<le> b))"
proof -
  from assms(1,2) obtain f where gas: "VerifyGaslimit (GasLimit parent) (GasLimit header) = Ret ()"
    and f: "BaseFee header = Some f" "CalcBaseFee config parent = Ret f"
    by (auto simp: VerifyEip1559Header_Ret_iff)
  have "\<bar>int (unat (GasLimit parent)) - int (unat (GasLimit header))\<bar> <
      int (unat (GasLimit parent) div 1024) \<and> 5000 \<le> unat (GasLimit header)"
    using gas word_distance_small [OF assms(6,7)] by (simp only: VerifyGaslimit_distance)
  with f CalcBaseFee_London [OF f(2) assms(2-5)] show ?thesis
    unfolding t_def u_def by blast
qed

text \<open>A header to start the examples from.\<close>

definition sample_header :: eth_header where
  "sample_header = \<lparr>ParentHash = zero_hash, UncleHash = zero_hash, Coinbase = zero_address,
     Root = zero_hash, TxHash = zero_hash, ReceiptHash = zero_hash, Bloom = replicate 256 0,
     Difficulty = Some 131072, Number = Some 1, GasLimit = 30000000, GasUsed = 30000000, Time = 100,
     Extra = [], MixDigest = zero_hash, Nonce = replicate 8 0, BaseFee = Some 1000000000\<rparr>"

end
