(* ===== verification/EthPeer.thy ===== *)
theory EthPeer
  imports GethTypes
begin

text \<open>
  A peer of the \<open>eth\<close> protocol and the messages sent to it (\<open>eth/protocols/eth/peer.go\<close>,
  \<open>protocol.go\<close>), with the objects those messages refer to (\<open>core/types\<close>).

  Transactions and headers are shared by pointer: the slice of transactions that is sent,
  and kept as a seed of the fuzzer, holds the pointers of the transaction pool, and the
  headers of a reply are the pointers the chain returned.  They live in a heap, and a
  message refers to them by address.  Packets themselves are allocated by the function that
  sends them and referred to by the seed list alone, so a seed list holds packets by value.

  The calls of \<open>p2p.Send\<close> are recorded with the contents of the message at that moment; what
  the connection does with them is not part of the model.  The sets of known hashes are
  \<open>mapset\<close> sets, whose \<open>Pop\<close> removes an element of its choice: the choice is an argument.
\<close>

subsection \<open>Message codes\<close>

definition StatusMsg :: u64 where "StatusMsg = 0x00"
definition NewBlockHashesMsg :: u64 where "NewBlockHashesMsg = 0x01"
definition TransactionsMsg :: u64 where "TransactionsMsg = 0x02"
definition GetBlockHeadersMsg :: u64 where "GetBlockHeadersMsg = 0x03"
definition BlockHeadersMsg :: u64 where "BlockHeadersMsg = 0x04"
definition GetBlockBodiesMsg :: u64 where "GetBlockBodiesMsg = 0x05"
definition BlockBodiesMsg :: u64 where "BlockBodiesMsg = 0x06"
definition NewBlockMsg :: u64 where "NewBlockMsg = 0x07"
definition NewPooledTransactionHashesMsg :: u64 where "NewPooledTransactionHashesMsg = 0x08"
definition GetPooledTransactionsMsg :: u64 where "GetPooledTransactionsMsg = 0x09"
definition PooledTransactionsMsg :: u64 where "PooledTransactionsMsg = 0x0a"
definition GetNodeDataMsg :: u64 where "GetNodeDataMsg = 0x0d"
definition NodeDataMsg :: u64 where "NodeDataMsg = 0x0e"
definition GetReceiptsMsg :: u64 where "GetReceiptsMsg = 0x0f"
definition ReceiptsMsg :: u64 where "ReceiptsMsg = 0x10"

lemmas msg_code_defs =
  StatusMsg_def NewBlockHashesMsg_def TransactionsMsg_def GetBlockHeadersMsg_def
  BlockHeadersMsg_def GetBlockBodiesMsg_def BlockBodiesMsg_def NewBlockMsg_def
  NewPooledTransactionHashesMsg_def GetPooledTransactionsMsg_def PooledTransactionsMsg_def
  GetNodeDataMsg_def NodeDataMsg_def GetReceiptsMsg_def ReceiptsMsg_def

subsection \<open>Transactions and blocks\<close>

type_synonym ref = nat
type_synonym access_list = "(address \<times> hash list) list"

record tx_fields =
  tx_Nonce :: u64
  tx_Gas :: u64
  tx_To :: "address option"
  tx_Value :: "int option"
  tx_Data :: bytes
  tx_V :: "int option"
  tx_R :: "int option"
  tx_S :: "int option"

datatype tx_data =
    LegacyTx tx_fields (legacy_GasPrice: "int option")
  | AccessListTx tx_fields (al_GasPrice: "int option") (al_ChainID: "int option") access_list
  | DynamicFeeTx tx_fields (df_GasTipCap: "int option") (df_GasFeeCap: "int option")
      (df_ChainID: "int option") access_list

fun tx_common :: "tx_data \<Rightarrow> tx_fields" where
  "tx_common (LegacyTx f gp) = f"
| "tx_common (AccessListTx f gp c al) = f"
| "tx_common (DynamicFeeTx f tip fee c al) = f"

fun map_tx_common :: "(tx_fields \<Rightarrow> tx_fields) \<Rightarrow> tx_data \<Rightarrow> tx_data" where
  "map_tx_common u (LegacyTx f gp) = LegacyTx (u f) gp"
| "map_tx_common u (AccessListTx f gp c al) = AccessListTx (u f) gp c al"
| "map_tx_common u (DynamicFeeTx f tip fee c al) = DynamicFeeTx (u f) tip fee c al"

text \<open>A transaction object: its data and the hash it caches when first asked for it.\<close>

record transaction =
  tx_inner :: tx_data
  tx_hash :: "hash option"

record eth_block =
  eb_header :: eth_header
  eb_uncles :: "eth_header list"
  eb_transactions :: "ref list"
  eb_hash :: "hash option"
  eb_ReceivedAt :: int

record eth_heap =
  hp_tx :: "ref \<Rightarrow> transaction"
  hp_header :: "ref \<Rightarrow> eth_header"
  hp_block :: "ref \<Rightarrow> eth_block"
  hp_big :: "ref \<Rightarrow> int"

subsection \<open>Packets\<close>

record hash_or_number =
  hn_Hash :: hash
  hn_Number :: u64

record get_block_headers =
  gbh_Origin :: hash_or_number
  gbh_Amount :: u64
  gbh_Skip :: u64
  gbh_Reverse :: bool

record status_packet =
  st_ProtocolVersion :: "32 word"
  st_NetworkID :: u64
  st_TD :: "ref option"
  st_Head :: hash
  st_Genesis :: hash
  st_ForkID :: "bytes \<times> u64"

text \<open>What is handed to \<open>p2p.Send\<close>, with the contents of the objects it refers to.\<close>

datatype wire_msg =
    WStatus status_packet "int option"
  | WNewBlockHashes "(hash \<times> u64) list"
  | WTransactions "tx_data list"
  | WGetBlockHeaders u64 "get_block_headers option"
  | WBlockHeaders u64 "eth_header list"
  | WHashRequest u64 "hash list"
  | WRawReply u64 "bytes list"
  | WNewBlock eth_block "tx_data list" "int option"
  | WPooledHashes "hash list"

subsection \<open>The peer\<close>

record eth_peer =
  knownBlocks :: "hash set"
  knownTxs :: "hash set"
  StatusMsgs :: "status_packet list"
  GetBlockHeadersMsgs :: "(u64 \<times> get_block_headers option) list"
  NewBlockMsgs :: "(ref \<times> ref option) list"
  NewBlockHashesMsgs :: "(hash \<times> u64) list list"
  TransactionsMsgs :: "ref list list"
  NewPooledTransactionHashesMsgs :: "hash list list"
  BlockHeadersMsgs :: "(u64 \<times> ref list) list"
  GetBlockBodiesMsgs :: "(u64 \<times> hash list) list"
  BlockBodiesMsgs :: "(u64 \<times> bytes list) list"
  GetNodeDataMsgs :: "(u64 \<times> hash list) list"
  NodeDataMsgs :: "(u64 \<times> bytes list) list"
  GetReceiptsMsgs :: "(u64 \<times> hash list) list"
  ReceiptsMsgs :: "(u64 \<times> bytes list) list"
  GetPooledTransactionsMsgs :: "(u64 \<times> hash list) list"
  PooledTransactionsMsgs :: "(u64 \<times> bytes list) list"

text \<open>\<open>NewPeer\<close>, without its goroutines and channels.\<close>

definition NewPeer :: eth_peer where
  "NewPeer = \<lparr>knownBlocks = {}, knownTxs = {}, StatusMsgs = [], GetBlockHeadersMsgs = [],
     NewBlockMsgs = [], NewBlockHashesMsgs = [], TransactionsMsgs = [],
     NewPooledTransactionHashesMsgs = [], BlockHeadersMsgs = [], GetBlockBodiesMsgs = [],
     BlockBodiesMsgs = [], GetNodeDataMsgs = [], NodeDataMsgs = [], GetReceiptsMsgs = [],
     ReceiptsMsgs = [], GetPooledTransactionsMsgs = [], PooledTransactionsMsgs = []\<rparr>"

text \<open>
  The state the peer's goroutines work on: the peer, the heap, the messages sent to it, the
  sources of \<open>math/rand\<close> and of the fuzzer, the counters \<open>fuzzcount\<close> and \<open>times\<close>, and the lines
  of the file the counters are written to.
\<close>

record eth_state =
  es_peer :: eth_peer
  es_heap :: eth_heap
  es_sent :: "(u64 \<times> wire_msg) list"
  es_rand :: source
  es_fuzz :: source
  es_fuzzcount :: nat
  es_times :: nat
  es_file :: "(nat \<times> nat) list option"

abbreviation upd_peer :: "(eth_peer \<Rightarrow> eth_peer) \<Rightarrow> eth_state \<Rightarrow> eth_state" where
  "upd_peer f s \<equiv> s\<lparr>es_peer := f (es_peer s)\<rparr>"

definition p2p_Send :: "u64 \<Rightarrow> wire_msg \<Rightarrow> eth_state \<Rightarrow> eth_state" where
  "p2p_Send code msg s = s\<lparr>es_sent := es_sent s @ [(code, msg)]\<rparr>"

definition tx_contents :: "eth_heap \<Rightarrow> ref list \<Rightarrow> tx_data list" where
  "tx_contents hp txs = map (\<lambda>a. tx_inner (hp_tx hp a)) txs"

subsection \<open>Known hashes\<close>

definition maxKnownTxs :: nat where "maxKnownTxs = 32768"
definition maxKnownBlocks :: nat where "maxKnownBlocks = 1024"

text \<open>
  The loop \<open>for set.Cardinality() > limit { set.Pop() }\<close>.  \<open>pop\<close> chooses the element to
  remove; a set that is not empty loses one.
\<close>

definition Pop :: "(hash set \<Rightarrow> hash) \<Rightarrow> hash set \<Rightarrow> hash set" where
  "Pop pop A = (if pop A \<in> A then A - {pop A} else A)"

fun pop_down :: "nat \<Rightarrow> (hash set \<Rightarrow> hash) \<Rightarrow> nat \<Rightarrow> hash set \<Rightarrow> hash set" where
  "pop_down fuel pop limit A =
     (if card A > limit then case fuel of 0 \<Rightarrow> A
        | Suc f \<Rightarrow> pop_down f pop limit (Pop pop A) else A)"

declare pop_down.simps [simp del]

text \<open>Making room for some hashes and adding them, as every sending function does.\<close>

definition mark_known :: "(hash set \<Rightarrow> hash) \<Rightarrow> nat \<Rightarrow> hash list \<Rightarrow> hash set \<Rightarrow> hash set" where
  "mark_known pop maxKnown hashes A =
     pop_down (card A) pop (nat (max 0 (int maxKnown - int (length hashes)))) A \<union> set hashes"

text \<open>\<open>markBlock\<close> and \<open>markTransaction\<close>, which pop while the cardinality is not below the maximum.\<close>

definition markBlock :: "(hash set \<Rightarrow> hash) \<Rightarrow> hash \<Rightarrow> eth_peer \<Rightarrow> eth_peer" where
  "markBlock pop h p =
     p\<lparr>knownBlocks := insert h (pop_down (card (knownBlocks p)) pop (maxKnownBlocks - 1) (knownBlocks p))\<rparr>"

definition markTransaction :: "(hash set \<Rightarrow> hash) \<Rightarrow> hash \<Rightarrow> eth_peer \<Rightarrow> eth_peer" where
  "markTransaction pop h p =
     p\<lparr>knownTxs := insert h (pop_down (card (knownTxs p)) pop (maxKnownTxs - 1) (knownTxs p))\<rparr>"

definition KnownBlock :: "hash \<Rightarrow> eth_peer \<Rightarrow> bool" where
  "KnownBlock h p = (h \<in> knownBlocks p)"

definition KnownTransaction :: "hash \<Rightarrow> eth_peer \<Rightarrow> bool" where
  "KnownTransaction h p = (h \<in> knownTxs p)"

text \<open>\<open>Transaction.Hash\<close> and \<open>Block.Hash\<close>, with their caches.\<close>

definition transaction_Hash :: "(tx_data \<Rightarrow> hash) \<Rightarrow> ref \<Rightarrow> eth_heap \<Rightarrow> hash \<times> eth_heap" where
  "transaction_Hash txhash a hp =
     (case tx_hash (hp_tx hp a) of Some h \<Rightarrow> (h, hp)
      | None \<Rightarrow> let h = txhash (tx_inner (hp_tx hp a)) in
          (h, hp\<lparr>hp_tx := (hp_tx hp)(a := (hp_tx hp a)\<lparr>tx_hash := Some h\<rparr>)\<rparr>))"

definition Block_Hash :: "(bytes \<Rightarrow> hash) \<Rightarrow> ref \<Rightarrow> eth_heap \<Rightarrow> hash \<times> eth_heap" where
  "Block_Hash keccak a hp =
     (case eb_hash (hp_block hp a) of Some h \<Rightarrow> (h, hp)
      | None \<Rightarrow> let h = Header_Hash keccak (eb_header (hp_block hp a)) in
          (h, hp\<lparr>hp_block := (hp_block hp)(a := (hp_block hp a)\<lparr>eb_hash := Some h\<rparr>)\<rparr>))"

fun transaction_Hashes :: "(tx_data \<Rightarrow> hash) \<Rightarrow> ref list \<Rightarrow> eth_heap \<Rightarrow> hash list \<times> eth_heap" where
  "transaction_Hashes txhash [] hp = ([], hp)"
| "transaction_Hashes txhash (a # as) hp =
     (let (h, hp1) = transaction_Hash txhash a hp;
          (hs, hp2) = transaction_Hashes txhash as hp1 in (h # hs, hp2))"

subsection \<open>Sending\<close>

definition SendTransactions ::
    "(tx_data \<Rightarrow> hash) \<Rightarrow> (hash set \<Rightarrow> hash) \<Rightarrow> ref list \<Rightarrow> eth_state \<Rightarrow> eth_state" where
  "SendTransactions txhash pop txs s =
     (let (hashes, hp) = transaction_Hashes txhash txs (es_heap s);
          s1 = upd_peer (\<lambda>p. p\<lparr>knownTxs := mark_known pop maxKnownTxs hashes (knownTxs p),
                 TransactionsMsgs := TransactionsMsgs p @ [txs]\<rparr>) (s\<lparr>es_heap := hp\<rparr>) in
      p2p_Send TransactionsMsg (WTransactions (tx_contents hp txs)) s1)"

definition sendPooledTransactionHashes :: "(hash set \<Rightarrow> hash) \<Rightarrow> hash list \<Rightarrow> eth_state \<Rightarrow> eth_state" where
  "sendPooledTransactionHashes pop hashes s =
     p2p_Send NewPooledTransactionHashesMsg (WPooledHashes hashes)
       (upd_peer (\<lambda>p. p\<lparr>knownTxs := mark_known pop maxKnownTxs hashes (knownTxs p),
          NewPooledTransactionHashesMsgs := NewPooledTransactionHashesMsgs p @ [hashes]\<rparr>) s)"

definition ReplyPooledTransactionsRLP ::
    "(hash set \<Rightarrow> hash) \<Rightarrow> u64 \<Rightarrow> hash list \<Rightarrow> bytes list \<Rightarrow> eth_state \<Rightarrow> eth_state" where
  "ReplyPooledTransactionsRLP pop rid hashes txs s =
     p2p_Send PooledTransactionsMsg (WRawReply rid txs)
       (upd_peer (\<lambda>p. p\<lparr>knownTxs := mark_known pop maxKnownTxs hashes (knownTxs p),
          PooledTransactionsMsgs := PooledTransactionsMsgs p @ [(rid, txs)]\<rparr>) s)"

text \<open>The loop that pairs hashes with numbers panics when there are fewer numbers.\<close>

fun pair_up :: "hash list \<Rightarrow> u64 list \<Rightarrow> (hash \<times> u64) list go" where
  "pair_up [] numbers = Ret []"
| "pair_up (h # hs) [] = Panic ''index out of range''"
| "pair_up (h # hs) (n # ns) = go_bind (pair_up hs ns) (\<lambda>r. Ret ((h, n) # r))"

definition SendNewBlockHashes ::
    "(hash set \<Rightarrow> hash) \<Rightarrow> hash list \<Rightarrow> u64 list \<Rightarrow> eth_state \<Rightarrow> eth_state go" where
  "SendNewBlockHashes pop hashes numbers s =
     go_bind (pair_up hashes numbers) (\<lambda>request.
     Ret (p2p_Send NewBlockHashesMsg (WNewBlockHashes request)
       (upd_peer (\<lambda>p. p\<lparr>knownBlocks := mark_known pop maxKnownBlocks hashes (knownBlocks p),
          NewBlockHashesMsgs := NewBlockHashesMsgs p @ [request]\<rparr>) s)))"

definition wire_block :: "eth_heap \<Rightarrow> ref \<Rightarrow> ref option \<Rightarrow> wire_msg" where
  "wire_block hp b td =
     WNewBlock (hp_block hp b) (tx_contents hp (eb_transactions (hp_block hp b)))
       (map_option (hp_big hp) td)"

definition SendNewBlock ::
    "(bytes \<Rightarrow> hash) \<Rightarrow> (hash set \<Rightarrow> hash) \<Rightarrow> ref \<Rightarrow> ref option \<Rightarrow> eth_state \<Rightarrow> eth_state" where
  "SendNewBlock keccak pop b td s =
     (let (h, hp) = Block_Hash keccak b (es_heap s) in
      p2p_Send NewBlockMsg (wire_block hp b td)
        (upd_peer (\<lambda>p. (markBlock pop h p)\<lparr>NewBlockMsgs := NewBlockMsgs p @ [(b, td)]\<rparr>)
           (s\<lparr>es_heap := hp\<rparr>)))"

definition header_contents :: "eth_heap \<Rightarrow> ref list \<Rightarrow> eth_header list" where
  "header_contents hp headers = map (hp_header hp) headers"

definition ReplyBlockHeaders :: "u64 \<Rightarrow> ref list \<Rightarrow> eth_state \<Rightarrow> eth_state" where
  "ReplyBlockHeaders rid headers s =
     p2p_Send BlockHeadersMsg (WBlockHeaders rid (header_contents (es_heap s) headers))
       (upd_peer (\<lambda>p. p\<lparr>BlockHeadersMsgs := BlockHeadersMsgs p @ [(rid, headers)]\<rparr>) s)"

definition ReplyBlockBodiesRLP :: "u64 \<Rightarrow> bytes list \<Rightarrow> eth_state \<Rightarrow> eth_state" where
  "ReplyBlockBodiesRLP rid bodies s =
     p2p_Send BlockBodiesMsg (WRawReply rid bodies)
       (upd_peer (\<lambda>p. p\<lparr>BlockBodiesMsgs := BlockBodiesMsgs p @ [(rid, bodies)]\<rparr>) s)"

definition ReplyNodeData :: "u64 \<Rightarrow> bytes list \<Rightarrow> eth_state \<Rightarrow> eth_state" where
  "ReplyNodeData rid data s =
     p2p_Send NodeDataMsg (WRawReply rid data)
       (upd_peer (\<lambda>p. p\<lparr>NodeDataMsgs := NodeDataMsgs p @ [(rid, data)]\<rparr>) s)"

definition ReplyReceiptsRLP :: "u64 \<Rightarrow> bytes list \<Rightarrow> eth_state \<Rightarrow> eth_state" where
  "ReplyReceiptsRLP rid receipts s =
     p2p_Send ReceiptsMsg (WRawReply rid receipts)
       (upd_peer (\<lambda>p. p\<lparr>ReceiptsMsgs := ReceiptsMsgs p @ [(rid, receipts)]\<rparr>) s)"

text \<open>
  The identifier of a request is a random number.  The bookkeeping of open requests
  (\<open>requestTracker.Track\<close>), which the replies alone look at, is left out.
\<close>

definition rand_Uint64 :: "eth_state \<Rightarrow> u64 \<times> eth_state" where
  "rand_Uint64 s = (of_nat (fst (draw (es_rand s))), s\<lparr>es_rand := snd (draw (es_rand s))\<rparr>)"

definition send_header_request :: "get_block_headers \<Rightarrow> eth_state \<Rightarrow> eth_state" where
  "send_header_request q s =
     (let (rid, s1) = rand_Uint64 s in
      p2p_Send GetBlockHeadersMsg (WGetBlockHeaders rid (Some q))
        (upd_peer (\<lambda>p. p\<lparr>GetBlockHeadersMsgs := GetBlockHeadersMsgs p @ [(rid, Some q)]\<rparr>) s1))"

definition RequestOneHeader :: "hash \<Rightarrow> eth_state \<Rightarrow> eth_state" where
  "RequestOneHeader h = send_header_request
     \<lparr>gbh_Origin = \<lparr>hn_Hash = h, hn_Number = 0\<rparr>, gbh_Amount = 1, gbh_Skip = 0, gbh_Reverse = False\<rparr>"

definition RequestHeadersByHash :: "hash \<Rightarrow> int \<Rightarrow> int \<Rightarrow> bool \<Rightarrow> eth_state \<Rightarrow> eth_state" where
  "RequestHeadersByHash origin amount skip reverse = send_header_request
     \<lparr>gbh_Origin = \<lparr>hn_Hash = origin, hn_Number = 0\<rparr>, gbh_Amount = of_int amount,
      gbh_Skip = of_int skip, gbh_Reverse = reverse\<rparr>"

definition RequestHeadersByNumber :: "u64 \<Rightarrow> int \<Rightarrow> int \<Rightarrow> bool \<Rightarrow> eth_state \<Rightarrow> eth_state" where
  "RequestHeadersByNumber origin amount skip reverse = send_header_request
     \<lparr>gbh_Origin = \<lparr>hn_Hash = zero_hash, hn_Number = origin\<rparr>, gbh_Amount = of_int amount,
      gbh_Skip = of_int skip, gbh_Reverse = reverse\<rparr>"

definition RequestBodies :: "hash list \<Rightarrow> eth_state \<Rightarrow> eth_state" where
  "RequestBodies hashes s =
     (let (rid, s1) = rand_Uint64 s in
      p2p_Send GetBlockBodiesMsg (WHashRequest rid hashes)
        (upd_peer (\<lambda>p. p\<lparr>GetBlockBodiesMsgs := GetBlockBodiesMsgs p @ [(rid, hashes)]\<rparr>) s1))"

definition RequestNodeData :: "hash list \<Rightarrow> eth_state \<Rightarrow> eth_state" where
  "RequestNodeData hashes s =
     (let (rid, s1) = rand_Uint64 s in
      p2p_Send GetNodeDataMsg (WHashRequest rid hashes)
        (upd_peer (\<lambda>p. p\<lparr>GetNodeDataMsgs := GetNodeDataMsgs p @ [(rid, hashes)]\<rparr>) s1))"

definition RequestReceipts :: "hash list \<Rightarrow> eth_state \<Rightarrow> eth_state" where
  "RequestReceipts hashes s =
     (let (rid, s1) = rand_Uint64 s in
      p2p_Send GetReceiptsMsg (WHashRequest rid hashes)
        (upd_peer (\<lambda>p. p\<lparr>GetReceiptsMsgs := GetReceiptsMsgs p @ [(rid, hashes)]\<rparr>) s1))"

definition RequestTxs :: "hash list \<Rightarrow> eth_state \<Rightarrow> eth_state" where
  "RequestTxs hashes s =
     (let (rid, s1) = rand_Uint64 s in
      p2p_Send GetPooledTransactionsMsg (WHashRequest rid hashes)
        (upd_peer (\<lambda>p. p\<lparr>GetPooledTransactionsMsgs := GetPooledTransactionsMsgs p @ [(rid, hashes)]\<rparr>) s1))"

subsection \<open>Bounds of the sets of known hashes\<close>

text \<open>The laws of \<open>Pop\<close>: it removes an element.\<close>

definition pops :: "(hash set \<Rightarrow> hash) \<Rightarrow> bool" where
  "pops pop \<longleftrightarrow> (\<forall>A. finite A \<and> A \<noteq> {} \<longrightarrow> pop A \<in> A)"

lemma card_Pop: "pops pop \<Longrightarrow> finite A \<Longrightarrow> A \<noteq> {} \<Longrightarrow> card (Pop pop A) = card A - 1"
  by (simp add: Pop_def pops_def)

lemma finite_Pop [simp]: "finite A \<Longrightarrow> finite (Pop pop A)"
  by (simp add: Pop_def)

lemma pop_down_bound:
  "pops pop \<Longrightarrow> finite A \<Longrightarrow> card A \<le> fuel + limit \<Longrightarrow>
   finite (pop_down fuel pop limit A) \<and> card (pop_down fuel pop limit A) \<le> limit"
proof (induction fuel arbitrary: A)
  case 0
  then show ?case by (subst (1 2) pop_down.simps) simp
next
  case (Suc fuel)
  show ?case
  proof (cases "card A > limit")
    case True
    then have "A \<noteq> {}" by auto
    with Suc.prems have "card (Pop pop A) \<le> fuel + limit" by (simp add: card_Pop)
    with Suc True show ?thesis by (subst (1 2) pop_down.simps) simp
  next
    case False
    with Suc.prems show ?thesis by (subst (1 2) pop_down.simps) simp
  qed
qed

lemma mark_known_bound:
  assumes "pops pop" and "finite A"
  shows "finite (mark_known pop m hashes A)"
    and "card (mark_known pop m hashes A) \<le> max m (length hashes)"
proof -
  let ?l = "nat (max 0 (int m - int (length hashes)))"
  have down: "finite (pop_down (card A) pop ?l A)" "card (pop_down (card A) pop ?l A) \<le> ?l"
    using pop_down_bound [OF assms, of "card A" ?l] by simp_all
  then show "finite (mark_known pop m hashes A)" by (simp add: mark_known_def)
  have "card (mark_known pop m hashes A) \<le> card (pop_down (card A) pop ?l A) + card (set hashes)"
    unfolding mark_known_def by (rule card_Un_le)
  also have "\<dots> \<le> ?l + length hashes" using down(2) card_length [of hashes] by linarith
  also have "\<dots> \<le> max m (length hashes)" by linarith
  finally show "card (mark_known pop m hashes A) \<le> max m (length hashes)" .
qed

lemma mark_known_marks: "set hashes \<subseteq> mark_known pop m hashes A"
  by (simp add: mark_known_def)

end
