(* ===== verification/EthFuzzer.thy ===== *)
theory EthFuzzer
  imports EthPeer
begin

text \<open>
  The message and transaction fuzzers of a Geth peer (\<open>eth/protocols/eth/MessageFuzz.go\<close>,
  \<open>TransactionFuzz.go\<close>): one function per message type that picks a recorded message,
  mutates it in place and sends it, and the loops \<open>FuzzMessages\<close> and \<open>FuzzTransactions\<close>.

  The package \<open>google/gofuzz\<close> is not in the repository: what \<open>f.Fuzz(p)\<close> stores in \<open>*p\<close>, for
  each type of \<open>*p\<close> in use, is a field of the record \<open>eth_fuzz_env\<close>.  It replaces slices,
  strings and pointers by fresh values and does not write through the old ones.  An integer
  of type \<open>big.Int\<close> is handed to it with its old value, because it may leave it as it is.
  \<open>ez_seed\<close> is the sequence \<open>math/rand\<close> produces after \<open>rand.Seed\<close>.

  The lemmas say what a step of the fuzzer can change, and so what it cannot: assignments
  to a copy or to a local variable are lost.
\<close>

record eth_fuzz_env =
  ez_seed :: "int \<Rightarrow> source"
  ez_uint32 :: "source \<Rightarrow> 32 word \<times> source"
  ez_uint64 :: "source \<Rightarrow> u64 \<times> source"
  ez_bool :: "source \<Rightarrow> bool \<times> source"
  ez_string :: "source \<Rightarrow> bytes \<times> source"
  ez_bytes :: "source \<Rightarrow> bytes \<times> source"
  ez_big :: "int \<Rightarrow> source \<Rightarrow> int \<times> source"
  ez_time :: "source \<Rightarrow> int \<times> source"
  ez_bloom :: "source \<Rightarrow> bytes \<times> source"
  ez_nonce :: "source \<Rightarrow> bytes \<times> source"
  ez_origin :: "source \<Rightarrow> hash_or_number \<times> source"
  ez_forkid :: "source \<Rightarrow> (bytes \<times> u64) \<times> source"
  ez_header :: "eth_header \<Rightarrow> source \<Rightarrow> eth_header \<times> source"
  ez_block_hashes :: "source \<Rightarrow> (hash \<times> u64) list option \<times> source"

text \<open>\<open>f.Fuzz(p)\<close> for a \<open>*big.Int\<close>: a nil pointer is left alone.\<close>

definition fuzz_big :: "eth_fuzz_env \<Rightarrow> int option \<Rightarrow> source \<Rightarrow> int option \<times> source" where
  "fuzz_big F p r =
     (case p of None \<Rightarrow> (None, r) | Some i \<Rightarrow> (let (j, r') = ez_big F i r in (Some j, r')))"

subsection \<open>Accessors of transactions added for the fuzzer\<close>

text \<open>
  \<open>GetGas\<close> and \<open>GetNonce\<close> return pointers into the transaction.  \<open>Gasprice\<close>, \<open>GastipCap\<close> and
  \<open>GasfeeCap\<close> return the pointer of the price field each type has for them.
\<close>

definition fuzz_Gas :: "eth_fuzz_env \<Rightarrow> tx_data \<Rightarrow> source \<Rightarrow> tx_data \<times> source" where
  "fuzz_Gas F t r = (let (g, r') = ez_uint64 F r in (map_tx_common (\<lambda>f. f\<lparr>tx_Gas := g\<rparr>) t, r'))"

definition fuzz_Nonce :: "eth_fuzz_env \<Rightarrow> tx_data \<Rightarrow> source \<Rightarrow> tx_data \<times> source" where
  "fuzz_Nonce F t r = (let (n, r') = ez_uint64 F r in (map_tx_common (\<lambda>f. f\<lparr>tx_Nonce := n\<rparr>) t, r'))"

fun fuzz_Gasprice :: "eth_fuzz_env \<Rightarrow> tx_data \<Rightarrow> source \<Rightarrow> tx_data \<times> source" where
  "fuzz_Gasprice F (LegacyTx f gp) r = (let (p, r') = fuzz_big F gp r in (LegacyTx f p, r'))"
| "fuzz_Gasprice F (AccessListTx f gp c al) r =
     (let (p, r') = fuzz_big F gp r in (AccessListTx f p c al, r'))"
| "fuzz_Gasprice F (DynamicFeeTx f tip fee c al) r =
     (let (p, r') = fuzz_big F fee r in (DynamicFeeTx f tip p c al, r'))"

fun fuzz_GastipCap :: "eth_fuzz_env \<Rightarrow> tx_data \<Rightarrow> source \<Rightarrow> tx_data \<times> source" where
  "fuzz_GastipCap F (LegacyTx f gp) r = (let (p, r') = fuzz_big F gp r in (LegacyTx f p, r'))"
| "fuzz_GastipCap F (AccessListTx f gp c al) r =
     (let (p, r') = fuzz_big F gp r in (AccessListTx f p c al, r'))"
| "fuzz_GastipCap F (DynamicFeeTx f tip fee c al) r =
     (let (p, r') = fuzz_big F tip r in (DynamicFeeTx f p fee c al, r'))"

definition fuzz_GasfeeCap :: "eth_fuzz_env \<Rightarrow> tx_data \<Rightarrow> source \<Rightarrow> tx_data \<times> source" where
  "fuzz_GasfeeCap F t r = fuzz_Gasprice F t r"

text \<open>
  \<open>GetValue\<close> returns \<open>tx.Value()\<close>, a new integer, which panics when the value is nil:
  fuzzing it draws from the source and changes nothing.
\<close>

definition fuzz_Value :: "eth_fuzz_env \<Rightarrow> tx_data \<Rightarrow> source \<Rightarrow> source go" where
  "fuzz_Value F t r = go_bind (deref (tx_Value (tx_common t))) (\<lambda>v. Ret (snd (ez_big F v r)))"

subsection \<open>Mutators\<close>

text \<open>
  \<open>MutateTransactionsMsg\<close> and \<open>MutateTransactions\<close>, whose bodies are the same.  The mutated
  data is stored in the local variable \<open>data\<close> alone.
\<close>

definition mutate_tx :: "eth_fuzz_env \<Rightarrow> tx_data \<Rightarrow> source \<Rightarrow> (tx_data \<times> source) go" where
  "mutate_tx F t r =
     (let (tmpStr, r1) = ez_string F r;
          (t1, r2) = fuzz_Gas F t r1;
          (t2, r3) = fuzz_Gasprice F t1 r2;
          (t3, r4) = fuzz_GastipCap F t2 r3;
          (t4, r5) = fuzz_GasfeeCap F t3 r4 in
      go_bind (fuzz_Value F t4 r5) (\<lambda>r6. Ret (fuzz_Nonce F t4 r6)))"

fun MutateTransactionsMsg :: "eth_fuzz_env \<Rightarrow> ref list \<Rightarrow> eth_heap \<Rightarrow> source \<Rightarrow> (eth_heap \<times> source) go" where
  "MutateTransactionsMsg F [] hp r = Ret (hp, r)"
| "MutateTransactionsMsg F (a # as) hp r =
     go_bind (mutate_tx F (tx_inner (hp_tx hp a)) r) (\<lambda>(t, r').
       MutateTransactionsMsg F as
         (hp\<lparr>hp_tx := (hp_tx hp)(a := (hp_tx hp a)\<lparr>tx_inner := t\<rparr>)\<rparr>) r')"

definition MutateTransactions :: "eth_fuzz_env \<Rightarrow> ref list \<Rightarrow> eth_heap \<Rightarrow> source \<Rightarrow> (eth_heap \<times> source) go" where
  "MutateTransactions = MutateTransactionsMsg"

text \<open>\<open>f.Fuzz(&msg)\<close> stores a new pointer in the parameter; the caller's packet is not touched.\<close>

definition MutateNewBlockHashesMsg ::
    "eth_fuzz_env \<Rightarrow> (hash \<times> u64) list \<Rightarrow> source \<Rightarrow> (hash \<times> u64) list \<times> source" where
  "MutateNewBlockHashesMsg F msg r = (let (param, r') = ez_block_hashes F r in (msg, r'))"

text \<open>\<open>msg.Block.Header()\<close> is a copy of the header.\<close>

definition MutateNewBlockMsg ::
    "eth_fuzz_env \<Rightarrow> ref \<Rightarrow> ref option \<Rightarrow> eth_heap \<Rightarrow> source \<Rightarrow> eth_heap \<times> source" where
  "MutateNewBlockMsg F b td hp r =
     (let (hp1, r1) =
            (case td of None \<Rightarrow> (hp, r)
             | Some a \<Rightarrow> (let (i, r') = ez_big F (hp_big hp a) r in
                 (hp\<lparr>hp_big := (hp_big hp)(a := i)\<rparr>, r')));
          (copied, r2) = ez_header F (CopyHeader (eb_header (hp_block hp1 b))) r1;
          (t, r3) = ez_time F r2 in
      (hp1\<lparr>hp_block := (hp_block hp1)(b := (hp_block hp1 b)\<lparr>eb_ReceivedAt := t\<rparr>)\<rparr>, r3))"

definition MutateNewPooledTransactionHashesMsg :: "hash list \<Rightarrow> hash list" where
  "MutateNewPooledTransactionHashesMsg msg = msg"

definition MutateGetBlockHeaderMsg ::
    "eth_fuzz_env \<Rightarrow> u64 \<times> get_block_headers option \<Rightarrow> source \<Rightarrow>
     ((u64 \<times> get_block_headers option) \<times> source) go" where
  "MutateGetBlockHeaderMsg F msg r =
     go_bind (deref (snd msg)) (\<lambda>q.
       let (origin, r1) = ez_origin F r;
           (amount, r2) = ez_uint64 F r1;
           (skip, r3) = ez_uint64 F r2;
           (reverse, r4) = ez_bool F r3 in
       Ret ((fst msg, Some (q\<lparr>gbh_Origin := origin, gbh_Amount := amount, gbh_Skip := skip,
              gbh_Reverse := reverse\<rparr>)), r4))"

definition mutate_header :: "eth_fuzz_env \<Rightarrow> eth_header \<Rightarrow> source \<Rightarrow> eth_header \<times> source" where
  "mutate_header F h r =
     (let (bloom, r1) = ez_bloom F r;
          (d, r2) = fuzz_big F (Difficulty h) r1;
          (n, r3) = fuzz_big F (Number h) r2;
          (gl, r4) = ez_uint64 F r3;
          (gu, r5) = ez_uint64 F r4;
          (t, r6) = ez_uint64 F r5;
          (nonce, r7) = ez_nonce F r6 in
      (h\<lparr>Bloom := bloom, Difficulty := d, Number := n, GasLimit := gl, GasUsed := gu, Time := t,
         Nonce := nonce\<rparr>, r7))"

fun mutate_headers :: "eth_fuzz_env \<Rightarrow> ref list \<Rightarrow> eth_heap \<Rightarrow> source \<Rightarrow> eth_heap \<times> source" where
  "mutate_headers F [] hp r = (hp, r)"
| "mutate_headers F (a # as) hp r =
     (let (h, r') = mutate_header F (hp_header hp a) r in
      mutate_headers F as (hp\<lparr>hp_header := (hp_header hp)(a := h)\<rparr>) r')"

definition MutateBlockHeadersMsg ::
    "eth_fuzz_env \<Rightarrow> u64 \<times> ref list \<Rightarrow> eth_heap \<Rightarrow> source \<Rightarrow> (u64 \<times> ref list) \<times> eth_heap \<times> source" where
  "MutateBlockHeadersMsg F msg hp r =
     (let (i, r1) = ez_uint64 F r; (hp', r2) = mutate_headers F (snd msg) hp r1 in
      ((i, snd msg), hp', r2))"

text \<open>The mutators of the requests that carry hashes change the identifier of the request.\<close>

definition mutate_request_id :: "eth_fuzz_env \<Rightarrow> u64 \<times> hash list \<Rightarrow> source \<Rightarrow> (u64 \<times> hash list) \<times> source" where
  "mutate_request_id F msg r = (let (i, r') = ez_uint64 F r in ((i, snd msg), r'))"

definition MutateGetBlockBodiesMsg where "MutateGetBlockBodiesMsg = mutate_request_id"
definition MutateGetNodeDataMsg where "MutateGetNodeDataMsg = mutate_request_id"
definition MutateGetReceiptsMsg where "MutateGetReceiptsMsg = mutate_request_id"
definition MutateGetPooledTransactionsMsg where "MutateGetPooledTransactionsMsg = mutate_request_id"

text \<open>
  The mutators of the replies that carry encoded values: the loop stores every fuzzed value
  in its range variable, so the values of the packet stay.
\<close>

fun fuzz_range_copies :: "eth_fuzz_env \<Rightarrow> bytes list \<Rightarrow> source \<Rightarrow> source" where
  "fuzz_range_copies F [] r = r"
| "fuzz_range_copies F (m # ms) r = (let (m', r') = ez_bytes F r in fuzz_range_copies F ms r')"

definition mutate_reply :: "eth_fuzz_env \<Rightarrow> u64 \<times> bytes list \<Rightarrow> source \<Rightarrow> (u64 \<times> bytes list) \<times> source" where
  "mutate_reply F msg r =
     (let (i, r1) = ez_uint64 F r in ((i, snd msg), fuzz_range_copies F (snd msg) r1))"

definition MutateBlockBodiesMsg where "MutateBlockBodiesMsg = mutate_reply"
definition MutateNodeDataMsg where "MutateNodeDataMsg = mutate_reply"
definition MutateReceiptsMsg where "MutateReceiptsMsg = mutate_reply"
definition MutatePooledTransactionsMsg where "MutatePooledTransactionsMsg = mutate_reply"

definition MutateStatusMsg ::
    "eth_fuzz_env \<Rightarrow> status_packet \<Rightarrow> eth_heap \<Rightarrow> source \<Rightarrow> status_packet \<times> eth_heap \<times> source" where
  "MutateStatusMsg F msg hp r =
     (let (f, r1) = ez_forkid F r;
          (n, r2) = ez_uint64 F r1;
          (v, r3) = ez_uint32 F r2;
          (hp', r4) = (case st_TD msg of None \<Rightarrow> (hp, r3)
             | Some a \<Rightarrow> (let (i, r') = ez_big F (hp_big hp a) r3 in
                 (hp\<lparr>hp_big := (hp_big hp)(a := i)\<rparr>, r'))) in
      (msg\<lparr>st_ForkID := f, st_NetworkID := n, st_ProtocolVersion := v\<rparr>, hp', r4))"

subsection \<open>Fuzzing a recorded message\<close>

text \<open>
  The functions \<open>get...Fuzzed\<close> all have the same body: do nothing without a recorded message;
  otherwise pick one, mutate it in place, send it, and ignore the result.  \<open>eth_fuzz_seed\<close> is
  that body, over the seed list, its update, the mutator, the code and the contents sent.
\<close>

definition eth_fuzz_seed ::
    "(eth_peer \<Rightarrow> 'm list) \<Rightarrow> (('m list \<Rightarrow> 'm list) \<Rightarrow> eth_peer \<Rightarrow> eth_peer) \<Rightarrow>
     ('m \<Rightarrow> eth_heap \<Rightarrow> source \<Rightarrow> ('m \<times> eth_heap \<times> source) go) \<Rightarrow> u64 \<Rightarrow>
     (eth_heap \<Rightarrow> 'm \<Rightarrow> wire_msg) \<Rightarrow> eth_state \<Rightarrow> eth_state go" where
  "eth_fuzz_seed seeds upd mutate code wire s =
     (if length (seeds (es_peer s)) = 0 then Ret s
      else let (i, r) = rand_Intn (length (seeds (es_peer s))) (es_rand s) in
        go_bind (mutate (seeds (es_peer s) ! i) (es_heap s) (es_fuzz s)) (\<lambda>(msg, hp, f).
        Ret (p2p_Send code (wire hp msg)
          (s\<lparr>es_rand := r, es_fuzz := f, es_heap := hp,
             es_peer := upd (\<lambda>l. l[i := msg]) (es_peer s)\<rparr>))))"

text \<open>A mutator that touches the packet alone.\<close>

definition on_packet :: "('m \<Rightarrow> source \<Rightarrow> 'm \<times> source) \<Rightarrow> 'm \<Rightarrow> eth_heap \<Rightarrow> source \<Rightarrow> ('m \<times> eth_heap \<times> source) go" where
  "on_packet f msg hp r = (let (msg', r') = f msg r in Ret (msg', hp, r'))"

definition getNewBlockHashesMsgFuzzed :: "eth_fuzz_env \<Rightarrow> eth_state \<Rightarrow> eth_state go" where
  "getNewBlockHashesMsgFuzzed F =
     eth_fuzz_seed NewBlockHashesMsgs NewBlockHashesMsgs_update (on_packet (MutateNewBlockHashesMsg F))
       NewBlockHashesMsg (\<lambda>hp. WNewBlockHashes)"

definition getNewBlockMsgFuzzed :: "eth_fuzz_env \<Rightarrow> eth_state \<Rightarrow> eth_state go" where
  "getNewBlockMsgFuzzed F =
     eth_fuzz_seed NewBlockMsgs NewBlockMsgs_update
       (\<lambda>(b, td) hp r. let (hp', r') = MutateNewBlockMsg F b td hp r in Ret ((b, td), hp', r'))
       NewBlockMsg (\<lambda>hp (b, td). wire_block hp b td)"

definition getTransactionsMsgFuzzed :: "eth_fuzz_env \<Rightarrow> eth_state \<Rightarrow> eth_state go" where
  "getTransactionsMsgFuzzed F =
     eth_fuzz_seed TransactionsMsgs TransactionsMsgs_update
       (\<lambda>txs hp r. go_bind (MutateTransactionsMsg F txs hp r) (\<lambda>(hp', r'). Ret (txs, hp', r')))
       TransactionsMsg (\<lambda>hp txs. WTransactions (tx_contents hp txs))"

definition getNewPooledTransactionHashesMsgFuzzed :: "eth_fuzz_env \<Rightarrow> eth_state \<Rightarrow> eth_state go" where
  "getNewPooledTransactionHashesMsgFuzzed F =
     eth_fuzz_seed NewPooledTransactionHashesMsgs NewPooledTransactionHashesMsgs_update
       (on_packet (\<lambda>msg r. (MutateNewPooledTransactionHashesMsg msg, r)))
       NewPooledTransactionHashesMsg (\<lambda>hp. WPooledHashes)"

definition getBlockHeadersMsgFuzzed :: "eth_fuzz_env \<Rightarrow> eth_state \<Rightarrow> eth_state go" where
  "getBlockHeadersMsgFuzzed F =
     eth_fuzz_seed BlockHeadersMsgs BlockHeadersMsgs_update
       (\<lambda>msg hp r. Ret (MutateBlockHeadersMsg F msg hp r))
       BlockHeadersMsg (\<lambda>hp (i, hs). WBlockHeaders i (header_contents hp hs))"

definition getGetBlockHeadersMsgFuzzed :: "eth_fuzz_env \<Rightarrow> eth_state \<Rightarrow> eth_state go" where
  "getGetBlockHeadersMsgFuzzed F =
     eth_fuzz_seed GetBlockHeadersMsgs GetBlockHeadersMsgs_update
       (\<lambda>msg hp r. go_bind (MutateGetBlockHeaderMsg F msg r) (\<lambda>(msg', r'). Ret (msg', hp, r')))
       GetBlockHeadersMsg (\<lambda>hp (i, q). WGetBlockHeaders i q)"

definition getGetBlockBodiesMsgFuzzed :: "eth_fuzz_env \<Rightarrow> eth_state \<Rightarrow> eth_state go" where
  "getGetBlockBodiesMsgFuzzed F =
     eth_fuzz_seed GetBlockBodiesMsgs GetBlockBodiesMsgs_update (on_packet (MutateGetBlockBodiesMsg F))
       GetBlockBodiesMsg (\<lambda>hp (i, hs). WHashRequest i hs)"

definition getBlockBodiesMsgFuzzed :: "eth_fuzz_env \<Rightarrow> eth_state \<Rightarrow> eth_state go" where
  "getBlockBodiesMsgFuzzed F =
     eth_fuzz_seed BlockBodiesMsgs BlockBodiesMsgs_update (on_packet (MutateBlockBodiesMsg F))
       BlockBodiesMsg (\<lambda>hp (i, bs). WRawReply i bs)"

definition getGetNodeDataMsgFuzzed :: "eth_fuzz_env \<Rightarrow> eth_state \<Rightarrow> eth_state go" where
  "getGetNodeDataMsgFuzzed F =
     eth_fuzz_seed GetNodeDataMsgs GetNodeDataMsgs_update (on_packet (MutateGetNodeDataMsg F))
       GetNodeDataMsg (\<lambda>hp (i, hs). WHashRequest i hs)"

definition getNodeDataMsgFuzzed :: "eth_fuzz_env \<Rightarrow> eth_state \<Rightarrow> eth_state go" where
  "getNodeDataMsgFuzzed F =
     eth_fuzz_seed NodeDataMsgs NodeDataMsgs_update (on_packet (MutateNodeDataMsg F))
       NodeDataMsg (\<lambda>hp (i, bs). WRawReply i bs)"

definition getGetReceiptsMsgFuzzed :: "eth_fuzz_env \<Rightarrow> eth_state \<Rightarrow> eth_state go" where
  "getGetReceiptsMsgFuzzed F =
     eth_fuzz_seed GetReceiptsMsgs GetReceiptsMsgs_update (on_packet (MutateGetReceiptsMsg F))
       GetReceiptsMsg (\<lambda>hp (i, hs). WHashRequest i hs)"

definition getReceiptsMsgFuzzed :: "eth_fuzz_env \<Rightarrow> eth_state \<Rightarrow> eth_state go" where
  "getReceiptsMsgFuzzed F =
     eth_fuzz_seed ReceiptsMsgs ReceiptsMsgs_update (on_packet (MutateReceiptsMsg F))
       ReceiptsMsg (\<lambda>hp (i, bs). WRawReply i bs)"

definition getGetPooledTransactionsMsgFuzzed :: "eth_fuzz_env \<Rightarrow> eth_state \<Rightarrow> eth_state go" where
  "getGetPooledTransactionsMsgFuzzed F =
     eth_fuzz_seed GetPooledTransactionsMsgs GetPooledTransactionsMsgs_update
       (on_packet (MutateGetPooledTransactionsMsg F))
       GetPooledTransactionsMsg (\<lambda>hp (i, hs). WHashRequest i hs)"

definition getPooledTransactionsMsgFuzzed :: "eth_fuzz_env \<Rightarrow> eth_state \<Rightarrow> eth_state go" where
  "getPooledTransactionsMsgFuzzed F =
     eth_fuzz_seed PooledTransactionsMsgs PooledTransactionsMsgs_update
       (on_packet (MutatePooledTransactionsMsg F))
       PooledTransactionsMsg (\<lambda>hp (i, bs). WRawReply i bs)"

definition getStatusMsgFuzzed :: "eth_fuzz_env \<Rightarrow> eth_state \<Rightarrow> eth_state go" where
  "getStatusMsgFuzzed F =
     eth_fuzz_seed StatusMsgs StatusMsgs_update (\<lambda>msg hp r. Ret (MutateStatusMsg F msg hp r))
       StatusMsg (\<lambda>hp st. WStatus st (map_option (hp_big hp) (st_TD st)))"

definition TransactionsMsgFuzzed :: "eth_fuzz_env \<Rightarrow> eth_state \<Rightarrow> eth_state go" where
  "TransactionsMsgFuzzed F =
     eth_fuzz_seed TransactionsMsgs TransactionsMsgs_update
       (\<lambda>txs hp r. go_bind (MutateTransactions F txs hp r) (\<lambda>(hp', r'). Ret (txs, hp', r')))
       TransactionsMsg (\<lambda>hp txs. WTransactions (tx_contents hp txs))"

subsection \<open>The loops\<close>

text \<open>The map \<open>fuzzers\<close> from message codes to functions.\<close>

definition fuzzers :: "eth_fuzz_env \<Rightarrow> u64 \<Rightarrow> (eth_state \<Rightarrow> eth_state go) option" where
  "fuzzers F = map_of
     [(NewBlockHashesMsg, getNewBlockHashesMsgFuzzed F),
      (NewBlockMsg, getNewBlockMsgFuzzed F),
      (TransactionsMsg, getTransactionsMsgFuzzed F),
      (NewPooledTransactionHashesMsg, getNewPooledTransactionHashesMsgFuzzed F),
      (GetBlockHeadersMsg, getGetBlockHeadersMsgFuzzed F),
      (BlockHeadersMsg, getBlockHeadersMsgFuzzed F),
      (GetBlockBodiesMsg, getGetBlockBodiesMsgFuzzed F),
      (BlockBodiesMsg, getBlockBodiesMsgFuzzed F),
      (GetNodeDataMsg, getGetNodeDataMsgFuzzed F),
      (NodeDataMsg, getNodeDataMsgFuzzed F),
      (GetReceiptsMsg, getGetReceiptsMsgFuzzed F),
      (ReceiptsMsg, getReceiptsMsgFuzzed F),
      (GetPooledTransactionsMsg, getGetPooledTransactionsMsgFuzzed F),
      (PooledTransactionsMsg, getPooledTransactionsMsgFuzzed F)]"

text \<open>The generator is seeded with the current time in seconds before every choice.\<close>

definition eth_getNextType :: "eth_fuzz_env \<Rightarrow> int \<Rightarrow> eth_state \<Rightarrow> u64 \<times> eth_state" where
  "eth_getNextType F now s =
     (let (n, r) = rand_Intn 15 (ez_seed F now) in (of_nat (n + 1), s\<lparr>es_rand := r\<rparr>))"

text \<open>One iteration of \<open>FuzzMessages\<close>, at time \<open>now\<close>.  The pauses are left out.\<close>

definition FuzzMessages_iteration :: "eth_fuzz_env \<Rightarrow> int \<Rightarrow> eth_state \<Rightarrow> eth_state go" where
  "FuzzMessages_iteration F now s =
     (let (t, s1) = eth_getNextType F now s in
      case fuzzers F t of None \<Rightarrow> Ret s1
      | Some fuzzing \<Rightarrow> go_bind (fuzzing s1) (\<lambda>s2. Ret (s2\<lparr>es_fuzzcount := es_fuzzcount s2 + 1\<rparr>)))"

text \<open>One iteration of \<open>recordFuzzIteration\<close>: the first call creates the file.\<close>

definition recordFuzzIteration :: "eth_state \<Rightarrow> eth_state" where
  "recordFuzzIteration s =
     (case es_file s of None \<Rightarrow> s\<lparr>es_file := Some []\<rparr>
      | Some lines \<Rightarrow> s\<lparr>es_file := Some (lines @ [(es_times s, es_fuzzcount s)]),
          es_times := es_times s + 1, es_fuzzcount := 0\<rparr>)"

text \<open>The three goroutines started by \<open>NewPeer\<close>, interleaved in any order.\<close>

datatype fuzz_action = MessageIteration int | TransactionIteration | RecordIteration

fun eth_fuzz_step :: "eth_fuzz_env \<Rightarrow> eth_state \<Rightarrow> fuzz_action \<Rightarrow> eth_state go" where
  "eth_fuzz_step F s (MessageIteration now) = FuzzMessages_iteration F now s"
| "eth_fuzz_step F s TransactionIteration = TransactionsMsgFuzzed F s"
| "eth_fuzz_step F s RecordIteration = Ret (recordFuzzIteration s)"

definition fuzz_run :: "eth_fuzz_env \<Rightarrow> eth_state \<Rightarrow> fuzz_action list \<Rightarrow> eth_state go" where
  "fuzz_run F = go_fold (eth_fuzz_step F)"

subsection \<open>What fuzzing leaves alone\<close>

text \<open>
  What is left of a transaction, a header, a block, a packet and a peer when the fields the
  fuzzer reaches are blanked out.
\<close>

definition blank_fields :: "tx_fields \<Rightarrow> tx_fields" where
  "blank_fields f = f\<lparr>tx_Nonce := 0, tx_Gas := 0\<rparr>"

fun tx_payload :: "tx_data \<Rightarrow> tx_data" where
  "tx_payload (LegacyTx f gp) = LegacyTx (blank_fields f) None"
| "tx_payload (AccessListTx f gp c al) = AccessListTx (blank_fields f) None c al"
| "tx_payload (DynamicFeeTx f tip fee c al) = DynamicFeeTx (blank_fields f) None None c al"

definition header_payload :: "eth_header \<Rightarrow> eth_header" where
  "header_payload h = h\<lparr>Bloom := [], Difficulty := None, Number := None, GasLimit := 0,
     GasUsed := 0, Time := 0, Nonce := []\<rparr>"

definition heap_payload :: "eth_heap \<Rightarrow> eth_heap" where
  "heap_payload hp =
     \<lparr>hp_tx = (\<lambda>a. (hp_tx hp a)\<lparr>tx_inner := tx_payload (tx_inner (hp_tx hp a))\<rparr>),
      hp_header = header_payload \<circ> hp_header hp,
      hp_block = (\<lambda>b. (hp_block hp b)\<lparr>eb_ReceivedAt := 0\<rparr>),
      hp_big = (\<lambda>a. 0)\<rparr>"

definition blank_id :: "u64 \<times> 'a \<Rightarrow> u64 \<times> 'a" where
  "blank_id m = (0, snd m)"

definition blank_query :: "u64 \<times> get_block_headers option \<Rightarrow> u64 \<times> unit option" where
  "blank_query m = (fst m, map_option (\<lambda>_. ()) (snd m))"

definition peer_payload :: "eth_peer \<Rightarrow> eth_peer \<times> (u64 \<times> unit option) list" where
  "peer_payload p =
     (p\<lparr>GetBlockHeadersMsgs := [],
        BlockHeadersMsgs := map blank_id (BlockHeadersMsgs p),
        GetBlockBodiesMsgs := map blank_id (GetBlockBodiesMsgs p),
        BlockBodiesMsgs := map blank_id (BlockBodiesMsgs p),
        GetNodeDataMsgs := map blank_id (GetNodeDataMsgs p),
        NodeDataMsgs := map blank_id (NodeDataMsgs p),
        GetReceiptsMsgs := map blank_id (GetReceiptsMsgs p),
        ReceiptsMsgs := map blank_id (ReceiptsMsgs p),
        GetPooledTransactionsMsgs := map blank_id (GetPooledTransactionsMsgs p),
        PooledTransactionsMsgs := map blank_id (PooledTransactionsMsgs p)\<rparr>,
      map blank_query (GetBlockHeadersMsgs p))"

text \<open>Mutating a transaction.\<close>

lemma fuzz_tx_payload:
  "tx_payload (fst (fuzz_Gas F t r)) = tx_payload t"
  "tx_payload (fst (fuzz_Nonce F t r)) = tx_payload t"
  "tx_payload (fst (fuzz_Gasprice F t r)) = tx_payload t"
  "tx_payload (fst (fuzz_GastipCap F t r)) = tx_payload t"
  "tx_payload (fst (fuzz_GasfeeCap F t r)) = tx_payload t"
  by (cases t; simp add: fuzz_Gas_def fuzz_Nonce_def fuzz_GasfeeCap_def blank_fields_def
      split: prod.splits)+

lemma mutate_tx_payload: "mutate_tx F t r = Ret (t', r') \<Longrightarrow> tx_payload t' = tx_payload t"
proof -
  assume mut: "mutate_tx F t r = Ret (t', r')"
  let ?a = "fuzz_Gas F t (snd (ez_string F r))"
  let ?b = "fuzz_Gasprice F (fst ?a) (snd ?a)"
  let ?c = "fuzz_GastipCap F (fst ?b) (snd ?b)"
  let ?d = "fuzz_GasfeeCap F (fst ?c) (snd ?c)"
  from mut obtain r6 where "fuzz_Nonce F (fst ?d) r6 = (t', r')"
    by (auto simp: mutate_tx_def Let_def case_prod_beta go_simps)
  then have "t' = fst (fuzz_Nonce F (fst ?d) r6)" by simp
  then show ?thesis by (simp add: fuzz_tx_payload)
qed

lemma MutateTransactionsMsg_payload:
  "MutateTransactionsMsg F txs hp r = Ret (hp', r') \<Longrightarrow> heap_payload hp' = heap_payload hp"
proof (induction txs arbitrary: hp r)
  case (Cons a as)
  from Cons.prems obtain t r1 where t: "mutate_tx F (tx_inner (hp_tx hp a)) r = Ret (t, r1)"
    and rest: "MutateTransactionsMsg F as
      (hp\<lparr>hp_tx := (hp_tx hp)(a := (hp_tx hp a)\<lparr>tx_inner := t\<rparr>)\<rparr>) r1 = Ret (hp', r')"
    by (auto simp: go_simps)
  have "heap_payload (hp\<lparr>hp_tx := (hp_tx hp)(a := (hp_tx hp a)\<lparr>tx_inner := t\<rparr>)\<rparr>) = heap_payload hp"
    using mutate_tx_payload [OF t] by (simp add: heap_payload_def fun_eq_iff)
  with Cons.IH [OF rest] show ?case by simp
qed simp

lemma MutateNewBlockMsg_payload: "heap_payload (fst (MutateNewBlockMsg F b td hp r)) = heap_payload hp"
  by (auto simp: MutateNewBlockMsg_def heap_payload_def fun_eq_iff Let_def case_prod_beta
      split: option.splits)

lemma header_payload_mutate: "header_payload (fst (mutate_header F h r)) = header_payload h"
  by (simp add: mutate_header_def header_payload_def Let_def case_prod_beta)

lemma mutate_headers_payload: "heap_payload (fst (mutate_headers F hs hp r)) = heap_payload hp"
proof (induction hs arbitrary: hp r)
  case (Cons a as)
  let ?h = "mutate_header F (hp_header hp a) r"
  have "heap_payload (hp\<lparr>hp_header := (hp_header hp)(a := fst ?h)\<rparr>) = heap_payload hp"
    by (simp add: heap_payload_def fun_eq_iff header_payload_mutate)
  with Cons.IH [of "hp\<lparr>hp_header := (hp_header hp)(a := fst ?h)\<rparr>" "snd ?h"] show ?case
    by (simp add: Let_def case_prod_beta)
qed simp

text \<open>
  Fuzzing a seed: when the mutator keeps the payload of the heap and a view of the packet,
  and a seed list updated with a packet of the same view is the same list to the peer's
  payload, the step keeps both payloads.
\<close>

definition same_payload :: "eth_state \<Rightarrow> eth_state \<Rightarrow> bool" where
  "same_payload s t \<longleftrightarrow>
     peer_payload (es_peer t) = peer_payload (es_peer s) \<and>
     heap_payload (es_heap t) = heap_payload (es_heap s)"

lemma eth_fuzz_seed_outcome:
  assumes "eth_fuzz_seed seeds upd mutate code wire s = Ret t"
  shows "t = s \<or> (\<exists>i < length (seeds (es_peer s)). \<exists>msg hp f.
    mutate (seeds (es_peer s) ! i) (es_heap s) (es_fuzz s) = Ret (msg, hp, f) \<and>
    es_heap t = hp \<and> es_peer t = upd (\<lambda>l. l[i := msg]) (es_peer s) \<and>
    es_sent t = es_sent s @ [(code, wire hp msg)] \<and> es_fuzzcount t = es_fuzzcount s)"
proof (cases "seeds (es_peer s) = []")
  case False
  let ?i = "fst (rand_Intn (length (seeds (es_peer s))) (es_rand s))"
  have "?i < length (seeds (es_peer s))" using False by (simp add: rand_Intn_def)
  with False assms show ?thesis
    by (auto simp: eth_fuzz_seed_def go_simps Let_def case_prod_beta p2p_Send_def)
next
  case True
  with assms show ?thesis by (simp add: eth_fuzz_seed_def)
qed

lemma eth_fuzz_seed_payload:
  assumes "eth_fuzz_seed seeds upd mutate code wire s = Ret t"
    and "\<And>m hp r m' hp' r'. mutate m hp r = Ret (m', hp', r') \<Longrightarrow>
      heap_payload hp' = heap_payload hp \<and> view m' = view m"
    and "\<And>p i m. i < length (seeds p) \<Longrightarrow> view m = view (seeds p ! i) \<Longrightarrow>
      peer_payload (upd (\<lambda>l. l[i := m]) p) = peer_payload p"
  shows "same_payload s t"
  using eth_fuzz_seed_outcome [OF assms(1)]
proof
  assume "t = s"
  then show ?thesis by (simp add: same_payload_def)
next
  assume "\<exists>i < length (seeds (es_peer s)). \<exists>msg hp f.
    mutate (seeds (es_peer s) ! i) (es_heap s) (es_fuzz s) = Ret (msg, hp, f) \<and>
    es_heap t = hp \<and> es_peer t = upd (\<lambda>l. l[i := msg]) (es_peer s) \<and>
    es_sent t = es_sent s @ [(code, wire hp msg)] \<and> es_fuzzcount t = es_fuzzcount s"
  then show ?thesis using assms(2,3) by (auto simp: same_payload_def)
qed

lemma map_view_update: "i < length l \<Longrightarrow> view m = view (l ! i) \<Longrightarrow> map view (l[i := m]) = map view l"
  by (metis list_update_id map_update)

lemma on_packet_Ret:
  "on_packet f msg hp r = Ret (msg', hp', r') \<longleftrightarrow> f msg r = (msg', r') \<and> hp' = hp"
  by (auto simp: on_packet_def split: prod.splits)

lemma mutate_view:
  "mutate_request_id F m r = (m', r') \<Longrightarrow> blank_id m' = blank_id m"
  "mutate_reply F n r = (n', r') \<Longrightarrow> blank_id n' = blank_id n"
  by (auto simp: mutate_request_id_def mutate_reply_def blank_id_def split: prod.splits)

lemmas mutator_defs =
  MutateGetBlockBodiesMsg_def MutateGetNodeDataMsg_def MutateGetReceiptsMsg_def
  MutateGetPooledTransactionsMsg_def MutateBlockBodiesMsg_def MutateNodeDataMsg_def
  MutateReceiptsMsg_def MutatePooledTransactionsMsg_def

lemmas blank_id_update = map_view_update [where view = blank_id]

lemma getGetBlockBodiesMsgFuzzed_payload: "getGetBlockBodiesMsgFuzzed F s = Ret t \<Longrightarrow> same_payload s t"
  unfolding getGetBlockBodiesMsgFuzzed_def
  by (erule eth_fuzz_seed_payload [where view = blank_id])
    (auto simp: on_packet_Ret mutator_defs peer_payload_def blank_id_update intro: mutate_view)

lemma getBlockBodiesMsgFuzzed_payload: "getBlockBodiesMsgFuzzed F s = Ret t \<Longrightarrow> same_payload s t"
  unfolding getBlockBodiesMsgFuzzed_def
  by (erule eth_fuzz_seed_payload [where view = blank_id])
    (auto simp: on_packet_Ret mutator_defs peer_payload_def blank_id_update intro: mutate_view)

lemma getGetNodeDataMsgFuzzed_payload: "getGetNodeDataMsgFuzzed F s = Ret t \<Longrightarrow> same_payload s t"
  unfolding getGetNodeDataMsgFuzzed_def
  by (erule eth_fuzz_seed_payload [where view = blank_id])
    (auto simp: on_packet_Ret mutator_defs peer_payload_def blank_id_update intro: mutate_view)

lemma getNodeDataMsgFuzzed_payload: "getNodeDataMsgFuzzed F s = Ret t \<Longrightarrow> same_payload s t"
  unfolding getNodeDataMsgFuzzed_def
  by (erule eth_fuzz_seed_payload [where view = blank_id])
    (auto simp: on_packet_Ret mutator_defs peer_payload_def blank_id_update intro: mutate_view)

lemma getGetReceiptsMsgFuzzed_payload: "getGetReceiptsMsgFuzzed F s = Ret t \<Longrightarrow> same_payload s t"
  unfolding getGetReceiptsMsgFuzzed_def
  by (erule eth_fuzz_seed_payload [where view = blank_id])
    (auto simp: on_packet_Ret mutator_defs peer_payload_def blank_id_update intro: mutate_view)

lemma getReceiptsMsgFuzzed_payload: "getReceiptsMsgFuzzed F s = Ret t \<Longrightarrow> same_payload s t"
  unfolding getReceiptsMsgFuzzed_def
  by (erule eth_fuzz_seed_payload [where view = blank_id])
    (auto simp: on_packet_Ret mutator_defs peer_payload_def blank_id_update intro: mutate_view)

lemma getGetPooledTransactionsMsgFuzzed_payload: "getGetPooledTransactionsMsgFuzzed F s = Ret t \<Longrightarrow> same_payload s t"
  unfolding getGetPooledTransactionsMsgFuzzed_def
  by (erule eth_fuzz_seed_payload [where view = blank_id])
    (auto simp: on_packet_Ret mutator_defs peer_payload_def blank_id_update intro: mutate_view)

lemma getPooledTransactionsMsgFuzzed_payload: "getPooledTransactionsMsgFuzzed F s = Ret t \<Longrightarrow> same_payload s t"
  unfolding getPooledTransactionsMsgFuzzed_def
  by (erule eth_fuzz_seed_payload [where view = blank_id])
    (auto simp: on_packet_Ret mutator_defs peer_payload_def blank_id_update intro: mutate_view)

lemma getNewBlockHashesMsgFuzzed_payload:
  "getNewBlockHashesMsgFuzzed F s = Ret t \<Longrightarrow> same_payload s t"
  unfolding getNewBlockHashesMsgFuzzed_def
  by (erule eth_fuzz_seed_payload [where view = "\<lambda>x. x"])
    (auto simp: on_packet_Ret MutateNewBlockHashesMsg_def peer_payload_def split: prod.splits)

lemma getNewPooledTransactionHashesMsgFuzzed_payload:
  "getNewPooledTransactionHashesMsgFuzzed F s = Ret t \<Longrightarrow> same_payload s t"
  unfolding getNewPooledTransactionHashesMsgFuzzed_def
  by (erule eth_fuzz_seed_payload [where view = "\<lambda>x. x"])
    (auto simp: on_packet_Ret MutateNewPooledTransactionHashesMsg_def peer_payload_def)

lemma getNewBlockMsgFuzzed_payload: "getNewBlockMsgFuzzed F s = Ret t \<Longrightarrow> same_payload s t"
  unfolding getNewBlockMsgFuzzed_def
proof (erule eth_fuzz_seed_payload [where view = "\<lambda>x. x"])
  fix m :: "ref \<times> ref option" and hp r m' hp' r'
  assume "(case m of (b, td) \<Rightarrow> \<lambda>hp r. let (hp', r') = MutateNewBlockMsg F b td hp r in Ret ((b, td), hp', r'))
    hp r = Ret (m', hp', r')"
  then show "heap_payload hp' = heap_payload hp \<and> m' = m"
    using MutateNewBlockMsg_payload [of F "fst m" "snd m" hp r] by (auto split: prod.splits)
qed (simp add: peer_payload_def)

lemma transactions_fuzzed_payload:
  "getTransactionsMsgFuzzed F s = Ret t \<Longrightarrow> same_payload s t"
  "TransactionsMsgFuzzed F s = Ret t \<Longrightarrow> same_payload s t"
  unfolding getTransactionsMsgFuzzed_def TransactionsMsgFuzzed_def MutateTransactions_def
  by (erule eth_fuzz_seed_payload [where view = "\<lambda>x. x"],
      auto simp: go_simps peer_payload_def dest: MutateTransactionsMsg_payload)+

lemma getBlockHeadersMsgFuzzed_payload: "getBlockHeadersMsgFuzzed F s = Ret t \<Longrightarrow> same_payload s t"
  unfolding getBlockHeadersMsgFuzzed_def
proof (erule eth_fuzz_seed_payload [where view = blank_id])
  fix m :: "u64 \<times> ref list" and hp r m' hp' r'
  assume "Ret (MutateBlockHeadersMsg F m hp r) = Ret (m', hp', r')"
  then show "heap_payload hp' = heap_payload hp \<and> blank_id m' = blank_id m"
    using mutate_headers_payload [of F "snd m" hp "snd (ez_uint64 F r)"]
    by (auto simp: MutateBlockHeadersMsg_def blank_id_def Let_def case_prod_beta)
qed (simp add: peer_payload_def blank_id_update)

lemma getGetBlockHeadersMsgFuzzed_payload:
  "getGetBlockHeadersMsgFuzzed F s = Ret t \<Longrightarrow> same_payload s t"
  unfolding getGetBlockHeadersMsgFuzzed_def
  by (erule eth_fuzz_seed_payload [where view = blank_query])
    (auto simp: go_simps MutateGetBlockHeaderMsg_def peer_payload_def blank_query_def Let_def
      case_prod_beta map_view_update [where view = blank_query])

lemmas handler_payload =
  getNewBlockHashesMsgFuzzed_payload getNewBlockMsgFuzzed_payload transactions_fuzzed_payload
  getNewPooledTransactionHashesMsgFuzzed_payload getGetBlockHeadersMsgFuzzed_payload
  getBlockHeadersMsgFuzzed_payload
  getGetBlockBodiesMsgFuzzed_payload
  getBlockBodiesMsgFuzzed_payload
  getGetNodeDataMsgFuzzed_payload
  getNodeDataMsgFuzzed_payload
  getGetReceiptsMsgFuzzed_payload
  getReceiptsMsgFuzzed_payload
  getGetPooledTransactionsMsgFuzzed_payload
  getPooledTransactionsMsgFuzzed_payload

lemma fuzzers_payload: "fuzzers F c = Some f \<Longrightarrow> f s = Ret t \<Longrightarrow> same_payload s t"
  unfolding fuzzers_def by (drule map_of_SomeD) (auto intro: handler_payload)

lemma same_payload_trans: "same_payload s t \<Longrightarrow> same_payload t u \<Longrightarrow> same_payload s u"
  by (simp add: same_payload_def)

lemma eth_getNextType_payload: "same_payload s (snd (eth_getNextType F now s))"
  by (simp add: eth_getNextType_def same_payload_def case_prod_beta)

lemma FuzzMessages_iteration_payload:
  assumes "FuzzMessages_iteration F now s = Ret t"
  shows "same_payload s t"
proof -
  obtain c s1 where c: "eth_getNextType F now s = (c, s1)" by (cases "eth_getNextType F now s") auto
  have s1: "same_payload s s1" using eth_getNextType_payload [of s F now] c by simp
  show ?thesis
  proof (cases "fuzzers F c")
    case None
    with assms c s1 show ?thesis by (simp add: FuzzMessages_iteration_def)
  next
    case (Some f)
    with assms c obtain s2 where s2: "f s1 = Ret s2" "t = s2\<lparr>es_fuzzcount := es_fuzzcount s2 + 1\<rparr>"
      by (auto simp: FuzzMessages_iteration_def go_simps)
    from fuzzers_payload [OF Some s2(1)] have "same_payload s1 t"
      by (simp add: s2(2) same_payload_def)
    with s1 show ?thesis by (rule same_payload_trans)
  qed
qed

lemma eth_fuzz_step_payload: "eth_fuzz_step F s a = Ret t \<Longrightarrow> same_payload s t"
proof (cases a)
  case RecordIteration
  then show "eth_fuzz_step F s a = Ret t \<Longrightarrow> same_payload s t"
    by (auto simp: recordFuzzIteration_def same_payload_def split: option.splits)
qed (auto intro: FuzzMessages_iteration_payload handler_payload)


text \<open>A sample run, on a generator that repeats the time and a fuzzer that stores constants.\<close>

definition sample_fuzz_env :: eth_fuzz_env where
  "sample_fuzz_env = \<lparr>ez_seed = (\<lambda>now n. nat now), ez_uint32 = Pair 1, ez_uint64 = Pair 7,
     ez_bool = Pair True, ez_string = Pair [1], ez_bytes = Pair [], ez_big = (\<lambda>i. Pair i),
     ez_time = Pair 5, ez_bloom = Pair [], ez_nonce = Pair [],
     ez_origin = Pair \<lparr>hn_Hash = [], hn_Number = 3\<rparr>, ez_forkid = Pair ([], 0),
     ez_header = (\<lambda>h. Pair h), ez_block_hashes = Pair None\<rparr>"

definition empty_header :: eth_header where
  "empty_header = \<lparr>ParentHash = zero_hash, UncleHash = zero_hash, Coinbase = zero_address,
     Root = zero_hash, TxHash = zero_hash, ReceiptHash = zero_hash, Bloom = [],
     Difficulty = Some 2, Number = Some 1, GasLimit = 8000000, GasUsed = 0, Time = 100,
     Extra = [], MixDigest = zero_hash, Nonce = [], BaseFee = None\<rparr>"

definition sample_tx :: transaction where
  "sample_tx = \<lparr>tx_inner = LegacyTx \<lparr>tx_Nonce = 0, tx_Gas = 21000, tx_To = None, tx_Value = Some 5,
     tx_Data = [9], tx_V = None, tx_R = None, tx_S = None\<rparr> (Some 1), tx_hash = None\<rparr>"

definition sample_state :: eth_state where
  "sample_state = \<lparr>es_peer = NewPeer,
     es_heap = \<lparr>hp_tx = (\<lambda>_. sample_tx), hp_header = (\<lambda>_. empty_header),
       hp_block = (\<lambda>_. \<lparr>eb_header = empty_header, eb_uncles = [], eb_transactions = [],
         eb_hash = None, eb_ReceivedAt = 0\<rparr>), hp_big = (\<lambda>_. 0)\<rparr>,
     es_sent = [], es_rand = (\<lambda>_. 0), es_fuzz = (\<lambda>_. 0), es_fuzzcount = 0, es_times = 0,
     es_file = None\<rparr>"

lemmas sample_run_defs =
  fuzz_run_def FuzzMessages_iteration_def eth_getNextType_def rand_Intn_def draw_def fuzzers_def
  msg_code_defs getBlockHeadersMsgFuzzed_def eth_fuzz_seed_def MutateBlockHeadersMsg_def
  mutate_header_def fuzz_big_def sample_fuzz_env_def recordFuzzIteration_def p2p_Send_def
  ReplyBlockHeaders_def sample_state_def NewPeer_def empty_header_def TransactionsMsgFuzzed_def

text \<open>
  The headers of a reply are recorded by pointer, so fuzzing the reply changes the header
  the chain handed out.
\<close>

lemma reply_headers_mutated_in_place:
  "\<exists>t. fuzz_run sample_fuzz_env (ReplyBlockHeaders 1 [0] sample_state) [MessageIteration 3, RecordIteration] =
       Ret t \<and>
     GasLimit (hp_header (es_heap sample_state) 0) = 8000000 \<and> GasLimit (hp_header (es_heap t) 0) = 7"
  by (simp add: sample_run_defs)


subsection \<open>What is sent\<close>

lemmas handler_defs =
  getNewBlockHashesMsgFuzzed_def getNewBlockMsgFuzzed_def getTransactionsMsgFuzzed_def
  getNewPooledTransactionHashesMsgFuzzed_def getGetBlockHeadersMsgFuzzed_def
  getBlockHeadersMsgFuzzed_def getGetBlockBodiesMsgFuzzed_def getBlockBodiesMsgFuzzed_def
  getGetNodeDataMsgFuzzed_def getNodeDataMsgFuzzed_def getGetReceiptsMsgFuzzed_def
  getReceiptsMsgFuzzed_def getGetPooledTransactionsMsgFuzzed_def getPooledTransactionsMsgFuzzed_def

lemma eth_fuzz_seed_sends:
  "eth_fuzz_seed seeds upd mutate code wire s = Ret t \<Longrightarrow>
   (es_sent t = es_sent s \<or> (\<exists>m. es_sent t = es_sent s @ [(code, m)])) \<and> es_fuzzcount t = es_fuzzcount s"
  by (drule eth_fuzz_seed_outcome) auto

lemma fuzzers_sends:
  "fuzzers F c = Some f \<Longrightarrow> f s = Ret t \<Longrightarrow>
   (es_sent t = es_sent s \<or> (\<exists>m. es_sent t = es_sent s @ [(c, m)])) \<and> es_fuzzcount t = es_fuzzcount s"
  unfolding fuzzers_def
  by (drule map_of_SomeD, simp only: list.set insert_iff empty_iff prod.inject simp_thms,
      elim disjE conjE; simp only: handler_defs; drule eth_fuzz_seed_sends; simp)

lemma fuzzers_domain:
  "fuzzers F (of_nat (n + 1)) = None \<longleftrightarrow> n = 10 \<or> n = 11" if "n < 15"
proof -
  have "n \<in> set [0..<15]" using that by simp
  then show ?thesis
    by (simp add: upt_rec) (elim disjE; simp add: fuzzers_def msg_code_defs)
qed



end
