(* ===== verification/Ethash.thy ===== *)
theory Ethash
  imports GethMisc
begin

text \<open>
  The proof-of-work engine of Geth (\<open>consensus/ethash\<close>): the difficulty calculators of
  \<open>consensus.go\<close> on unbounded integers and those of \<open>difficulty.go\<close> on 256-bit integers.

  The 256-bit integers come from \<open>holiman/uint256\<close>: their operations are the record
  \<open>uint256_ops\<close>, and the locale \<open>uint256\<close> states the documented behaviour the calculators rely
  on.  Header verification and the hash function of the proof of work are not modelled.
\<close>

subsection \<open>Constants\<close>

definition minimumDifficulty :: int where "minimumDifficulty = 131072"
definition expDiffPeriod :: int where "expDiffPeriod = 100000"
definition DifficultyBoundDivisor :: int where "DifficultyBoundDivisor = 2048"
definition DurationLimit :: int where "DurationLimit = 13"
definition frontierDurationLimit :: u64 where "frontierDurationLimit = 13"
definition expDiffPeriodUint :: u64 where "expDiffPeriodUint = 100000"
definition difficultyBoundDivisor :: nat where "difficultyBoundDivisor = 11"

lemmas ethash_constants =
  minimumDifficulty_def expDiffPeriod_def DifficultyBoundDivisor_def DurationLimit_def
  frontierDurationLimit_def expDiffPeriodUint_def difficultyBoundDivisor_def

subsection \<open>Difficulty on unbounded integers\<close>

definition calcDifficultyFrontier :: "u64 \<Rightarrow> eth_header \<Rightarrow> int go" where
  "calcDifficultyFrontier time parent =
     go_bind (deref (Difficulty parent)) (\<lambda>pd.
     let adjust = pd div DifficultyBoundDivisor;
         diff = (if uint time - uint (Time parent) < DurationLimit then pd + adjust else pd - adjust);
         diff = (if diff < minimumDifficulty then minimumDifficulty else diff) in
     go_bind (deref (Number parent)) (\<lambda>n.
     let periodCount = (n + 1) div expDiffPeriod in
     Ret (if periodCount > 1 then max (diff + 2 ^ nat (periodCount - 2)) minimumDifficulty else diff)))"

definition calcDifficultyHomestead :: "u64 \<Rightarrow> eth_header \<Rightarrow> int go" where
  "calcDifficultyHomestead time parent =
     (let x = 1 - (uint time - uint (Time parent)) div 10;
          x = (if x < - 99 then - 99 else x) in
      go_bind (deref (Difficulty parent)) (\<lambda>pd.
      let y = pd div DifficultyBoundDivisor;
          x = pd + y * x;
          x = (if x < minimumDifficulty then minimumDifficulty else x) in
      go_bind (deref (Number parent)) (\<lambda>n.
      let periodCount = (n + 1) div expDiffPeriod in
      Ret (if periodCount > 1 then x + 2 ^ nat (periodCount - 2) else x))))"

definition makeDifficultyCalculator :: "(bytes \<Rightarrow> hash) \<Rightarrow> int \<Rightarrow> u64 \<Rightarrow> eth_header \<Rightarrow> int go" where
  "makeDifficultyCalculator keccak bombDelay time parent =
     (let bombDelayFromParent = bombDelay - 1;
          x = (uint time - uint (Time parent)) div 9;
          x = (if UncleHash parent = EmptyUncleHash keccak then 1 - x else 2 - x);
          x = (if x < - 99 then - 99 else x) in
      go_bind (deref (Difficulty parent)) (\<lambda>pd.
      let y = pd div DifficultyBoundDivisor;
          x = pd + y * x;
          x = (if x < minimumDifficulty then minimumDifficulty else x) in
      go_bind (deref (Number parent)) (\<lambda>n.
      let fakeBlockNumber = (if n \<ge> bombDelayFromParent then n - bombDelayFromParent else 0);
          periodCount = fakeBlockNumber div expDiffPeriod in
      Ret (if periodCount > 1 then x + 2 ^ nat (periodCount - 2) else x))))"

definition calcDifficultyEip3554 where "calcDifficultyEip3554 keccak = makeDifficultyCalculator keccak 9700000"
definition calcDifficultyEip2384 where "calcDifficultyEip2384 keccak = makeDifficultyCalculator keccak 9000000"
definition calcDifficultyConstantinople where
  "calcDifficultyConstantinople keccak = makeDifficultyCalculator keccak 5000000"
definition calcDifficultyByzantium where
  "calcDifficultyByzantium keccak = makeDifficultyCalculator keccak 3000000"

definition CalcDifficulty :: "(bytes \<Rightarrow> hash) \<Rightarrow> chain_config \<Rightarrow> u64 \<Rightarrow> eth_header \<Rightarrow> int go" where
  "CalcDifficulty keccak config time parent =
     go_bind (deref (Number parent)) (\<lambda>n.
     let next = Some (n + 1) in
     if IsCatalyst config next then Ret 1
     else if IsLondon config next then calcDifficultyEip3554 keccak time parent
     else if IsMuirGlacier config next then calcDifficultyEip2384 keccak time parent
     else if IsConstantinople config next then calcDifficultyConstantinople keccak time parent
     else if IsByzantium config next then calcDifficultyByzantium keccak time parent
     else if IsHomestead config next then calcDifficultyHomestead time parent
     else calcDifficultyFrontier time parent)"

subsection \<open>Difficulty on 256-bit integers\<close>

record 'u uint256_ops =
  u_FromBig :: "int \<Rightarrow> 'u"
  u_ToBig :: "'u \<Rightarrow> int"
  u_SetUint64 :: "u64 \<Rightarrow> 'u"
  u_Add :: "'u \<Rightarrow> 'u \<Rightarrow> 'u"
  u_Sub :: "'u \<Rightarrow> 'u \<Rightarrow> 'u"
  u_Mul :: "'u \<Rightarrow> 'u \<Rightarrow> 'u"
  u_Rsh :: "'u \<Rightarrow> nat \<Rightarrow> 'u"
  u_Lsh :: "'u \<Rightarrow> nat \<Rightarrow> 'u"
  u_LtUint64 :: "'u \<Rightarrow> u64 \<Rightarrow> bool"

definition CalcDifficultyFrontierU256 :: "'u uint256_ops \<Rightarrow> u64 \<Rightarrow> eth_header \<Rightarrow> int go" where
  "CalcDifficultyFrontierU256 U time parent =
     go_bind (deref (Difficulty parent)) (\<lambda>pd.
     let pDiff = u_FromBig U pd;
         adjust = u_Rsh U pDiff difficultyBoundDivisor;
         pDiff = (if time - Time parent < frontierDurationLimit then u_Add U pDiff adjust
                  else u_Sub U pDiff adjust);
         pDiff = (if u_LtUint64 U pDiff (of_int minimumDifficulty)
                  then u_SetUint64 U (of_int minimumDifficulty) else pDiff) in
     go_bind (big_Uint64 (Number parent)) (\<lambda>n.
     let periodCount = (n + 1) div expDiffPeriodUint in
     Ret (u_ToBig U
       (if periodCount > 1
        then u_Add U pDiff (u_Lsh U (u_SetUint64 U 1) (unat (periodCount - 2))) else pDiff))))"

definition CalcDifficultyHomesteadU256 :: "'u uint256_ops \<Rightarrow> u64 \<Rightarrow> eth_header \<Rightarrow> int go" where
  "CalcDifficultyHomesteadU256 U time parent =
     go_bind (deref (Difficulty parent)) (\<lambda>pd.
     let pDiff = u_FromBig U pd;
         adjust = u_Rsh U pDiff difficultyBoundDivisor;
         x = (time - Time parent) div 10;
         neg = (x \<noteq> 0);
         x = (if x = 0 then 1 else if x \<ge> 100 then 99 else x - 1);
         adjust = u_Mul U adjust (u_SetUint64 U x);
         pDiff = (if neg then u_Sub U pDiff adjust else u_Add U pDiff adjust);
         pDiff = (if u_LtUint64 U pDiff (of_int minimumDifficulty)
                  then u_SetUint64 U (of_int minimumDifficulty) else pDiff) in
     go_bind (big_Uint64 (Number parent)) (\<lambda>n.
     let periodCount = (1 + n) div expDiffPeriodUint in
     Ret (u_ToBig U
       (if periodCount > 1
        then u_Add U pDiff (u_Lsh U (u_SetUint64 U 1) (unat (periodCount - 2))) else pDiff))))"

definition MakeDifficultyCalculatorU256 ::
    "(bytes \<Rightarrow> hash) \<Rightarrow> 'u uint256_ops \<Rightarrow> int \<Rightarrow> u64 \<Rightarrow> eth_header \<Rightarrow> int go" where
  "MakeDifficultyCalculatorU256 keccak U bombDelay time parent =
     (let bombDelayFromParent = of_int \<bar>bombDelay\<bar> - 1;
          x = (time - Time parent) div 9;
          c = (if UncleHash parent \<noteq> EmptyUncleHash keccak then 2 else 1);
          xNeg = (x \<ge> c);
          x = (if xNeg then x - c else c - x);
          x = (if x > 99 then 99 else x) in
      go_bind (deref (Difficulty parent)) (\<lambda>pd.
      let y = u_FromBig U pd;
          pDiff = y;
          z = u_SetUint64 U x;
          y = u_Rsh U y difficultyBoundDivisor;
          z = u_Mul U y z;
          y = (if xNeg then u_Sub U pDiff z else u_Add U pDiff z);
          y = (if u_LtUint64 U y (of_int minimumDifficulty)
               then u_SetUint64 U (of_int minimumDifficulty) else y) in
      go_bind (big_Uint64 (Number parent)) (\<lambda>pNum.
      Ret (u_ToBig U
        (if pNum \<ge> bombDelayFromParent \<and> pNum - bombDelayFromParent \<ge> 2 * expDiffPeriodUint
         then u_Add U (u_Lsh U (u_SetUint64 U 1)
                (unat ((pNum - bombDelayFromParent) div expDiffPeriodUint - 2))) y
         else y)))))"

subsection \<open>The two kinds of calculators agree\<close>

text \<open>What the calculators rely on: arithmetic modulo \<open>2 ^ 256\<close>.\<close>

locale uint256 =
  fixes U :: "'u uint256_ops"
  assumes ToBig_FromBig: "u_ToBig U (u_FromBig U i) = i mod 2 ^ 256"
    and ToBig_SetUint64: "u_ToBig U (u_SetUint64 U w) = uint w"
    and ToBig_Add: "u_ToBig U (u_Add U x y) = (u_ToBig U x + u_ToBig U y) mod 2 ^ 256"
    and ToBig_Sub: "u_ToBig U (u_Sub U x y) = (u_ToBig U x - u_ToBig U y) mod 2 ^ 256"
    and ToBig_Mul: "u_ToBig U (u_Mul U x y) = (u_ToBig U x * u_ToBig U y) mod 2 ^ 256"
    and ToBig_Rsh: "u_ToBig U (u_Rsh U x n) = u_ToBig U x div 2 ^ n"
    and ToBig_Lsh: "u_ToBig U (u_Lsh U x n) = (u_ToBig U x * 2 ^ n) mod 2 ^ 256"
    and LtUint64: "u_LtUint64 U x w \<longleftrightarrow> u_ToBig U x < uint w"
begin

lemma FromBig_exact: "0 \<le> d \<Longrightarrow> d < 2 ^ 256 \<Longrightarrow> u_ToBig U (u_FromBig U d) = d"
  by (simp add: ToBig_FromBig mod_pos_pos_trivial)

lemma Add_exact:
  "0 \<le> u_ToBig U x \<Longrightarrow> 0 \<le> u_ToBig U y \<Longrightarrow> u_ToBig U x + u_ToBig U y < 2 ^ 256 \<Longrightarrow>
   u_ToBig U (u_Add U x y) = u_ToBig U x + u_ToBig U y"
  unfolding ToBig_Add by (intro mod_pos_pos_trivial) linarith+

lemma Sub_exact:
  "u_ToBig U y \<le> u_ToBig U x \<Longrightarrow> u_ToBig U x < 2 ^ 256 \<Longrightarrow> 0 \<le> u_ToBig U y \<Longrightarrow>
   u_ToBig U (u_Sub U x y) = u_ToBig U x - u_ToBig U y"
  unfolding ToBig_Sub by (intro mod_pos_pos_trivial) linarith+

lemma Mul_exact:
  "0 \<le> u_ToBig U x * u_ToBig U y \<Longrightarrow> u_ToBig U x * u_ToBig U y < 2 ^ 256 \<Longrightarrow>
   u_ToBig U (u_Mul U x y) = u_ToBig U x * u_ToBig U y"
  unfolding ToBig_Mul by (rule mod_pos_pos_trivial)

text \<open>The share of the difficulty that is added or taken away.\<close>

lemma adjusted:
  assumes "0 \<le> d" "d < 2 ^ 256" and "uint x \<le> 99"
  defines "a \<equiv> u_Mul U (u_Rsh U (u_FromBig U d) difficultyBoundDivisor) (u_SetUint64 U x)"
  shows "u_ToBig U a = d div 2048 * uint x" and "u_ToBig U (u_Sub U (u_FromBig U d) a) = d - d div 2048 * uint x"
    and "d + d div 2048 * uint x < 2 ^ 256 \<Longrightarrow>
      u_ToBig U (u_Add U (u_FromBig U d) a) = d + d div 2048 * uint x"
proof -
  have nonneg: "0 \<le> d div 2048 * uint x" using assms(1) by simp
  have "d div 2048 * uint x \<le> d div 2048 * 99" using assms(1,3) by (intro mult_left_mono) simp_all
  also have "\<dots> \<le> d" using assms(1) by simp
  finally have le: "d div 2048 * uint x \<le> d" .
  show a: "u_ToBig U a = d div 2048 * uint x"
    using nonneg le assms(1,2)
    by (simp add: a_def Mul_exact ToBig_Rsh ToBig_SetUint64 FromBig_exact difficultyBoundDivisor_def)
  show "u_ToBig U (u_Sub U (u_FromBig U d) a) = d - d div 2048 * uint x"
    using nonneg le assms(1,2) by (simp add: Sub_exact a FromBig_exact)
  show "u_ToBig U (u_Add U (u_FromBig U d) a) = d + d div 2048 * uint x"
    if "d + d div 2048 * uint x < 2 ^ 256"
    using that nonneg assms(1,2) by (simp add: Add_exact a FromBig_exact)
qed

text \<open>The lower bound and the exponential term.\<close>

lemma clamped:
  "u_ToBig U (if u_LtUint64 U y (of_int minimumDifficulty)
     then u_SetUint64 U (of_int minimumDifficulty) else y) =
   (if u_ToBig U y < minimumDifficulty then minimumDifficulty else u_ToBig U y)"
  by (simp add: LtUint64 ToBig_SetUint64 minimumDifficulty_def)

lemma bomb:
  assumes "0 \<le> u_ToBig U y" and "u_ToBig U y + 2 ^ k < 2 ^ 256"
  shows "u_ToBig U (u_Add U y (u_Lsh U (u_SetUint64 U 1) k)) = u_ToBig U y + 2 ^ k"
    and "u_ToBig U (u_Add U (u_Lsh U (u_SetUint64 U 1) k) y) = u_ToBig U y + 2 ^ k"
proof -
  have "(2 :: int) ^ k < 2 ^ 256" using assms by linarith
  then have "u_ToBig U (u_Lsh U (u_SetUint64 U 1) k) = 2 ^ k"
    by (simp add: ToBig_Lsh ToBig_SetUint64 mod_pos_pos_trivial)
  with assms show "u_ToBig U (u_Add U y (u_Lsh U (u_SetUint64 U 1) k)) = u_ToBig U y + 2 ^ k"
    and "u_ToBig U (u_Add U (u_Lsh U (u_SetUint64 U 1) k) y) = u_ToBig U y + 2 ^ k"
    by (simp_all add: Add_exact)
qed

end

text \<open>Machine arithmetic on times and block numbers is exact in range.\<close>

lemma uint_of_int: "0 \<le> n \<Longrightarrow> n < 2 ^ 64 \<Longrightarrow> uint (of_int n :: u64) = n"
  by (simp add: unsigned_of_int take_bit_int_eq_self)

lemma uint_word_div: "uint (a div b :: u64) = uint a div uint b"
  by (simp add: uint_div)

lemma time_diff: "Time parent \<le> time \<Longrightarrow> uint (time - Time parent) = uint time - uint (Time parent)"
  by (simp add: uint_diff word_le_def)

lemma period_count:
  assumes "0 \<le> m" and "m < 2 ^ 64"
  defines "w \<equiv> (of_int m :: u64) div expDiffPeriodUint" and "p \<equiv> m div expDiffPeriod"
  shows "w > 1 \<longleftrightarrow> p > 1" and "p > 1 \<Longrightarrow> unat (w - 2) = nat (p - 2)"
proof -
  have w: "uint w = p"
    using assms by (simp add: w_def p_def uint_word_div uint_of_int ethash_constants)
  then show "w > 1 \<longleftrightarrow> p > 1" by (simp add: word_less_def)
  assume "p > 1"
  with w have "uint (w - 2) = p - 2" by (simp add: uint_diff)
  then show "unat (w - 2) = nat (p - 2)" by (simp add: unat_eq_nat_uint)
qed

lemma next_number:
  "0 \<le> n \<Longrightarrow> n < 2 ^ 64 - 1 \<Longrightarrow> (of_int \<bar>n\<bar> :: u64) + 1 = of_int (n + 1)"
  by simp

definition exp_term :: "int \<Rightarrow> int" where
  "exp_term p = (if p > 1 then 2 ^ nat (p - 2) else 0)"

definition clamp :: "int \<Rightarrow> int" where
  "clamp e = (if e < minimumDifficulty then minimumDifficulty else e)"

lemma clamp_nonneg: "0 \<le> clamp e \<longleftrightarrow> True"
  by (simp add: clamp_def minimumDifficulty_def)

lemma clamp_ge: "e \<le> clamp e" "minimumDifficulty \<le> clamp e"
  by (simp_all add: clamp_def)

lemma exp_term_nonneg: "0 \<le> exp_term p"
  by (simp add: exp_term_def)

text \<open>The calculators on unbounded integers: a lower bound on an adjusted difficulty, plus the term.\<close>

lemma calcDifficultyFrontier_clamp:
  assumes "Difficulty parent = Some d" and "Number parent = Some n"
  shows "calcDifficultyFrontier time parent =
    Ret (clamp (if uint time - uint (Time parent) < 13 then d + d div 2048 else d - d div 2048) +
      exp_term ((n + 1) div expDiffPeriod))"
proof -
  let ?e = "if uint time - uint (Time parent) < 13 then d + d div 2048 else d - d div 2048"
  have max: "max (clamp ?e + 2 ^ k) minimumDifficulty = clamp ?e + 2 ^ k" for k :: nat
    using clamp_ge(2) [of ?e] zero_le_power [of "2 :: int" k] by (intro max_absorb1) linarith
  show ?thesis
    unfolding calcDifficultyFrontier_def assms Let_def deref_simps go_bind.simps
      DifficultyBoundDivisor_def DurationLimit_def clamp_def [symmetric] max
    by (simp add: exp_term_def)
qed

lemma calcDifficultyHomestead_clamp:
  assumes "Difficulty parent = Some d" and "Number parent = Some n"
  shows "calcDifficultyHomestead time parent =
    Ret (clamp (d + d div 2048 * max (1 - (uint time - uint (Time parent)) div 10) (- 99)) +
      exp_term ((n + 1) div expDiffPeriod))"
  unfolding calcDifficultyHomestead_def assms Let_def deref_simps go_bind.simps
    DifficultyBoundDivisor_def clamp_def [symmetric]
  by (simp add: exp_term_def max_def)

definition bomb_period :: "int \<Rightarrow> int \<Rightarrow> int" where
  "bomb_period bombDelay n = (if n \<ge> bombDelay - 1 then n - (bombDelay - 1) else 0)"

lemma makeDifficultyCalculator_clamp:
  assumes "Difficulty parent = Some d" and "Number parent = Some n"
  shows "makeDifficultyCalculator keccak bombDelay time parent =
    Ret (clamp (d + d div 2048 *
        max ((if UncleHash parent = EmptyUncleHash keccak then 1 else 2) -
             (uint time - uint (Time parent)) div 9) (- 99)) +
      exp_term (bomb_period bombDelay n div expDiffPeriod))"
  unfolding makeDifficultyCalculator_def assms Let_def deref_simps go_bind.simps
    DifficultyBoundDivisor_def clamp_def [symmetric] bomb_period_def [symmetric]
  by (simp add: exp_term_def max_def)

lemma bomb_condition:
  assumes "0 \<le> n" "n < 2 ^ 64" and "1 \<le> bombDelay" "bombDelay < 2 ^ 64"
  defines "w \<equiv> (of_int \<bar>n\<bar> :: u64)" and "b \<equiv> (of_int \<bar>bombDelay\<bar> - 1 :: u64)"
    and "p \<equiv> bomb_period bombDelay n div expDiffPeriod"
  shows "w \<ge> b \<and> w - b \<ge> 2 * expDiffPeriodUint \<longleftrightarrow> p > 1"
    and "p > 1 \<Longrightarrow> unat ((w - b) div expDiffPeriodUint - 2) = nat (p - 2)"
proof -
  have w: "uint w = n" using assms(1,2) by (simp add: w_def uint_of_int)
  have "b = of_int (bombDelay - 1)" using assms(3) by (simp add: b_def)
  then have b: "uint b = bombDelay - 1" using assms(3,4) uint_of_int [of "bombDelay - 1"] by simp
  show "w \<ge> b \<and> w - b \<ge> 2 * expDiffPeriodUint \<longleftrightarrow> p > 1"
    by (auto simp: word_le_def uint_diff w b p_def bomb_period_def ethash_constants)
  assume "p > 1"
  then have ge: "bombDelay - 1 \<le> n" by (auto simp: p_def bomb_period_def ethash_constants split: if_splits)
  then have "w - b = of_int (bomb_period bombDelay n)"
    using assms(1,3) by (simp add: w_def b_def bomb_period_def)
  moreover have "0 \<le> bomb_period bombDelay n" "bomb_period bombDelay n < 2 ^ 64"
    using assms(2,3) ge by (simp_all add: bomb_period_def)
  ultimately show "unat ((w - b) div expDiffPeriodUint - 2) = nat (p - 2)"
    using period_count(2) [of "bomb_period bombDelay n"] \<open>p > 1\<close> by (simp add: p_def)
qed

context uint256
begin

lemma with_exp_term:
  assumes "0 \<le> m" "m < 2 ^ 64" and "0 \<le> u_ToBig U y"
    and "u_ToBig U y + exp_term (m div expDiffPeriod) < 2 ^ 256"
  shows "u_ToBig U (if (of_int m :: u64) div expDiffPeriodUint > 1
      then u_Add U y (u_Lsh U (u_SetUint64 U 1) (unat ((of_int m :: u64) div expDiffPeriodUint - 2)))
      else y) = u_ToBig U y + exp_term (m div expDiffPeriod)"
proof (cases "m div expDiffPeriod > 1")
  case True
  with assms period_count [OF assms(1,2)] show ?thesis by (simp add: exp_term_def bomb)
next
  case False
  with period_count(1) [OF assms(1,2)] show ?thesis by (simp add: exp_term_def)
qed

lemma clamp_and_bomb:
  assumes "u_ToBig U y = e" and "0 \<le> m" "m < 2 ^ 64"
    and "clamp e + exp_term (m div expDiffPeriod) < 2 ^ 256"
  shows "u_ToBig U (if (of_int m :: u64) div expDiffPeriodUint > 1
      then u_Add U (if u_LtUint64 U y (of_int minimumDifficulty)
             then u_SetUint64 U (of_int minimumDifficulty) else y)
           (u_Lsh U (u_SetUint64 U 1) (unat ((of_int m :: u64) div expDiffPeriodUint - 2)))
      else (if u_LtUint64 U y (of_int minimumDifficulty)
            then u_SetUint64 U (of_int minimumDifficulty) else y)) =
    clamp e + exp_term (m div expDiffPeriod)"
  using with_exp_term [OF assms(2,3), of "if u_LtUint64 U y (of_int minimumDifficulty)
      then u_SetUint64 U (of_int minimumDifficulty) else y"] assms(4)
  by (simp only: clamped assms(1) clamp_def [symmetric] clamp_nonneg)

lemma with_delayed_exp_term:
  assumes "0 \<le> u_ToBig U z" and "0 \<le> n" "n < 2 ^ 64" and "1 \<le> bombDelay" "bombDelay < 2 ^ 64"
    and "u_ToBig U z + exp_term (bomb_period bombDelay n div expDiffPeriod) < 2 ^ 256"
  defines "w \<equiv> (of_int \<bar>n\<bar> :: u64)" and "b \<equiv> (of_int \<bar>bombDelay\<bar> - 1 :: u64)"
  shows "u_ToBig U (if w \<ge> b \<and> w - b \<ge> 2 * expDiffPeriodUint
      then u_Add U (u_Lsh U (u_SetUint64 U 1) (unat ((w - b) div expDiffPeriodUint - 2))) z
      else z) = u_ToBig U z + exp_term (bomb_period bombDelay n div expDiffPeriod)"
proof (cases "bomb_period bombDelay n div expDiffPeriod > 1")
  case True
  with assms(6) show ?thesis unfolding w_def b_def
    by (simp only: bomb_condition [OF assms(2-5)] True simp_thms if_True bomb(2) [OF assms(1)] exp_term_def)
next
  case False
  then show ?thesis unfolding w_def b_def
    by (simp only: bomb_condition(1) [OF assms(2-5)] if_False exp_term_def add_0_right)
qed

lemma clamp_and_delayed_bomb:
  assumes "u_ToBig U y = e" and "0 \<le> n" "n < 2 ^ 64" and "1 \<le> bombDelay" "bombDelay < 2 ^ 64"
    and "clamp e + exp_term (bomb_period bombDelay n div expDiffPeriod) < 2 ^ 256"
  defines "w \<equiv> (of_int \<bar>n\<bar> :: u64)" and "b \<equiv> (of_int \<bar>bombDelay\<bar> - 1 :: u64)"
  shows "u_ToBig U (if w \<ge> b \<and> w - b \<ge> 2 * expDiffPeriodUint
      then u_Add U (u_Lsh U (u_SetUint64 U 1) (unat ((w - b) div expDiffPeriodUint - 2)))
             (if u_LtUint64 U y (of_int minimumDifficulty)
              then u_SetUint64 U (of_int minimumDifficulty) else y)
      else (if u_LtUint64 U y (of_int minimumDifficulty)
            then u_SetUint64 U (of_int minimumDifficulty) else y)) =
    clamp e + exp_term (bomb_period bombDelay n div expDiffPeriod)"
  using with_delayed_exp_term [of "if u_LtUint64 U y (of_int minimumDifficulty)
      then u_SetUint64 U (of_int minimumDifficulty) else y", OF _ assms(2-5)] assms(6)
  unfolding w_def b_def by (simp only: clamped assms(1) clamp_def [symmetric] clamp_nonneg)

lemma frontier_agrees:
  assumes "Difficulty parent = Some d" "0 \<le> d" "d < 2 ^ 256"
    and "Number parent = Some n" "0 \<le> n" "n < 2 ^ 64 - 1" and "Time parent \<le> time"
    and "calcDifficultyFrontier time parent = Ret x" "x < 2 ^ 256"
  shows "CalcDifficultyFrontierU256 U time parent = Ret x"
proof -
  let ?c = "uint time - uint (Time parent) < 13"
  let ?a = "u_Rsh U (u_FromBig U d) difficultyBoundDivisor"
  let ?y = "if ?c then u_Add U (u_FromBig U d) ?a else u_Sub U (u_FromBig U d) ?a"
  let ?d = "if ?c then d + d div 2048 else d - d div 2048"
  have x: "x = clamp ?d + exp_term ((n + 1) div expDiffPeriod)"
    using assms(8) by (simp add: calcDifficultyFrontier_clamp [OF assms(1,4)])
  have a: "u_ToBig U ?a = d div 2048"
    using assms by (simp add: ToBig_Rsh FromBig_exact difficultyBoundDivisor_def)
  have small: "?d < 2 ^ 256" using x assms(9) clamp_ge [of ?d] exp_term_nonneg [of "(n + 1) div expDiffPeriod"] by linarith
  have y: "u_ToBig U ?y = ?d"
    using assms(2,3) small by (cases ?c) (simp_all add: a Add_exact Sub_exact FromBig_exact)
  have cond: "time - Time parent < frontierDurationLimit \<longleftrightarrow> ?c"
    using assms(7) by (simp add: word_less_def time_diff frontierDurationLimit_def)
  have m: "0 \<le> n + 1" "n + 1 < 2 ^ 64" using assms(5,6) by simp_all
  show ?thesis
    unfolding CalcDifficultyFrontierU256_def big_Uint64_def Let_def assms(1,4) deref_simps go_bind.simps
      cond next_number [OF assms(5,6)]
    using clamp_and_bomb [OF y m] assms(9) x by simp
qed

text \<open>An adjustment by a factor of at most 99 in either direction.\<close>

lemma adjusted_by:
  assumes "0 \<le> d" "d < 2 ^ 256" and "uint x \<le> 99"
    and "f = (if neg then - uint x else uint x)" and "d + d div 2048 * f < 2 ^ 256"
  defines "a \<equiv> u_Mul U (u_Rsh U (u_FromBig U d) difficultyBoundDivisor) (u_SetUint64 U x)"
  shows "u_ToBig U (if neg then u_Sub U (u_FromBig U d) a else u_Add U (u_FromBig U d) a) =
    d + d div 2048 * f"
  using adjusted(2,3) [OF assms(1-3)] assms(4,5) unfolding a_def by (cases neg) simp_all

lemma homestead_agrees:
  assumes "Difficulty parent = Some d" "0 \<le> d" "d < 2 ^ 256"
    and "Number parent = Some n" "0 \<le> n" "n < 2 ^ 64 - 1" and "Time parent \<le> time"
    and "calcDifficultyHomestead time parent = Ret x" "x < 2 ^ 256"
  shows "CalcDifficultyHomesteadU256 U time parent = Ret x"
proof -
  let ?t = "(time - Time parent) div 10"
  let ?x = "if ?t = 0 then 1 else if ?t \<ge> 100 then 99 else ?t - 1"
  define f where "f = max (1 - (uint time - uint (Time parent)) div 10) (- 99)"
  have t: "uint ?t = (uint time - uint (Time parent)) div 10"
    using assms(7) by (simp add: uint_word_div time_diff)
  have f: "f = (if ?t \<noteq> 0 then - uint ?x else uint ?x)" "uint ?x \<le> 99"
    by (auto simp: f_def t [symmetric] max_def word_le_def uint_diff word_uint_eq_iff;
        use uint_bounds(1) [of ?t] in linarith)+
  have x: "x = clamp (d + d div 2048 * f) + exp_term ((n + 1) div expDiffPeriod)"
    using assms(8) by (simp add: calcDifficultyHomestead_clamp [OF assms(1,4)] f_def)
  then have small: "d + d div 2048 * f < 2 ^ 256"
    using assms(9) clamp_ge(1) [of "d + d div 2048 * f"] exp_term_nonneg [of "(n + 1) div expDiffPeriod"]
    by linarith
  have m: "0 \<le> n + 1" "n + 1 < 2 ^ 64" using assms(5,6) by simp_all
  have next': "1 + of_int \<bar>n\<bar> = (of_int (n + 1) :: u64)" using next_number [OF assms(5,6)] by (simp add: add.commute)
  show ?thesis
    unfolding CalcDifficultyHomesteadU256_def big_Uint64_def Let_def assms(1,4) deref_simps go_bind.simps next'
    using clamp_and_bomb [OF adjusted_by [OF assms(2,3) f(2,1) small] m] assms(9) x by simp
qed

lemma dynamic_agrees:
  assumes "Difficulty parent = Some d" "0 \<le> d" "d < 2 ^ 256"
    and "Number parent = Some n" "0 \<le> n" "n < 2 ^ 64" and "Time parent \<le> time"
    and "1 \<le> bombDelay" "bombDelay < 2 ^ 64"
    and "makeDifficultyCalculator keccak bombDelay time parent = Ret x" "x < 2 ^ 256"
  shows "MakeDifficultyCalculatorU256 keccak U bombDelay time parent = Ret x"
proof -
  let ?t = "(time - Time parent) div 9"
  let ?c = "if UncleHash parent \<noteq> EmptyUncleHash keccak then 2 else 1 :: u64"
  let ?x0 = "if ?t \<ge> ?c then ?t - ?c else ?c - ?t"
  let ?x = "if ?x0 > 99 then 99 else ?x0"
  define f where "f = max ((if UncleHash parent = EmptyUncleHash keccak then 1 else 2) -
    (uint time - uint (Time parent)) div 9) (- 99)"
  have t: "uint ?t = (uint time - uint (Time parent)) div 9"
    using assms(7) by (simp add: uint_word_div time_diff)
  have f: "f = (if ?t \<ge> ?c then - uint ?x else uint ?x)" "uint ?x \<le> 99"
    by (auto simp: f_def t [symmetric] max_def word_le_def word_less_def uint_diff;
        use uint_bounds(1) [of ?t] in linarith)+
  let ?m = "bomb_period bombDelay n"
  have x: "x = clamp (d + d div 2048 * f) + exp_term (?m div expDiffPeriod)"
    using assms(10) by (simp add: makeDifficultyCalculator_clamp [OF assms(1,4)] f_def)
  then have small: "d + d div 2048 * f < 2 ^ 256"
    using assms(11) clamp_ge(1) [of "d + d div 2048 * f"] exp_term_nonneg [of "?m div expDiffPeriod"]
    by linarith
  show ?thesis
    unfolding MakeDifficultyCalculatorU256_def big_Uint64_def Let_def assms(1,4) deref_simps go_bind.simps
    using clamp_and_delayed_bomb [OF adjusted_by [OF assms(2,3) f(2,1) small] assms(5,6,8,9)]
      assms(11) x by simp
qed

end

subsubsection \<open>Arithmetic on 256-bit words provides the operations\<close>

definition word_ops :: "256 word uint256_ops" where
  "word_ops = \<lparr> u_FromBig = of_int, u_ToBig = uint, u_SetUint64 = ucast,
     u_Add = (+), u_Sub = (-), u_Mul = (*), u_Rsh = (\<lambda>x n. drop_bit n x),
     u_Lsh = (\<lambda>x n. push_bit n x), u_LtUint64 = (\<lambda>x w. uint x < uint w) \<rparr>"

interpretation words: uint256 word_ops
proof
  fix w :: u64
  have "uint w < 2 ^ 256" using uint_bounds(2) [of w] by simp
  then have "take_bit 256 (uint w) = uint w" by (intro take_bit_int_eq_self uint_bounds(1))
  then show "u_ToBig word_ops (u_SetUint64 word_ops w) = uint w"
    by (simp add: word_ops_def unsigned_ucast_eq)
next
  fix x :: "256 word" and n
  have "uint (drop_bit n x) = drop_bit n (uint x)"
    using unsigned_less [of x, where ?'a = int] by (simp add: unsigned_drop_bit_eq take_bit_int_eq_self)
  then show "u_ToBig word_ops (u_Rsh word_ops x n) = u_ToBig word_ops x div 2 ^ n"
    by (simp add: word_ops_def drop_bit_eq_div)
next
  fix x :: "256 word" and n
  have "uint (push_bit n x) = take_bit 256 (push_bit n (uint x))"
    by (simp add: unsigned_push_bit_eq)
  then show "u_ToBig word_ops (u_Lsh word_ops x n) = u_ToBig word_ops x * 2 ^ n mod 2 ^ 256"
    by (simp only: word_ops_def take_bit_eq_mod push_bit_eq_mult uint256_ops.simps)
qed (simp_all add: word_ops_def unsigned_of_int take_bit_eq_mod uint_word_arith_bintrs)

text \<open>C39: The three difficulty calculators on 256-bit integers return what the calculators on
unbounded integers return, for a parent whose difficulty fits, a block later than its parent, and
a result that fits: the subtraction of an adjustment never wraps, the clamp to the minimum and the
exponential term coincide, and the count of periods agrees although it is taken on 64-bit block
numbers and, with a delayed bomb, guarded by a different comparison.\<close>

theorem U256_calculators_agree:
  assumes "uint256 U"
    and "(calc, calcU) \<in>
      {(calcDifficultyFrontier, CalcDifficultyFrontierU256 U),
       (calcDifficultyHomestead, CalcDifficultyHomesteadU256 U),
       (makeDifficultyCalculator keccak bombDelay, MakeDifficultyCalculatorU256 keccak U bombDelay)}"
    and "1 \<le> bombDelay" "bombDelay < 2 ^ 64"
    and "Difficulty parent = Some d" "0 \<le> d" "d < 2 ^ 256"
    and "Number parent = Some n" "0 \<le> n" "n < 2 ^ 64 - 1" and "Time parent \<le> time"
    and "calc time parent = Ret x" "x < 2 ^ 256"
  shows "calcU time parent = Ret x"
  using assms(2,12) uint256.frontier_agrees [OF assms(1,5-11)] uint256.homestead_agrees [OF assms(1,5-11)]
    uint256.dynamic_agrees [OF assms(1,5-9) _ assms(11,3,4)] assms(10,13) by auto

definition sample_parent :: eth_header where
  "sample_parent = sample_header \<lparr> Difficulty := Some 5000000, Number := Some 9500000, Time := 1000 \<rparr>"

theorem U256_calculators_agree_witness:
  "MakeDifficultyCalculatorU256 (\<lambda>_. zero_hash) word_ops 9000000 1020 sample_parent = Ret 4997567"
proof (rule U256_calculators_agree [OF words.uint256_axioms, where keccak = "\<lambda>_. zero_hash" and
      bombDelay = 9000000 and d = 5000000 and n = 9500000])
  show "makeDifficultyCalculator (\<lambda>_. zero_hash) 9000000 1020 sample_parent = Ret 4997567"
    by (simp add: makeDifficultyCalculator_def sample_parent_def sample_header_def EmptyUncleHash_def
        CalcUncleHash_def rlpHash_def ethash_constants)
qed (simp_all add: sample_parent_def)

end
