(* ===== verification/Rust.thy ===== *)
theory Rust
  imports Prelude
begin

text \<open>
  The result of a Rust call: \<open>Ok v\<close>, \<open>Er e\<close> (the \<open>Err\<close> of a \<open>Result\<close>) or \<open>Abort s\<close> (the thread
  panics).  \<open>rust_bind\<close> is the \<open>?\<close> operator.  Methods on \<open>&mut self\<close> are functions from a state to
  a result and a new state, chained with \<open>st_bind\<close>: a failing method keeps the changes it made
  before it failed.
\<close>

datatype ('a, 'e) rust =
    Ok 'a
  | Er 'e
  | Abort string

fun rust_bind :: "('a, 'e) rust \<Rightarrow> ('a \<Rightarrow> ('b, 'e) rust) \<Rightarrow> ('b, 'e) rust" where
  "rust_bind (Ok x) f = f x"
| "rust_bind (Er e) f = Er e"
| "rust_bind (Abort s) f = Abort s"

text \<open>\<open>map_err\<close>, \<open>ok_or\<close>, \<open>unwrap\<close>/\<open>expect\<close> and the \<open>ensure!\<close> macro.\<close>

fun map_err :: "('e \<Rightarrow> 'f) \<Rightarrow> ('a, 'e) rust \<Rightarrow> ('a, 'f) rust" where
  "map_err g (Ok x) = Ok x"
| "map_err g (Er e) = Er (g e)"
| "map_err g (Abort s) = Abort s"

definition ok_or :: "'e \<Rightarrow> 'a option \<Rightarrow> ('a, 'e) rust" where
  "ok_or e p = (case p of None \<Rightarrow> Er e | Some x \<Rightarrow> Ok x)"

fun expect :: "string \<Rightarrow> ('a, 'e) rust \<Rightarrow> ('a, 'f) rust" where
  "expect s (Ok x) = Ok x"
| "expect s (Er e) = Abort s"
| "expect s (Abort p) = Abort p"

definition ensure :: "bool \<Rightarrow> 'e \<Rightarrow> (unit, 'e) rust" where
  "ensure c e = (if c then Ok () else Er e)"

definition succeeds :: "('a, 'e) rust \<Rightarrow> bool" where
  "succeeds r = (case r of Ok _ \<Rightarrow> True | _ \<Rightarrow> False)"

fun rust_fold :: "('s \<Rightarrow> 'a \<Rightarrow> ('s, 'e) rust) \<Rightarrow> 's \<Rightarrow> 'a list \<Rightarrow> ('s, 'e) rust" where
  "rust_fold f s [] = Ok s"
| "rust_fold f s (x # xs) = rust_bind (f s x) (\<lambda>s'. rust_fold f s' xs)"

subsection \<open>Methods\<close>

type_synonym ('a, 'e, 's) rmethod = "'s \<Rightarrow> ('a, 'e) rust \<times> 's"

definition st_bind :: "('a, 'e, 's) rmethod \<Rightarrow> ('a \<Rightarrow> ('b, 'e, 's) rmethod) \<Rightarrow> ('b, 'e, 's) rmethod" where
  "st_bind m f s =
     (case m s of
        (Ok x, s') \<Rightarrow> f x s'
      | (Er e, s') \<Rightarrow> (Er e, s')
      | (Abort p, s') \<Rightarrow> (Abort p, s'))"

definition st_return :: "'a \<Rightarrow> ('a, 'e, 's) rmethod" where
  "st_return x s = (Ok x, s)"

text \<open>A call that only reads the state (\<open>&self\<close>), and one that does not touch it.\<close>

definition reads :: "('s \<Rightarrow> ('a, 'e) rust) \<Rightarrow> ('a, 'e, 's) rmethod" where
  "reads f s = (f s, s)"

definition lifts :: "('a, 'e) rust \<Rightarrow> ('a, 'e, 's) rmethod" where
  "lifts r s = (r, s)"

definition updates :: "('s \<Rightarrow> 's) \<Rightarrow> (unit, 'e, 's) rmethod" where
  "updates f s = (Ok (), f s)"

subsection \<open>Rewriting\<close>

named_theorems rust_simps \<open>successful Rust calls\<close>

lemma rust_bind_Ok_iff [rust_simps]: "rust_bind m f = Ok y \<longleftrightarrow> (\<exists>x. m = Ok x \<and> f x = Ok y)"
  by (cases m) auto

lemma map_err_Ok_iff [rust_simps, simp]: "map_err g m = Ok x \<longleftrightarrow> m = Ok x"
  by (cases m) auto

lemma ok_or_simps [simp]: "ok_or e (Some x) = Ok x" "ok_or e None = Er e"
  "ok_or e p = Ok x \<longleftrightarrow> p = Some x" "ok_or e p \<noteq> Abort s"
  by (auto simp: ok_or_def split: option.splits)

lemma expect_Ok_iff [rust_simps, simp]: "expect s m = Ok x \<longleftrightarrow> m = Ok x"
  by (cases m) auto

lemma ensure_Ok_iff [rust_simps, simp]: "ensure c e = Ok u \<longleftrightarrow> c"
  by (simp add: ensure_def)

lemma ensure_simps: "c \<Longrightarrow> ensure c e = Ok ()" "\<not> c \<Longrightarrow> ensure c e = Er e" "ensure c e \<noteq> Abort s"
  by (simp_all add: ensure_def)

lemma succeeds_iff: "succeeds r \<longleftrightarrow> (\<exists>x. r = Ok x)"
  by (cases r) (simp_all add: succeeds_def)

lemma rust_fold_append:
  "rust_fold f s (xs @ ys) = rust_bind (rust_fold f s xs) (\<lambda>s'. rust_fold f s' ys)"
proof (induction xs arbitrary: s)
  case (Cons x xs)
  then show ?case by (cases "f s x") simp_all
qed simp

lemma st_bind_Ok_iff [rust_simps]:
  "st_bind m f s = (Ok y, s'') \<longleftrightarrow> (\<exists>x s'. m s = (Ok x, s') \<and> f x s' = (Ok y, s''))"
  by (auto simp: st_bind_def split: prod.splits rust.splits)

lemma st_return_Ok_iff [rust_simps]: "st_return x s = (Ok y, s') \<longleftrightarrow> x = y \<and> s = s'"
  by (auto simp: st_return_def)

lemma reads_Ok_iff [rust_simps]: "reads f s = (Ok y, s') \<longleftrightarrow> f s = Ok y \<and> s' = s"
  by (auto simp: reads_def)

lemma lifts_Ok_iff [rust_simps]: "lifts r s = (Ok y, s') \<longleftrightarrow> r = Ok y \<and> s' = s"
  by (auto simp: lifts_def)

lemma updates_Ok_iff [rust_simps]: "updates f s = (Ok y, s') \<longleftrightarrow> s' = f s"
  by (auto simp: updates_def)

text \<open>
  A method keeps a reflexive and transitive relation between the states it starts and ends in, if
  its parts do.  \<open>keeps R m\<close> holds of failing calls as well.
\<close>

definition keeps :: "('s \<Rightarrow> 's \<Rightarrow> bool) \<Rightarrow> ('a, 'e, 's) rmethod \<Rightarrow> bool" where
  "keeps R m \<longleftrightarrow> (\<forall>s. R s (snd (m s)))"

lemma keepsD: "keeps R m \<Longrightarrow> m s = (r, s') \<Longrightarrow> R s s'"
  unfolding keeps_def by (metis snd_conv)

lemma keeps_bind:
  assumes "transp R" and "keeps R m" and "\<And>x. keeps R (f x)"
  shows "keeps R (st_bind m f)"
  unfolding keeps_def
proof
  fix s
  obtain r s' where m: "m s = (r, s')" by fastforce
  then have 1: "R s s'" using assms(2) by (rule keepsD [rotated])
  show "R s (snd (st_bind m f s))"
  proof (cases r)
    case (Ok x)
    have "R s' (snd (f x s'))" using assms(3) [of x] by (simp add: keeps_def)
    then show ?thesis using 1 m Ok transpD [OF assms(1)] by (simp add: st_bind_def)
  qed (use 1 m in \<open>simp_all add: st_bind_def\<close>)
qed

lemma keeps_pure:
  assumes "reflp R"
  shows "keeps R (st_return x)" "keeps R (reads g)" "keeps R (lifts r)"
  using assms by (simp_all add: keeps_def st_return_def reads_def lifts_def reflpD)

end
