(* ===== verification/DiemTypes.thy ===== *)
theory DiemTypes
  imports Rust
begin

text \<open>
  The data of DiemBFT: validators and epochs (\<open>types/src/validator_verifier.rs\<close>,
  \<open>epoch_state.rs\<close>), block and ledger information (\<open>block_info.rs\<close>, \<open>ledger_info.rs\<close>), epoch
  change proofs and waypoints (\<open>epoch_change.rs\<close>, \<open>waypoint.rs\<close>), and the consensus types
  (\<open>consensus/consensus-types/src\<close>): vote data, quorum certificates, blocks, votes and timeouts,
  each with its verification.

  A \<open>BTreeMap\<close> is the list of its entries.  Hashing, Ed25519 and the Merkle accumulator of
  executed transactions are the operations of \<open>crypto_ops\<close>; a signature covers a value of
  \<open>signed_message\<close>, whose constructors are the domains that \<open>CryptoHasher\<close> separates.
  Arithmetic on \<open>u64\<close> wraps, as in the release profile of \<open>Cargo.toml\<close>.
\<close>

type_synonym account_address = bytes
type_synonym hash_value = bytes
type_synonym public_key = bytes
type_synonym private_key = bytes
type_synonym signature = bytes
type_synonym round = u64
type_synonym version = u64

text \<open>Errors of \<open>anyhow\<close> are their messages.\<close>

type_synonym anyhow = string

subsection \<open>Validators and epochs\<close>

record validator_consensus_info =
  vci_public_key :: public_key
  vci_voting_power :: u64

record validator_verifier =
  address_to_validator_info :: "(account_address \<times> validator_consensus_info) list"
  quorum_voting_power :: u64
  total_voting_power :: u64

datatype verify_error =
    UnknownAuthor
  | TooLittleVotingPower u64 u64
  | TooManySignatures nat nat
  | InvalidSignature
  | InconsistentBlockInfo

definition sum_voting_power :: "(account_address \<times> validator_consensus_info) list \<Rightarrow> (u64, 'e) rust" where
  "sum_voting_power infos =
     rust_fold (\<lambda>sum (_, x).
       if unat sum + unat (vci_voting_power x) < 2 ^ 64 then Ok (sum + vci_voting_power x)
       else Abort ''sum of all voting power is greater than u64::max'') 0 infos"

definition ValidatorVerifier_new ::
    "(account_address \<times> validator_consensus_info) list \<Rightarrow> (validator_verifier, 'e) rust" where
  "ValidatorVerifier_new infos =
     rust_bind (sum_voting_power infos) (\<lambda>total.
     Ok \<lparr> address_to_validator_info = infos,
          quorum_voting_power = (if infos = [] then 0 else total * 2 div 3 + 1),
          total_voting_power = total \<rparr>)"

definition get_public_key :: "validator_verifier \<Rightarrow> account_address \<Rightarrow> public_key option" where
  "get_public_key V author = map_option vci_public_key (map_of (address_to_validator_info V) author)"

definition get_voting_power :: "validator_verifier \<Rightarrow> account_address \<Rightarrow> u64 option" where
  "get_voting_power V author = map_option vci_voting_power (map_of (address_to_validator_info V) author)"

record epoch_state =
  eps_epoch :: u64
  eps_verifier :: validator_verifier

subsection \<open>Blocks and ledger information\<close>

record block_info =
  bi_epoch :: u64
  bi_round :: round
  bi_id :: hash_value
  bi_executed_state_id :: hash_value
  bi_version :: version
  bi_timestamp_usecs :: u64
  bi_next_epoch_state :: "epoch_state option"

definition HashValue_zero :: hash_value where
  "HashValue_zero = replicate 32 0"

definition BlockInfo_empty :: block_info where
  "BlockInfo_empty = \<lparr> bi_epoch = 0, bi_round = 0, bi_id = HashValue_zero,
     bi_executed_state_id = HashValue_zero, bi_version = 0, bi_timestamp_usecs = 0,
     bi_next_epoch_state = None \<rparr>"

definition has_reconfiguration :: "block_info \<Rightarrow> bool" where
  "has_reconfiguration b \<longleftrightarrow> bi_next_epoch_state b \<noteq> None"

definition match_ordered_only :: "block_info \<Rightarrow> block_info \<Rightarrow> bool" where
  "match_ordered_only b c \<longleftrightarrow> bi_epoch b = bi_epoch c \<and> bi_round b = bi_round c \<and>
     bi_id b = bi_id c \<and> bi_timestamp_usecs b = bi_timestamp_usecs c"

text \<open>\<open>*ACCUMULATOR_PLACEHOLDER_HASH\<close> is an argument: it is a hash the source computes.\<close>

definition is_ordered_only :: "hash_value \<Rightarrow> block_info \<Rightarrow> bool" where
  "is_ordered_only placeholder b \<longleftrightarrow> b \<noteq> BlockInfo_empty \<and> bi_next_epoch_state b = None \<and>
     bi_executed_state_id b = placeholder \<and> bi_version b = 0"

record ledger_info =
  commit_info :: block_info
  consensus_data_hash :: hash_value

definition ends_epoch :: "ledger_info \<Rightarrow> bool" where
  "ends_epoch li \<longleftrightarrow> bi_next_epoch_state (commit_info li) \<noteq> None"

record ledger_info_with_signatures =
  lis_ledger_info :: ledger_info
  lis_signatures :: "(account_address \<times> signature) list"

record vote_data =
  vd_proposed :: block_info
  vd_parent :: block_info

record quorum_cert =
  qc_vote_data :: vote_data
  signed_ledger_info :: ledger_info_with_signatures

abbreviation certified_block :: "quorum_cert \<Rightarrow> block_info" where
  "certified_block qc \<equiv> vd_proposed (qc_vote_data qc)"

abbreviation parent_block :: "quorum_cert \<Rightarrow> block_info" where
  "parent_block qc \<equiv> vd_parent (qc_vote_data qc)"

datatype block_type =
    Proposal "bytes list" account_address
  | NilBlock
  | GenesisBlock

record block_data =
  bd_epoch :: u64
  bd_round :: round
  bd_timestamp_usecs :: u64
  bd_quorum_cert :: quorum_cert
  bd_block_type :: block_type

record diem_block =
  block_id :: hash_value
  block_data_of :: block_data
  block_signature :: "signature option"

abbreviation block_round :: "diem_block \<Rightarrow> round" where
  "block_round b \<equiv> bd_round (block_data_of b)"

abbreviation block_quorum_cert :: "diem_block \<Rightarrow> quorum_cert" where
  "block_quorum_cert b \<equiv> bd_quorum_cert (block_data_of b)"

fun bd_author :: "block_type \<Rightarrow> account_address option" where
  "bd_author (Proposal payload author) = Some author"
| "bd_author _ = None"

fun bd_payload :: "block_type \<Rightarrow> bytes list option" where
  "bd_payload (Proposal payload author) = Some payload"
| "bd_payload _ = None"

record vote =
  vt_vote_data :: vote_data
  vt_author :: account_address
  vt_ledger_info :: ledger_info
  vt_signature :: signature
  timeout_signature :: "signature option"

record timeout =
  to_epoch :: u64
  to_round :: round

record two_chain_timeout =
  tct_epoch :: u64
  tct_round :: round
  tct_quorum_cert :: quorum_cert

record timeout_signing_repr =
  tsr_epoch :: u64
  tsr_round :: round
  tsr_hqc_round :: round

record two_chain_timeout_certificate =
  tcc_timeout :: two_chain_timeout
  tcc_signatures :: "(account_address \<times> round \<times> signature) list"

record accumulator_extension_proof =
  frozen_subtree_roots :: "hash_value list"
  num_leaves :: u64
  proof_leaves :: "hash_value list"

record vote_proposal =
  vp_extension_proof :: accumulator_extension_proof
  vp_block :: diem_block
  vp_next_epoch_state :: "epoch_state option"

record maybe_signed_vote_proposal =
  mvp_vote_proposal :: vote_proposal
  mvp_signature :: "signature option"

subsection \<open>Cryptography\<close>

datatype signed_message =
    MLedgerInfo ledger_info
  | MBlockData block_data
  | MTimeout timeout
  | MTimeoutRepr timeout_signing_repr
  | MVoteProposal vote_proposal

record waypoint =
  wp_version :: version
  wp_value :: hash_value

text \<open>The fields of a ledger info that are hashed into a waypoint.\<close>

record ledger2waypoint =
  lw_epoch :: u64
  lw_root_hash :: hash_value
  lw_version :: version
  lw_timestamp_usecs :: u64
  lw_next_epoch_state :: "epoch_state option"

text \<open>
  \<open>extension_verify\<close> is the verification of an accumulator extension proof against a root hash:
  the root hash and the version of the new accumulator, or an error.
\<close>

record crypto_ops =
  verify_struct_signature :: "public_key \<Rightarrow> signed_message \<Rightarrow> signature \<Rightarrow> bool"
  batch_verify :: "signed_message \<Rightarrow> (public_key \<times> signature) list \<Rightarrow> bool"
  sign_message :: "private_key \<Rightarrow> signed_message \<Rightarrow> signature"
  public_key_of :: "private_key \<Rightarrow> public_key"
  vote_data_hash :: "vote_data \<Rightarrow> hash_value"
  block_data_hash :: "block_data \<Rightarrow> hash_value"
  waypoint_hash :: "ledger2waypoint \<Rightarrow> hash_value"
  placeholder_hash :: hash_value
  extension_verify :: "accumulator_extension_proof \<Rightarrow> hash_value \<Rightarrow> (hash_value \<times> version) option"

subsection \<open>Verification of signatures\<close>

definition verifier_verify ::
    "crypto_ops \<Rightarrow> validator_verifier \<Rightarrow> account_address \<Rightarrow> signed_message \<Rightarrow> signature \<Rightarrow> (unit, verify_error) rust" where
  "verifier_verify C V author m sig =
     (case get_public_key V author of
        Some pk \<Rightarrow> if \<not> verify_struct_signature C pk m sig then Er InvalidSignature else Ok ()
      | None \<Rightarrow> Er UnknownAuthor)"

definition check_num_of_signatures :: "validator_verifier \<Rightarrow> (account_address \<times> signature) list \<Rightarrow> (unit, verify_error) rust" where
  "check_num_of_signatures V sigs =
     (if length sigs > length (address_to_validator_info V)
      then Er (TooManySignatures (length sigs) (length (address_to_validator_info V))) else Ok ())"

definition check_voting_power :: "validator_verifier \<Rightarrow> account_address list \<Rightarrow> (unit, verify_error) rust" where
  "check_voting_power V authors =
     rust_bind (rust_fold (\<lambda>agg a.
         case get_voting_power V a of Some p \<Rightarrow> Ok (agg + p) | None \<Rightarrow> Er UnknownAuthor) 0 authors)
     (\<lambda>agg. if agg < quorum_voting_power V
            then Er (TooLittleVotingPower agg (quorum_voting_power V)) else Ok ())"

definition verify_aggregated_struct_signature ::
    "crypto_ops \<Rightarrow> validator_verifier \<Rightarrow> signed_message \<Rightarrow> (account_address \<times> signature) list \<Rightarrow> (unit, verify_error) rust" where
  "verify_aggregated_struct_signature C V m sigs =
     rust_bind (check_num_of_signatures V sigs) (\<lambda>_.
     rust_bind (check_voting_power V (map fst sigs)) (\<lambda>_.
     rust_fold (\<lambda>_ (a, sig). verifier_verify C V a m sig) () sigs))"

definition keys_and_signatures ::
    "validator_verifier \<Rightarrow> (account_address \<times> signature) list \<Rightarrow> (public_key \<times> signature) list" where
  "keys_and_signatures V sigs =
     concat (map (\<lambda>(a, sig). case get_public_key V a of Some pk \<Rightarrow> [(pk, sig)] | None \<Rightarrow> []) sigs)"

definition batch_verify_aggregated_signatures ::
    "crypto_ops \<Rightarrow> validator_verifier \<Rightarrow> signed_message \<Rightarrow> (account_address \<times> signature) list \<Rightarrow> (unit, verify_error) rust" where
  "batch_verify_aggregated_signatures C V m sigs =
     rust_bind (check_num_of_signatures V sigs) (\<lambda>_.
     rust_bind (check_voting_power V (map fst sigs)) (\<lambda>_.
     if \<not> batch_verify C m (keys_and_signatures V sigs)
     then verify_aggregated_struct_signature C V m sigs
     else Ok ()))"

definition verify_signatures ::
    "crypto_ops \<Rightarrow> validator_verifier \<Rightarrow> ledger_info_with_signatures \<Rightarrow> (unit, verify_error) rust" where
  "verify_signatures C V lis =
     batch_verify_aggregated_signatures C V (MLedgerInfo (lis_ledger_info lis)) (lis_signatures lis)"

subsection \<open>Vote data and quorum certificates\<close>

definition vote_data_verify :: "vote_data \<Rightarrow> (unit, anyhow) rust" where
  "vote_data_verify d =
     rust_bind (ensure (bi_epoch (vd_parent d) = bi_epoch (vd_proposed d))
       ''Parent and proposed epochs do not match'') (\<lambda>_.
     rust_bind (ensure (bi_round (vd_parent d) < bi_round (vd_proposed d))
       ''Proposed round is less than parent round'') (\<lambda>_.
     rust_bind (ensure (bi_timestamp_usecs (vd_parent d) \<le> bi_timestamp_usecs (vd_proposed d))
       ''Proposed happened before parent'') (\<lambda>_.
     ensure (bi_version (vd_parent d) \<le> bi_version (vd_proposed d))
       ''Proposed version is less than parent version'')))"

definition quorum_cert_verify :: "crypto_ops \<Rightarrow> validator_verifier \<Rightarrow> quorum_cert \<Rightarrow> (unit, anyhow) rust" where
  "quorum_cert_verify C V qc =
     (let li = lis_ledger_info (signed_ledger_info qc) in
      rust_bind (ensure (consensus_data_hash li = vote_data_hash C (qc_vote_data qc))
        ''Quorum Cert's hash mismatch LedgerInfo'') (\<lambda>_.
      if bi_round (certified_block qc) = 0 then
        rust_bind (ensure (parent_block qc = certified_block qc)
          ''Genesis QC has inconsistent parent block with certified block'') (\<lambda>_.
        rust_bind (ensure (certified_block qc = commit_info li)
          ''Genesis QC has inconsistent commit block with certified block'') (\<lambda>_.
        ensure (lis_signatures (signed_ledger_info qc) = [])
          ''Genesis QC should not carry signatures''))
      else
        rust_bind (map_err (\<lambda>_. ''Fail to verify QuorumCert'')
          (verify_signatures C V (signed_ledger_info qc))) (\<lambda>_.
        vote_data_verify (qc_vote_data qc))))"

subsection \<open>Blocks\<close>

definition BlockData_new_proposal ::
    "bytes list \<Rightarrow> account_address \<Rightarrow> round \<Rightarrow> u64 \<Rightarrow> quorum_cert \<Rightarrow> block_data" where
  "BlockData_new_proposal payload author round timestamp qc =
     \<lparr> bd_epoch = bi_epoch (certified_block qc), bd_round = round, bd_timestamp_usecs = timestamp,
       bd_quorum_cert = qc, bd_block_type = Proposal payload author \<rparr>"

definition new_proposal_from_block_data_and_signature ::
    "crypto_ops \<Rightarrow> block_data \<Rightarrow> signature \<Rightarrow> diem_block" where
  "new_proposal_from_block_data_and_signature C bd sig =
     \<lparr> block_id = block_data_hash C bd, block_data_of = bd, block_signature = Some sig \<rparr>"

definition gen_block_info :: "diem_block \<Rightarrow> hash_value \<Rightarrow> version \<Rightarrow> epoch_state option \<Rightarrow> block_info" where
  "gen_block_info b executed_state_id version next_epoch_state =
     \<lparr> bi_epoch = bd_epoch (block_data_of b), bi_round = block_round b, bi_id = block_id b,
       bi_executed_state_id = executed_state_id, bi_version = version,
       bi_timestamp_usecs = bd_timestamp_usecs (block_data_of b),
       bi_next_epoch_state = next_epoch_state \<rparr>"

definition validate_signature :: "crypto_ops \<Rightarrow> validator_verifier \<Rightarrow> diem_block \<Rightarrow> (unit, anyhow) rust" where
  "validate_signature C V b =
     (case bd_block_type (block_data_of b) of
        GenesisBlock \<Rightarrow> Er ''We should not accept genesis from others''
      | NilBlock \<Rightarrow> quorum_cert_verify C V (block_quorum_cert b)
      | Proposal _ author \<Rightarrow>
          rust_bind (ok_or ''Missing signature in Proposal'' (block_signature b)) (\<lambda>sig.
          rust_bind (map_err (\<lambda>_. ''signature'') (verifier_verify C V author (MBlockData (block_data_of b)) sig)) (\<lambda>_.
          quorum_cert_verify C V (block_quorum_cert b))))"

text \<open>
  \<open>verify_well_formed\<close> reads the clock (microseconds since the epoch, \<open>now\<close>).  The last check of
  the source, that the id of the block is the hash of its data, is a \<open>debug_checked_verify_eq!\<close>
  that release builds leave out.
\<close>

definition TIMEBOUND :: u64 where "TIMEBOUND = 300000000"

definition saturating_add :: "u64 \<Rightarrow> u64 \<Rightarrow> u64" where
  "saturating_add a b = (let s = a + b in if s < a then - 1 else s)"

definition verify_well_formed :: "u64 \<Rightarrow> diem_block \<Rightarrow> (unit, anyhow) rust" where
  "verify_well_formed now b =
     (let parent = certified_block (block_quorum_cert b); bd = block_data_of b in
      rust_bind (ensure (bd_block_type bd \<noteq> GenesisBlock) ''We must not accept genesis from others'') (\<lambda>_.
      rust_bind (ensure (bi_round parent < bd_round bd)
        ''Block must have a greater round than parent's block'') (\<lambda>_.
      rust_bind (ensure (bi_epoch parent = bd_epoch bd) ''block's parent should be in the same epoch'') (\<lambda>_.
      rust_bind (if has_reconfiguration parent
         then ensure (case bd_payload (bd_block_type bd) of None \<Rightarrow> True | Some p \<Rightarrow> p = [])
                ''Reconfiguration suffix should not carry payload''
         else Ok ()) (\<lambda>_.
      rust_bind (if bd_block_type bd = NilBlock \<or> has_reconfiguration parent
         then ensure (bd_timestamp_usecs bd = bi_timestamp_usecs parent)
                ''Nil/reconfig suffix block must have same timestamp as parent''
         else rust_bind (ensure (bd_timestamp_usecs bd > bi_timestamp_usecs parent)
                ''Blocks must have strictly increasing timestamps'') (\<lambda>_.
              ensure (bd_timestamp_usecs bd \<le> saturating_add now TIMEBOUND)
                ''Blocks must not be too far in the future'')) (\<lambda>_.
      ensure (\<not> ends_epoch (lis_ledger_info (signed_ledger_info (block_quorum_cert b))))
        ''Block cannot be proposed in an epoch that has ended''))))))"

subsection \<open>Votes and timeouts\<close>

definition Vote_new_with_signature :: "vote_data \<Rightarrow> account_address \<Rightarrow> ledger_info \<Rightarrow> signature \<Rightarrow> vote" where
  "Vote_new_with_signature d author li sig =
     \<lparr> vt_vote_data = d, vt_author = author, vt_ledger_info = li, vt_signature = sig,
       timeout_signature = None \<rparr>"

definition add_timeout_signature :: "signature \<Rightarrow> vote \<Rightarrow> vote" where
  "add_timeout_signature sig v =
     (if timeout_signature v \<noteq> None then v else v \<lparr> timeout_signature := Some sig \<rparr>)"

definition vote_timeout :: "vote \<Rightarrow> timeout" where
  "vote_timeout v =
     \<lparr> to_epoch = bi_epoch (vd_proposed (vt_vote_data v)), to_round = bi_round (vd_proposed (vt_vote_data v)) \<rparr>"

definition vote_verify :: "crypto_ops \<Rightarrow> validator_verifier \<Rightarrow> vote \<Rightarrow> (unit, anyhow) rust" where
  "vote_verify C V v =
     rust_bind (ensure (consensus_data_hash (vt_ledger_info v) = vote_data_hash C (vt_vote_data v))
       ''Vote's hash mismatch with LedgerInfo'') (\<lambda>_.
     rust_bind (map_err (\<lambda>_. ''Failed to verify Vote'')
       (verifier_verify C V (vt_author v) (MLedgerInfo (vt_ledger_info v)) (vt_signature v))) (\<lambda>_.
     rust_bind (case timeout_signature v of
         Some sig \<Rightarrow> map_err (\<lambda>_. ''Failed to verify Timeout Vote'')
           (verifier_verify C V (vt_author v) (MTimeout (vote_timeout v)) sig)
       | None \<Rightarrow> Ok ()) (\<lambda>_.
     vote_data_verify (vt_vote_data v))))"

definition hqc_round :: "two_chain_timeout \<Rightarrow> round" where
  "hqc_round t = bi_round (certified_block (tct_quorum_cert t))"

definition signing_format :: "two_chain_timeout \<Rightarrow> timeout_signing_repr" where
  "signing_format t = \<lparr> tsr_epoch = tct_epoch t, tsr_round = tct_round t, tsr_hqc_round = hqc_round t \<rparr>"

definition two_chain_tc_verify ::
    "crypto_ops \<Rightarrow> validator_verifier \<Rightarrow> two_chain_timeout_certificate \<Rightarrow> (unit, anyhow) rust" where
  "two_chain_tc_verify C V tc =
     (let t = tcc_timeout tc in
      rust_bind (ensure (hqc_round t < tct_round t) ''Timeout round should be larger than the QC round'') (\<lambda>_.
      rust_bind (quorum_cert_verify C V (tct_quorum_cert t)) (\<lambda>_.
      rust_bind (map_err (\<lambda>_. ''voting power'') (check_voting_power V (map fst (tcc_signatures tc)))) (\<lambda>_.
      rust_bind (rust_fold (\<lambda>signed_round (author, qc_round, sig).
          rust_bind (map_err (\<lambda>_. ''Failed to verify TimeoutSigningRepr'')
            (verifier_verify C V author
              (MTimeoutRepr \<lparr> tsr_epoch = tct_epoch t, tsr_round = tct_round t, tsr_hqc_round = qc_round \<rparr>) sig))
          (\<lambda>_. Ok (max signed_round qc_round))) 0 (tcc_signatures tc)) (\<lambda>signed_round.
      ensure (hqc_round t = signed_round) ''Inconsistent hqc round'')))))"

definition vote_data_ordering_only :: "crypto_ops \<Rightarrow> vote_proposal \<Rightarrow> vote_data" where
  "vote_data_ordering_only C p =
     \<lparr> vd_proposed = gen_block_info (vp_block p) (placeholder_hash C) 0 (vp_next_epoch_state p),
       vd_parent = certified_block (block_quorum_cert (vp_block p)) \<rparr>"

definition vote_data_with_extension_proof :: "hash_value \<times> version \<Rightarrow> vote_proposal \<Rightarrow> vote_data" where
  "vote_data_with_extension_proof new_tree p =
     \<lparr> vd_proposed = gen_block_info (vp_block p) (fst new_tree) (snd new_tree) (vp_next_epoch_state p),
       vd_parent = certified_block (block_quorum_cert (vp_block p)) \<rparr>"

subsection \<open>Waypoints and epoch change proofs\<close>

definition Ledger2WaypointConverter_new :: "ledger_info \<Rightarrow> ledger2waypoint" where
  "Ledger2WaypointConverter_new li =
     (let b = commit_info li in
      \<lparr> lw_epoch = bi_epoch b, lw_root_hash = bi_executed_state_id b, lw_version = bi_version b,
        lw_timestamp_usecs = bi_timestamp_usecs b, lw_next_epoch_state = bi_next_epoch_state b \<rparr>)"

definition Waypoint_new_any :: "crypto_ops \<Rightarrow> ledger_info \<Rightarrow> waypoint" where
  "Waypoint_new_any C li =
     \<lparr> wp_version = bi_version (commit_info li), wp_value = waypoint_hash C (Ledger2WaypointConverter_new li) \<rparr>"

definition Waypoint_new_epoch_boundary :: "crypto_ops \<Rightarrow> ledger_info \<Rightarrow> (waypoint, anyhow) rust" where
  "Waypoint_new_epoch_boundary C li =
     rust_bind (ensure (ends_epoch li) ''No validator set'') (\<lambda>_. Ok (Waypoint_new_any C li))"

definition waypoint_verify :: "crypto_ops \<Rightarrow> waypoint \<Rightarrow> ledger_info \<Rightarrow> (unit, anyhow) rust" where
  "waypoint_verify C w li =
     rust_bind (ensure (bi_version (commit_info li) = wp_version w) ''Waypoint version mismatch'') (\<lambda>_.
     ensure (waypoint_hash C (Ledger2WaypointConverter_new li) = wp_value w) ''Waypoint value mismatch'')"

definition epoch_state_verify ::
    "crypto_ops \<Rightarrow> epoch_state \<Rightarrow> ledger_info_with_signatures \<Rightarrow> (unit, anyhow) rust" where
  "epoch_state_verify C es lis =
     rust_bind (ensure (eps_epoch es = bi_epoch (commit_info (lis_ledger_info lis)))
       ''LedgerInfo has unexpected epoch'') (\<lambda>_.
     map_err (\<lambda>_. ''signatures'') (verify_signatures C (eps_verifier es) lis))"

text \<open>The two implementations of the \<open>Verifier\<close> trait that \<open>EpochChangeProof::verify\<close> meets.\<close>

datatype trusted = TrustedWaypoint waypoint | TrustedEpochState epoch_state

fun trusted_verify :: "crypto_ops \<Rightarrow> trusted \<Rightarrow> ledger_info_with_signatures \<Rightarrow> (unit, anyhow) rust" where
  "trusted_verify C (TrustedWaypoint w) lis = waypoint_verify C w (lis_ledger_info lis)"
| "trusted_verify C (TrustedEpochState es) lis = epoch_state_verify C es lis"

fun is_ledger_info_stale :: "trusted \<Rightarrow> ledger_info \<Rightarrow> bool" where
  "is_ledger_info_stale (TrustedWaypoint w) li \<longleftrightarrow> bi_version (commit_info li) < wp_version w"
| "is_ledger_info_stale (TrustedEpochState es) li \<longleftrightarrow> bi_epoch (commit_info li) < eps_epoch es"

record epoch_change_proof =
  ledger_info_with_sigs :: "ledger_info_with_signatures list"
  ecp_more :: bool

definition epoch_change_proof_verify ::
    "crypto_ops \<Rightarrow> trusted \<Rightarrow> epoch_change_proof \<Rightarrow> (ledger_info_with_signatures, anyhow) rust" where
  "epoch_change_proof_verify C T p =
     (let lis = ledger_info_with_sigs p in
      rust_bind (ensure (lis \<noteq> []) ''The EpochChangeProof is empty'') (\<lambda>_.
      rust_bind (ensure (\<not> is_ledger_info_stale T (lis_ledger_info (last lis)))
        ''The EpochChangeProof is stale'') (\<lambda>_.
      rust_bind (rust_fold (\<lambda>verifier_ref l.
          rust_bind (trusted_verify C verifier_ref l) (\<lambda>_.
          rust_bind (ok_or ''LedgerInfo doesn't carry a ValidatorSet''
            (bi_next_epoch_state (commit_info (lis_ledger_info l)))) (\<lambda>es. Ok (TrustedEpochState es))))
        T (dropWhile (\<lambda>l. is_ledger_info_stale T (lis_ledger_info l)) lis)) (\<lambda>_.
      Ok (last lis)))))"

end
