(* ===== verification/SafetyRules.thy ===== *)
theory SafetyRules
  imports DiemTypes
begin

text \<open>
  The safety rules of a validator (\<open>consensus/safety-rules/src\<close>): the persistent safety data with
  its cache (\<open>persistent_safety_storage.rs\<close>), the signer (\<open>configurable_validator_signer.rs\<close>), and
  every operation of \<open>safety_rules.rs\<close> and \<open>safety_rules_2chain.rs\<close>.

  The secure storage is the interface \<open>storage_ops\<close> over a store of any type; its contract is the
  locale \<open>safety_storage\<close> of \<open>SecureStorage\<close>.  Logging and metrics are left out.
\<close>

subsection \<open>Errors\<close>

datatype safety_error =
    IncorrectEpoch u64 u64
  | IncorrectRound u64
  | IncorrectLastVotedRound u64 u64
  | IncorrectPreferredRound u64 u64
  | InvalidAccumulatorExtension string
  | InvalidEpochChangeProof string
  | InternalError string
  | InvalidLedgerInfo
  | InvalidProposal string
  | InvalidQuorumCertificate string
  | NotInitialized string
  | SecureStorageMissingDataError string
  | SecureStorageUnexpectedError string
  | ValidatorKeyNotFound string
  | ValidatorNotInSet account_address
  | VoteProposalSignatureNotFound
  | NotSafeToVote u64 u64 u64 u64
  | NotSafeToTimeout u64 u64 u64 u64
  | InvalidTimeoutCertificate string
  | InconsistentExecutionResult block_info block_info
  | InvalidOrderedLedgerInfo ledger_info

text \<open>Errors of the secure storage, and their conversion: a denied permission panics.\<close>

datatype storage_error =
    EntropyError string
  | StorageInternalError string
  | KeyAlreadyExists string
  | KeyNotSet string
  | PermissionDenied
  | StorageSerializationError string
  | KeyVersionNotFound string

fun from_storage_error :: "('a, storage_error) rust \<Rightarrow> ('a, safety_error) rust" where
  "from_storage_error (Ok x) = Ok x"
| "from_storage_error (Er PermissionDenied) = Abort ''A permission error was thrown''"
| "from_storage_error (Er (KeyVersionNotFound s)) = Er (SecureStorageMissingDataError s)"
| "from_storage_error (Er (KeyNotSet s)) = Er (SecureStorageMissingDataError s)"
| "from_storage_error (Er (StorageSerializationError s)) = Er (SecureStorageUnexpectedError s)"
| "from_storage_error (Er (EntropyError s)) = Er (SecureStorageUnexpectedError s)"
| "from_storage_error (Er (StorageInternalError s)) = Er (SecureStorageUnexpectedError s)"
| "from_storage_error (Er (KeyAlreadyExists s)) = Er (SecureStorageUnexpectedError s)"
| "from_storage_error (Abort p) = Abort p"

lemma from_storage_error_Ok_iff [simp]: "from_storage_error r = Ok x \<longleftrightarrow> r = Ok x"
  by (cases r rule: from_storage_error.cases) simp_all

subsection \<open>Safety data and its storage\<close>

record safety_data =
  sd_epoch :: u64
  last_voted_round :: round
  preferred_round :: round
  one_chain_round :: round
  last_vote :: "vote option"

text \<open>
  The storage as the safety rules use it.  Values are stored in serialised form and read back at a
  type the caller names: \<open>get_safety_data\<close> reads at \<open>SafetyData\<close>, \<open>get_safety_data_result\<close> reads
  the same entry at \<open>Result<SafetyData, Error>\<close>.
\<close>

record 's storage_ops =
  get_safety_data :: "'s \<Rightarrow> (safety_data, storage_error) rust"
  get_safety_data_result :: "'s \<Rightarrow> ((safety_data, safety_error) rust, storage_error) rust"
  put_safety_data :: "safety_data \<Rightarrow> 's \<Rightarrow> (unit, storage_error) rust \<times> 's"
  get_author :: "'s \<Rightarrow> (account_address, storage_error) rust"
  get_waypoint :: "'s \<Rightarrow> (waypoint, storage_error) rust"
  put_waypoint :: "waypoint \<Rightarrow> 's \<Rightarrow> (unit, storage_error) rust \<times> 's"
  export_private_key_for_version :: "public_key \<Rightarrow> 's \<Rightarrow> (private_key, storage_error) rust"
  sign_using_version :: "public_key \<Rightarrow> signed_message \<Rightarrow> 's \<Rightarrow> (signature, storage_error) rust"
  get_execution_public_key :: "'s \<Rightarrow> (public_key, storage_error) rust"

record 's persistent_safety_storage =
  enable_cached_safety_data :: bool
  cached_safety_data :: "safety_data option"
  internal_store :: 's

text \<open>\<open>ConfigurableValidatorSigner\<close>: a signer with the private key, or a handle on a stored key.\<close>

datatype validator_signer =
    Signer account_address private_key
  | Handle account_address public_key

fun signer_author :: "validator_signer \<Rightarrow> account_address" where
  "signer_author (Signer author _) = author"
| "signer_author (Handle author _) = author"

fun signer_public_key :: "crypto_ops \<Rightarrow> validator_signer \<Rightarrow> public_key" where
  "signer_public_key C (Signer _ sk) = public_key_of C sk"
| "signer_public_key C (Handle _ pk) = pk"

record 's safety_rules =
  persistent_storage :: "'s persistent_safety_storage"
  execution_public_key :: "public_key option"
  export_consensus_key :: bool
  validator_signer_of :: "validator_signer option"
  epoch_state_of :: "epoch_state option"
  decoupled_execution :: bool

type_synonym ('a, 's) sr_method = "('a, safety_error, 's safety_rules) rmethod"

definition SafetyRules_new ::
    "'s storage_ops \<Rightarrow> 's persistent_safety_storage \<Rightarrow> bool \<Rightarrow> bool \<Rightarrow> bool \<Rightarrow> ('s safety_rules, safety_error) rust" where
  "SafetyRules_new S storage verify_vote_proposal_signature export_key decoupled =
     rust_bind (if verify_vote_proposal_signature \<and> \<not> decoupled
       then rust_bind (expect ''Unable to retrieve execution public key''
              (from_storage_error (get_execution_public_key S (internal_store storage)))) (\<lambda>k. Ok (Some k))
       else Ok None) (\<lambda>key.
     Ok \<lparr> persistent_storage = storage, execution_public_key = key, export_consensus_key = export_key,
          validator_signer_of = None, epoch_state_of = None, decoupled_execution = decoupled \<rparr>)"

abbreviation store_of :: "'s safety_rules \<Rightarrow> 's" where
  "store_of sr \<equiv> internal_store (persistent_storage sr)"

abbreviation set_store :: "'s \<Rightarrow> 's safety_rules \<Rightarrow> 's safety_rules" where
  "set_store st sr \<equiv> sr \<lparr> persistent_storage := persistent_storage sr \<lparr> internal_store := st \<rparr> \<rparr>"

abbreviation set_cache :: "safety_data option \<Rightarrow> 's safety_rules \<Rightarrow> 's safety_rules" where
  "set_cache d sr \<equiv> sr \<lparr> persistent_storage := persistent_storage sr \<lparr> cached_safety_data := d \<rparr> \<rparr>"

text \<open>
  \<open>PersistentSafetyStorage::safety_data\<close>.  Without the cache, the statement
  \<open>return self.internal_store.get(SAFETY_DATA).map(|v| v.value)?\<close> returns the stored value
  itself as the result of the function, so it reads the entry at the type \<open>Result<SafetyData, Error>\<close>.
\<close>

definition safety_data_read :: "'s storage_ops \<Rightarrow> (safety_data, 's) sr_method" where
  "safety_data_read S sr =
     (if \<not> enable_cached_safety_data (persistent_storage sr) then
        (rust_bind (from_storage_error (get_safety_data_result S (store_of sr))) (\<lambda>r. r), sr)
      else case cached_safety_data (persistent_storage sr) of
        Some d \<Rightarrow> (Ok d, sr)
      | None \<Rightarrow>
          (case from_storage_error (get_safety_data S (store_of sr)) of
             Ok d \<Rightarrow> (Ok d, set_cache (Some d) sr)
           | Er e \<Rightarrow> (Er e, sr)
           | Abort p \<Rightarrow> (Abort p, sr)))"

definition set_safety_data :: "'s storage_ops \<Rightarrow> safety_data \<Rightarrow> (unit, 's) sr_method" where
  "set_safety_data S d sr =
     (case put_safety_data S d (store_of sr) of
        (Ok _, st) \<Rightarrow> (Ok (), set_cache (Some d) (set_store st sr))
      | (Er e, st) \<Rightarrow> (Er (SecureStorageUnexpectedError ''set''), set_cache None (set_store st sr))
      | (Abort p, st) \<Rightarrow> (Abort p, set_store st sr))"

definition set_waypoint :: "'s storage_ops \<Rightarrow> waypoint \<Rightarrow> (unit, 's) sr_method" where
  "set_waypoint S w sr =
     (case put_waypoint S w (store_of sr) of
        (r, st) \<Rightarrow> (from_storage_error r, set_store st sr))"

subsection \<open>Helpers of the rules\<close>

definition next_round :: "round \<Rightarrow> (round, safety_error) rust" where
  "next_round r = (if r = - 1 then Er (IncorrectRound r) else Ok (r + 1))"

definition signer :: "'s safety_rules \<Rightarrow> (validator_signer, safety_error) rust" where
  "signer sr = ok_or (NotInitialized ''validator_signer'') (validator_signer_of sr)"

definition sr_epoch_state :: "'s safety_rules \<Rightarrow> (epoch_state, safety_error) rust" where
  "sr_epoch_state sr = ok_or (NotInitialized ''epoch_state'') (epoch_state_of sr)"

definition sign :: "crypto_ops \<Rightarrow> 's storage_ops \<Rightarrow> signed_message \<Rightarrow> 's safety_rules \<Rightarrow> (signature, safety_error) rust" where
  "sign C S m sr =
     rust_bind (signer sr) (\<lambda>s.
     case s of
       Signer _ sk \<Rightarrow> Ok (sign_message C sk m)
     | Handle _ pk \<Rightarrow> from_storage_error (sign_using_version S pk m (store_of sr)))"

definition verify_epoch :: "u64 \<Rightarrow> safety_data \<Rightarrow> (unit, safety_error) rust" where
  "verify_epoch epoch d =
     (if epoch \<noteq> sd_epoch d then Er (IncorrectEpoch epoch (sd_epoch d)) else Ok ())"

definition verify_qc :: "crypto_ops \<Rightarrow> quorum_cert \<Rightarrow> 's safety_rules \<Rightarrow> (unit, safety_error) rust" where
  "verify_qc C qc sr =
     rust_bind (sr_epoch_state sr) (\<lambda>es.
     map_err InvalidQuorumCertificate (quorum_cert_verify C (eps_verifier es) qc))"

definition verify_author :: "account_address option \<Rightarrow> 's safety_rules \<Rightarrow> (unit, safety_error) rust" where
  "verify_author author sr =
     rust_bind (signer sr) (\<lambda>s.
     rust_bind (ok_or (InvalidProposal ''No author found in the proposal'') author) (\<lambda>a.
     if signer_author s \<noteq> a then Er (InvalidProposal ''Proposal author is not validator signer!'') else Ok ()))"

definition observe_qc :: "quorum_cert \<Rightarrow> safety_data \<Rightarrow> safety_data" where
  "observe_qc qc d =
     (let one_chain = bi_round (certified_block qc); two_chain = bi_round (parent_block qc);
          d = (if one_chain > one_chain_round d then d \<lparr> one_chain_round := one_chain \<rparr> else d) in
      if two_chain > preferred_round d then d \<lparr> preferred_round := two_chain \<rparr> else d)"

definition verify_and_update_preferred_round :: "quorum_cert \<Rightarrow> safety_data \<Rightarrow> (safety_data, safety_error) rust" where
  "verify_and_update_preferred_round qc d =
     (if bi_round (certified_block qc) < preferred_round d
      then Er (IncorrectPreferredRound (bi_round (certified_block qc)) (preferred_round d))
      else Ok (observe_qc qc d))"

definition verify_and_update_last_vote_round :: "round \<Rightarrow> safety_data \<Rightarrow> (safety_data, safety_error) rust" where
  "verify_and_update_last_vote_round round d =
     (if round \<le> last_voted_round d then Er (IncorrectLastVotedRound round (last_voted_round d))
      else Ok (d \<lparr> last_voted_round := round \<rparr>))"

definition extension_check :: "crypto_ops \<Rightarrow> vote_proposal \<Rightarrow> (vote_data, safety_error) rust" where
  "extension_check C p =
     rust_bind (ok_or (InvalidAccumulatorExtension ''extension'')
       (extension_verify C (vp_extension_proof p)
         (bi_executed_state_id (certified_block (block_quorum_cert (vp_block p)))))) (\<lambda>tree.
     Ok (vote_data_with_extension_proof tree p))"

definition construct_ledger_info :: "diem_block \<Rightarrow> hash_value \<Rightarrow> (ledger_info, safety_error) rust" where
  "construct_ledger_info b h =
     (let block2 = block_round b; block1 = bi_round (certified_block (block_quorum_cert b));
          block0 = bi_round (parent_block (block_quorum_cert b)) in
      rust_bind (next_round block0) (\<lambda>n0.
      rust_bind (if n0 = block1 then rust_bind (next_round block1) (\<lambda>n1. Ok (n1 = block2)) else Ok False) (\<lambda>commit.
      Ok \<lparr> commit_info = (if commit then parent_block (block_quorum_cert b) else BlockInfo_empty),
           consensus_data_hash = h \<rparr>)))"

definition construct_ledger_info_2chain :: "diem_block \<Rightarrow> hash_value \<Rightarrow> (ledger_info, safety_error) rust" where
  "construct_ledger_info_2chain b h =
     rust_bind (next_round (bi_round (certified_block (block_quorum_cert b)))) (\<lambda>n0.
     Ok \<lparr> commit_info = (if n0 = block_round b then certified_block (block_quorum_cert b) else BlockInfo_empty),
          consensus_data_hash = h \<rparr>)"

subsection \<open>The operations\<close>

definition verify_proposal ::
    "crypto_ops \<Rightarrow> 's storage_ops \<Rightarrow> u64 \<Rightarrow> maybe_signed_vote_proposal \<Rightarrow> (vote_data, 's) sr_method" where
  "verify_proposal C S now mvp =
     (let p = mvp_vote_proposal mvp; b = vp_block p in
      st_bind (reads (\<lambda>sr. case execution_public_key sr of
           Some key \<Rightarrow> rust_bind (ok_or VoteProposalSignatureNotFound (mvp_signature mvp)) (\<lambda>sig.
             if verify_struct_signature C key (MVoteProposal p) sig then Ok ()
             else Er (InternalError ''signature''))
         | None \<Rightarrow> Ok ())) (\<lambda>_.
      st_bind (safety_data_read S) (\<lambda>d.
      st_bind (lifts (verify_epoch (bd_epoch (block_data_of b)) d)) (\<lambda>_.
      st_bind (reads (verify_qc C (block_quorum_cert b))) (\<lambda>_.
      st_bind (reads (\<lambda>sr. rust_bind (sr_epoch_state sr) (\<lambda>es.
        map_err InvalidProposal (validate_signature C (eps_verifier es) b)))) (\<lambda>_.
      st_bind (lifts (map_err InvalidProposal (verify_well_formed now b))) (\<lambda>_.
      reads (\<lambda>sr. if decoupled_execution sr then Ok (vote_data_ordering_only C p)
                    else extension_check C p))))))))"

text \<open>
  What the two voting operations share after their voting rules: sign the ledger info, store the
  vote with the new safety data, return it.
\<close>

definition sign_and_store_vote ::
    "crypto_ops \<Rightarrow> 's storage_ops \<Rightarrow> vote_data \<Rightarrow> (ledger_info, safety_error) rust \<Rightarrow> safety_data \<Rightarrow> (vote, 's) sr_method" where
  "sign_and_store_vote C S vd li d =
     st_bind (reads signer) (\<lambda>s.
     st_bind (lifts li) (\<lambda>li.
     st_bind (reads (sign C S (MLedgerInfo li))) (\<lambda>sig.
     let v = Vote_new_with_signature vd (signer_author s) li sig in
     st_bind (set_safety_data S (d \<lparr> last_vote := Some v \<rparr>)) (\<lambda>_.
     st_return v))))"

text \<open>The vote of this round, if there is one already.\<close>

definition vote_round :: "vote \<Rightarrow> round" where
  "vote_round v = bi_round (vd_proposed (vt_vote_data v))"

definition already_voted :: "round \<Rightarrow> safety_data \<Rightarrow> vote option" where
  "already_voted round d =
     (case last_vote d of None \<Rightarrow> None | Some v \<Rightarrow> if vote_round v = round then Some v else None)"

definition guarded_construct_and_sign_vote ::
    "crypto_ops \<Rightarrow> 's storage_ops \<Rightarrow> u64 \<Rightarrow> maybe_signed_vote_proposal \<Rightarrow> (vote, 's) sr_method" where
  "guarded_construct_and_sign_vote C S now mvp =
     (let b = vp_block (mvp_vote_proposal mvp) in
      st_bind (reads signer) (\<lambda>_.
      st_bind (verify_proposal C S now mvp) (\<lambda>vd.
      st_bind (safety_data_read S) (\<lambda>d.
      case already_voted (block_round b) d of
        Some v \<Rightarrow> st_return v
      | None \<Rightarrow>
          st_bind (lifts (verify_and_update_preferred_round (block_quorum_cert b) d)) (\<lambda>d.
          st_bind (lifts (verify_and_update_last_vote_round (block_round b) d)) (\<lambda>d.
          sign_and_store_vote C S vd (construct_ledger_info b (vote_data_hash C vd)) d))))))"

definition guarded_sign_proposal :: "crypto_ops \<Rightarrow> 's storage_ops \<Rightarrow> block_data \<Rightarrow> (signature, 's) sr_method" where
  "guarded_sign_proposal C S bd =
     st_bind (reads signer) (\<lambda>_.
     st_bind (reads (verify_author (bd_author (bd_block_type bd)))) (\<lambda>_.
     st_bind (safety_data_read S) (\<lambda>d.
     st_bind (lifts (verify_epoch (bd_epoch bd) d)) (\<lambda>_.
     reads (sign C S (MBlockData bd))))))"

text \<open>The end of both timeout operations: raise the last voted round, store it, sign.\<close>

definition raise_round_and_sign ::
    "crypto_ops \<Rightarrow> 's storage_ops \<Rightarrow> round \<Rightarrow> signed_message \<Rightarrow> safety_data \<Rightarrow> (signature, 's) sr_method" where
  "raise_round_and_sign C S round m d =
     st_bind (lifts (if round < last_voted_round d
        then Er (IncorrectLastVotedRound round (last_voted_round d)) else Ok ())) (\<lambda>_.
     st_bind (if round > last_voted_round d
        then st_bind (lifts (verify_and_update_last_vote_round round d)) (set_safety_data S)
        else st_return ()) (\<lambda>_.
     reads (sign C S m)))"

definition guarded_sign_timeout :: "crypto_ops \<Rightarrow> 's storage_ops \<Rightarrow> timeout \<Rightarrow> (signature, 's) sr_method" where
  "guarded_sign_timeout C S t =
     st_bind (reads signer) (\<lambda>_.
     st_bind (safety_data_read S) (\<lambda>d.
     st_bind (lifts (verify_epoch (to_epoch t) d)) (\<lambda>_.
     st_bind (lifts (if to_round t \<le> preferred_round d
        then Er (IncorrectPreferredRound (to_round t) (preferred_round d)) else Ok ())) (\<lambda>_.
     raise_round_and_sign C S (to_round t) (MTimeout t) d))))"

definition guarded_sign_commit_vote ::
    "crypto_ops \<Rightarrow> 's storage_ops \<Rightarrow> ledger_info_with_signatures \<Rightarrow> ledger_info \<Rightarrow> (signature, 's) sr_method" where
  "guarded_sign_commit_vote C S lis new_li =
     (let old_li = lis_ledger_info lis in
      st_bind (reads signer) (\<lambda>_.
      st_bind (lifts (if \<not> is_ordered_only (placeholder_hash C) (commit_info old_li)
        then Er (InvalidOrderedLedgerInfo old_li) else Ok ())) (\<lambda>_.
      st_bind (lifts (if \<not> match_ordered_only (commit_info old_li) (commit_info new_li)
        then Er (InconsistentExecutionResult (commit_info old_li) (commit_info new_li)) else Ok ())) (\<lambda>_.
      st_bind (reads (\<lambda>sr. rust_bind (sr_epoch_state sr) (\<lambda>es.
        map_err (\<lambda>_. InvalidQuorumCertificate ''signatures'') (verify_signatures C (eps_verifier es) lis)))) (\<lambda>_.
      reads (sign C S (MLedgerInfo new_li)))))))"

subsubsection \<open>The two-chain rules\<close>

definition tc_round :: "two_chain_timeout_certificate option \<Rightarrow> round" where
  "tc_round tc = (case tc of None \<Rightarrow> 0 | Some tc \<Rightarrow> tct_round (tcc_timeout tc))"

definition highest_hqc_round :: "two_chain_timeout_certificate option \<Rightarrow> round" where
  "highest_hqc_round tc = (case tc of None \<Rightarrow> 0 | Some tc \<Rightarrow> hqc_round (tcc_timeout tc))"

text \<open>The disjunction \<open>round == next_round(a)? || next\<close>, evaluated from the left.\<close>

definition follows_or :: "round \<Rightarrow> round \<Rightarrow> (bool, safety_error) rust \<Rightarrow> (bool, safety_error) rust" where
  "follows_or r a other = rust_bind (next_round a) (\<lambda>n. if r = n then Ok True else other)"

definition safe_to_timeout ::
    "two_chain_timeout \<Rightarrow> two_chain_timeout_certificate option \<Rightarrow> safety_data \<Rightarrow> (unit, safety_error) rust" where
  "safe_to_timeout t tc d =
     (let round = tct_round t; qc_round = hqc_round t in
      rust_bind (follows_or round qc_round (rust_bind (next_round (tc_round tc)) (\<lambda>n. Ok (round = n)))) (\<lambda>c.
      if c \<and> qc_round \<ge> one_chain_round d then Ok ()
      else Er (NotSafeToTimeout round qc_round (tc_round tc) (one_chain_round d))))"

definition safe_to_vote :: "diem_block \<Rightarrow> two_chain_timeout_certificate option \<Rightarrow> (unit, safety_error) rust" where
  "safe_to_vote b tc =
     (let round = block_round b; qc_round = bi_round (certified_block (block_quorum_cert b)) in
      rust_bind (follows_or round qc_round
        (rust_bind (next_round (tc_round tc)) (\<lambda>n. Ok (round = n \<and> qc_round \<ge> highest_hqc_round tc)))) (\<lambda>c.
      if c then Ok () else Er (NotSafeToVote round qc_round (tc_round tc) (highest_hqc_round tc))))"

definition verify_tc ::
    "crypto_ops \<Rightarrow> two_chain_timeout_certificate option \<Rightarrow> 's safety_rules \<Rightarrow> (unit, safety_error) rust" where
  "verify_tc C tc sr =
     (case tc of
        None \<Rightarrow> Ok ()
      | Some tc \<Rightarrow> rust_bind (sr_epoch_state sr) (\<lambda>es.
          map_err InvalidTimeoutCertificate (two_chain_tc_verify C (eps_verifier es) tc)))"

definition guarded_sign_timeout_with_qc ::
    "crypto_ops \<Rightarrow> 's storage_ops \<Rightarrow> two_chain_timeout \<Rightarrow> two_chain_timeout_certificate option \<Rightarrow> (signature, 's) sr_method" where
  "guarded_sign_timeout_with_qc C S t tc =
     st_bind (reads signer) (\<lambda>_.
     st_bind (safety_data_read S) (\<lambda>d.
     st_bind (lifts (verify_epoch (tct_epoch t) d)) (\<lambda>_.
     st_bind (reads (verify_qc C (tct_quorum_cert t))) (\<lambda>_.
     st_bind (reads (verify_tc C tc)) (\<lambda>_.
     st_bind (lifts (safe_to_timeout t tc d)) (\<lambda>_.
     raise_round_and_sign C S (tct_round t) (MTimeoutRepr (signing_format t)) d))))))"

definition guarded_construct_and_sign_vote_two_chain ::
    "crypto_ops \<Rightarrow> 's storage_ops \<Rightarrow> u64 \<Rightarrow> maybe_signed_vote_proposal \<Rightarrow> two_chain_timeout_certificate option \<Rightarrow> (vote, 's) sr_method" where
  "guarded_construct_and_sign_vote_two_chain C S now mvp tc =
     (let b = vp_block (mvp_vote_proposal mvp) in
      st_bind (reads signer) (\<lambda>_.
      st_bind (verify_proposal C S now mvp) (\<lambda>vd.
      st_bind (reads (verify_tc C tc)) (\<lambda>_.
      st_bind (safety_data_read S) (\<lambda>d.
      case already_voted (block_round b) d of
        Some v \<Rightarrow> st_return v
      | None \<Rightarrow>
          st_bind (lifts (verify_and_update_last_vote_round (block_round b) d)) (\<lambda>d.
          st_bind (lifts (safe_to_vote b tc)) (\<lambda>_.
          sign_and_store_vote C S vd (construct_ledger_info_2chain b (vote_data_hash C vd))
            (observe_qc (block_quorum_cert b) d))))))))"

subsubsection \<open>Initialization\<close>

text \<open>\<open>Timeout::new(0, 0)\<close> is the test message a signature is tried on.\<close>

definition reconcile_key ::
    "crypto_ops \<Rightarrow> 's storage_ops \<Rightarrow> account_address \<Rightarrow> public_key option \<Rightarrow> (unit, 's) sr_method" where
  "reconcile_key C S author expected_key sr =
     (case expected_key of
        None \<Rightarrow> (Er (ValidatorNotInSet author), sr)
      | Some key \<Rightarrow>
          if map_option (signer_public_key C) (validator_signer_of sr) = Some key then (Ok (), sr)
          else if export_consensus_key sr then
            (case from_storage_error (export_private_key_for_version S key (store_of sr)) of
               Ok sk \<Rightarrow> (Ok (), sr \<lparr> validator_signer_of := Some (Signer author sk) \<rparr>)
             | Er (SecureStorageMissingDataError e) \<Rightarrow> (Er (ValidatorKeyNotFound e), sr)
             | Er e \<Rightarrow> (Er e, sr)
             | Abort p \<Rightarrow> (Abort p, sr))
          else
            (let sr = sr \<lparr> validator_signer_of := Some (Handle author key) \<rparr> in
             (rust_bind (map_err (\<lambda>_. ValidatorKeyNotFound ''sign'')
                (sign C S (MTimeout \<lparr> to_epoch = 0, to_round = 0 \<rparr>) sr)) (\<lambda>_. Ok ()), sr)))"

definition fresh_safety_data :: "u64 \<Rightarrow> safety_data" where
  "fresh_safety_data epoch =
     \<lparr> sd_epoch = epoch, last_voted_round = 0, preferred_round = 0, one_chain_round = 0, last_vote = None \<rparr>"

text \<open>The ordered writes of a new epoch: the waypoint first, the safety data last.\<close>

definition enter_epoch :: "crypto_ops \<Rightarrow> 's storage_ops \<Rightarrow> ledger_info \<Rightarrow> u64 \<Rightarrow> (unit, 's) sr_method" where
  "enter_epoch C S li epoch =
     st_bind (lifts (map_err InternalError (Waypoint_new_epoch_boundary C li))) (\<lambda>w.
     st_bind (set_waypoint S w) (\<lambda>_.
     set_safety_data S (fresh_safety_data epoch)))"

definition adopt_epoch_state :: "crypto_ops \<Rightarrow> 's storage_ops \<Rightarrow> epoch_state \<Rightarrow> (unit, 's) sr_method" where
  "adopt_epoch_state C S es =
     st_bind (updates (\<lambda>sr. sr \<lparr> epoch_state_of := Some es \<rparr>)) (\<lambda>_.
     st_bind (reads (\<lambda>sr. from_storage_error (get_author S (store_of sr)))) (\<lambda>author sr.
     case reconcile_key C S author (get_public_key (eps_verifier es) author) sr of
       (Ok _, sr') \<Rightarrow> (Ok (), sr')
     | (Er e, sr') \<Rightarrow> (Er e, sr' \<lparr> validator_signer_of := None \<rparr>)
     | (Abort p, sr') \<Rightarrow> (Abort p, sr')))"

definition guarded_initialize :: "crypto_ops \<Rightarrow> 's storage_ops \<Rightarrow> epoch_change_proof \<Rightarrow> (unit, 's) sr_method" where
  "guarded_initialize C S proof =
     st_bind (reads (\<lambda>sr. from_storage_error (get_waypoint S (store_of sr)))) (\<lambda>w.
     st_bind (lifts (map_err InvalidEpochChangeProof (epoch_change_proof_verify C (TrustedWaypoint w) proof))) (\<lambda>last_li.
     let li = lis_ledger_info last_li in
     st_bind (lifts (ok_or InvalidLedgerInfo (bi_next_epoch_state (commit_info li)))) (\<lambda>es.
     st_bind (safety_data_read S) (\<lambda>d.
     st_bind (if sd_epoch d < eps_epoch es then enter_epoch C S li (eps_epoch es) else st_return ()) (\<lambda>_.
     adopt_epoch_state C S es)))))"

record consensus_state =
  cs_safety_data :: safety_data
  cs_waypoint :: waypoint
  in_validator_set :: bool

definition guarded_consensus_state :: "'s storage_ops \<Rightarrow> (consensus_state, 's) sr_method" where
  "guarded_consensus_state S =
     st_bind (reads (\<lambda>sr. from_storage_error (get_waypoint S (store_of sr)))) (\<lambda>_.
     st_bind (safety_data_read S) (\<lambda>_.
     st_bind (reads (\<lambda>sr. from_storage_error (get_author S (store_of sr)))) (\<lambda>_.
     st_bind (safety_data_read S) (\<lambda>d.
     st_bind (reads (\<lambda>sr. from_storage_error (get_waypoint S (store_of sr)))) (\<lambda>w.
     reads (\<lambda>sr. Ok \<lparr> cs_safety_data = d, cs_waypoint = w, in_validator_set = succeeds (signer sr) \<rparr>))))))"

subsection \<open>Runs\<close>

text \<open>
  The calls of the \<open>TSafetyRules\<close> interface, with the clock where a call reads it, and a restart:
  the process comes back with \<open>SafetyRules::new\<close> on the storage it left.  A call returns what it
  signed, or nothing when it fails.
\<close>

datatype sr_call =
    Initialize epoch_change_proof
  | ConstructAndSignVote u64 maybe_signed_vote_proposal
  | ConstructAndSignVoteTwoChain u64 maybe_signed_vote_proposal "two_chain_timeout_certificate option"
  | SignProposal block_data
  | SignTimeout timeout
  | SignTimeoutWithQC two_chain_timeout "two_chain_timeout_certificate option"
  | SignCommitVote ledger_info_with_signatures ledger_info
  | QueryConsensusState
  | Restart

datatype sr_output =
    Voted vote
  | Signed signed_message signature
  | NoOutput

definition released :: "('a \<Rightarrow> sr_output) \<Rightarrow> ('a, safety_error) rust \<times> 's safety_rules \<Rightarrow> sr_output \<times> 's safety_rules" where
  "released f r = ((case fst r of Ok x \<Rightarrow> f x | _ \<Rightarrow> NoOutput), snd r)"

fun sr_step :: "crypto_ops \<Rightarrow> 's storage_ops \<Rightarrow> sr_call \<Rightarrow> 's safety_rules \<Rightarrow> sr_output \<times> 's safety_rules" where
  "sr_step C S (Initialize proof) sr = released (\<lambda>_. NoOutput) (guarded_initialize C S proof sr)"
| "sr_step C S (ConstructAndSignVote now mvp) sr = released Voted (guarded_construct_and_sign_vote C S now mvp sr)"
| "sr_step C S (ConstructAndSignVoteTwoChain now mvp tc) sr =
     released Voted (guarded_construct_and_sign_vote_two_chain C S now mvp tc sr)"
| "sr_step C S (SignProposal bd) sr = released (Signed (MBlockData bd)) (guarded_sign_proposal C S bd sr)"
| "sr_step C S (SignTimeout t) sr = released (Signed (MTimeout t)) (guarded_sign_timeout C S t sr)"
| "sr_step C S (SignTimeoutWithQC t tc) sr =
     released (Signed (MTimeoutRepr (signing_format t))) (guarded_sign_timeout_with_qc C S t tc sr)"
| "sr_step C S (SignCommitVote lis li) sr = released (Signed (MLedgerInfo li)) (guarded_sign_commit_vote C S lis li sr)"
| "sr_step C S QueryConsensusState sr = released (\<lambda>_. NoOutput) (guarded_consensus_state S sr)"
| "sr_step C S Restart sr =
     (NoOutput, sr \<lparr> persistent_storage := persistent_storage sr \<lparr> cached_safety_data := None \<rparr>,
                     validator_signer_of := None, epoch_state_of := None \<rparr>)"

fun sr_run :: "crypto_ops \<Rightarrow> 's storage_ops \<Rightarrow> sr_call list \<Rightarrow> 's safety_rules \<Rightarrow> sr_output list \<times> 's safety_rules" where
  "sr_run C S [] sr = ([], sr)"
| "sr_run C S (c # cs) sr =
     (case sr_step C S c sr of (out, sr') \<Rightarrow> case sr_run C S cs sr' of (outs, sr'') \<Rightarrow> (out # outs, sr''))"

end
