(* ===== verification/SecureStorage.thy ===== *)
theory SecureStorage
  imports SafetyRules
begin

text \<open>
  The storage behind the safety rules: the contract they rely on, and the in-memory key-value store
  with its keys (\<open>secure/storage/src/in_memory.rs\<close>, \<open>crypto_kv_storage.rs\<close>), which satisfies it.
  The time stamp that every entry carries is left out.
\<close>

subsection \<open>The contract of the storage\<close>

text \<open>
  A successful write is read back.  A failed write may or may not have taken effect.  Writing the
  waypoint leaves the safety data alone.
\<close>

locale safety_storage =
  fixes S :: "'s storage_ops"
  assumes put_get: "put_safety_data S d st = (Ok u, st') \<Longrightarrow> get_safety_data S st' = Ok d"
    and put_failed: "put_safety_data S d st = (Er e, st') \<Longrightarrow> get_safety_data S st' = Ok x \<Longrightarrow>
      x = d \<or> get_safety_data S st = Ok x"
    and put_no_panic: "put_safety_data S d st \<noteq> (Abort p, st')"
    and waypoint_keeps: "get_safety_data S (snd (put_waypoint S w st)) = get_safety_data S st"

subsection \<open>The key-value store\<close>

text \<open>
  Entries are JSON documents; reading an entry at another type than the one it was written at fails.
  In particular the object of a \<open>SafetyData\<close> has no \<open>Ok\<close> or \<open>Err\<close> tag, so it does not parse as a
  \<open>Result\<close>.
\<close>

datatype stored_value =
    StoredSafetyData safety_data
  | StoredWaypoint waypoint
  | StoredAddress account_address
  | StoredPrivateKey private_key
  | StoredResult "(safety_data, safety_error) rust"

record in_memory_storage =
  ims_data :: "(string \<times> stored_value) list"

type_synonym 'a kv_method = "('a, storage_error, in_memory_storage) rmethod"

definition kv_get :: "string \<Rightarrow> (stored_value \<Rightarrow> 'a option) \<Rightarrow> in_memory_storage \<Rightarrow> ('a, storage_error) rust" where
  "kv_get key parse st =
     rust_bind (ok_or (KeyNotSet key) (map_of (ims_data st) key)) (\<lambda>v.
     ok_or (StorageSerializationError key) (parse v))"

definition kv_set :: "string \<Rightarrow> stored_value \<Rightarrow> unit kv_method" where
  "kv_set key v st = (Ok (), st \<lparr> ims_data := (key, v) # filter (\<lambda>(k, _). k \<noteq> key) (ims_data st) \<rparr>)"

fun parse_safety_data :: "stored_value \<Rightarrow> safety_data option" where
  "parse_safety_data (StoredSafetyData d) = Some d"
| "parse_safety_data _ = None"

fun parse_result :: "stored_value \<Rightarrow> (safety_data, safety_error) rust option" where
  "parse_result (StoredResult r) = Some r"
| "parse_result _ = None"

fun parse_waypoint :: "stored_value \<Rightarrow> waypoint option" where
  "parse_waypoint (StoredWaypoint w) = Some w"
| "parse_waypoint _ = None"

fun parse_address :: "stored_value \<Rightarrow> account_address option" where
  "parse_address (StoredAddress a) = Some a"
| "parse_address _ = None"

fun parse_private_key :: "stored_value \<Rightarrow> private_key option" where
  "parse_private_key (StoredPrivateKey sk) = Some sk"
| "parse_private_key _ = None"

subsection \<open>Keys\<close>

text \<open>\<open>CryptoKVStorage\<close> keeps the current and the previous version of a named key.\<close>

definition get_previous_version_name :: "string \<Rightarrow> string" where
  "get_previous_version_name name = name @ ''_previous''"

definition kv_export_private_key :: "string \<Rightarrow> in_memory_storage \<Rightarrow> (private_key, storage_error) rust" where
  "kv_export_private_key name st = kv_get name parse_private_key st"

definition kv_export_private_key_for_version ::
    "crypto_ops \<Rightarrow> string \<Rightarrow> public_key \<Rightarrow> in_memory_storage \<Rightarrow> (private_key, storage_error) rust" where
  "kv_export_private_key_for_version C name version st =
     rust_bind (kv_export_private_key name st) (\<lambda>current.
     if public_key_of C current = version then Ok current
     else case kv_export_private_key (get_previous_version_name name) st of
         Ok previous \<Rightarrow> if public_key_of C previous = version then Ok previous else Er (KeyVersionNotFound name)
       | Er (KeyNotSet _) \<Rightarrow> Er (KeyVersionNotFound name)
       | Er e \<Rightarrow> Er e
       | Abort p \<Rightarrow> Abort p)"

definition kv_import_private_key :: "string \<Rightarrow> private_key \<Rightarrow> unit kv_method" where
  "kv_import_private_key name key = kv_set name (StoredPrivateKey key)"

text \<open>The fresh key that \<open>create_key\<close> and \<open>rotate_key\<close> draw is an argument.\<close>

definition kv_create_key :: "crypto_ops \<Rightarrow> private_key \<Rightarrow> string \<Rightarrow> public_key kv_method" where
  "kv_create_key C new_key name =
     st_bind (kv_import_private_key name new_key) (\<lambda>_. st_return (public_key_of C new_key))"

definition kv_get_public_key :: "crypto_ops \<Rightarrow> string \<Rightarrow> in_memory_storage \<Rightarrow> (public_key, storage_error) rust" where
  "kv_get_public_key C name st = rust_bind (kv_export_private_key name st) (\<lambda>key. Ok (public_key_of C key))"

definition kv_get_public_key_previous_version ::
    "crypto_ops \<Rightarrow> string \<Rightarrow> in_memory_storage \<Rightarrow> (public_key, storage_error) rust" where
  "kv_get_public_key_previous_version C name st =
     (case kv_export_private_key (get_previous_version_name name) st of
        Ok previous \<Rightarrow> Ok (public_key_of C previous)
      | Er (KeyNotSet _) \<Rightarrow> Er (KeyVersionNotFound name)
      | Er e \<Rightarrow> Er e
      | Abort p \<Rightarrow> Abort p)"

definition kv_rotate_key :: "crypto_ops \<Rightarrow> private_key \<Rightarrow> string \<Rightarrow> public_key kv_method" where
  "kv_rotate_key C new_key name =
     st_bind (reads (kv_export_private_key name)) (\<lambda>key.
     st_bind (kv_set (get_previous_version_name name) (StoredPrivateKey key)) (\<lambda>_.
     st_bind (kv_set name (StoredPrivateKey new_key)) (\<lambda>_.
     st_return (public_key_of C new_key))))"

definition kv_sign :: "crypto_ops \<Rightarrow> string \<Rightarrow> signed_message \<Rightarrow> in_memory_storage \<Rightarrow> (signature, storage_error) rust" where
  "kv_sign C name m st = rust_bind (kv_export_private_key name st) (\<lambda>key. Ok (sign_message C key m))"

definition kv_sign_using_version ::
    "crypto_ops \<Rightarrow> string \<Rightarrow> public_key \<Rightarrow> signed_message \<Rightarrow> in_memory_storage \<Rightarrow> (signature, storage_error) rust" where
  "kv_sign_using_version C name version m st =
     rust_bind (kv_export_private_key_for_version C name version st) (\<lambda>key. Ok (sign_message C key m))"

definition in_memory_ops :: "crypto_ops \<Rightarrow> in_memory_storage storage_ops" where
  "in_memory_ops C = \<lparr>
     get_safety_data = kv_get ''safety_data'' parse_safety_data,
     get_safety_data_result = kv_get ''safety_data'' parse_result,
     put_safety_data = (\<lambda>d. kv_set ''safety_data'' (StoredSafetyData d)),
     get_author = kv_get ''owner_account'' parse_address,
     get_waypoint = kv_get ''waypoint'' parse_waypoint,
     put_waypoint = (\<lambda>w. kv_set ''waypoint'' (StoredWaypoint w)),
     export_private_key_for_version = kv_export_private_key_for_version C ''consensus'',
     sign_using_version = kv_sign_using_version C ''consensus'',
     get_execution_public_key = kv_get_public_key C ''execution'' \<rparr>"

text \<open>
  \<open>PersistentSafetyStorage::initialize\<close> on a new store.  The result of importing the consensus key
  is only inspected for \<open>KeyAlreadyExists\<close>; any other error is dropped.
\<close>

definition initialize_store ::
    "safety_data \<Rightarrow> account_address \<Rightarrow> private_key \<Rightarrow> private_key \<Rightarrow> waypoint \<Rightarrow> unit kv_method" where
  "initialize_store d author consensus_key execution_key w st =
     (case kv_import_private_key ''consensus'' consensus_key st of
        (Er (KeyAlreadyExists _), st) \<Rightarrow> (Ok (), st)
      | (_, st) \<Rightarrow>
          st_bind (kv_import_private_key ''execution'' execution_key) (\<lambda>_.
          st_bind (kv_set ''safety_data'' (StoredSafetyData d)) (\<lambda>_.
          st_bind (kv_set ''owner_account'' (StoredAddress author)) (\<lambda>_.
          kv_set ''waypoint'' (StoredWaypoint w)))) st)"

definition PersistentSafetyStorage_initialize ::
    "in_memory_storage \<Rightarrow> account_address \<Rightarrow> private_key \<Rightarrow> private_key \<Rightarrow> waypoint \<Rightarrow> bool \<Rightarrow>
     (in_memory_storage persistent_safety_storage, 'e) rust" where
  "PersistentSafetyStorage_initialize st author consensus_key execution_key w cached =
     (let d = \<lparr> sd_epoch = 1, last_voted_round = 0, preferred_round = 0, one_chain_round = 0, last_vote = None \<rparr> in
      case initialize_store d author consensus_key execution_key w st of (r, st) \<Rightarrow>
      rust_bind (expect ''Unable to initialize backend storage'' r) (\<lambda>_.
      Ok \<lparr> enable_cached_safety_data = cached, cached_safety_data = Some d, internal_store = st \<rparr>))"

subsection \<open>The contract holds\<close>

lemma map_of_filter_other: "k \<noteq> key \<Longrightarrow> map_of (filter (\<lambda>(k, _). k \<noteq> key) xs) k = map_of xs k"
  by (induction xs) auto

lemma kv_get_set:
  "kv_get k parse (snd (kv_set k v st)) = ok_or (StorageSerializationError k) (parse v)"
  "k \<noteq> key \<Longrightarrow> kv_get k parse (snd (kv_set key v st)) = kv_get k parse st"
  by (simp_all add: kv_get_def kv_set_def map_of_filter_other ok_or_def)

lemma kv_set_Ok [simp]: "fst (kv_set key v st) = Ok ()"
  by (simp add: kv_set_def)

interpretation in_memory: safety_storage "in_memory_ops C" for C
  by unfold_locales
    (auto simp: in_memory_ops_def kv_set_def kv_get_def map_of_filter_other ok_or_def split: option.splits)

lemma st_bind_kv_set: "st_bind (kv_set key v) f st = f () (snd (kv_set key v st))"
  by (simp add: st_bind_def kv_set_def)

text \<open>After a rotation both versions of the key can sign, and no other.\<close>

lemma rotated_key_versions:
  assumes "kv_export_private_key name st = Ok old" and "kv_rotate_key C new name st = (r, st')"
  shows "r = Ok (public_key_of C new)"
    and "kv_sign_using_version C name version m st' =
      (if version = public_key_of C new then Ok (sign_message C new m)
       else if version = public_key_of C old then Ok (sign_message C old m)
       else Er (KeyVersionNotFound name))"
    and "kv_get_public_key_previous_version C name st' = Ok (public_key_of C old)"
proof -
  let ?prev = "get_previous_version_name name"
  have names: "?prev \<noteq> name" by (simp add: get_previous_version_name_def)
  have st': "r = Ok (public_key_of C new)"
    "st' = snd (kv_set name (StoredPrivateKey new) (snd (kv_set ?prev (StoredPrivateKey old) st)))"
    using assms by (simp_all add: kv_rotate_key_def st_bind_def [of "reads _"] reads_def st_bind_kv_set st_return_def)
  then show "r = Ok (public_key_of C new)" by simp
  have "kv_export_private_key name st' = Ok new" "kv_export_private_key ?prev st' = Ok old"
    using names by (simp_all add: st'(2) kv_export_private_key_def kv_get_set ok_or_def)
  then show "kv_sign_using_version C name version m st' =
      (if version = public_key_of C new then Ok (sign_message C new m)
       else if version = public_key_of C old then Ok (sign_message C old m)
       else Er (KeyVersionNotFound name))"
    and "kv_get_public_key_previous_version C name st' = Ok (public_key_of C old)"
    by (simp_all add: kv_sign_using_version_def kv_export_private_key_for_version_def kv_get_public_key_previous_version_def)
qed

lemma initialized_store:
  assumes "PersistentSafetyStorage_initialize st author ck ek w cached = Ok ps"
  shows "get_safety_data (in_memory_ops C) (internal_store ps) = Ok (fresh_safety_data 1)"
    and "cached_safety_data ps = Some (fresh_safety_data 1)"
    and "get_author (in_memory_ops C) (internal_store ps) = Ok author"
    and "get_waypoint (in_memory_ops C) (internal_store ps) = Ok w"
    and "export_private_key_for_version (in_memory_ops C) (public_key_of C ck) (internal_store ps) = Ok ck"
    and "get_execution_public_key (in_memory_ops C) (internal_store ps) = Ok (public_key_of C ek)"
  using assms by (auto simp: PersistentSafetyStorage_initialize_def initialize_store_def kv_import_private_key_def
      in_memory_ops_def kv_get_set kv_set_Ok st_bind_kv_set fresh_safety_data_def Let_def ok_or_def kv_set_def kv_get_def
      kv_export_private_key_for_version_def kv_export_private_key_def kv_get_public_key_def st_bind_def)

subsection \<open>Without the cache\<close>

text \<open>
  Without the cache, \<open>safety_data\<close> reads its entry at the wrong type.  A validator configured that way
  never gets past initialization.
\<close>

definition uncached :: "crypto_ops \<Rightarrow> in_memory_storage safety_rules \<Rightarrow> bool" where
  "uncached C sr \<longleftrightarrow> \<not> enable_cached_safety_data (persistent_storage sr) \<and> validator_signer_of sr = None \<and>
     (\<exists>d. get_safety_data (in_memory_ops C) (store_of sr) = Ok d)"

lemma uncached_read:
  assumes "uncached C sr"
  shows "safety_data_read (in_memory_ops C) sr = (Er (SecureStorageUnexpectedError ''safety_data''), sr)"
proof -
  obtain v where v: "map_of (ims_data (store_of sr)) ''safety_data'' = Some v" "parse_safety_data v \<noteq> None"
    using assms by (auto simp: uncached_def in_memory_ops_def kv_get_def ok_or_def rust_simps split: option.splits)
  then have "parse_result v = None" by (cases v) simp_all
  then show ?thesis using assms v(1) by (simp add: safety_data_read_def uncached_def in_memory_ops_def kv_get_def ok_or_def)
qed

lemma uncached_signer: "uncached C sr \<Longrightarrow> signer sr = Er (NotInitialized ''validator_signer'')"
  by (simp add: uncached_def signer_def ok_or_def)

lemma released_nothing: "released (\<lambda>_. NoOutput) x = (NoOutput, snd x)"
  by (simp add: released_def split: rust.splits)

lemma uncached_step:
  assumes "uncached C sr" and "sr_step C (in_memory_ops C) c sr = (out, sr')"
  shows "out = NoOutput \<and> uncached C sr'"
proof -
  let ?S = "in_memory_ops C"
  have init: "snd (guarded_initialize C ?S p sr) = sr" for p
    unfolding guarded_initialize_def Let_def
    by (simp add: st_bind_def reads_def lifts_def uncached_read [OF assms(1)] split: rust.splits)
  have query: "snd (guarded_consensus_state ?S sr) = sr"
    unfolding guarded_consensus_state_def
    by (simp add: st_bind_def reads_def uncached_read [OF assms(1)] split: rust.splits)
  have signed: "st_bind (reads signer) g sr = (Er (NotInitialized ''validator_signer''), sr)"
    for g :: "validator_signer \<Rightarrow> ('a, in_memory_storage) sr_method"
    by (simp add: st_bind_def reads_def uncached_signer [OF assms(1)])
  have "sr_step C ?S c sr = (NoOutput, sr)" if "c \<noteq> Restart"
    using that by (cases c) (simp_all add: released_nothing init query signed guarded_construct_and_sign_vote_def Let_def
      guarded_construct_and_sign_vote_two_chain_def guarded_sign_proposal_def guarded_sign_timeout_def
      guarded_sign_timeout_with_qc_def guarded_sign_commit_vote_def released_def)
  then show ?thesis using assms by (cases "c = Restart") (auto simp: uncached_def)
qed

text \<open>C24: With the cache of the safety data disabled, a validator on the in-memory storage never signs
anything: from a store that holds its safety data, whatever calls are made, no vote, proposal,
timeout or commit vote is ever released.\<close>

theorem uncached_rules_sign_nothing:
  assumes "\<not> enable_cached_safety_data (persistent_storage sr)" and "validator_signer_of sr = None"
    and "get_safety_data (in_memory_ops C) (store_of sr) = Ok d"
  shows "set (fst (sr_run C (in_memory_ops C) calls sr)) \<subseteq> {NoOutput}"
proof -
  have "uncached C sr" using assms by (auto simp: uncached_def)
  then show ?thesis
  proof (induction calls arbitrary: sr)
    case (Cons c calls)
    then show ?case using uncached_step [OF Cons.prems] by (fastforce split: prod.splits)
  qed simp
qed

theorem uncached_rules_sign_nothing_witness:
  "\<forall>C. \<exists>sr. persistent_storage sr =
       \<lparr> enable_cached_safety_data = False, cached_safety_data = None,
         internal_store = \<lparr> ims_data = [(''safety_data'', StoredSafetyData (fresh_safety_data 1))] \<rparr> \<rparr> \<and>
     set (fst (sr_run C (in_memory_ops C) [SignTimeout \<lparr> to_epoch = 1, to_round = 1 \<rparr>, QueryConsensusState] sr)) \<subseteq> {NoOutput}"
proof
  fix C
  let ?ps = "\<lparr> enable_cached_safety_data = False, cached_safety_data = None,
     internal_store = \<lparr> ims_data = [(''safety_data'', StoredSafetyData (fresh_safety_data 1))] \<rparr> \<rparr>"
  define sr where "sr = \<lparr> persistent_storage = ?ps, execution_public_key = None, export_consensus_key = True,
    validator_signer_of = None, epoch_state_of = None, decoupled_execution = False \<rparr>"
  then have sr: "persistent_storage sr = ?ps" "validator_signer_of sr = None" by simp_all
  have "set (fst (sr_run C (in_memory_ops C) [SignTimeout \<lparr> to_epoch = 1, to_round = 1 \<rparr>, QueryConsensusState] sr)) \<subseteq> {NoOutput}"
    by (rule uncached_rules_sign_nothing) (simp_all add: sr in_memory_ops_def kv_get_def ok_or_def)
  then show "\<exists>sr. persistent_storage sr = ?ps \<and>
     set (fst (sr_run C (in_memory_ops C) [SignTimeout \<lparr> to_epoch = 1, to_round = 1 \<rparr>, QueryConsensusState] sr)) \<subseteq> {NoOutput}"
    using sr(1) by (intro exI conjI)
qed

end
