(* ===== verification/VotingSpec.thy ===== *)
theory VotingSpec
  imports SecureStorage
begin

text \<open>
  What the safety rules promise, as an abstract voting machine on the persisted safety data, and
  the proof that the operations of \<open>SafetyRules\<close>, with their cache, their early returns and
  storage that may fail, implement it.
\<close>

subsection \<open>The abstract machine\<close>

text \<open>
  A fresh vote for block \<open>b\<close> under the three-chain rules, checked against the validators of \<open>es\<close>:
  the block is certified correctly and extends its parent, its round is beyond the last voted one
  and its parent not below the preferred round.
\<close>

definition vote_for :: "diem_block \<Rightarrow> vote \<Rightarrow> bool" where
  "vote_for b v \<longleftrightarrow>
     bi_epoch (vd_proposed (vt_vote_data v)) = bd_epoch (block_data_of b) \<and>
     bi_round (vd_proposed (vt_vote_data v)) = block_round b \<and>
     bi_id (vd_proposed (vt_vote_data v)) = block_id b \<and>
     vd_parent (vt_vote_data v) = certified_block (block_quorum_cert b)"

definition block_verified :: "crypto_ops \<Rightarrow> epoch_state \<Rightarrow> diem_block \<Rightarrow> bool" where
  "block_verified C es b \<longleftrightarrow>
     quorum_cert_verify C (eps_verifier es) (block_quorum_cert b) = Ok () \<and>
     bi_epoch (certified_block (block_quorum_cert b)) = bd_epoch (block_data_of b) \<and>
     bi_round (certified_block (block_quorum_cert b)) < block_round b"

definition voted_data :: "diem_block \<Rightarrow> vote \<Rightarrow> safety_data \<Rightarrow> safety_data" where
  "voted_data b v d = (observe_qc (block_quorum_cert b) d) \<lparr> last_voted_round := block_round b, last_vote := Some v \<rparr>"

definition fresh_vote :: "crypto_ops \<Rightarrow> epoch_state \<Rightarrow> diem_block \<Rightarrow> vote \<Rightarrow> safety_data \<Rightarrow> bool" where
  "fresh_vote C es b v d \<longleftrightarrow>
     block_verified C es b \<and> vote_for b v \<and> bd_epoch (block_data_of b) = sd_epoch d \<and>
     construct_ledger_info b (vote_data_hash C (vt_vote_data v)) = Ok (vt_ledger_info v) \<and>
     preferred_round d \<le> bi_round (certified_block (block_quorum_cert b)) \<and>
     last_voted_round d < block_round b"

text \<open>A fresh vote under the two-chain rules, justified by the parent or by a timeout certificate.\<close>

definition fresh_vote_two_chain ::
    "crypto_ops \<Rightarrow> epoch_state \<Rightarrow> two_chain_timeout_certificate option \<Rightarrow> diem_block \<Rightarrow> vote \<Rightarrow> safety_data \<Rightarrow> bool" where
  "fresh_vote_two_chain C es tc b v d \<longleftrightarrow>
     block_verified C es b \<and> vote_for b v \<and> bd_epoch (block_data_of b) = sd_epoch d \<and>
     construct_ledger_info_2chain b (vote_data_hash C (vt_vote_data v)) = Ok (vt_ledger_info v) \<and>
     safe_to_vote b tc = Ok () \<and> (\<forall>t. tc = Some t \<longrightarrow> two_chain_tc_verify C (eps_verifier es) t = Ok ()) \<and>
     last_voted_round d < block_round b"

text \<open>The epoch state that a proof leads to from a waypoint.\<close>

definition proves_epoch_state :: "crypto_ops \<Rightarrow> waypoint \<Rightarrow> epoch_change_proof \<Rightarrow> epoch_state \<Rightarrow> bool" where
  "proves_epoch_state C w proof es \<longleftrightarrow>
     (\<exists>lis. epoch_change_proof_verify C (TrustedWaypoint w) proof = Ok lis \<and>
        bi_next_epoch_state (commit_info (lis_ledger_info lis)) = Some es)"

text \<open>
  The moves of the machine: the persisted data before, what is released, the data after.  A lost
  answer is a move that writes (or fails to write) and releases nothing.
\<close>

inductive voting_move ::
    "crypto_ops \<Rightarrow> sr_call \<Rightarrow> epoch_state option \<Rightarrow> safety_data \<Rightarrow> sr_output \<Rightarrow> safety_data \<Rightarrow> bool" for C c where
  Vote: "c = ConstructAndSignVote now mvp \<Longrightarrow> b = vp_block (mvp_vote_proposal mvp) \<Longrightarrow>
    fresh_vote C es b v d \<Longrightarrow> d' = voted_data b v d \<Longrightarrow> voting_move C c (Some es) d (Voted v) d'"
| VoteTwoChain: "c = ConstructAndSignVoteTwoChain now mvp tc \<Longrightarrow> b = vp_block (mvp_vote_proposal mvp) \<Longrightarrow>
    fresh_vote_two_chain C es tc b v d \<Longrightarrow> d' = voted_data b v d \<Longrightarrow> voting_move C c (Some es) d (Voted v) d'"
| VoteAgain: "c = ConstructAndSignVote now mvp \<or> c = ConstructAndSignVoteTwoChain now mvp tc \<Longrightarrow>
    last_vote d = Some v \<Longrightarrow> vote_round v = block_round (vp_block (mvp_vote_proposal mvp)) \<Longrightarrow>
    voting_move C c e d (Voted v) d"
| RaiseRound: "c = SignTimeout t \<and> r = to_round t \<or> c = SignTimeoutWithQC t2 tc \<and> r = tct_round t2 \<Longrightarrow>
    last_voted_round d < r \<Longrightarrow> (case out of Voted _ \<Rightarrow> False | _ \<Rightarrow> True) \<Longrightarrow>
    voting_move C c e d out (d \<lparr> last_voted_round := r \<rparr>)"
| NewEpoch: "c = Initialize p \<Longrightarrow> proves_epoch_state C w p es \<Longrightarrow> sd_epoch d < eps_epoch es \<Longrightarrow>
    voting_move C c e d NoOutput (fresh_safety_data (eps_epoch es))"
| Keep: "(case out of Voted _ \<Rightarrow> False | _ \<Rightarrow> True) \<Longrightarrow> voting_move C c e d out d"
| Lost: "voting_move C c e d out d' \<Longrightarrow> voting_move C c e d NoOutput d'"

subsection \<open>The concrete state\<close>

definition stored :: "'s storage_ops \<Rightarrow> 's safety_rules \<Rightarrow> (safety_data, storage_error) rust" where
  "stored S sr = get_safety_data S (store_of sr)"

text \<open>The cache is on, and what it holds is what is stored.\<close>

definition coherent :: "'s storage_ops \<Rightarrow> 's safety_rules \<Rightarrow> bool" where
  "coherent S sr \<longleftrightarrow> enable_cached_safety_data (persistent_storage sr) \<and>
     (\<forall>d. cached_safety_data (persistent_storage sr) = Some d \<longrightarrow> stored S sr = Ok d)"

text \<open>Calls that at most fill the cache.\<close>

definition quiet :: "'s storage_ops \<Rightarrow> 's safety_rules \<Rightarrow> 's safety_rules \<Rightarrow> bool" where
  "quiet S sr sr' \<longleftrightarrow> store_of sr' = store_of sr \<and> epoch_state_of sr' = epoch_state_of sr \<and>
     (coherent S sr \<longrightarrow> coherent S sr')"

lemma quiet_refl_trans: "reflp (quiet S)" "transp (quiet S)"
  by (auto simp: quiet_def reflp_def transp_def)

lemma quiet_stored: "quiet S sr sr' \<Longrightarrow> stored S sr' = stored S sr"
  by (simp add: quiet_def stored_def)

lemma keeps_quiet_pure [intro]:
  "keeps (quiet S) (st_return x)" "keeps (quiet S) (reads g)" "keeps (quiet S) (lifts r)"
  by (rule keeps_pure [OF quiet_refl_trans(1)])+

lemmas keeps_quiet_bind [intro] = keeps_bind [OF quiet_refl_trans(2)]

lemma keeps_quiet_read [intro]: "keeps (quiet S) (safety_data_read S)"
  by (auto simp: keeps_def safety_data_read_def quiet_def coherent_def stored_def
      split: option.splits rust.splits)

lemma read_Ok:
  assumes "safety_data_read S sr = (Ok d, sr')" and "coherent S sr"
  shows "stored S sr = Ok d"
  using assms by (auto simp: safety_data_read_def coherent_def stored_def split: option.splits rust.splits if_splits)

lemma keeps_quiet_verify_proposal [intro]: "keeps (quiet S) (verify_proposal C S now mvp)"
  unfolding verify_proposal_def Let_def by (intro keeps_quiet_bind keeps_quiet_read keeps_quiet_pure)

subsection \<open>Operations implement moves\<close>

text \<open>\<open>sim\<close>: from one state to the next, the machine has a move that releases \<open>out\<close>.\<close>

definition sim :: "crypto_ops \<Rightarrow> 's storage_ops \<Rightarrow> sr_call \<Rightarrow> 's safety_rules \<Rightarrow> sr_output \<Rightarrow> 's safety_rules \<Rightarrow> bool" where
  "sim C S c sr out sr' \<longleftrightarrow> coherent S sr' \<and>
     (\<forall>x. stored S sr' = Ok x \<longrightarrow> (\<exists>d. stored S sr = Ok d \<and> voting_move C c (epoch_state_of sr) d out x)) \<and>
     ((\<exists>v. out = Voted v) \<longrightarrow> (\<exists>x. stored S sr' = Ok x))"

definition answer :: "('a \<Rightarrow> sr_output) \<Rightarrow> ('a, safety_error) rust \<Rightarrow> sr_output" where
  "answer f r = (case r of Ok x \<Rightarrow> f x | _ \<Rightarrow> NoOutput)"

text \<open>\<open>P\<close> is what is known of the stored data and the epoch state when the method is called.\<close>

definition implements ::
    "crypto_ops \<Rightarrow> 's storage_ops \<Rightarrow> sr_call \<Rightarrow> ((safety_data, storage_error) rust \<Rightarrow> epoch_state option \<Rightarrow> bool) \<Rightarrow>
     ('a \<Rightarrow> sr_output) \<Rightarrow> ('a, 's) sr_method \<Rightarrow> bool" where
  "implements C S c P f m \<longleftrightarrow>
     (\<forall>sr r sr'. coherent S sr \<longrightarrow> P (stored S sr) (epoch_state_of sr) \<longrightarrow> m sr = (r, sr') \<longrightarrow>
        sim C S c sr (answer f r) sr' \<and> epoch_state_of sr' = epoch_state_of sr)"

definition silent :: "sr_output \<Rightarrow> bool" where
  "silent out \<longleftrightarrow> (\<forall>v. out \<noteq> Voted v)"

lemma silent_simps [simp]: "silent NoOutput" "silent (Signed m sig)" "\<not> silent (Voted v)"
  by (simp_all add: silent_def)

lemma silent_case: "silent out \<Longrightarrow> (case out of Voted _ \<Rightarrow> False | _ \<Rightarrow> True)"
  by (cases out) (simp_all add: silent_def)

lemma silent_answer: "(\<And>x. silent (f x)) \<Longrightarrow> silent (answer f r)"
  by (cases r) (simp_all add: answer_def)

lemma sim_quiet:
  assumes "coherent S sr" and "quiet S sr sr'" and "silent out"
  shows "sim C S c sr out sr'"
  using assms voting_move.Keep [OF silent_case [OF assms(3)]]
  by (auto simp: sim_def quiet_stored silent_def) (simp add: quiet_def)

lemma implements_quiet:
  assumes "keeps (quiet S) m" and "\<And>x. silent (f x)"
  shows "implements C S c P f m"
  using sim_quiet [OF _ keepsD [OF assms(1)] silent_answer [OF assms(2)]] keepsD [OF assms(1)]
  by (auto simp: implements_def quiet_def)

lemma sim_quiet_first:
  assumes "quiet S sr sr1" and "sim C S c sr1 out sr'"
  shows "sim C S c sr out sr'"
  using assms by (simp add: sim_def quiet_stored) (simp add: quiet_def)

lemma implements_bind:
  assumes "keeps (quiet S) m"
    and "\<And>x sr sr1. coherent S sr \<Longrightarrow> P (stored S sr) (epoch_state_of sr) \<Longrightarrow> m sr = (Ok x, sr1) \<Longrightarrow>
      Q x (stored S sr) (epoch_state_of sr)"
    and "\<And>x. implements C S c (Q x) f (g x)"
  shows "implements C S c P f (st_bind m g)"
  unfolding implements_def
proof (intro allI impI)
  fix sr r sr'
  assume pre: "coherent S sr" "P (stored S sr) (epoch_state_of sr)" and run: "st_bind m g sr = (r, sr')"
  obtain q sr1 where m: "m sr = (q, sr1)" by fastforce
  have q: "quiet S sr sr1" by (rule keepsD [OF assms(1) m])
  have same: "epoch_state_of sr1 = epoch_state_of sr" using q by (simp add: quiet_def)
  have failed: "sim C S c sr NoOutput sr1" by (rule sim_quiet [OF pre(1) q]) simp
  show "sim C S c sr (answer f r) sr' \<and> epoch_state_of sr' = epoch_state_of sr"
  proof (cases q)
    case (Ok x)
    then have "g x sr1 = (r, sr')" using m run by (simp add: st_bind_def)
    moreover have "Q x (stored S sr1) (epoch_state_of sr1)" "coherent S sr1"
      using assms(2) [OF pre] m Ok q pre(1) by (simp_all add: quiet_stored) (simp_all add: quiet_def)
    ultimately have "sim C S c sr1 (answer f r) sr' \<and> epoch_state_of sr' = epoch_state_of sr1"
      using assms(3) by (simp add: implements_def)
    then show ?thesis using sim_quiet_first [OF q] same by simp
  qed (use m run same failed in \<open>auto simp: st_bind_def answer_def\<close>)
qed

text \<open>Chaining a call whose result is only passed on.\<close>

lemmas implements_skip = implements_bind [where Q = "\<lambda>_. P" and P = P for P]

lemma implements_lifts:
  assumes "\<And>x. r = Ok x \<Longrightarrow> implements C S c P f (g x)"
  shows "implements C S c P f (st_bind (lifts r) g)"
proof (rule implements_bind)
  show "keeps (quiet S) (lifts r)" by (rule keeps_quiet_pure)
  show "r = Ok x \<and> P (stored S sr) (epoch_state_of sr)"
    if "P (stored S sr) (epoch_state_of sr)" "lifts r sr = (Ok x, sr1)" for x sr sr1
    using that by (simp add: lifts_def)
  show "implements C S c (\<lambda>a e. r = Ok x \<and> P a e) f (g x)" for x
  proof (cases "r = Ok x")
    case True
    with assms [OF True] show ?thesis by simp
  next
    case False
    then show ?thesis by (simp add: implements_def)
  qed
qed

lemma implements_read:
  assumes "\<And>d. implements C S c (\<lambda>a e. a = Ok d \<and> P a e) f (g d)"
  shows "implements C S c P f (st_bind (safety_data_read S) g)"
proof (rule implements_bind [OF keeps_quiet_read _ assms])
  fix sr d sr1
  assume "coherent S sr" "P (stored S sr) (epoch_state_of sr)" "safety_data_read S sr = (Ok d, sr1)"
  then show "stored S sr = Ok d \<and> P (stored S sr) (epoch_state_of sr)" using read_Ok by blast
qed

lemma implements_weaken: "implements C S c P f m \<Longrightarrow> (\<And>a e. Q a e \<Longrightarrow> P a e) \<Longrightarrow> implements C S c Q f m"
  unfolding implements_def by blast

subsection \<open>The parts of the operations\<close>

lemma st_return_reads: "st_return x = reads (\<lambda>_. Ok x)"
  by (simp add: fun_eq_iff st_return_def reads_def)

definition vote_data_for :: "diem_block \<Rightarrow> vote_data \<Rightarrow> bool" where
  "vote_data_for b vd \<longleftrightarrow>
     bi_epoch (vd_proposed vd) = bd_epoch (block_data_of b) \<and> bi_round (vd_proposed vd) = block_round b \<and>
     bi_id (vd_proposed vd) = block_id b \<and> vd_parent vd = certified_block (block_quorum_cert b)"

text \<open>What is known after a proposal was verified.\<close>

definition proposal_verified ::
    "crypto_ops \<Rightarrow> diem_block \<Rightarrow> vote_data \<Rightarrow> (safety_data, storage_error) rust \<Rightarrow> epoch_state option \<Rightarrow> bool" where
  "proposal_verified C b vd a e \<longleftrightarrow>
     (\<exists>d es. a = Ok d \<and> e = Some es \<and> block_verified C es b \<and> bd_epoch (block_data_of b) = sd_epoch d) \<and>
     vote_data_for b vd"

lemma verify_well_formed_parent:
  "verify_well_formed now b = Ok () \<Longrightarrow> bi_round (certified_block (block_quorum_cert b)) < block_round b \<and>
     bi_epoch (certified_block (block_quorum_cert b)) = bd_epoch (block_data_of b)"
  by (auto simp: verify_well_formed_def Let_def rust_simps)

lemma vote_data_shapes:
  "vote_data_for (vp_block p) (vote_data_ordering_only C p)"
  "vote_data_for (vp_block p) (vote_data_with_extension_proof t p)"
  by (simp_all add: vote_data_for_def vote_data_ordering_only_def vote_data_with_extension_proof_def gen_block_info_def)

lemma verify_proposal_Ok:
  assumes "coherent S sr" and "verify_proposal C S now mvp sr = (Ok vd, sr')"
  shows "proposal_verified C (vp_block (mvp_vote_proposal mvp)) vd (stored S sr) (epoch_state_of sr)"
proof -
  let ?b = "vp_block (mvp_vote_proposal mvp)"
  from assms(2) obtain d sr1 u1 u2 where r: "safety_data_read S sr = (Ok d, sr1)"
    and ep: "verify_epoch (bd_epoch (block_data_of ?b)) d = Ok u1"
    and qc: "verify_qc C (block_quorum_cert ?b) sr1 = Ok u2"
    and wf: "verify_well_formed now ?b = Ok ()"
    and vd: "(if decoupled_execution sr1 then Ok (vote_data_ordering_only C (mvp_vote_proposal mvp))
       else extension_check C (mvp_vote_proposal mvp)) = Ok vd"
    unfolding verify_proposal_def Let_def rust_simps by auto
  have q: "epoch_state_of sr1 = epoch_state_of sr"
    using keepsD [OF keeps_quiet_read r] by (simp add: quiet_def)
  have "vote_data_for ?b vd"
    using vd vote_data_shapes by (auto simp: extension_check_def rust_simps split: if_splits)
  moreover obtain es where "epoch_state_of sr = Some es" "block_verified C es ?b"
    using qc verify_well_formed_parent [OF wf] q
    by (auto simp: verify_qc_def sr_epoch_state_def rust_simps block_verified_def)
  moreover have "bd_epoch (block_data_of ?b) = sd_epoch d"
    using ep by (simp add: verify_epoch_def split: if_splits)
  ultimately show ?thesis using read_Ok [OF r assms(1)] by (auto simp: proposal_verified_def)
qed

lemma implements_verify_proposal:
  assumes "\<And>vd. implements C S c (proposal_verified C (vp_block (mvp_vote_proposal mvp)) vd) f (g vd)"
  shows "implements C S c P f (st_bind (verify_proposal C S now mvp) g)"
  by (rule implements_bind [OF keeps_quiet_verify_proposal _ assms]) (rule verify_proposal_Ok)

lemma vote_for_vote_data: "vote_data_for b (vt_vote_data v) \<Longrightarrow> vote_for b v"
  by (simp add: vote_data_for_def vote_for_def)

context safety_storage
begin

lemma set_safety_data_effect:
  assumes "coherent S sr" and "set_safety_data S d' sr = (r, sr')"
  shows "coherent S sr'" and "epoch_state_of sr' = epoch_state_of sr"
    and "r = Ok u \<Longrightarrow> stored S sr' = Ok d'"
    and "stored S sr' = Ok x \<Longrightarrow> x = d' \<or> stored S sr = Ok x"
proof -
  obtain p st where p: "put_safety_data S d' (store_of sr) = (p, st)" by fastforce
  show "coherent S sr'" "epoch_state_of sr' = epoch_state_of sr" "r = Ok u \<Longrightarrow> stored S sr' = Ok d'"
    "stored S sr' = Ok x \<Longrightarrow> x = d' \<or> stored S sr = Ok x"
    using assms p put_get [of d' "store_of sr"] put_failed [of d' "store_of sr"] put_no_panic [of d' "store_of sr"]
    by (cases p; auto simp: set_safety_data_def coherent_def stored_def)+
qed

lemma implements_store:
  assumes "\<And>a e sr. P a e \<Longrightarrow> \<exists>d. a = Ok d \<and> voting_move C c e d (answer f (g sr)) d'"
  shows "implements C S c P f (st_bind (set_safety_data S d') (\<lambda>_. reads g))"
  unfolding implements_def
proof (intro allI impI)
  fix sr r sr'
  assume pre: "coherent S sr" "P (stored S sr) (epoch_state_of sr)"
    and run: "st_bind (set_safety_data S d') (\<lambda>_. reads g) sr = (r, sr')"
  obtain q sr1 where q: "set_safety_data S d' sr = (q, sr1)" by fastforce
  note eff = set_safety_data_effect [OF pre(1) q]
  have sr': "sr' = sr1" and r: "r = (case q of Ok _ \<Rightarrow> g sr1 | Er e \<Rightarrow> Er e | Abort p \<Rightarrow> Abort p)"
    using run q by (auto simp: st_bind_def reads_def split: rust.splits)
  from assms [OF pre(2)] obtain d where d: "stored S sr = Ok d"
    and move: "\<And>s. voting_move C c (epoch_state_of sr) d (answer f (g s)) d'" by (metis rust.inject(1))
  have "sim C S c sr (answer f r) sr'"
  proof (cases "\<exists>u. q = Ok u")
    case True
    then show ?thesis using eff(1,3) r sr' d move by (auto simp: sim_def)
  next
    case False
    then have a: "answer f r = NoOutput" using r by (cases q) (simp_all add: answer_def)
    have "voting_move C c (epoch_state_of sr) d NoOutput d'" using move by (rule voting_move.Lost)
    moreover have "voting_move C c (epoch_state_of sr) d NoOutput d" by (rule voting_move.Keep) simp
    ultimately show ?thesis using eff(1,4) sr' d a by (fastforce simp: sim_def)
  qed
  with eff(2) sr' show "sim C S c sr (answer f r) sr' \<and> epoch_state_of sr' = epoch_state_of sr" by simp
qed

lemma implements_sign_and_store:
  assumes "\<And>v a e. li = Ok (vt_ledger_info v) \<Longrightarrow> vt_vote_data v = vd \<Longrightarrow> P a e \<Longrightarrow>
    \<exists>d0. a = Ok d0 \<and> voting_move C c e d0 (Voted v) (d \<lparr> last_vote := Some v \<rparr>)"
  shows "implements C S c P Voted (sign_and_store_vote C S vd li d)"
  unfolding sign_and_store_vote_def Let_def st_return_reads
proof (rule implements_skip [OF keeps_quiet_pure(2)])
  fix s :: validator_signer
  show "implements C S c P Voted (st_bind (lifts li) (\<lambda>li. st_bind (reads (sign C S (MLedgerInfo li))) (\<lambda>sig.
      st_bind (set_safety_data S (d \<lparr> last_vote := Some (Vote_new_with_signature vd (signer_author s) li sig) \<rparr>))
        (\<lambda>_. reads (\<lambda>_. Ok (Vote_new_with_signature vd (signer_author s) li sig))))))"
  proof (rule implements_lifts)
    fix li' assume "li = Ok li'"
    then show "implements C S c P Voted (st_bind (reads (sign C S (MLedgerInfo li'))) (\<lambda>sig.
      st_bind (set_safety_data S (d \<lparr> last_vote := Some (Vote_new_with_signature vd (signer_author s) li' sig) \<rparr>))
        (\<lambda>_. reads (\<lambda>_. Ok (Vote_new_with_signature vd (signer_author s) li' sig)))))"
      using assms
      by (intro implements_skip [OF keeps_quiet_pure(2)] implements_store)
        (simp_all add: Vote_new_with_signature_def answer_def)
  qed
qed simp

lemma again_implements:
  assumes "c = ConstructAndSignVote now mvp \<or> c = ConstructAndSignVoteTwoChain now mvp tc"
    and "already_voted (block_round (vp_block (mvp_vote_proposal mvp))) d = Some v"
  shows "implements C S c (\<lambda>a e. a = Ok d \<and> P a e) Voted (st_return v)"
  using assms(2) voting_move.VoteAgain [OF assms(1)]
  by (auto simp: implements_def sim_def st_return_def answer_def already_voted_def split: option.splits if_splits)

lemma vote_implements:
  assumes "c = ConstructAndSignVote now mvp"
  shows "implements C S c (\<lambda>_ _. True) Voted (guarded_construct_and_sign_vote C S now mvp)"
proof -
  let ?b = "vp_block (mvp_vote_proposal mvp)"
  let ?P = "\<lambda>vd d a e. a = Ok d \<and> proposal_verified C ?b vd a e"
  let ?rules = "\<lambda>vd d. st_bind (lifts (verify_and_update_preferred_round (block_quorum_cert ?b) d)) (\<lambda>d.
    st_bind (lifts (verify_and_update_last_vote_round (block_round ?b) d)) (\<lambda>d.
    sign_and_store_vote C S vd (construct_ledger_info ?b (vote_data_hash C vd)) d))"
  have rules: "implements C S c (?P vd d) Voted (?rules vd d)" for vd d
  proof (intro implements_lifts implements_sign_and_store)
    fix d1 d2 a e and v :: vote
    assume "verify_and_update_preferred_round (block_quorum_cert ?b) d = Ok d1"
      and "verify_and_update_last_vote_round (block_round ?b) d1 = Ok d2"
      and "construct_ledger_info ?b (vote_data_hash C vd) = Ok (vt_ledger_info v)" "vt_vote_data v = vd"
      and "?P vd d a e"
    then show "\<exists>d0. a = Ok d0 \<and> voting_move C c e d0 (Voted v) (d2 \<lparr> last_vote := Some v \<rparr>)"
      by (auto simp: verify_and_update_preferred_round_def verify_and_update_last_vote_round_def
          proposal_verified_def fresh_vote_def voted_data_def observe_qc_def Let_def
          intro!: voting_move.Vote [OF assms refl] vote_for_vote_data split: if_splits)
  qed
  show ?thesis
    unfolding guarded_construct_and_sign_vote_def Let_def
    by (rule implements_skip [OF keeps_quiet_pure(2)], simp, rule implements_verify_proposal, rule implements_read)
      (use rules again_implements [OF disjI1 [OF assms]] in \<open>auto split: option.splits\<close>)
qed

lemma vote_two_chain_implements:
  assumes "c = ConstructAndSignVoteTwoChain now mvp tc"
  shows "implements C S c (\<lambda>_ _. True) Voted
     (guarded_construct_and_sign_vote_two_chain C S now mvp tc)"
proof -
  let ?b = "vp_block (mvp_vote_proposal mvp)"
  let ?tc = "\<lambda>e. \<forall>t es. tc = Some t \<longrightarrow> e = Some es \<longrightarrow> two_chain_tc_verify C (eps_verifier es) t = Ok ()"
  let ?P = "\<lambda>vd d a e. a = Ok d \<and> proposal_verified C ?b vd a e \<and> ?tc e"
  let ?rules = "\<lambda>vd d. st_bind (lifts (verify_and_update_last_vote_round (block_round ?b) d)) (\<lambda>d.
    st_bind (lifts (safe_to_vote ?b tc)) (\<lambda>_.
    sign_and_store_vote C S vd (construct_ledger_info_2chain ?b (vote_data_hash C vd))
      (observe_qc (block_quorum_cert ?b) d)))"
  have rules: "implements C S c (?P vd d) Voted (?rules vd d)" for vd d
  proof (intro implements_lifts implements_sign_and_store)
    fix d1 u a e and v :: vote
    assume "verify_and_update_last_vote_round (block_round ?b) d = Ok d1" "safe_to_vote ?b tc = Ok u"
      and "construct_ledger_info_2chain ?b (vote_data_hash C vd) = Ok (vt_ledger_info v)" "vt_vote_data v = vd"
      and "?P vd d a e"
    then show "\<exists>d0. a = Ok d0 \<and>
        voting_move C c e d0 (Voted v) (observe_qc (block_quorum_cert ?b) d1 \<lparr> last_vote := Some v \<rparr>)"
      by (auto simp: verify_and_update_last_vote_round_def proposal_verified_def fresh_vote_two_chain_def
          voted_data_def observe_qc_def Let_def
          intro!: voting_move.VoteTwoChain [OF assms refl] vote_for_vote_data split: if_splits)
  qed
  have tc: "?tc (epoch_state_of sr)" if "verify_tc C tc sr = Ok u" for sr u
    using that by (auto simp: verify_tc_def sr_epoch_state_def rust_simps split: option.splits)
  have again: "implements C S c (?P vd d) Voted (st_return v)" if "already_voted (block_round ?b) d = Some v" for vd d v
    using again_implements [OF disjI2 [OF assms] that, of C "\<lambda>a e. proposal_verified C ?b vd a e \<and> ?tc e"] by simp
  let ?vote = "\<lambda>vd. st_bind (safety_data_read S) (\<lambda>d.
    case already_voted (block_round ?b) d of None \<Rightarrow> ?rules vd d | Some v \<Rightarrow> st_return v)"
  have vote: "implements C S c (\<lambda>a e. proposal_verified C ?b vd a e \<and> ?tc e) Voted (?vote vd)" for vd
    by (rule implements_read) (use rules again in \<open>auto split: option.splits\<close>)
  have tail: "implements C S c (proposal_verified C ?b vd) Voted (st_bind (reads (verify_tc C tc)) (\<lambda>_. ?vote vd))" for vd
    by (rule implements_bind [OF keeps_quiet_pure(2), where Q = "\<lambda>_ a e. proposal_verified C ?b vd a e \<and> ?tc e", OF _ vote])
      (use tc in \<open>auto simp: reads_def\<close>)
  show ?thesis
    unfolding guarded_construct_and_sign_vote_two_chain_def Let_def
    by (rule implements_skip [OF keeps_quiet_pure(2)], simp, rule implements_verify_proposal, rule tail)
qed

lemma raise_round_implements:
  assumes "\<And>x. silent (f x)"
    and "c = SignTimeout t \<and> round = to_round t \<or> c = SignTimeoutWithQC t2 tc \<and> round = tct_round t2"
  shows "implements C S c (\<lambda>a e. a = Ok d \<and> P a e) f (raise_round_and_sign C S round m d)"
proof (cases "round > last_voted_round d")
  case True
  then have "raise_round_and_sign C S round m d =
      st_bind (set_safety_data S (d \<lparr> last_voted_round := round \<rparr>)) (\<lambda>_. reads (sign C S m))"
    by (auto simp: raise_round_and_sign_def verify_and_update_last_vote_round_def fun_eq_iff st_bind_def lifts_def
        split: prod.splits)
  moreover have "implements C S c (\<lambda>a e. a = Ok d \<and> P a e) f
      (st_bind (set_safety_data S (d \<lparr> last_voted_round := round \<rparr>)) (\<lambda>_. reads (sign C S m)))"
    using True silent_case [OF silent_answer [where f = f, OF assms(1)]] voting_move.RaiseRound [OF assms(2)]
    by (intro implements_store) blast
  ultimately show ?thesis by simp
next
  case False
  have "keeps (quiet S) (raise_round_and_sign C S round m d)"
    unfolding raise_round_and_sign_def using False by (auto intro!: keeps_quiet_bind keeps_quiet_pure)
  then show ?thesis using assms(1) by (rule implements_quiet)
qed

lemma timeout_implements:
  assumes "c = SignTimeout t"
  shows "implements C S c (\<lambda>_ _. True) (Signed m) (guarded_sign_timeout C S t)"
  unfolding guarded_sign_timeout_def
  by (rule implements_skip [OF keeps_quiet_pure(2)], simp, rule implements_read)
    (intro implements_lifts raise_round_implements [OF _ disjI1 [OF conjI [OF assms refl]]] silent_simps)

lemma timeout_with_qc_implements:
  assumes "c = SignTimeoutWithQC t tc"
  shows "implements C S c (\<lambda>_ _. True) (Signed m) (guarded_sign_timeout_with_qc C S t tc)"
  unfolding guarded_sign_timeout_with_qc_def
  by (rule implements_skip [OF keeps_quiet_pure(2)], simp, rule implements_read)
    (intro implements_lifts implements_skip [OF keeps_quiet_pure(2)]
      raise_round_implements [OF _ disjI2 [OF conjI [OF assms refl]]] silent_simps)

lemma quiet_operations:
  "keeps (quiet S) (guarded_sign_proposal C S bd)"
  "keeps (quiet S) (guarded_sign_commit_vote C S lis li)"
  "keeps (quiet S) (guarded_consensus_state S)"
  unfolding guarded_sign_proposal_def guarded_sign_commit_vote_def guarded_consensus_state_def Let_def
  by (intro keeps_quiet_bind keeps_quiet_read keeps_quiet_pure)+

subsubsection \<open>Initialization\<close>

lemma set_waypoint_effect:
  assumes "set_waypoint S w sr = (r, sr')"
  shows "stored S sr' = stored S sr" and "epoch_state_of sr' = epoch_state_of sr"
    and "coherent S sr \<Longrightarrow> coherent S sr'"
  using assms waypoint_keeps [of w "store_of sr"]
  by (auto simp: set_waypoint_def coherent_def stored_def split: prod.splits)

lemma enter_epoch_effect:
  assumes "coherent S sr" and "enter_epoch C S li epoch sr = (r, sr')"
  shows "coherent S sr'" and "epoch_state_of sr' = epoch_state_of sr"
    and "r = Ok u \<Longrightarrow> stored S sr' = Ok (fresh_safety_data epoch)"
    and "stored S sr' = Ok x \<Longrightarrow> x = fresh_safety_data epoch \<or> stored S sr = Ok x"
proof -
  let ?goal = "coherent S sr' \<and> epoch_state_of sr' = epoch_state_of sr \<and>
    (\<forall>u. r = Ok u \<longrightarrow> stored S sr' = Ok (fresh_safety_data epoch)) \<and>
    (\<forall>x. stored S sr' = Ok x \<longrightarrow> x = fresh_safety_data epoch \<or> stored S sr = Ok x)"
  consider (nothing) "sr' = sr" "\<forall>u. r \<noteq> Ok u"
    | (waypoint) w q where "set_waypoint S w sr = (q, sr')" "\<forall>u. r \<noteq> Ok u"
    | (both) w q sr1 where "set_waypoint S w sr = (q, sr1)" "set_safety_data S (fresh_safety_data epoch) sr1 = (r, sr')"
    using assms(2) by (auto simp: enter_epoch_def st_bind_def lifts_def split: prod.splits rust.splits)
  then have ?goal
  proof cases
    case nothing
    then show ?thesis using assms(1) by simp
  next
    case waypoint
    then show ?thesis using assms(1) set_waypoint_effect [OF waypoint(1)] by simp
  next
    case both
    then show ?thesis using assms(1) set_waypoint_effect [OF both(1)] set_safety_data_effect [OF _ both(2)] by auto
  qed
  then show "coherent S sr'" "epoch_state_of sr' = epoch_state_of sr"
    "r = Ok u \<Longrightarrow> stored S sr' = Ok (fresh_safety_data epoch)"
    "stored S sr' = Ok x \<Longrightarrow> x = fresh_safety_data epoch \<or> stored S sr = Ok x"
    by auto
qed

end

lemma adopt_epoch_state_effect:
  assumes "adopt_epoch_state C S es sr = (r, sr')"
  shows "persistent_storage sr' = persistent_storage sr" and "epoch_state_of sr' = Some es"
  using assms
  by (auto simp: adopt_epoch_state_def st_bind_def updates_def reads_def reconcile_key_def Let_def
      split: prod.splits rust.splits option.splits if_splits safety_error.splits)

lemma proves_epoch_stateI:
  "epoch_change_proof_verify C (TrustedWaypoint w) proof = Ok lis \<Longrightarrow>
   bi_next_epoch_state (commit_info (lis_ledger_info lis)) = Some es \<Longrightarrow> proves_epoch_state C w proof es"
  by (auto simp: proves_epoch_state_def)

lemma initialize_cases:
  assumes "guarded_initialize C S proof sr = (r, sr')"
  obtains (early) "quiet S sr sr'"
  | (later) w es d sr1 li where "proves_epoch_state C w proof es" "get_waypoint S (store_of sr) = Ok w"
      "safety_data_read S sr = (Ok d, sr1)"
      "st_bind (if sd_epoch d < eps_epoch es then enter_epoch C S li (eps_epoch es) else st_return ())
         (\<lambda>_. adopt_epoch_state C S es) sr1 = (r, sr')"
proof -
  have r0: "quiet S sr sr" by (simp add: quiet_def)
  obtain q sr1 where q: "safety_data_read S sr = (q, sr1)" by fastforce
  have r1: "quiet S sr sr1" by (rule keepsD [OF keeps_quiet_read q])
  show thesis
    using assms that r0 r1
    by (auto simp: guarded_initialize_def st_bind_def [of "reads _"] st_bind_def [of "lifts _"]
        st_bind_def [of "safety_data_read S"] reads_def lifts_def Let_def q split: rust.splits)
      (blast intro: proves_epoch_stateI)
qed

context safety_storage
begin

lemma initialize_effect:
  assumes "coherent S sr" and "guarded_initialize C S proof sr = (r, sr')" and "c = Initialize proof"
  shows "sim C S c sr NoOutput sr'"
    and "epoch_state_of sr' = epoch_state_of sr \<or>
      (\<exists>w es d. get_waypoint S (store_of sr) = Ok w \<and> proves_epoch_state C w proof es \<and>
         epoch_state_of sr' = Some es \<and> stored S sr' = Ok d \<and> eps_epoch es \<le> sd_epoch d)"
proof -
  let ?adopted = "\<exists>w es d. get_waypoint S (store_of sr) = Ok w \<and> proves_epoch_state C w proof es \<and>
         epoch_state_of sr' = Some es \<and> stored S sr' = Ok d \<and> eps_epoch es \<le> sd_epoch d"
  have keep: "voting_move C c e d NoOutput d" for e d by (rule voting_move.Keep) simp
  from assms(2) have "sim C S c sr NoOutput sr' \<and> (epoch_state_of sr' = epoch_state_of sr \<or> ?adopted)"
  proof (cases rule: initialize_cases)
    case early
    then show ?thesis using sim_quiet [OF assms(1) early] by (simp add: quiet_def)
  next
    case (later w es d sr1 li)
    have q: "quiet S sr sr1" by (rule keepsD [OF keeps_quiet_read later(3)])
    then have c1: "coherent S sr1" and same: "epoch_state_of sr1 = epoch_state_of sr" "stored S sr1 = stored S sr"
      using assms(1) by (simp_all add: quiet_def quiet_stored stored_def)
    have d: "stored S sr = Ok d" by (rule read_Ok [OF later(3) assms(1)])
    show ?thesis
    proof (cases "sd_epoch d < eps_epoch es")
      case True
      obtain p sr2 where p: "enter_epoch C S li (eps_epoch es) sr1 = (p, sr2)" by fastforce
      note eff = enter_epoch_effect [OF c1 p]
      have sim2: "sim C S c sr NoOutput sr2"
        using eff(1,4) d same keep voting_move.NewEpoch [OF assms(3) later(1) True] by (fastforce simp: sim_def)
      show ?thesis
      proof (cases "\<exists>u. p = Ok u")
        case ok: True
        then have "adopt_epoch_state C S es sr2 = (r, sr')" using later(4) True p by (auto simp: st_bind_def)
        note ad = adopt_epoch_state_effect [OF this]
        have "stored S sr' = Ok (fresh_safety_data (eps_epoch es))"
          using ok eff(3) ad(1) by (auto simp: stored_def)
        then have ?adopted using later(1,2) ad(2) by (auto simp: fresh_safety_data_def)
        moreover have "sim C S c sr NoOutput sr'" using sim2 ad(1) by (simp add: sim_def coherent_def stored_def)
        ultimately show ?thesis by simp
      next
        case False
        then have "sr' = sr2" using later(4) True p by (cases p) (auto simp: st_bind_def)
        then show ?thesis using sim2 eff(2) same by simp
      qed
    next
      case False
      then have "adopt_epoch_state C S es sr1 = (r, sr')" using later(4) by (simp add: st_bind_def st_return_def)
      note ad = adopt_epoch_state_effect [OF this]
      then have "coherent S sr'" "stored S sr' = Ok d" using c1 d same by (simp_all add: coherent_def stored_def)
      then show ?thesis using ad(2) d keep False later(1,2) by (auto simp: sim_def)
    qed
  qed
  then show "sim C S c sr NoOutput sr'" and "epoch_state_of sr' = epoch_state_of sr \<or> ?adopted" by simp_all
qed

lemma step_implements:
  assumes "coherent S sr" and "implements C S c (\<lambda>_ _. True) f m" and "released f (m sr) = (out, sr')"
  shows "sim C S c sr out sr'"
  using assms by (cases "m sr") (auto simp: implements_def released_def answer_def)

lemma sr_step_sim:
  assumes "coherent S sr" and "sr_step C S c sr = (out, sr')"
  shows "sim C S c sr out sr'"
proof (cases c)
  case (Initialize p)
  then have "out = NoOutput" "\<exists>r. guarded_initialize C S p sr = (r, sr')"
    using assms(2) by (cases "guarded_initialize C S p sr"; auto simp: released_def split: rust.splits)+
  then show ?thesis using initialize_effect(1) [OF assms(1) _ Initialize] by auto
next
  case Restart
  then have "stored S sr' = stored S sr" "coherent S sr'" "out = NoOutput"
    using assms by (auto simp: stored_def coherent_def)
  then show ?thesis using voting_move.Keep [of NoOutput] by (simp add: sim_def)
next
  case (ConstructAndSignVote now mvp)
  then show ?thesis using step_implements [OF assms(1) vote_implements [OF ConstructAndSignVote]] assms(2) by simp
next
  case (ConstructAndSignVoteTwoChain now mvp tc)
  then show ?thesis using step_implements [OF assms(1) vote_two_chain_implements [OF ConstructAndSignVoteTwoChain]] assms(2) by simp
next
  case (SignTimeout t)
  then show ?thesis using step_implements [OF assms(1) timeout_implements [OF SignTimeout]] assms(2) by simp
next
  case (SignTimeoutWithQC t tc)
  then show ?thesis using step_implements [OF assms(1) timeout_with_qc_implements [OF SignTimeoutWithQC]] assms(2) by simp
next
  case (SignProposal bd)
  then show ?thesis using step_implements [OF assms(1) implements_quiet [OF quiet_operations(1) silent_simps(2)]] assms(2) by simp
next
  case (SignCommitVote lis li)
  then show ?thesis using step_implements [OF assms(1) implements_quiet [OF quiet_operations(2) silent_simps(2)]] assms(2) by simp
next
  case QueryConsensusState
  then show ?thesis using step_implements [OF assms(1) implements_quiet [OF quiet_operations(3) silent_simps(1)]] assms(2) by simp
qed

end

subsection \<open>A committee of four\<close>

text \<open>
  Validators 1 to 4 with equal power, of which 1, 2 and 3 sign.  Block \<open>n\<close> is proposed in round \<open>n\<close>
  on top of block \<open>n - 1\<close>, starting from the genesis block of epoch 1.
\<close>

definition sample_verifier :: validator_verifier where
  "sample_verifier = \<lparr>
     address_to_validator_info = map (\<lambda>n. ([n], \<lparr> vci_public_key = [n], vci_voting_power = 1 \<rparr>)) [1, 2, 3, 4],
     quorum_voting_power = 3, total_voting_power = 4 \<rparr>"

definition sample_epoch :: epoch_state where
  "sample_epoch = \<lparr> eps_epoch = 1, eps_verifier = sample_verifier \<rparr>"

definition sample_info :: "nat \<Rightarrow> block_info" where
  "sample_info n = \<lparr> bi_epoch = 1, bi_round = of_nat n, bi_id = [of_nat n], bi_executed_state_id = [7],
     bi_version = 0, bi_timestamp_usecs = of_nat n, bi_next_epoch_state = None \<rparr>"

definition sample_vote_data :: "nat \<Rightarrow> vote_data" where
  "sample_vote_data n = \<lparr> vd_proposed = sample_info n, vd_parent = sample_info (n - 1) \<rparr>"

definition sample_hash :: "vote_data \<Rightarrow> hash_value" where
  "sample_hash vd = [ucast (bi_round (vd_proposed vd))]"

definition sample_ledger_info :: "nat \<Rightarrow> ledger_info" where
  "sample_ledger_info n = \<lparr>
     commit_info = (if n = 0 then sample_info 0 else if n = 1 then BlockInfo_empty else sample_info (n - 2)),
     consensus_data_hash = sample_hash (sample_vote_data n) \<rparr>"

definition sample_signed :: "nat \<Rightarrow> ledger_info_with_signatures" where
  "sample_signed n = \<lparr> lis_ledger_info = sample_ledger_info n,
     lis_signatures = (if n = 0 then [] else [([1], []), ([2], []), ([3], [])]) \<rparr>"

definition sample_block :: "nat \<Rightarrow> diem_block" where
  "sample_block n = \<lparr> block_id = [of_nat n],
     block_data_of = \<lparr> bd_epoch = 1, bd_round = of_nat n, bd_timestamp_usecs = of_nat n,
       bd_quorum_cert = \<lparr> qc_vote_data = sample_vote_data (n - 1), signed_ledger_info = sample_signed (n - 1) \<rparr>,
       bd_block_type = Proposal [] [1] \<rparr>,
     block_signature = Some [] \<rparr>"

definition sample_verify :: "public_key \<Rightarrow> signed_message \<Rightarrow> signature \<Rightarrow> bool" where
  "sample_verify pk m sig =
     (case m of MLedgerInfo li \<Rightarrow> pk \<in> set [[1], [2], [3]] \<and> li \<in> set (map sample_ledger_info [1, 2, 3, 4])
      | _ \<Rightarrow> True)"

definition sample_crypto :: crypto_ops where
  "sample_crypto = \<lparr>
     verify_struct_signature = sample_verify,
     batch_verify = (\<lambda>m. list_all (\<lambda>(pk, sig). sample_verify pk m sig)),
     sign_message = (\<lambda>_ _. []), public_key_of = (\<lambda>sk. sk), vote_data_hash = sample_hash,
     block_data_hash = (\<lambda>bd. [ucast (bd_round bd)]), waypoint_hash = (\<lambda>_. []), placeholder_hash = [],
     extension_verify = (\<lambda>_ _. Some ([7], 0)) \<rparr>"

definition sample_proof :: epoch_change_proof where
  "sample_proof = \<lparr> ledger_info_with_sigs = [\<lparr>
     lis_ledger_info = \<lparr> commit_info = BlockInfo_empty \<lparr> bi_next_epoch_state := Some sample_epoch \<rparr>, consensus_data_hash = [] \<rparr>,
     lis_signatures = [] \<rparr>], ecp_more = False \<rparr>"

definition sample_rules :: "account_address \<Rightarrow> in_memory_storage safety_rules" where
  "sample_rules a = \<lparr>
     persistent_storage = \<lparr> enable_cached_safety_data = True, cached_safety_data = None, internal_store = \<lparr>
       ims_data = [(''safety_data'', StoredSafetyData (fresh_safety_data 0)),
         (''waypoint'', StoredWaypoint \<lparr> wp_version = 0, wp_value = [] \<rparr>), (''owner_account'', StoredAddress a),
         (''consensus'', StoredPrivateKey a)] \<rparr> \<rparr>,
     execution_public_key = None, export_consensus_key = True, validator_signer_of = None,
     epoch_state_of = None, decoupled_execution = False \<rparr>"

definition sample_proposal :: "nat \<Rightarrow> sr_call" where
  "sample_proposal n = ConstructAndSignVote 0 \<lparr> mvp_vote_proposal = \<lparr>
     vp_extension_proof = \<lparr> frozen_subtree_roots = [], num_leaves = 0, proof_leaves = [] \<rparr>,
     vp_block = sample_block n, vp_next_epoch_state = None \<rparr>, mvp_signature = None \<rparr>"

text \<open>Votes on the blocks of four rounds.\<close>

definition sample_calls :: "sr_call list" where
  "sample_calls = [Initialize sample_proof, sample_proposal 1, sample_proposal 2, sample_proposal 3,
     sample_proposal 4]"

text \<open>A vote, a restart, and the same proposal once more.\<close>

definition sample_restart :: "sr_call list" where
  "sample_restart = [Initialize sample_proof, sample_proposal 1, Restart, Initialize sample_proof, sample_proposal 1]"

definition sample_vote :: "account_address \<Rightarrow> nat \<Rightarrow> vote" where
  "sample_vote a n = \<lparr> vt_vote_data = sample_vote_data n, vt_author = a, vt_ledger_info = sample_ledger_info n,
     vt_signature = [], timeout_signature = None \<rparr>"

definition sample_outputs :: "account_address \<Rightarrow> sr_output list" where
  "sample_outputs a = [NoOutput, Voted (sample_vote a 1), Voted (sample_vote a 2), Voted (sample_vote a 3),
     Voted (sample_vote a 4)]"

lemma sample_run_1:
  "fst (sr_run sample_crypto (in_memory_ops sample_crypto) sample_calls (sample_rules [1])) = sample_outputs [1]"
  by code_simp

lemma sample_run_2:
  "fst (sr_run sample_crypto (in_memory_ops sample_crypto) sample_calls (sample_rules [2])) = sample_outputs [2]"
  by code_simp

lemma sample_run_3:
  "fst (sr_run sample_crypto (in_memory_ops sample_crypto) sample_calls (sample_rules [3])) = sample_outputs [3]"
  by code_simp

lemma sample_run_restart:
  "fst (sr_run sample_crypto (in_memory_ops sample_crypto) sample_restart (sample_rules [1])) =
     [NoOutput, Voted (sample_vote [1] 1), NoOutput, NoOutput, Voted (sample_vote [1] 1)]"
  by code_simp

lemma sample_rules_start:
  "coherent (in_memory_ops sample_crypto) (sample_rules a)"
  "stored (in_memory_ops sample_crypto) (sample_rules a) = Ok (fresh_safety_data 0)"
  by (simp_all add: coherent_def stored_def sample_rules_def in_memory_ops_def kv_get_def)

subsection \<open>Refinement\<close>

text \<open>C5: The safety rules implement the abstract voting machine: whatever call is made, including
restarts, and whether or not writes to the storage succeed, the data found in the storage
afterwards is one move of the machine away from the data before, that move releases exactly what
the call returns, a vote is only ever returned once it is stored, and the cache still agrees with
the storage.\<close>

theorem safety_rules_refine_voting_machine:
  assumes "safety_storage S" and "coherent S sr" and "sr_step C S c sr = (out, sr')"
  shows "coherent S sr' \<and>
    (\<forall>d'. stored S sr' = Ok d' \<longrightarrow>
       (\<exists>d. stored S sr = Ok d \<and> voting_move C c (epoch_state_of sr) d out d')) \<and>
    ((\<exists>v. out = Voted v) \<longrightarrow> (\<exists>d'. stored S sr' = Ok d'))"
  using safety_storage.sr_step_sim [OF assms] by (simp add: sim_def)

theorem safety_rules_refine_voting_machine_witness:
  "sr_step sample_crypto (in_memory_ops sample_crypto) (Initialize sample_proof) (sample_rules [1]) \<noteq>
     (NoOutput, sample_rules [1]) \<and>
   voting_move sample_crypto (Initialize sample_proof) None (fresh_safety_data 0) NoOutput (fresh_safety_data 1)"
proof -
  let ?S = "in_memory_ops sample_crypto" and ?c = "Initialize sample_proof"
  let ?r = "sr_step sample_crypto ?S ?c (sample_rules [1])"
  have out: "fst ?r = NoOutput" and st: "stored ?S (snd ?r) = Ok (fresh_safety_data 1)" by code_simp+
  have "epoch_state_of (sample_rules [1]) = None" by (simp add: sample_rules_def)
  then have "voting_move sample_crypto ?c None (fresh_safety_data 0) (fst ?r) (fresh_safety_data 1)"
    using safety_rules_refine_voting_machine [OF in_memory.safety_storage_axioms sample_rules_start(1),
      of sample_crypto ?c "[1]" "fst ?r" "snd ?r"] st sample_rules_start(2) by auto
  moreover have "?r \<noteq> (NoOutput, sample_rules [1])"
    using st sample_rules_start(2) [of "[1]"] by (auto simp: fresh_safety_data_def)
  ultimately show ?thesis using out by simp
qed

subsection \<open>One vote per round\<close>

abbreviation vote_epoch :: "vote \<Rightarrow> u64" where
  "vote_epoch v \<equiv> bi_epoch (vd_proposed (vt_vote_data v))"

definition unique_votes :: "vote set \<Rightarrow> bool" where
  "unique_votes F \<longleftrightarrow>
     (\<forall>v \<in> F. \<forall>v' \<in> F. vote_epoch v = vote_epoch v' \<longrightarrow> vote_round v = vote_round v' \<longrightarrow> v = v')"

text \<open>The votes released so far and the stored one lie behind the last voted round.\<close>

definition votes_behind :: "vote set \<Rightarrow> safety_data \<Rightarrow> bool" where
  "votes_behind F d \<longleftrightarrow>
     (\<forall>v \<in> F \<union> set_option (last_vote d). vote_epoch v < sd_epoch d \<or>
        vote_epoch v = sd_epoch d \<and> vote_round v \<le> last_voted_round d) \<and>
     unique_votes (F \<union> set_option (last_vote d))"

fun votes_of :: "sr_output \<Rightarrow> vote set" where
  "votes_of (Voted v) = {v}"
| "votes_of _ = {}"

lemma unique_votes_mono: "unique_votes G \<Longrightarrow> F \<subseteq> G \<Longrightarrow> unique_votes F"
  by (auto simp: unique_votes_def)

lemma votes_behind_mono: "votes_behind G d \<Longrightarrow> F \<subseteq> G \<Longrightarrow> votes_behind F d"
  by (auto simp: votes_behind_def elim!: unique_votes_mono)

lemma voted_data_simps [simp]:
  "sd_epoch (voted_data b v d) = sd_epoch d" "last_voted_round (voted_data b v d) = block_round b"
  "last_vote (voted_data b v d) = Some v"
  by (simp_all add: voted_data_def observe_qc_def Let_def)

lemma votes_behind_fresh:
  assumes "votes_behind F d" and "vote_for b v" "bd_epoch (block_data_of b) = sd_epoch d"
    and "last_voted_round d < block_round b"
  shows "votes_behind (insert v F) (voted_data b v d)"
proof -
  have v: "vote_epoch v = sd_epoch d" "vote_round v = block_round b"
    using assms(2,3) by (simp_all add: vote_for_def vote_round_def)
  have old: "vote_epoch w < sd_epoch d \<or> vote_epoch w = sd_epoch d \<and> vote_round w < block_round b" if "w \<in> F" for w
    using assms(1,4) that unfolding votes_behind_def by (meson UnI1 le_less_trans)
  have "unique_votes F" using assms(1) by (auto simp: votes_behind_def elim: unique_votes_mono)
  then have "unique_votes (insert v F)"
    using old v unfolding unique_votes_def by (metis insert_iff less_irrefl)
  then show ?thesis using old v by (auto simp: votes_behind_def insert_absorb dest: less_imp_le)
qed

lemma voting_move_behind:
  assumes "voting_move C c e d out d'" and "votes_behind F d"
  shows "votes_behind (votes_of out \<union> F) d'"
  using assms
proof (induction rule: voting_move.induct)
  case (Vote now mvp b es v d d')
  then show ?case by (simp add: fresh_vote_def votes_behind_fresh)
next
  case (VoteTwoChain now mvp tc b es v d d')
  then show ?case by (simp add: fresh_vote_two_chain_def votes_behind_fresh)
next
  case (VoteAgain now mvp tc d v e)
  then show ?case by (auto simp: votes_behind_def insert_absorb)
next
  case (RaiseRound t r t2 tc d out e)
  then show ?case by (cases out) (auto simp: votes_behind_def)
next
  case (NewEpoch p w es d e)
  then have "vote_epoch v < eps_epoch es" if "v \<in> F" for v
    using that unfolding votes_behind_def by (metis UnI1 less_trans)
  then show ?case using NewEpoch
    by (auto simp: votes_behind_def fresh_safety_data_def elim: unique_votes_mono)
next
  case (Keep out e d)
  then show ?case by (cases out) auto
next
  case (Lost e d out d')
  then show ?case by (auto elim: votes_behind_mono)
qed

context safety_storage
begin

lemma run_votes_unique:
  assumes "sr_run C S calls sr = (outs, sr')" and "coherent S sr"
    and "\<And>d. stored S sr = Ok d \<Longrightarrow> votes_behind F d" and "unique_votes F"
  shows "unique_votes (F \<union> (\<Union>out \<in> set outs. votes_of out))"
  using assms
proof (induction calls arbitrary: sr outs F)
  case (Cons c calls)
  obtain out sr1 outs1 where step: "sr_step C S c sr = (out, sr1)" and run: "sr_run C S calls sr1 = (outs1, sr')"
    and outs: "outs = out # outs1" using Cons.prems(1) by (auto split: prod.splits)
  have sim: "sim C S c sr out sr1" by (rule sr_step_sim [OF Cons.prems(2) step])
  have behind: "votes_behind (votes_of out \<union> F) d" if "stored S sr1 = Ok d" for d
    using sim that Cons.prems(3) voting_move_behind by (fastforce simp: sim_def)
  have "unique_votes (votes_of out \<union> F)"
  proof (cases out)
    case (Voted v)
    then obtain d where "stored S sr1 = Ok d" using sim by (auto simp: sim_def)
    then show ?thesis using behind by (auto simp: votes_behind_def elim!: unique_votes_mono)
  qed (use Cons.prems(4) in simp_all)
  then have "unique_votes ((votes_of out \<union> F) \<union> (\<Union>out \<in> set outs1. votes_of out))"
    using sim by (intro Cons.IH [OF run _ behind]) (simp_all add: sim_def)
  then show ?case by (simp add: outs Un_ac)
qed simp

end

text \<open>C8: A validator never releases two different votes for the same epoch and round.  This holds
for every sequence of calls to the safety rules: mixing the three-chain and two-chain rules and
timeouts, across epochs and restarts, and with writes to the storage failing at any point.\<close>

theorem votes_unique_per_round:
  assumes "safety_storage S" and "coherent S sr"
    and "stored S sr = Ok d" and "votes_behind {} d"
    and "sr_run C S calls sr = (outs, sr')"
    and "Voted v \<in> set outs" "Voted v' \<in> set outs"
    and "vote_epoch v = vote_epoch v'" "vote_round v = vote_round v'"
  shows "v = v'"
proof -
  have "unique_votes ({} \<union> (\<Union>out \<in> set outs. votes_of out))"
    by (rule safety_storage.run_votes_unique [OF assms(1,5,2)])
      (use assms(3,4) in \<open>simp_all add: unique_votes_def\<close>)
  moreover have "v \<in> (\<Union>out \<in> set outs. votes_of out)" "v' \<in> (\<Union>out \<in> set outs. votes_of out)"
    using assms(6,7) by force+
  ultimately show ?thesis using assms(8,9) unfolding unique_votes_def by blast
qed

theorem votes_unique_per_round_witness:
  "\<exists>v w. fst (sr_run sample_crypto (in_memory_ops sample_crypto) sample_restart (sample_rules [1])) ! 1 = Voted v \<and>
     fst (sr_run sample_crypto (in_memory_ops sample_crypto) sample_restart (sample_rules [1])) ! 4 = Voted w \<and> v = w"
proof -
  let ?v = "sample_vote [1] 1" and ?r = "sr_run sample_crypto (in_memory_ops sample_crypto) sample_restart (sample_rules [1])"
  have "votes_behind {} (fresh_safety_data 0)" by (simp add: votes_behind_def fresh_safety_data_def unique_votes_def)
  note once = votes_unique_per_round [OF in_memory.safety_storage_axioms sample_rules_start this surjective_pairing]
  obtain v w where vw: "fst ?r ! 1 = Voted v" "fst ?r ! 4 = Voted w" by (simp add: sample_run_restart)
  moreover have "Voted v \<in> set (fst ?r)" "Voted w \<in> set (fst ?r)"
    using vw nth_mem [of 1 "fst ?r"] nth_mem [of 4 "fst ?r"] by (simp_all add: sample_run_restart)
  moreover have "vote_epoch v = vote_epoch w" "vote_round v = vote_round w"
    using vw by (simp_all add: sample_run_restart)
  ultimately show ?thesis using once by blast
qed

end
