(* ===== verification/Quorum.thy ===== *)
theory Quorum
  imports DiemTypes
begin

text \<open>
  Voting power and quorums of a \<open>ValidatorVerifier\<close>: what \<open>check_voting_power\<close> accepts, and the
  intersection of quorums that the safety of DiemBFT rests on.
\<close>

definition validators :: "validator_verifier \<Rightarrow> account_address set" where
  "validators V = fst ` set (address_to_validator_info V)"

definition power_of :: "validator_verifier \<Rightarrow> account_address \<Rightarrow> nat" where
  "power_of V a = unat (the (get_voting_power V a))"

definition weight :: "validator_verifier \<Rightarrow> account_address set \<Rightarrow> nat" where
  "weight V A = (\<Sum>a \<in> validators V \<inter> A. power_of V a)"

lemma finite_validators [simp]: "finite (validators V)"
  by (simp add: validators_def)

lemma get_voting_power_iff: "get_voting_power V a \<noteq> None \<longleftrightarrow> a \<in> validators V"
  by (auto simp: get_voting_power_def validators_def map_of_eq_None_iff)

lemma get_public_key_iff: "get_public_key V a \<noteq> None \<longleftrightarrow> a \<in> validators V"
  by (auto simp: get_public_key_def validators_def map_of_eq_None_iff)

lemma weight_mono: "A \<subseteq> B \<Longrightarrow> weight V A \<le> weight V B"
  unfolding weight_def by (intro sum_mono2) auto

lemma weight_union_inter: "weight V A + weight V B = weight V (A \<union> B) + weight V (A \<inter> B)"
proof -
  let ?p = "sum (power_of V)"
  have "?p (validators V \<inter> A) + ?p (validators V \<inter> B) =
      ?p (validators V \<inter> A \<union> validators V \<inter> B) + ?p ((validators V \<inter> A) \<inter> (validators V \<inter> B))"
    by (rule sum.union_inter [symmetric]) simp_all
  moreover have "validators V \<inter> A \<union> validators V \<inter> B = validators V \<inter> (A \<union> B)"
    "(validators V \<inter> A) \<inter> (validators V \<inter> B) = validators V \<inter> (A \<inter> B)" by auto
  ultimately show ?thesis by (simp only: weight_def)
qed

subsection \<open>The total\<close>

lemma sum_voting_power_Ok:
  assumes "sum_voting_power infos = (Ok t :: (u64, 'e) rust)"
  shows "unat t = (\<Sum>(a, x) \<leftarrow> infos. unat (vci_voting_power x))"
proof -
  let ?f = "\<lambda>sum (_, x). if unat sum + unat (vci_voting_power x) < 2 ^ 64 then Ok (sum + vci_voting_power x)
       else Abort ''sum of all voting power is greater than u64::max'' :: (u64, 'e) rust"
  have "rust_fold ?f s infos = Ok t \<Longrightarrow> unat t = unat s + (\<Sum>(a, x) \<leftarrow> infos. unat (vci_voting_power x))" for s
  proof (induction infos arbitrary: s)
    case (Cons i infos)
    obtain a x where i: "i = (a, x)" by fastforce
    from Cons.prems have le: "unat s + unat (vci_voting_power x) < 2 ^ 64"
      and rest: "rust_fold ?f (s + vci_voting_power x) infos = Ok t"
      by (auto simp: i split: if_splits)
    have "unat (s + vci_voting_power x) = unat s + unat (vci_voting_power x)"
      using le by (simp add: unat_word_ariths)
    with Cons.IH [OF rest] show ?case by (simp add: i)
  qed simp
  from this [of 0] show ?thesis using assms by (simp add: sum_voting_power_def)
qed

text \<open>A verifier made by \<open>ValidatorVerifier::new\<close> from a map of validators.\<close>

definition well_made :: "validator_verifier \<Rightarrow> bool" where
  "well_made V \<longleftrightarrow> distinct (map fst (address_to_validator_info V)) \<and> address_to_validator_info V \<noteq> [] \<and>
     ValidatorVerifier_new (address_to_validator_info V) = (Ok V :: (validator_verifier, anyhow) rust) \<and>
     unat (total_voting_power V) < 2 ^ 63"

lemma well_made_fields:
  assumes "well_made V"
  shows "sum_voting_power (address_to_validator_info V) = (Ok (total_voting_power V) :: (u64, anyhow) rust)"
    and "quorum_voting_power V = total_voting_power V * 2 div 3 + 1"
proof -
  let ?infos = "address_to_validator_info V"
  from assms obtain x where x: "sum_voting_power ?infos = (Ok x :: (u64, anyhow) rust)"
    and v: "\<lparr> address_to_validator_info = ?infos, quorum_voting_power = (if ?infos = [] then 0 else x * 2 div 3 + 1),
      total_voting_power = x \<rparr> = V"
    unfolding well_made_def ValidatorVerifier_new_def rust_simps by blast
  have "total_voting_power V = x" by (subst v [symmetric]) simp
  moreover have "quorum_voting_power V = x * 2 div 3 + 1"
    using assms by (subst v [symmetric]) (simp add: well_made_def)
  ultimately show "sum_voting_power ?infos = (Ok (total_voting_power V) :: (u64, anyhow) rust)"
    and "quorum_voting_power V = total_voting_power V * 2 div 3 + 1" using x by simp_all
qed

lemma weight_total:
  assumes "well_made V"
  shows "weight V UNIV = unat (total_voting_power V)"
proof -
  let ?infos = "address_to_validator_info V"
  have "unat (total_voting_power V) = (\<Sum>(a, x) \<leftarrow> ?infos. unat (vci_voting_power x))"
    by (rule sum_voting_power_Ok [OF well_made_fields(1) [OF assms]])
  also have "\<dots> = (\<Sum>i \<leftarrow> ?infos. power_of V (fst i))"
    using assms by (intro arg_cong [where f = sum_list] map_cong)
      (auto simp: power_of_def get_voting_power_def well_made_def)
  also have "\<dots> = (\<Sum>a \<leftarrow> map fst ?infos. power_of V a)" by (simp add: comp_def)
  also have "\<dots> = (\<Sum>a \<in> set (map fst ?infos). power_of V a)"
    using assms by (intro sum_list_distinct_conv_sum_set) (simp add: well_made_def)
  finally show ?thesis by (simp add: weight_def validators_def)
qed

lemma quorum_voting_power_eq:
  assumes "well_made V"
  shows "unat (quorum_voting_power V) = 2 * unat (total_voting_power V) div 3 + 1"
proof -
  let ?t = "total_voting_power V"
  have t: "unat ?t < 2 ^ 63" using assms by (simp add: well_made_def)
  then have "unat (?t * 2) = 2 * unat ?t" by (simp add: unat_word_ariths)
  then have "unat (?t * 2 div 3) = 2 * unat ?t div 3" by (simp add: unat_div)
  moreover have "2 * unat ?t div 3 + 1 < 2 ^ 64" using t by simp
  ultimately show ?thesis by (simp add: well_made_fields(2) [OF assms] unat_Suc)
qed

subsection \<open>Accepted quorums\<close>

lemma check_voting_power_Ok:
  assumes "check_voting_power V authors = Ok u" and "distinct authors"
  shows "set authors \<subseteq> validators V" and "unat (quorum_voting_power V) \<le> weight V (set authors)"
proof -
  let ?f = "\<lambda>agg a. case get_voting_power V a of Some p \<Rightarrow> Ok (agg + p) | None \<Rightarrow> Er UnknownAuthor"
  have fold: "set authors \<subseteq> validators V \<and> unat t \<le> unat s + (\<Sum>a \<leftarrow> authors. power_of V a)"
    if "rust_fold ?f s authors = Ok t" for s t and authors :: "account_address list"
    using that
  proof (induction authors arbitrary: s)
    case (Cons a authors)
    then obtain p where p: "get_voting_power V a = Some p" and rest: "rust_fold ?f (s + p) authors = Ok t"
      by (auto split: option.splits)
    have "unat (s + p) \<le> unat s + power_of V a" by (simp add: p power_of_def unat_word_ariths)
    with Cons.IH [OF rest] show ?case using get_voting_power_iff [of V a] p by auto
  qed simp
  from assms(1) obtain t where t: "rust_fold ?f 0 authors = Ok t" "\<not> t < quorum_voting_power V"
    by (auto simp: check_voting_power_def rust_simps split: if_splits)
  note f = fold [OF t(1)]
  then show sub: "set authors \<subseteq> validators V" by simp
  have "unat (quorum_voting_power V) \<le> unat t" using t(2) by (simp add: word_less_nat_alt)
  also have "\<dots> \<le> (\<Sum>a \<leftarrow> authors. power_of V a)" using f by simp
  also have "\<dots> = weight V (set authors)"
    using assms(2) sub by (simp add: weight_def sum_list_distinct_conv_sum_set Int_absorb1)
  finally show "unat (quorum_voting_power V) \<le> weight V (set authors)" .
qed

lemma quorums_share_honest:
  assumes "well_made V" and "3 * weight V (- H) < unat (total_voting_power V)"
    and "check_voting_power V as = Ok u" "distinct as" and "check_voting_power V bs = Ok w" "distinct bs"
  shows "\<exists>a \<in> H. a \<in> set as \<and> a \<in> set bs"
proof (rule ccontr)
  assume "\<not> ?thesis"
  then have "set as \<inter> set bs \<subseteq> - H" by auto
  then have "weight V (set as \<inter> set bs) \<le> weight V (- H)" by (rule weight_mono)
  moreover have "weight V (set as \<union> set bs) \<le> unat (total_voting_power V)"
    using weight_mono [of "set as \<union> set bs" UNIV V] weight_total [OF assms(1)] by simp
  moreover note check_voting_power_Ok(2) [OF assms(3,4)] check_voting_power_Ok(2) [OF assms(5,6)]
    weight_union_inter [of V "set as" "set bs"] quorum_voting_power_eq [OF assms(1)]
  ultimately show False using assms(2) by linarith
qed

end
