(* ===== verification/DiemSafety.thy ===== *)
theory DiemSafety
  imports VotingSpec Quorum
begin

text \<open>
  Safety of DiemBFT with the three-chain rules: validators of which less than a third of the voting
  power is faulty never commit two blocks that do not lie on one chain.  The honest validators run
  the operations of \<open>SafetyRules\<close> on storage that may fail; everything else, the network, the
  proposals and the faulty validators, is left open.
\<close>

subsection \<open>What an honest validator has voted for\<close>

text \<open>The ledger info of a vote commits to its vote data, and commits blocks of its epoch only.\<close>

definition consistent :: "crypto_ops \<Rightarrow> vote \<Rightarrow> bool" where
  "consistent C v \<longleftrightarrow> consensus_data_hash (vt_ledger_info v) = vote_data_hash C (vt_vote_data v) \<and>
     (bi_round (commit_info (vt_ledger_info v)) \<noteq> 0 \<longrightarrow> bi_epoch (commit_info (vt_ledger_info v)) = vote_epoch v)"

text \<open>A vote of epoch \<open>es\<close>, with the block it was cast for.\<close>

definition justified :: "crypto_ops \<Rightarrow> epoch_state \<Rightarrow> vote \<times> diem_block \<Rightarrow> bool" where
  "justified C es = (\<lambda>(v, b). block_verified C es b \<and> vote_for b v \<and> vote_epoch v = eps_epoch es \<and>
     construct_ledger_info b (vote_data_hash C (vt_vote_data v)) = Ok (vt_ledger_info v))"

abbreviation grandparent_round :: "diem_block \<Rightarrow> round" where
  "grandparent_round b \<equiv> bi_round (parent_block (block_quorum_cert b))"

abbreviation parent_round :: "diem_block \<Rightarrow> round" where
  "parent_round b \<equiv> bi_round (certified_block (block_quorum_cert b))"

text \<open>One vote per round, and no later vote extends a block below the grandparent of an earlier one.\<close>

definition locked :: "(vote \<times> diem_block) set \<Rightarrow> bool" where
  "locked P \<longleftrightarrow> (\<forall>(v, b) \<in> P. \<forall>(w, b') \<in> P.
     (vote_round v = vote_round w \<longrightarrow> v = w) \<and>
     (vote_round v < vote_round w \<longrightarrow> grandparent_round b \<le> parent_round b'))"

definition behind :: "(vote \<times> diem_block) set \<Rightarrow> safety_data \<Rightarrow> bool" where
  "behind P d \<longleftrightarrow> (\<forall>(v, b) \<in> P. vote_round v \<le> last_voted_round d \<and> grandparent_round b \<le> preferred_round d)"

text \<open>The votes \<open>P\<close> of epoch \<open>es\<close> cast so far, against the stored safety data.\<close>

definition history :: "crypto_ops \<Rightarrow> epoch_state \<Rightarrow> (vote \<times> diem_block) set \<Rightarrow> safety_data \<Rightarrow> bool" where
  "history C es P d \<longleftrightarrow>
     (\<forall>x \<in> P. justified C es x) \<and> locked P \<and>
     (sd_epoch d < eps_epoch es \<longrightarrow> P = {}) \<and>
     (sd_epoch d = eps_epoch es \<longrightarrow> behind P d) \<and>
     (\<forall>v. last_vote d = Some v \<longrightarrow> consistent C v \<and> (vote_epoch v = eps_epoch es \<longrightarrow> v \<in> fst ` P))"

fun voted_block :: "sr_call \<Rightarrow> diem_block set" where
  "voted_block (ConstructAndSignVote now mvp) = {vp_block (mvp_vote_proposal mvp)}"
| "voted_block _ = {}"

lemma preferred_round_voted [simp]:
  "preferred_round (voted_data b v d) = max (preferred_round d) (grandparent_round b)"
  by (auto simp: voted_data_def observe_qc_def Let_def max_def)

lemma quorum_cert_verify_parent:
  assumes "quorum_cert_verify C V qc = Ok ()" and "bi_round (parent_block qc) \<noteq> 0"
  shows "bi_epoch (parent_block qc) = bi_epoch (certified_block qc)"
  using assms by (auto simp: quorum_cert_verify_def vote_data_verify_def Let_def rust_simps split: if_splits)

lemma construct_ledger_info_commit:
  assumes "construct_ledger_info b h = Ok li" and "bi_round (commit_info li) \<noteq> 0"
  shows "commit_info li = parent_block (block_quorum_cert b)"
    and "parent_round b = grandparent_round b + 1" and "block_round b = parent_round b + 1"
    and "grandparent_round b \<noteq> - 1" and "parent_round b \<noteq> - 1"
  using assms by (auto simp: construct_ledger_info_def next_round_def Let_def rust_simps BlockInfo_empty_def split: if_splits)

lemma construct_ledger_info_hash: "construct_ledger_info b h = Ok li \<Longrightarrow> consensus_data_hash li = h"
  by (auto simp: construct_ledger_info_def Let_def rust_simps)

lemma fresh_vote_consistent:
  assumes "fresh_vote C es b v d"
  shows "consistent C v"
proof -
  have li: "construct_ledger_info b (vote_data_hash C (vt_vote_data v)) = Ok (vt_ledger_info v)"
    and qc: "quorum_cert_verify C (eps_verifier es) (block_quorum_cert b) = Ok ()"
    and ep: "bi_epoch (certified_block (block_quorum_cert b)) = vote_epoch v"
    using assms by (simp_all add: fresh_vote_def block_verified_def vote_for_def)
  show ?thesis unfolding consistent_def
    using construct_ledger_info_hash [OF li] construct_ledger_info_commit(1) [OF li]
      quorum_cert_verify_parent [OF qc] ep by auto
qed

lemma locked_insert:
  assumes "locked P" and "behind P d" and "fresh_vote C es b v d"
  shows "locked (insert (v, b) P)"
proof -
  have new: "vote_round v = block_round b" "last_voted_round d < block_round b" "preferred_round d \<le> parent_round b"
    using assms(3) by (simp_all add: fresh_vote_def vote_for_def vote_round_def)
  have old: "vote_round w < vote_round v \<and> grandparent_round c \<le> parent_round b" if "(w, c) \<in> P" for w c
  proof -
    have "vote_round w \<le> last_voted_round d" "grandparent_round c \<le> preferred_round d"
      using assms(2) that unfolding behind_def by blast+
    then show ?thesis using new by (auto intro: le_less_trans order_trans)
  qed
  show ?thesis unfolding locked_def
  proof (intro ballI, clarify)
    fix w c w' c'
    assume "(w, c) \<in> insert (v, b) P" "(w', c') \<in> insert (v, b) P"
    then consider "w = v" "c = b" "w' = v" "c' = b" | "w = v" "c = b" "(w', c') \<in> P"
      | "(w, c) \<in> P" "w' = v" "c' = b" | "(w, c) \<in> P" "(w', c') \<in> P" by blast
    then show "(vote_round w = vote_round w' \<longrightarrow> w = w') \<and>
      (vote_round w < vote_round w' \<longrightarrow> grandparent_round c \<le> parent_round c')"
    proof cases
      case 4
      then show ?thesis using assms(1) unfolding locked_def by blast
    qed (auto dest!: old dest: less_not_sym)
  qed
qed

lemma behind_insert:
  assumes "behind P d" and "vote_round v = block_round b" and "last_voted_round d < block_round b"
  shows "behind (insert (v, b) P) (voted_data b v d)"
  using assms unfolding behind_def by (auto intro: order_trans less_imp_le simp: le_max_iff_disj)

lemma history_vote:
  assumes "history C es P d" and "fresh_vote C es' b v d" and "sd_epoch d = eps_epoch es \<Longrightarrow> es' = es"
    and "P' = (if sd_epoch d = eps_epoch es then insert (v, b) P else P)"
  shows "history C es P' (voted_data b v d)" and "vote_epoch v = eps_epoch es \<Longrightarrow> v \<in> fst ` P'"
proof -
  have ep: "vote_epoch v = sd_epoch d" and rounds: "vote_round v = block_round b" "last_voted_round d < block_round b"
    using assms(2) by (simp_all add: fresh_vote_def vote_for_def vote_round_def)
  show covered: "v \<in> fst ` P'" if "vote_epoch v = eps_epoch es" using that ep assms(4) by simp
  have just: "justified C es (v, b)" if "sd_epoch d = eps_epoch es"
    using assms(2) assms(3) [OF that] that ep by (simp add: justified_def fresh_vote_def)
  have lock: "locked P'" using assms(1,2,4) locked_insert by (auto simp: history_def)
  have "behind P' (voted_data b v d)" if "sd_epoch d = eps_epoch es"
    using assms(1,4) that behind_insert [OF _ rounds] by (simp add: history_def)
  then show "history C es P' (voted_data b v d)"
    using assms(1,4) just lock covered fresh_vote_consistent [OF assms(2)] by (auto simp: history_def)
qed

lemma history_silent:
  assumes "history C es P d" and "sd_epoch d' = sd_epoch d" "last_vote d' = last_vote d"
    and "preferred_round d' = preferred_round d" "last_voted_round d \<le> last_voted_round d'"
  shows "history C es P d'"
  using assms unfolding history_def behind_def by (auto intro: order_trans)

lemma history_new_epoch:
  assumes "history C es P d" and "sd_epoch d < epoch"
  shows "history C es P (fresh_safety_data epoch)"
  using assms unfolding history_def behind_def by (auto simp: fresh_safety_data_def intro: less_trans)

text \<open>What a move of the voting machine adds to the votes of epoch \<open>es\<close>.\<close>

definition history_step ::
    "crypto_ops \<Rightarrow> epoch_state \<Rightarrow> sr_call \<Rightarrow> (vote \<times> diem_block) set \<Rightarrow> sr_output \<Rightarrow> safety_data \<Rightarrow> (vote \<times> diem_block) set \<Rightarrow> bool" where
  "history_step C es c P out d' P' \<longleftrightarrow> P \<subseteq> P' \<and> P' \<subseteq> P \<union> UNIV \<times> voted_block c \<and> history C es P' d' \<and>
     (\<forall>v \<in> votes_of out. consistent C v \<and> (vote_epoch v = eps_epoch es \<longrightarrow> v \<in> fst ` P'))"

lemma voting_move_history:
  assumes "voting_move C c eo d out d'" and "history C es P d"
    and "\<And>es'. eo = Some es' \<Longrightarrow> sd_epoch d = eps_epoch es \<Longrightarrow> es' = es"
    and "\<And>now mvp tc. c \<noteq> ConstructAndSignVoteTwoChain now mvp tc"
  shows "sd_epoch d \<le> sd_epoch d' \<and> (\<exists>P'. history_step C es c P out d' P')"
  using assms
proof (induction rule: voting_move.induct)
  case (Vote now mvp b es' v d d')
  let ?P = "if sd_epoch d = eps_epoch es then insert (v, b) P else P"
  have "history_step C es c P (Voted v) d' ?P"
    using history_vote [OF Vote.prems(1) Vote.hyps(3) Vote.prems(2) [OF refl] refl]
      Vote.hyps(1,2,4) fresh_vote_consistent [OF Vote.hyps(3)] by (auto simp: history_step_def)
  then show ?case using Vote.hyps(4) by auto
next
  case (VoteAgain now mvp tc d v e)
  then have "history_step C es c P (Voted v) d P" by (auto simp: history_step_def history_def)
  then show ?case by auto
next
  case (RaiseRound t r t2 tc d out e)
  have "history C es P (d \<lparr> last_voted_round := r \<rparr>)"
    by (rule history_silent [OF RaiseRound.prems(1)]) (use RaiseRound.hyps(2) in auto)
  moreover have "votes_of out = {}" using RaiseRound.hyps(3) by (cases out) auto
  ultimately have "history_step C es c P out (d \<lparr> last_voted_round := r \<rparr>) P" by (simp add: history_step_def)
  then show ?case by auto
next
  case (NewEpoch p w es' d e)
  then have "history_step C es c P NoOutput (fresh_safety_data (eps_epoch es')) P"
    by (simp add: history_step_def history_new_epoch)
  then show ?case using NewEpoch.hyps by (auto simp: fresh_safety_data_def)
next
  case (Keep out e d)
  then have "votes_of out = {}" by (cases out) auto
  then have "history_step C es c P out d P" using Keep by (simp add: history_step_def)
  then show ?case by auto
next
  case (Lost e d out d')
  then obtain P' where "sd_epoch d \<le> sd_epoch d'" "history_step C es c P out d' P'" by blast
  then show ?case by (auto simp: history_step_def)
qed simp

subsection \<open>Runs of an honest validator\<close>

text \<open>
  The calls an honest validator serves from epoch \<open>es\<close> on: epoch change proofs lead to \<open>es\<close> or to a
  later epoch, votes are cast under the three-chain rules, and nothing is signed for the commit
  phase of decoupled execution.  The signatures of a quorum certificate are a map.
\<close>

definition signatures_map :: "ledger_info_with_signatures \<Rightarrow> bool" where
  "signatures_map lis \<longleftrightarrow> distinct (map fst (lis_signatures lis))"

fun three_chain_call :: "crypto_ops \<Rightarrow> epoch_state \<Rightarrow> sr_call \<Rightarrow> bool" where
  "three_chain_call C es (Initialize p) \<longleftrightarrow>
     (\<forall>w es'. proves_epoch_state C w p es' \<longrightarrow> es' = es \<or> eps_epoch es < eps_epoch es')"
| "three_chain_call C es (ConstructAndSignVote now mvp) \<longleftrightarrow>
     signatures_map (signed_ledger_info (block_quorum_cert (vp_block (mvp_vote_proposal mvp))))"
| "three_chain_call C es (ConstructAndSignVoteTwoChain now mvp tc) \<longleftrightarrow> False"
| "three_chain_call C es (SignCommitVote lis li) \<longleftrightarrow> False"
| "three_chain_call C es _ \<longleftrightarrow> True"

text \<open>The epoch state in memory is never newer than the stored data, and is \<open>es\<close> in epoch \<open>es\<close>.\<close>

definition epoch_follows :: "'s storage_ops \<Rightarrow> epoch_state \<Rightarrow> 's safety_rules \<Rightarrow> bool" where
  "epoch_follows S es sr \<longleftrightarrow> (\<forall>es'. epoch_state_of sr = Some es' \<longrightarrow>
     (es' = es \<or> eps_epoch es < eps_epoch es') \<and> (\<forall>d. stored S sr = Ok d \<longrightarrow> eps_epoch es' \<le> sd_epoch d))"

context safety_storage
begin

lemma released_epoch_state:
  assumes "coherent S sr" and "implements C S c (\<lambda>_ _. True) f m" and "released f (m sr) = (out, sr')"
  shows "epoch_state_of sr' = epoch_state_of sr"
  using assms by (cases "m sr") (auto simp: implements_def released_def)

lemma step_epoch_follows:
  assumes "coherent S sr" and "sr_step C S c sr = (out, sr')" and "three_chain_call C es c"
    and "epoch_follows S es sr" and "\<And>d d'. stored S sr = Ok d \<Longrightarrow> stored S sr' = Ok d' \<Longrightarrow> sd_epoch d \<le> sd_epoch d'"
  shows "epoch_follows S es sr'"
proof -
  have "sim C S c sr out sr'" by (rule sr_step_sim [OF assms(1,2)])
  then have readable: "\<exists>d. stored S sr = Ok d \<and> sd_epoch d \<le> sd_epoch d'" if "stored S sr' = Ok d'" for d'
    using that assms(5) unfolding sim_def by blast
  have same: ?thesis if "epoch_state_of sr' = epoch_state_of sr"
    using assms(4) unfolding epoch_follows_def that by (blast dest: readable intro: order_trans)
  note keeps = released_epoch_state [OF assms(1)]
  show ?thesis
  proof (cases c)
    case (Initialize p)
    then obtain r where "guarded_initialize C S p sr = (r, sr')"
      using assms(2) by (cases "guarded_initialize C S p sr") (auto simp: released_def)
    from initialize_effect(2) [OF assms(1) this Initialize] show ?thesis
    proof
      assume "\<exists>w es d. get_waypoint S (store_of sr) = Ok w \<and> proves_epoch_state C w p es \<and>
         epoch_state_of sr' = Some es \<and> stored S sr' = Ok d \<and> eps_epoch es \<le> sd_epoch d"
      then obtain w es1 d where new: "proves_epoch_state C w p es1" "epoch_state_of sr' = Some es1"
        "stored S sr' = Ok d" "eps_epoch es1 \<le> sd_epoch d" by blast
      have "es1 = es \<or> eps_epoch es < eps_epoch es1" using assms(3) new(1) unfolding Initialize by simp
      then show ?thesis using new by (simp add: epoch_follows_def)
    qed (rule same)
  next
    case Restart
    then show ?thesis using assms(2) by (auto simp: epoch_follows_def)
  next
    case (ConstructAndSignVote now mvp)
    then show ?thesis using same keeps [OF vote_implements [OF ConstructAndSignVote]] assms(2) by simp
  next
    case (SignTimeout t)
    then show ?thesis using same keeps [OF timeout_implements [OF SignTimeout]] assms(2) by simp
  next
    case (SignTimeoutWithQC t tc)
    then show ?thesis using same keeps [OF timeout_with_qc_implements [OF SignTimeoutWithQC]] assms(2) by simp
  next
    case (SignProposal bd)
    then show ?thesis using same keeps [OF implements_quiet [OF quiet_operations(1) silent_simps(2)]] assms(2) by simp
  next
    case QueryConsensusState
    then show ?thesis using same keeps [OF implements_quiet [OF quiet_operations(3) silent_simps(1)]] assms(2) by simp
  qed (use assms(3) in simp_all)
qed

lemma step_history:
  assumes "coherent S sr" and "sr_step C S c sr = (out, sr')" and "three_chain_call C es c"
    and "epoch_follows S es sr" and "stored S sr' = Ok d'"
    and "\<And>d. stored S sr = Ok d \<Longrightarrow> history C es P d"
  shows "\<exists>d P'. stored S sr = Ok d \<and> sd_epoch d \<le> sd_epoch d' \<and> history_step C es c P out d' P'"
proof -
  obtain d where d: "stored S sr = Ok d" and move: "voting_move C c (epoch_state_of sr) d out d'"
    using sr_step_sim [OF assms(1,2)] assms(5) by (auto simp: sim_def)
  have "es' = es" if "epoch_state_of sr = Some es'" "sd_epoch d = eps_epoch es" for es'
    using assms(4) that d unfolding epoch_follows_def by (fastforce dest: leD)
  moreover have "c \<noteq> ConstructAndSignVoteTwoChain now mvp tc" for now mvp tc using assms(3) by auto
  ultimately show ?thesis using voting_move_history [OF move assms(6) [OF d]] d by blast
qed

lemma run_history:
  assumes "sr_run C S calls sr = (outs, sr')" and "coherent S sr" and "epoch_follows S es sr"
    and "\<forall>c \<in> set calls. three_chain_call C es c"
    and "\<And>d. stored S sr = Ok d \<Longrightarrow> history C es P d" and "\<forall>x \<in> P. justified C es x" "locked P"
  shows "\<exists>P'. P \<subseteq> P' \<and> P' \<subseteq> P \<union> UNIV \<times> (\<Union>c \<in> set calls. voted_block c) \<and>
    (\<forall>x \<in> P'. justified C es x) \<and> locked P' \<and>
    (\<forall>v. Voted v \<in> set outs \<longrightarrow> consistent C v \<and> (vote_epoch v = eps_epoch es \<longrightarrow> v \<in> fst ` P'))"
  using assms
proof (induction calls arbitrary: sr outs P)
  case (Cons c calls)
  obtain out sr1 outs1 where step: "sr_step C S c sr = (out, sr1)" and run: "sr_run C S calls sr1 = (outs1, sr')"
    and outs: "outs = out # outs1" using Cons.prems(1) by (auto split: prod.splits)
  have call: "three_chain_call C es c" using Cons.prems(4) by simp
  note hist = step_history [OF Cons.prems(2) step call Cons.prems(3) _ Cons.prems(5)]
  have sim: "sim C S c sr out sr1" by (rule sr_step_sim [OF Cons.prems(2) step])
  have follows: "epoch_follows S es sr1"
  proof (rule step_epoch_follows [OF Cons.prems(2) step call Cons.prems(3)])
    fix d d' assume "stored S sr = Ok d" "stored S sr1 = Ok d'"
    then show "sd_epoch d \<le> sd_epoch d'" using hist [of d'] by auto
  qed
  obtain P1 where P1: "P \<subseteq> P1" "P1 \<subseteq> P \<union> UNIV \<times> voted_block c" "\<forall>x \<in> P1. justified C es x" "locked P1"
    "\<And>d. stored S sr1 = Ok d \<Longrightarrow> history C es P1 d"
    "\<forall>v \<in> votes_of out. consistent C v \<and> (vote_epoch v = eps_epoch es \<longrightarrow> v \<in> fst ` P1)"
  proof (cases "\<exists>d. stored S sr1 = Ok d")
    case True
    then obtain d P1 where "stored S sr1 = Ok d" "history_step C es c P out d P1" using hist by blast
    then show ?thesis by (intro that [of P1]) (auto simp: history_step_def history_def)
  next
    case False
    then have "votes_of out = {}" using sim by (cases out) (auto simp: sim_def)
    then show ?thesis using False Cons.prems(6,7) by (intro that [of P]) auto
  qed
  obtain P2 where "P1 \<subseteq> P2" "P2 \<subseteq> P1 \<union> UNIV \<times> (\<Union>c \<in> set calls. voted_block c)"
    "\<forall>x \<in> P2. justified C es x" "locked P2"
    "\<forall>v. Voted v \<in> set outs1 \<longrightarrow> consistent C v \<and> (vote_epoch v = eps_epoch es \<longrightarrow> v \<in> fst ` P2)"
    using Cons.IH [OF run _ follows _ P1(5) P1(3,4)] sim Cons.prems(4) by (auto simp: sim_def)
  moreover have "consistent C v \<and> (vote_epoch v = eps_epoch es \<longrightarrow> v \<in> fst ` P2)" if "Voted v \<in> set outs" for v
  proof (cases "out = Voted v")
    case True
    then have "v \<in> votes_of out" by simp
    then show ?thesis using P1(6) image_mono [OF \<open>P1 \<subseteq> P2\<close>, of fst] by blast
  qed (use calculation(5) that outs in auto)
  moreover have "P \<subseteq> P2" using P1(1) \<open>P1 \<subseteq> P2\<close> by blast
  moreover have "P2 \<subseteq> P \<union> UNIV \<times> (\<Union>c \<in> set (c # calls). voted_block c)"
    using P1(2) \<open>P2 \<subseteq> _\<close> by auto
  ultimately show ?case by blast
qed auto

end

subsection \<open>Certified blocks\<close>

text \<open>
  \<open>D\<close> is the vote data that honest validators have seen: in the certificates of the proposals they
  voted on, and in their own votes.  Data of \<open>D\<close> is certified when a quorum signed its hash.
\<close>

definition accepted :: "crypto_ops \<Rightarrow> epoch_state \<Rightarrow> ledger_info_with_signatures \<Rightarrow> bool" where
  "accepted C es lis \<longleftrightarrow> verify_signatures C (eps_verifier es) lis = Ok () \<and> signatures_map lis"

definition certified :: "crypto_ops \<Rightarrow> epoch_state \<Rightarrow> vote_data set \<Rightarrow> vote_data \<Rightarrow> bool" where
  "certified C es D vd \<longleftrightarrow> vd \<in> D \<and> bi_epoch (vd_proposed vd) = eps_epoch es \<and>
     (\<exists>lis. accepted C es lis \<and> consensus_data_hash (lis_ledger_info lis) = vote_data_hash C vd)"

definition committed :: "crypto_ops \<Rightarrow> epoch_state \<Rightarrow> block_info \<Rightarrow> bool" where
  "committed C es b \<longleftrightarrow> bi_round b \<noteq> 0 \<and> bi_epoch b = eps_epoch es \<and>
     (\<exists>lis. accepted C es lis \<and> commit_info (lis_ledger_info lis) = b)"

text \<open>The chain of parents, through vote data that satisfies \<open>Q\<close>.\<close>

inductive extends :: "(vote_data \<Rightarrow> bool) \<Rightarrow> block_info \<Rightarrow> block_info \<Rightarrow> bool" for Q where
  extends_refl: "extends Q b b"
| extends_step: "Q vd \<Longrightarrow> extends Q (vd_parent vd) a \<Longrightarrow> extends Q (vd_proposed vd) a"

text \<open>
  An honest validator, with the votes \<open>R\<close> it released and the votes \<open>P\<close> of epoch \<open>es\<close> it cast; and
  the honest validators \<open>H\<close> together, of which one signed any two accepted ledger infos.
\<close>

definition voter :: "crypto_ops \<Rightarrow> epoch_state \<Rightarrow> vote_data set \<Rightarrow> vote set \<Rightarrow> (vote \<times> diem_block) set \<Rightarrow> bool" where
  "voter C es D R P \<longleftrightarrow> locked P \<and>
     (\<forall>(v, b) \<in> P. justified C es (v, b) \<and> signatures_map (signed_ledger_info (block_quorum_cert b)) \<and>
        qc_vote_data (block_quorum_cert b) \<in> D) \<and>
     (\<forall>v \<in> R. consistent C v \<and> vt_vote_data v \<in> D \<and> (vote_epoch v = eps_epoch es \<longrightarrow> v \<in> fst ` P))"

definition committee ::
    "crypto_ops \<Rightarrow> epoch_state \<Rightarrow> 'a set \<Rightarrow> vote_data set \<Rightarrow> ('a \<Rightarrow> vote set) \<Rightarrow> ('a \<Rightarrow> (vote \<times> diem_block) set) \<Rightarrow> bool" where
  "committee C es H D R P \<longleftrightarrow> inj_on (vote_data_hash C) D \<and> (\<forall>a \<in> H. voter C es D (R a) (P a)) \<and>
     (\<forall>lis lis'. accepted C es lis \<longrightarrow> accepted C es lis' \<longrightarrow> (\<exists>a \<in> H. \<exists>v \<in> R a. \<exists>v' \<in> R a.
        vt_ledger_info v = lis_ledger_info lis \<and> vt_ledger_info v' = lis_ledger_info lis'))"

lemma committee_vote:
  assumes "committee C es H D R P" and "a \<in> H" and "(v, b) \<in> P a"
  shows "justified C es (v, b)" and "vd_parent (vt_vote_data v) = certified_block (block_quorum_cert b)"
    and "vote_round v = block_round b" and "parent_round b < block_round b"
    and "parent_round b \<noteq> 0 \<Longrightarrow> certified C es D (qc_vote_data (block_quorum_cert b))"
proof -
  show j: "justified C es (v, b)" using assms unfolding committee_def voter_def by blast
  have qc: "signatures_map (signed_ledger_info (block_quorum_cert b))" "qc_vote_data (block_quorum_cert b) \<in> D"
    using assms unfolding committee_def voter_def by blast+
  show "vd_parent (vt_vote_data v) = certified_block (block_quorum_cert b)" "vote_round v = block_round b"
    "parent_round b < block_round b"
    using j by (simp_all add: justified_def vote_for_def vote_round_def block_verified_def)
  have ep: "bi_epoch (certified_block (block_quorum_cert b)) = eps_epoch es"
    and ver: "quorum_cert_verify C (eps_verifier es) (block_quorum_cert b) = Ok ()"
    using j by (auto simp: justified_def block_verified_def vote_for_def)
  assume "parent_round b \<noteq> 0"
  with ver have "verify_signatures C (eps_verifier es) (signed_ledger_info (block_quorum_cert b)) = Ok ()"
    "consensus_data_hash (lis_ledger_info (signed_ledger_info (block_quorum_cert b))) =
       vote_data_hash C (qc_vote_data (block_quorum_cert b))"
    by (auto simp: quorum_cert_verify_def Let_def rust_simps)
  then show "certified C es D (qc_vote_data (block_quorum_cert b))"
    using ep qc by (auto simp: certified_def accepted_def)
qed

lemma two_voters:
  assumes "committee C es H D R P" and "certified C es D vd" "certified C es D vd'"
  obtains a v b v' b' where "a \<in> H" "(v, b) \<in> P a" "(v', b') \<in> P a" "vt_vote_data v = vd" "vt_vote_data v' = vd'"
proof -
  obtain lis lis' where "accepted C es lis" "accepted C es lis'"
    and h: "consensus_data_hash (lis_ledger_info lis) = vote_data_hash C vd"
      "consensus_data_hash (lis_ledger_info lis') = vote_data_hash C vd'"
    using assms(2,3) by (auto simp: certified_def)
  then obtain a v v' where a: "a \<in> H" "v \<in> R a" "v' \<in> R a"
    and li: "vt_ledger_info v = lis_ledger_info lis" "vt_ledger_info v' = lis_ledger_info lis'"
    using assms(1) unfolding committee_def voter_def by blast
  have data: "vt_vote_data w = u"
    if "w \<in> R a" "certified C es D u" "consensus_data_hash (vt_ledger_info w) = vote_data_hash C u" for w u
  proof -
    have "consistent C w" "vt_vote_data w \<in> D" "inj_on (vote_data_hash C) D" "u \<in> D"
      using assms(1) a(1) that unfolding committee_def voter_def certified_def by blast+
    then show ?thesis using that(3) by (auto simp: consistent_def dest: inj_onD)
  qed
  have eqs: "vt_vote_data v = vd" "vt_vote_data v' = vd'"
    using data [OF a(2) assms(2)] data [OF a(3) assms(3)] li h by simp_all
  then have "vote_epoch v = eps_epoch es" "vote_epoch v' = eps_epoch es"
    using assms(2,3) by (simp_all add: certified_def)
  then have "v \<in> fst ` P a" "v' \<in> fst ` P a" using assms(1) a unfolding committee_def voter_def by blast+
  then obtain b b' where "(v, b) \<in> P a" "(v', b') \<in> P a" by auto
  then show thesis using that a(1) eqs by blast
qed

lemma certified_unique:
  assumes "committee C es H D R P" and "certified C es D vd" "certified C es D vd'"
    and "bi_round (vd_proposed vd) = bi_round (vd_proposed vd')"
  shows "vd = vd'"
proof -
  obtain a v b v' b' where "a \<in> H" "(v, b) \<in> P a" "(v', b') \<in> P a" "vt_vote_data v = vd" "vt_vote_data v' = vd'"
    by (rule two_voters [OF assms(1-3)])
  moreover from this have "locked (P a)" using assms(1) unfolding committee_def voter_def by blast
  ultimately show ?thesis using assms(4) unfolding locked_def vote_round_def by blast
qed

lemma certified_parent:
  assumes "committee C es H D R P" and "certified C es D vd"
  shows "bi_round (vd_parent vd) < bi_round (vd_proposed vd)"
    and "bi_round (vd_parent vd) \<noteq> 0 \<Longrightarrow> \<exists>u. certified C es D u \<and> vd_proposed u = vd_parent vd"
proof -
  obtain a v b where a: "a \<in> H" "(v, b) \<in> P a" and v: "vt_vote_data v = vd"
    by (rule two_voters [OF assms assms(2)])
  note vote = committee_vote [OF assms(1) a]
  then show "bi_round (vd_parent vd) < bi_round (vd_proposed vd)" using v by (simp add: vote_round_def)
  show "\<exists>u. certified C es D u \<and> vd_proposed u = vd_parent vd" if "bi_round (vd_parent vd) \<noteq> 0"
    using vote(2,5) v that by auto
qed

subsection \<open>The three-chain rule\<close>

lemma unat_next: "(r :: u64) \<noteq> - 1 \<Longrightarrow> unat (r + 1) = unat r + 1"
  using unatSuc [of r] by (simp add: add_eq_0_iff add.commute)

lemma next_rounds:
  assumes "(r :: u64) \<le> n" and "unat r + 2 < 2 ^ 64"
  obtains "n = r" | "n = r + 1" | "n = r + 2" | "r + 2 < n"
proof -
  have "unat (r + 1) = unat r + 1" "unat (r + 2) = unat r + 2"
    using assms(2) by (simp_all add: unat_word_ariths)
  moreover have "unat r \<le> unat n" using assms(1) by (simp add: word_le_nat_alt)
  ultimately show thesis using that unfolding word_less_nat_alt word_unat_eq_iff by linarith
qed

text \<open>Above a committed block there are two certified blocks in consecutive rounds.\<close>

lemma commit_chain:
  assumes "committee C es H D R P" and "committed C es B"
  obtains vd1 vd2 where "certified C es D vd1" "certified C es D vd2" "vd_parent vd1 = B"
    "vd_parent vd2 = vd_proposed vd1" "bi_round (vd_proposed vd1) = bi_round B + 1"
    "bi_round (vd_proposed vd2) = bi_round B + 2" "unat (bi_round B) + 2 < 2 ^ 64"
proof -
  obtain lis where lis: "accepted C es lis" "commit_info (lis_ledger_info lis) = B"
    and B: "bi_round B \<noteq> 0" "bi_epoch B = eps_epoch es" using assms(2) by (auto simp: committed_def)
  obtain a v where a: "a \<in> H" "v \<in> R a" and li: "vt_ledger_info v = lis_ledger_info lis"
    using assms(1) lis(1) unfolding committee_def voter_def by blast
  have v: "consistent C v" "vt_vote_data v \<in> D" "vote_epoch v = eps_epoch es \<longrightarrow> v \<in> fst ` P a"
    using assms(1) a unfolding committee_def voter_def by blast+
  then have ep: "vote_epoch v = eps_epoch es" using B li lis(2) by (simp add: consistent_def)
  with v(3) obtain b where b: "(v, b) \<in> P a" by auto
  note vote = committee_vote [OF assms(1) a(1) b]
  have con: "construct_ledger_info b (vote_data_hash C (vt_vote_data v)) = Ok (vt_ledger_info v)"
    using vote(1) by (simp add: justified_def)
  note chain = construct_ledger_info_commit [OF con]
  have nz: "bi_round (commit_info (vt_ledger_info v)) \<noteq> 0" using B li lis(2) by simp
  have c2: "certified C es D (vt_vote_data v)"
    using v(1,2) lis(1) li ep by (auto simp: certified_def consistent_def)
  have B': "B = parent_block (block_quorum_cert b)" using chain(1) [OF nz] li lis(2) by simp
  have r1: "parent_round b = bi_round B + 1" and r2: "vote_round v = bi_round B + 2"
    using chain(2,3) [OF nz] B' vote(3) by simp_all
  have "unat (bi_round B + 1) = unat (bi_round B) + 1" "unat (bi_round B + 1 + 1) = unat (bi_round B + 1) + 1"
    using unat_next [of "bi_round B"] unat_next [of "bi_round B + 1"] chain(4,5) [OF nz] r1 B' by (simp_all only: simp_thms)
  moreover have "unat (bi_round B + 1 + 1) < 2 ^ 64"
    using unsigned_less [of "bi_round B + 1 + 1", where ?'a = nat] by simp
  ultimately have small: "unat (bi_round B) + 2 < 2 ^ 64" and "parent_round b \<noteq> 0"
    by (linarith, metis r1 unat_0 add_is_0 one_neq_zero)
  then show thesis using c2 B' r1 r2 vote(2,5) small
    by (intro that [of "qc_vote_data (block_quorum_cert b)" "vt_vote_data v"]) (simp_all add: vote_round_def)
qed

lemma certified_extends_commit:
  assumes com: "committee C es H D R P" and "committed C es B"
    and "certified C es D vd" and "bi_round B \<le> bi_round (vd_proposed vd)"
  shows "extends (certified C es D) (vd_proposed vd) B"
proof -
  obtain vd1 vd2 where c1: "certified C es D vd1" and c2: "certified C es D vd2" and par: "vd_parent vd1 = B"
    "vd_parent vd2 = vd_proposed vd1" and r1: "bi_round (vd_proposed vd1) = bi_round B + 1"
    and r2: "bi_round (vd_proposed vd2) = bi_round B + 2" and small: "unat (bi_round B) + 2 < 2 ^ 64"
    by (rule commit_chain [OF assms(1,2)])
  have nz: "bi_round B \<noteq> 0" using assms(2) by (simp add: committed_def)
  obtain vd0 where c0: "certified C es D vd0" "vd_proposed vd0 = B"
    using certified_parent(2) [OF com c1] par(1) nz by auto
  have e1: "extends (certified C es D) (vd_proposed vd1) B"
    using extends_step [where Q = "certified C es D", OF c1] by (simp add: par extends_refl)
  have e2: "extends (certified C es D) (vd_proposed vd2) B"
    using extends_step [where Q = "certified C es D", OF c2] by (simp add: par e1)
  show ?thesis using assms(3,4)
  proof (induction "unat (bi_round (vd_proposed vd))" arbitrary: vd rule: less_induct)
    case less
    note unique = certified_unique [OF com less.prems(1)]
    consider "bi_round (vd_proposed vd) = bi_round B" | "bi_round (vd_proposed vd) = bi_round B + 1"
      | "bi_round (vd_proposed vd) = bi_round B + 2" | "bi_round B + 2 < bi_round (vd_proposed vd)"
      using less.prems(2) small by (rule next_rounds)
    then show ?case
    proof cases
      case 4
      obtain a v b w c where a: "a \<in> H" and vb: "(v, b) \<in> P a" and wc: "(w, c) \<in> P a"
        and v: "vt_vote_data v = vd2" and w: "vt_vote_data w = vd" by (rule two_voters [OF com c2 less.prems(1)])
      note b = committee_vote [OF com a vb]
      have "parent_round b = bi_round B + 1" using b(2) v par(2) r1 by simp
      moreover have "bi_round B + 1 \<noteq> 0" using small by (auto simp: unat_word_ariths unat_eq_zero [symmetric])
      ultimately have "qc_vote_data (block_quorum_cert b) = vd1"
        using certified_unique [OF com b(5) c1] r1 by simp
      then have "grandparent_round b = bi_round B" using par(1) by simp
      moreover have "vote_round v < vote_round w" using 4 r2 v w by (simp add: vote_round_def)
      ultimately have "bi_round B \<le> bi_round (vd_parent vd)"
        using com a vb wc committee_vote(2) [OF com a wc] w unfolding committee_def voter_def locked_def by fastforce
      moreover obtain u where "certified C es D u" "vd_proposed u = vd_parent vd"
        using certified_parent(2) [OF com less.prems(1)] calculation nz by fastforce
      ultimately show ?thesis using certified_parent(1) [OF com less.prems(1)] less.hyps [of u]
        by (auto simp: word_less_nat_alt intro: extends_step [where Q = "certified C es D", OF less.prems(1)])
    qed (use unique c0 c1 c2 r1 r2 e1 e2 extends_refl in auto)
  qed
qed

lemma commits_on_one_chain:
  assumes com: "committee C es H D R P" and "committed C es B" "committed C es B'" and "bi_round B \<le> bi_round B'"
  shows "extends (certified C es D) B' B" and "bi_round B' = bi_round B \<Longrightarrow> B' = B"
proof -
  have vd: "\<exists>vd. certified C es D vd \<and> vd_proposed vd = X" if X: "committed C es X" for X
  proof -
    obtain vd1 where "certified C es D vd1" "vd_parent vd1 = X" by (rule commit_chain [OF com X])
    then show ?thesis using certified_parent(2) [OF com] X by (auto simp: committed_def)
  qed
  then show "extends (certified C es D) B' B"
    using certified_extends_commit [OF com assms(2)] assms(3,4) by metis
  show "B' = B" if "bi_round B' = bi_round B"
    using vd [OF assms(2)] vd [OF assms(3)] certified_unique [OF com] that by metis
qed

subsection \<open>Signatures\<close>

text \<open>A batch that verifies consists of signatures that verify.\<close>

definition batch_sound :: "crypto_ops \<Rightarrow> bool" where
  "batch_sound C \<longleftrightarrow> (\<forall>m ks. batch_verify C m ks \<longrightarrow> (\<forall>(pk, sig) \<in> set ks. verify_struct_signature C pk m sig))"

definition votes_released :: "crypto_ops \<Rightarrow> 's storage_ops \<Rightarrow> sr_call list \<Rightarrow> 's safety_rules \<Rightarrow> vote set" where
  "votes_released C S calls sr = {v. Voted v \<in> set (fst (sr_run C S calls sr))}"

text \<open>Nobody but an honest validator signs ledger infos with its key, and it does so in its votes.\<close>

definition unforgeable :: "crypto_ops \<Rightarrow> validator_verifier \<Rightarrow> account_address set \<Rightarrow> (account_address \<Rightarrow> vote set) \<Rightarrow> bool" where
  "unforgeable C V H R \<longleftrightarrow> (\<forall>a \<in> H. \<forall>pk li sig. get_public_key V a = Some pk \<longrightarrow>
     verify_struct_signature C pk (MLedgerInfo li) sig \<longrightarrow> (\<exists>v \<in> R a. vt_ledger_info v = li))"

lemma keys_and_signatures_set:
  "(a, sig) \<in> set sigs \<Longrightarrow> get_public_key V a = Some pk \<Longrightarrow> (pk, sig) \<in> set (keys_and_signatures V sigs)"
  by (force simp: keys_and_signatures_def)

lemma verify_each:
  assumes "rust_fold (\<lambda>_ (a, sig). verifier_verify C V a m sig) () sigs = Ok u" and "(a, sig) \<in> set sigs"
    and "get_public_key V a = Some pk"
  shows "verify_struct_signature C pk m sig"
  using assms by (induction sigs) (auto simp: verifier_verify_def rust_simps split: if_splits)

lemma accepted_quorum:
  assumes "batch_sound C" and "accepted C es lis"
  shows "check_voting_power (eps_verifier es) (map fst (lis_signatures lis)) = Ok ()"
    and "distinct (map fst (lis_signatures lis))"
    and "a \<in> set (map fst (lis_signatures lis)) \<Longrightarrow> \<exists>pk sig. get_public_key (eps_verifier es) a = Some pk \<and>
      verify_struct_signature C pk (MLedgerInfo (lis_ledger_info lis)) sig"
proof -
  let ?V = "eps_verifier es" and ?sigs = "lis_signatures lis" and ?m = "MLedgerInfo (lis_ledger_info lis)"
  have ok: "verify_signatures C ?V lis = Ok ()" and dist: "distinct (map fst ?sigs)"
    using assms(2) by (simp_all add: accepted_def signatures_map_def)
  then show power: "check_voting_power ?V (map fst ?sigs) = Ok ()"
    by (auto simp: verify_signatures_def batch_verify_aggregated_signatures_def rust_simps)
  show "distinct (map fst ?sigs)" by (rule dist)
  assume a: "a \<in> set (map fst ?sigs)"
  then obtain sig where sig: "(a, sig) \<in> set ?sigs" by auto
  have "a \<in> validators ?V" using check_voting_power_Ok(1) [OF power dist] a by blast
  then obtain pk where pk: "get_public_key ?V a = Some pk" using get_public_key_iff [of ?V a] by auto
  have "verify_struct_signature C pk ?m sig"
  proof (cases "batch_verify C ?m (keys_and_signatures ?V ?sigs)")
    case True
    then show ?thesis using assms(1) keys_and_signatures_set [OF sig pk] unfolding batch_sound_def by blast
  next
    case False
    then have "verify_aggregated_struct_signature C ?V ?m ?sigs = Ok ()"
      using ok by (auto simp: verify_signatures_def batch_verify_aggregated_signatures_def rust_simps)
    then show ?thesis using verify_each [OF _ sig pk]
      by (auto simp: verify_aggregated_struct_signature_def rust_simps)
  qed
  then show "\<exists>pk sig. get_public_key ?V a = Some pk \<and> verify_struct_signature C pk ?m sig" using pk by blast
qed

lemma accepted_share_voter:
  assumes "well_made (eps_verifier es)" and "3 * weight (eps_verifier es) (- H) < unat (total_voting_power (eps_verifier es))"
    and "batch_sound C" and "unforgeable C (eps_verifier es) H R" and "accepted C es lis" "accepted C es lis'"
  shows "\<exists>a \<in> H. \<exists>v \<in> R a. \<exists>v' \<in> R a.
    vt_ledger_info v = lis_ledger_info lis \<and> vt_ledger_info v' = lis_ledger_info lis'"
proof -
  note q = accepted_quorum [OF assms(3,5)] and q' = accepted_quorum [OF assms(3,6)]
  obtain a where "a \<in> H" "a \<in> set (map fst (lis_signatures lis))" "a \<in> set (map fst (lis_signatures lis'))"
    using quorums_share_honest [OF assms(1,2) q(1,2) q'(1,2)] by blast
  then show ?thesis using q(3) q'(3) assms(4) unfolding unforgeable_def by (metis option.inject)
qed

subsection \<open>Safety\<close>

text \<open>
  A run that starts before epoch \<open>es\<close>, with an empty cache and storage that holds no vote of that
  epoch.
\<close>

definition honest_run :: "crypto_ops \<Rightarrow> 's storage_ops \<Rightarrow> epoch_state \<Rightarrow> sr_call list \<Rightarrow> 's safety_rules \<Rightarrow> bool" where
  "honest_run C S es calls sr \<longleftrightarrow> coherent S sr \<and> epoch_state_of sr = None \<and>
     (\<forall>c \<in> set calls. three_chain_call C es c) \<and>
     (\<exists>d. stored S sr = Ok d \<and> sd_epoch d < eps_epoch es \<and>
        (\<forall>v. last_vote d = Some v \<longrightarrow> consistent C v \<and> vote_epoch v \<noteq> eps_epoch es))"

definition vote_data_seen :: "crypto_ops \<Rightarrow> 's storage_ops \<Rightarrow> sr_call list \<Rightarrow> 's safety_rules \<Rightarrow> vote_data set" where
  "vote_data_seen C S calls sr =
     (\<lambda>b. qc_vote_data (block_quorum_cert b)) ` (\<Union>c \<in> set calls. voted_block c) \<union>
     vt_vote_data ` votes_released C S calls sr"

lemma voted_block_signatures:
  "three_chain_call C es c \<Longrightarrow> b \<in> voted_block c \<Longrightarrow> signatures_map (signed_ledger_info (block_quorum_cert b))"
  by (cases c) simp_all

lemma honest_run_voter:
  assumes "safety_storage S" and "honest_run C S es calls sr" and "vote_data_seen C S calls sr \<subseteq> D"
  shows "\<exists>P. voter C es D (votes_released C S calls sr) P"
proof -
  have run: "coherent S sr" "epoch_follows S es sr" "\<forall>c \<in> set calls. three_chain_call C es c"
    "\<And>d. stored S sr = Ok d \<Longrightarrow> history C es {} d" "\<forall>x \<in> {}. justified C es x" "locked {}"
    using assms(2) by (auto simp: honest_run_def epoch_follows_def history_def locked_def behind_def)
  have "\<exists>P. {} \<subseteq> P \<and> P \<subseteq> {} \<union> UNIV \<times> (\<Union>c \<in> set calls. voted_block c) \<and> (\<forall>x \<in> P. justified C es x) \<and> locked P \<and>
    (\<forall>v. Voted v \<in> set (fst (sr_run C S calls sr)) \<longrightarrow>
       consistent C v \<and> (vote_epoch v = eps_epoch es \<longrightarrow> v \<in> fst ` P))"
    by (rule safety_storage.run_history [OF assms(1) surjective_pairing run(1-3) _ run(5,6)]) (rule run(4))
  then obtain P where P: "P \<subseteq> UNIV \<times> (\<Union>c \<in> set calls. voted_block c)" "\<forall>x \<in> P. justified C es x" "locked P"
    "\<forall>v \<in> votes_released C S calls sr. consistent C v \<and> (vote_epoch v = eps_epoch es \<longrightarrow> v \<in> fst ` P)"
    by (auto simp: votes_released_def simp del: image_iff)
  have qc: "signatures_map (signed_ledger_info (block_quorum_cert b)) \<and> qc_vote_data (block_quorum_cert b) \<in> D"
    if vb: "(v, b) \<in> P" for v b
  proof -
    obtain c where "c \<in> set calls" "b \<in> voted_block c" using P(1) vb by blast
    then show ?thesis using run(3) voted_block_signatures assms(3) unfolding vote_data_seen_def by blast
  qed
  have "vt_vote_data v \<in> D" if "v \<in> votes_released C S calls sr" for v
    using that assms(3) unfolding vote_data_seen_def by blast
  then have "voter C es D (votes_released C S calls sr) P"
    unfolding voter_def using P(2-4) qc by (intro conjI ballI; simp split: prod.splits) auto
  then show ?thesis ..
qed

text \<open>C1: Committed blocks lie on one chain.  If less than a third of the voting power of an epoch is
faulty, then of two blocks of the epoch that quorums have signed as committed, the later one extends
the earlier one through blocks that quorums have certified, and blocks committed in the same round
are equal.  Honest validators run the safety rules under the three-chain rules, with any interleaving
of proposals, timeouts, restarts and failing writes; signatures are assumed unforgeable and the hash
of the vote data they have seen free of collisions.\<close>

theorem committed_blocks_on_one_chain:
  assumes "safety_storage S" and "well_made (eps_verifier es)"
    and "3 * weight (eps_verifier es) (- H) < unat (total_voting_power (eps_verifier es))"
    and "\<forall>a \<in> H. honest_run C S es (calls a) (rules a)"
    and "batch_sound C" and "unforgeable C (eps_verifier es) H (\<lambda>a. votes_released C S (calls a) (rules a))"
    and "inj_on (vote_data_hash C) (\<Union>a \<in> H. vote_data_seen C S (calls a) (rules a))"
    and "committed C es B" "committed C es B'" and "bi_round B \<le> bi_round B'"
  shows "extends (certified C es (\<Union>a \<in> H. vote_data_seen C S (calls a) (rules a))) B' B \<and>
    (bi_round B' = bi_round B \<longrightarrow> B' = B)"
proof -
  let ?R = "\<lambda>a. votes_released C S (calls a) (rules a)"
  let ?D = "\<Union>a \<in> H. vote_data_seen C S (calls a) (rules a)"
  have "\<forall>a \<in> H. \<exists>P. voter C es ?D (?R a) P"
  proof
    fix a assume a: "a \<in> H"
    then have "honest_run C S es (calls a) (rules a)" "vote_data_seen C S (calls a) (rules a) \<subseteq> ?D" using assms(4) by blast+
    then show "\<exists>P. voter C es ?D (?R a) P" by (rule honest_run_voter [OF assms(1)])
  qed
  then obtain P where "\<forall>a \<in> H. voter C es ?D (?R a) (P a)" by (rule bchoice [THEN exE])
  then have "committee C es H ?D ?R P"
    unfolding committee_def using assms(7) accepted_share_voter [OF assms(2,3,5,6)] by (intro conjI allI impI)
  from commits_on_one_chain [OF this assms(8-10)] show ?thesis by (intro conjI impI)
qed

subsection \<open>The committee of four\<close>

abbreviation sample_honest :: "account_address set" where
  "sample_honest \<equiv> {[1], [2], [3]}"

abbreviation sample_storage :: "in_memory_storage storage_ops" where
  "sample_storage \<equiv> in_memory_ops sample_crypto"

lemma sample_well_made: "well_made sample_verifier"
  by (simp add: well_made_def sample_verifier_def ValidatorVerifier_new_def sum_voting_power_def)

lemma sample_weight: "weight sample_verifier (- sample_honest) = 1"
proof -
  have "validators sample_verifier \<inter> - sample_honest = {[4]}"
    by (auto simp: validators_def sample_verifier_def)
  then show ?thesis by (simp add: weight_def power_of_def get_voting_power_def sample_verifier_def)
qed

lemma sample_votes_released:
  assumes "a \<in> sample_honest"
  shows "votes_released sample_crypto sample_storage sample_calls (sample_rules a) = sample_vote a ` {1, 2, 3, 4}"
  using assms by (auto simp: votes_released_def sample_run_1 sample_run_2 sample_run_3 sample_outputs_def)

lemma sample_three_chain: "\<forall>c \<in> set sample_calls. three_chain_call sample_crypto sample_epoch c"
  by (auto simp: sample_calls_def sample_proposal_def sample_proof_def proves_epoch_state_def signatures_map_def
      sample_block_def sample_signed_def epoch_change_proof_verify_def Let_def rust_simps)

lemma sample_honest_run: "honest_run sample_crypto sample_storage sample_epoch sample_calls (sample_rules a)"
  using sample_rules_start sample_three_chain
  by (simp add: honest_run_def fresh_safety_data_def sample_epoch_def) (simp add: sample_rules_def)

lemma sample_batch_sound: "batch_sound sample_crypto"
  by (auto simp: batch_sound_def sample_crypto_def list_all_iff)

lemma sample_unforgeable: "unforgeable sample_crypto sample_verifier sample_honest
    (\<lambda>a. votes_released sample_crypto sample_storage sample_calls (sample_rules a))"
proof -
  have "li \<in> sample_ledger_info ` {1, 2, 3, 4}" if "verify_struct_signature sample_crypto pk (MLedgerInfo li) sig" for pk li sig
    using that by (simp add: sample_crypto_def sample_verify_def)
  moreover have "sample_ledger_info n = vt_ledger_info (sample_vote a n)" for a n by (simp add: sample_vote_def)
  ultimately show ?thesis unfolding unforgeable_def using sample_votes_released by fastforce
qed

lemma sample_seen:
  assumes "a \<in> sample_honest"
  shows "vote_data_seen sample_crypto sample_storage sample_calls (sample_rules a) \<subseteq> sample_vote_data ` {0, 1, 2, 3, 4}"
proof -
  have "(\<lambda>b. qc_vote_data (block_quorum_cert b)) ` (\<Union>c \<in> set sample_calls. voted_block c) = sample_vote_data ` {0, 1, 2, 3}"
    by (simp add: sample_calls_def sample_proposal_def sample_block_def insert_commute)
  then show ?thesis unfolding vote_data_seen_def sample_votes_released [OF assms]
    by (simp add: sample_vote_def image_image)
qed

lemma sample_inj: "inj_on (vote_data_hash sample_crypto)
    (\<Union>a \<in> sample_honest. vote_data_seen sample_crypto sample_storage sample_calls (sample_rules a))"
proof (rule inj_on_subset)
  show "inj_on (vote_data_hash sample_crypto) (sample_vote_data ` {0, 1, 2, 3, 4})"
    by (simp add: inj_on_def sample_crypto_def sample_hash_def sample_vote_data_def sample_info_def)
qed (use sample_seen in blast)

lemma sample_committed:
  "committed sample_crypto sample_epoch (sample_info 1)" "committed sample_crypto sample_epoch (sample_info 2)"
proof -
  have acc: "accepted sample_crypto sample_epoch (sample_signed 3)" "accepted sample_crypto sample_epoch (sample_signed 4)"
    unfolding accepted_def signatures_map_def by code_simp+
  then show "committed sample_crypto sample_epoch (sample_info 1)" "committed sample_crypto sample_epoch (sample_info 2)"
    unfolding committed_def
    by (auto simp: sample_info_def sample_epoch_def sample_signed_def sample_ledger_info_def
        intro: exI [of _ "sample_signed 3"] exI [of _ "sample_signed 4"])
qed

theorem committed_blocks_on_one_chain_witness:
  "extends (certified sample_crypto sample_epoch (\<Union>a \<in> sample_honest.
       vote_data_seen sample_crypto sample_storage sample_calls (sample_rules a))) (sample_info 2) (sample_info 1) \<and>
   sample_info 2 \<noteq> sample_info 1"
proof -
  have V: "eps_verifier sample_epoch = sample_verifier" by (simp add: sample_epoch_def)
  have "3 * weight sample_verifier (- sample_honest) < unat (total_voting_power sample_verifier)"
    by (simp only: sample_weight) (simp add: sample_verifier_def)
  then show ?thesis
    using committed_blocks_on_one_chain [where H = sample_honest and S = sample_storage and C = sample_crypto and
        es = sample_epoch and calls = "\<lambda>_. sample_calls" and rules = sample_rules, OF in_memory.safety_storage_axioms,
        unfolded V, OF sample_well_made _ _ sample_batch_sound sample_unforgeable sample_inj sample_committed]
      sample_honest_run by (simp add: sample_info_def)
qed

end
