(* ===== verification/Crusader.thy ===== *)
theory Crusader
  imports VotingSpec
begin

text \<open>
  The Diem fuzzer of LOKI (\<open>consensus/src/crusader_fuzzer.rs\<close>) inside a validator: the messages the
  epoch manager records for it (\<open>epoch_manager.rs\<close>), its loop, its mutations, what it sends
  (\<open>network.rs\<close>), and the safety rules it shares with the validator (\<open>metrics_safety_rules.rs\<close>).

  Draws of \<open>rand\<close> are arguments, and arithmetic on \<open>u64\<close> wraps.  A panic on any thread ends the process, as the panic handler that
  \<open>diem-node\<close> installs does; so nobody meets the mutex of the safety rules poisoned.  Sleeping and
  logging are left out, and so are the \<open>generate\<close> functions, which nothing calls.
\<close>

subsection \<open>Messages\<close>

record timeout_certificate =
  tcert_timeout :: timeout
  tcert_signatures :: "(account_address \<times> signature) list"

record sync_info =
  si_highest_quorum_cert :: quorum_cert
  si_highest_commit_cert :: "quorum_cert option"
  si_highest_timeout_cert :: "timeout_certificate option"

record proposal_msg =
  pm_proposal :: diem_block
  pm_sync_info :: sync_info

record vote_msg =
  vm_vote :: vote
  vm_sync_info :: sync_info

record commit_vote =
  cv_author :: account_address
  cv_ledger_info :: ledger_info
  cv_signature :: signature

record block_retrieval_request =
  brq_block_id :: hash_value
  brq_num_blocks :: u64

datatype block_retrieval_status = Succeeded | IdNotFound | NotEnoughBlocks

record block_retrieval_response =
  brs_status :: block_retrieval_status
  brs_blocks :: "diem_block list"

record epoch_retrieval_request =
  erq_start_epoch :: u64
  erq_end_epoch :: u64

datatype consensus_msg =
    BlockRetrievalRequest block_retrieval_request
  | BlockRetrievalResponse block_retrieval_response
  | EpochRetrievalRequest epoch_retrieval_request
  | ProposalMsg proposal_msg
  | SyncInfo sync_info
  | EpochChangeProof epoch_change_proof
  | VoteMsg vote_msg
  | CommitVoteMsg commit_vote
  | CommitDecisionMsg ledger_info_with_signatures

subsection \<open>The safety rules behind the validator\<close>

text \<open>
  \<open>MetricsSafetyRules\<close>: a call that fails because the rules are not initialized, or are at another
  epoch, is tried once more after initializing them from the proof the node's storage has for the
  waypoint (\<open>retrieve_epoch_change_proof\<close>, an argument).
\<close>

record 's validator_env =
  ve_crypto :: crypto_ops
  ve_storage :: "'s storage_ops"
  retrieve_epoch_change_proof :: "version \<Rightarrow> (epoch_change_proof, string) rust"
  ve_author :: account_address
  ve_validators :: "account_address list"

definition perform_initialize :: "'s validator_env \<Rightarrow> (unit, 's) sr_method" where
  "perform_initialize E =
     st_bind (guarded_consensus_state (ve_storage E)) (\<lambda>state.
     st_bind (lifts (map_err InternalError (retrieve_epoch_change_proof E (wp_version (cs_waypoint state))))) (\<lambda>proof.
     guarded_initialize (ve_crypto E) (ve_storage E) proof))"

definition retry :: "'s validator_env \<Rightarrow> ('a, 's) sr_method \<Rightarrow> ('a, 's) sr_method \<Rightarrow> ('a, 's) sr_method" where
  "retry E f again sr =
     (case f sr of
        (Er (NotInitialized _), sr') \<Rightarrow> st_bind (perform_initialize E) (\<lambda>_. again) sr'
      | (Er (IncorrectEpoch _ _), sr') \<Rightarrow> st_bind (perform_initialize E) (\<lambda>_. again) sr'
      | result \<Rightarrow> result)"

definition metrics_construct_and_sign_vote ::
    "'s validator_env \<Rightarrow> u64 \<Rightarrow> u64 \<Rightarrow> maybe_signed_vote_proposal \<Rightarrow> (vote, 's) sr_method" where
  "metrics_construct_and_sign_vote E now later mvp =
     retry E (guarded_construct_and_sign_vote (ve_crypto E) (ve_storage E) now mvp)
       (guarded_construct_and_sign_vote (ve_crypto E) (ve_storage E) later mvp)"

definition metrics_sign_proposal :: "'s validator_env \<Rightarrow> block_data \<Rightarrow> (signature, 's) sr_method" where
  "metrics_sign_proposal E bd =
     retry E (guarded_sign_proposal (ve_crypto E) (ve_storage E) bd) (guarded_sign_proposal (ve_crypto E) (ve_storage E) bd)"

definition metrics_sign_timeout :: "'s validator_env \<Rightarrow> timeout \<Rightarrow> (signature, 's) sr_method" where
  "metrics_sign_timeout E t =
     retry E (guarded_sign_timeout (ve_crypto E) (ve_storage E) t) (guarded_sign_timeout (ve_crypto E) (ve_storage E) t)"

definition metrics_sign_commit_vote ::
    "'s validator_env \<Rightarrow> ledger_info_with_signatures \<Rightarrow> ledger_info \<Rightarrow> (signature, 's) sr_method" where
  "metrics_sign_commit_vote E lis li =
     retry E (guarded_sign_commit_vote (ve_crypto E) (ve_storage E) lis li)
       (guarded_sign_commit_vote (ve_crypto E) (ve_storage E) lis li)"

subsection \<open>Mutations\<close>

record fuzz_draws =
  dr_index :: nat
  dr_recipients :: "nat \<times> nat"
  dr_timestamp :: u64
  dr_round :: u64
  dr_proposed :: "u64 \<times> u64 \<times> u64 \<times> u64"
  dr_parent :: "u64 \<times> u64 \<times> u64 \<times> u64"
  dr_commit :: "u64 \<times> u64 \<times> u64 \<times> u64"

definition fuzz_timestamp :: "u64 \<Rightarrow> u64 \<Rightarrow> u64" where
  "fuzz_timestamp t r =
     (if r mod 4 = 0 then t + r mod 10000
      else if r mod 4 = 1 \<and> t > 10000 then t - r mod 10000
      else if r mod 4 = 2 then t + r mod 100 else t)"

definition fuzz_round :: "round \<Rightarrow> u64 \<Rightarrow> round" where
  "fuzz_round round r =
     (if r mod 3 = 0 then round + 10
      else if r mod 3 = 1 \<and> round > 10 then round - 10
      else if r mod 3 = 2 then r else round)"

text \<open>\<open>Option::unwrap\<close> and \<open>Result::unwrap\<close>.\<close>

definition unwraps :: "('a, 's) sr_method \<Rightarrow> ('a, 's) sr_method" where
  "unwraps m sr = (case m sr of (r, sr') \<Rightarrow> (expect ''called `Result::unwrap()` on an `Err` value'' r, sr'))"

definition fuzzed_block_data :: "account_address \<Rightarrow> fuzz_draws \<Rightarrow> bytes list \<Rightarrow> diem_block \<Rightarrow> block_data" where
  "fuzzed_block_data author dr payload b =
     BlockData_new_proposal payload author (fuzz_round (block_round b) (dr_round dr))
       (fuzz_timestamp (bd_timestamp_usecs (block_data_of b)) (dr_timestamp dr)) (block_quorum_cert b)"

definition mutate_proposal :: "'s validator_env \<Rightarrow> fuzz_draws \<Rightarrow> proposal_msg \<Rightarrow> (proposal_msg, 's) sr_method" where
  "mutate_proposal E dr p =
     (let b = pm_proposal p in
      st_bind (lifts (expect ''called `Option::unwrap()` on a `None` value''
        (ok_or () (bd_payload (bd_block_type (block_data_of b)))))) (\<lambda>payload.
      let bd = fuzzed_block_data (ve_author E) dr payload b in
      st_bind (unwraps (metrics_sign_proposal E bd)) (\<lambda>sig.
      st_return \<lparr> pm_proposal = new_proposal_from_block_data_and_signature (ve_crypto E) bd sig,
        pm_sync_info = pm_sync_info p \<rparr>)))"

text \<open>The shape of the four mutations of \<open>mutate_blockInfo\<close>, with the bound the source uses.\<close>

definition mutate_field :: "u64 \<Rightarrow> u64 \<Rightarrow> u64 \<Rightarrow> u64" where
  "mutate_field bound x r =
     (if r mod 4 = 0 then x + r mod bound
      else if r mod 4 = 1 \<and> x > bound then x - r mod bound
      else if r mod 4 = 2 then r else x)"

definition mutate_blockInfo :: "u64 \<times> u64 \<times> u64 \<times> u64 \<Rightarrow> block_info \<Rightarrow> block_info" where
  "mutate_blockInfo draws b =
     (case draws of (r1, r2, r3, r4) \<Rightarrow>
       \<lparr> bi_epoch = mutate_field 10 (bi_epoch b) r1, bi_round = mutate_field 10 (bi_round b) r2,
         bi_id = bi_id b, bi_executed_state_id = bi_executed_state_id b,
         bi_version = mutate_field 10 (bi_version b) r3,
         bi_timestamp_usecs = mutate_field 10000 (bi_timestamp_usecs b) r4,
         bi_next_epoch_state = bi_next_epoch_state b \<rparr>)"

definition mutate_vote :: "crypto_ops \<Rightarrow> fuzz_draws \<Rightarrow> vote_msg \<Rightarrow> vote_msg" where
  "mutate_vote C dr m =
     (let v = vm_vote m;
          vd = \<lparr> vd_proposed = mutate_blockInfo (dr_proposed dr) (vd_proposed (vt_vote_data v)),
                 vd_parent = mutate_blockInfo (dr_parent dr) (vd_parent (vt_vote_data v)) \<rparr>;
          li = \<lparr> commit_info = mutate_blockInfo (dr_commit dr) (commit_info (vt_ledger_info v)),
                 consensus_data_hash = vote_data_hash C vd \<rparr> in
      \<lparr> vm_vote = Vote_new_with_signature vd (vt_author v) li (vt_signature v), vm_sync_info = vm_sync_info m \<rparr>)"

text \<open>The mutations of the messages that the loop passes over.\<close>

definition mutate_BlockRetrievalRequest :: "u64 \<Rightarrow> block_retrieval_request \<Rightarrow> block_retrieval_request" where
  "mutate_BlockRetrievalRequest r m = m \<lparr> brq_num_blocks :=
     (if r mod 4 = 0 then brq_num_blocks m + 1
      else if r mod 4 = 1 then brq_num_blocks m - 1
      else if r mod 4 = 2 then r else brq_num_blocks m) \<rparr>"

definition mutate_BlockRetrievalResponse :: "u64 \<Rightarrow> block_retrieval_response \<Rightarrow> block_retrieval_response" where
  "mutate_BlockRetrievalResponse r m = m \<lparr> brs_status :=
     (if r mod 3 = 0 then IdNotFound else if r mod 3 = 1 then NotEnoughBlocks else Succeeded) \<rparr>"

definition rem_u64 :: "u64 \<Rightarrow> u64 \<Rightarrow> (u64, 'e) rust" where
  "rem_u64 a b =
     (if b = 0 then Abort ''attempt to calculate the remainder with a divisor of zero'' else Ok (a mod b))"

definition mutate_EpochRetrievalRequest ::
    "u64 \<Rightarrow> u64 \<Rightarrow> epoch_retrieval_request \<Rightarrow> (epoch_retrieval_request, 'e) rust" where
  "mutate_EpochRetrievalRequest start stop m =
     rust_bind (if start mod 3 = 0 then Ok (erq_start_epoch m)
        else if start mod 3 = 1 then rem_u64 start (erq_start_epoch m)
        else rem_u64 start (erq_end_epoch m)) (\<lambda>s.
     rust_bind (if stop mod 3 = 0 then Ok (erq_end_epoch m)
        else if stop mod 3 = 1 then rem_u64 stop (erq_start_epoch m)
        else rem_u64 stop (erq_end_epoch m)) (\<lambda>e.
     Ok \<lparr> erq_start_epoch = s, erq_end_epoch = e \<rparr>))"

definition mutate_EpochChangeProof :: "u8 \<Rightarrow> epoch_change_proof \<Rightarrow> epoch_change_proof" where
  "mutate_EpochChangeProof r p = p \<lparr> ecp_more := (r mod 2 = 0) \<rparr>"

subsection \<open>The validator process\<close>

record 's fuzz_node =
  fn_running :: bool
  fn_last_msg :: "consensus_msg list"
  fn_rules :: "'s safety_rules"
  fn_sent :: "(account_address list \<times> consensus_msg) list"
  fn_outputs :: "sr_output list"

text \<open>
  \<open>process_epoch\<close> records a message before it is verified, and before its epoch is looked at.
\<close>

definition push_last :: "consensus_msg \<Rightarrow> consensus_msg list \<Rightarrow> consensus_msg list" where
  "push_last m ms = (if length ms > 10 then tl ms @ [m] else ms @ [m])"

definition record_message :: "consensus_msg \<Rightarrow> 's fuzz_node \<Rightarrow> 's fuzz_node" where
  "record_message m n =
     (case m of
        ProposalMsg _ \<Rightarrow> n \<lparr> fn_last_msg := push_last m (fn_last_msg n) \<rparr>
      | SyncInfo _ \<Rightarrow> n \<lparr> fn_last_msg := push_last m (fn_last_msg n) \<rparr>
      | VoteMsg _ \<Rightarrow> n \<lparr> fn_last_msg := push_last m (fn_last_msg n) \<rparr>
      | CommitVoteMsg _ \<Rightarrow> n \<lparr> fn_last_msg := push_last m (fn_last_msg n) \<rparr>
      | CommitDecisionMsg _ \<Rightarrow> n \<lparr> fn_last_msg := push_last m (fn_last_msg n) \<rparr>
      | _ \<Rightarrow> n)"

text \<open>\<open>choose_multiple(rng, 2)\<close>: two different positions, or everything when there are no more.\<close>

definition choose_two :: "nat \<times> nat \<Rightarrow> 'a list \<Rightarrow> 'a list" where
  "choose_two ij xs =
     (if length xs \<le> 2 then xs
      else let i = fst ij mod length xs; j = (i + 1 + snd ij mod (length xs - 1)) mod length xs in [xs ! i, xs ! j])"

definition send_to_others :: "'s validator_env \<Rightarrow> fuzz_draws \<Rightarrow> consensus_msg \<Rightarrow> 's fuzz_node \<Rightarrow> 's fuzz_node" where
  "send_to_others E dr m n = n \<lparr> fn_sent := fn_sent n @
     [(filter (\<lambda>a. a \<noteq> ve_author E) (choose_two (dr_recipients dr) (ve_validators E)), m)] \<rparr>"

definition clear_full :: "'s fuzz_node \<Rightarrow> 's fuzz_node" where
  "clear_full n = (if length (fn_last_msg n) > 10 then n \<lparr> fn_last_msg := [] \<rparr> else n)"

text \<open>A call to the safety rules: what it returns is released, a panic ends the process.\<close>

definition serve :: "('a \<Rightarrow> sr_output) \<Rightarrow> ('a, 's) sr_method \<Rightarrow> ('a \<Rightarrow> 's fuzz_node \<Rightarrow> 's fuzz_node) \<Rightarrow> 's fuzz_node \<Rightarrow> 's fuzz_node" where
  "serve f m g n =
     (case m (fn_rules n) of
        (Ok x, sr) \<Rightarrow> g x (n \<lparr> fn_rules := sr, fn_outputs := fn_outputs n @ [f x] \<rparr>)
      | (Er e, sr) \<Rightarrow> n \<lparr> fn_rules := sr \<rparr>
      | (Abort p, sr) \<Rightarrow> n \<lparr> fn_rules := sr, fn_running := False \<rparr>)"

fun proposal_output :: "proposal_msg \<Rightarrow> sr_output" where
  "proposal_output p = Signed (MBlockData (block_data_of (pm_proposal p))) (the (block_signature (pm_proposal p)))"

definition fuzz_message :: "'s validator_env \<Rightarrow> fuzz_draws \<Rightarrow> consensus_msg \<Rightarrow> 's fuzz_node \<Rightarrow> 's fuzz_node" where
  "fuzz_message E dr m n =
     (case m of
        ProposalMsg p \<Rightarrow> serve proposal_output (mutate_proposal E dr p)
          (\<lambda>p. clear_full \<circ> send_to_others E dr (ProposalMsg p)) n
      | SyncInfo _ \<Rightarrow> clear_full (send_to_others E dr m n)
      | VoteMsg v \<Rightarrow> clear_full (send_to_others E dr (VoteMsg (mutate_vote (ve_crypto E) dr v)) n)
      | CommitVoteMsg _ \<Rightarrow> clear_full (send_to_others E dr m n)
      | CommitDecisionMsg _ \<Rightarrow> clear_full (send_to_others E dr m n)
      | _ \<Rightarrow> n)"

text \<open>One round of the loop of \<open>start_fuzzer\<close>.\<close>

definition fuzz_iteration :: "'s validator_env \<Rightarrow> fuzz_draws \<Rightarrow> 's fuzz_node \<Rightarrow> 's fuzz_node" where
  "fuzz_iteration E dr n =
     (if fn_last_msg n = [] then n
      else fuzz_message E dr (fn_last_msg n ! (dr_index dr mod length (fn_last_msg n))) n)"

datatype fuzz_event =
    Receive consensus_msg
  | Iterate fuzz_draws
  | ServeVote u64 u64 maybe_signed_vote_proposal
  | ServeProposal block_data
  | ServeTimeout timeout
  | ServeCommitVote ledger_info_with_signatures ledger_info
  | RestartProcess

fun fuzz_event_step :: "'s validator_env \<Rightarrow> fuzz_event \<Rightarrow> 's fuzz_node \<Rightarrow> 's fuzz_node" where
  "fuzz_event_step E RestartProcess n = n \<lparr> fn_running := True, fn_last_msg := [],
     fn_rules := snd (sr_step (ve_crypto E) (ve_storage E) Restart (fn_rules n)) \<rparr>"
| "fuzz_event_step E (Receive m) n = (if fn_running n then record_message m n else n)"
| "fuzz_event_step E (Iterate dr) n = (if fn_running n then fuzz_iteration E dr n else n)"
| "fuzz_event_step E (ServeVote now later mvp) n =
     (if fn_running n then serve Voted (metrics_construct_and_sign_vote E now later mvp) (\<lambda>_. id) n else n)"
| "fuzz_event_step E (ServeProposal bd) n =
     (if fn_running n then serve (Signed (MBlockData bd)) (metrics_sign_proposal E bd) (\<lambda>_. id) n else n)"
| "fuzz_event_step E (ServeTimeout t) n =
     (if fn_running n then serve (Signed (MTimeout t)) (metrics_sign_timeout E t) (\<lambda>_. id) n else n)"
| "fuzz_event_step E (ServeCommitVote lis li) n =
     (if fn_running n then serve (Signed (MLedgerInfo li)) (metrics_sign_commit_vote E lis li) (\<lambda>_. id) n else n)"

definition fuzz_node_run :: "'s validator_env \<Rightarrow> fuzz_event list \<Rightarrow> 's fuzz_node \<Rightarrow> 's fuzz_node" where
  "fuzz_node_run E evs n = fold (fuzz_event_step E) evs n"

subsection \<open>Every call is a run of the safety rules\<close>

lemma sr_run_append:
  "sr_run C S (xs @ ys) sr = (case sr_run C S xs sr of (outs, sr1) \<Rightarrow>
     case sr_run C S ys sr1 of (outs', sr2) \<Rightarrow> (outs @ outs', sr2))"
  by (induction xs arbitrary: sr) (auto split: prod.splits)

text \<open>What \<open>m\<close> does to the rules is a run of theirs, and what it returns is released there.\<close>

definition run_to ::
    "'s validator_env \<Rightarrow> ('a \<Rightarrow> sr_output) \<Rightarrow> 's safety_rules \<Rightarrow> ('a, safety_error) rust \<Rightarrow> 's safety_rules \<Rightarrow> bool" where
  "run_to E f sr r sr' \<longleftrightarrow> (\<exists>calls outs. sr_run (ve_crypto E) (ve_storage E) calls sr = (outs, sr') \<and>
     (\<forall>x. r = Ok x \<longrightarrow> f x \<in> insert NoOutput (set outs)))"

definition served :: "'s validator_env \<Rightarrow> ('a \<Rightarrow> sr_output) \<Rightarrow> ('a, 's) sr_method \<Rightarrow> bool" where
  "served E f m \<longleftrightarrow> (\<forall>sr r sr'. m sr = (r, sr') \<longrightarrow> run_to E f sr r sr')"

lemma run_to_refl: "(\<And>x. r = Ok x \<Longrightarrow> f x = NoOutput) \<Longrightarrow> run_to E f sr r sr"
  unfolding run_to_def by (intro exI [of _ "[]"]) auto

lemma run_to_trans:
  assumes "run_to E g sr q sr1" and "run_to E f sr1 r sr'"
  shows "run_to E f sr r sr'"
proof -
  obtain calls outs calls' outs' where "sr_run (ve_crypto E) (ve_storage E) calls sr = (outs, sr1)"
    "sr_run (ve_crypto E) (ve_storage E) calls' sr1 = (outs', sr')"
    "\<forall>x. r = Ok x \<longrightarrow> f x \<in> insert NoOutput (set outs')" using assms unfolding run_to_def by blast
  then show ?thesis unfolding run_to_def
    by (intro exI [of _ "calls @ calls'"] exI [of _ "outs @ outs'"]) (auto simp: sr_run_append)
qed

lemma run_to_error: "run_to E g sr q sr1 \<Longrightarrow> (\<And>x. r \<noteq> Ok x) \<Longrightarrow> run_to E f sr r sr1"
  unfolding run_to_def by blast

lemma st_bind_failed:
  assumes "m sr = (q, sr1)" and "\<And>x. q \<noteq> Ok x" and "st_bind m g sr = (r, sr')"
  shows "sr' = sr1" and "r \<noteq> Ok x"
  using assms by (auto simp: st_bind_def split: rust.splits)

lemma served_call:
  assumes "\<And>sr. sr_step (ve_crypto E) (ve_storage E) c sr = released f (m sr)"
  shows "served E f m"
  unfolding served_def run_to_def
proof (intro allI impI)
  fix sr r sr' assume "m sr = (r, sr')"
  then show "\<exists>calls outs. sr_run (ve_crypto E) (ve_storage E) calls sr = (outs, sr') \<and>
      (\<forall>x. r = Ok x \<longrightarrow> f x \<in> insert NoOutput (set outs))"
    by (intro exI [of _ "[c]"] exI [of _ "[fst (released f (r, sr'))]"]) (simp add: assms released_def)
qed

lemma served_bind:
  assumes "served E h m" and "\<And>x. served E f (g x)"
  shows "served E f (st_bind m g)"
  unfolding served_def
proof (intro allI impI)
  fix sr r sr' assume bind: "st_bind m g sr = (r, sr')"
  obtain q sr1 where q: "m sr = (q, sr1)" by fastforce
  then have run: "run_to E h sr q sr1" using assms(1) unfolding served_def by blast
  show "run_to E f sr r sr'"
  proof (cases "\<exists>x. q = Ok x")
    case True
    then obtain x where "g x sr1 = (r, sr')" using bind q by (auto simp: st_bind_def)
    then have "run_to E f sr1 r sr'" using assms(2) unfolding served_def by blast
    then show ?thesis by (rule run_to_trans [OF run])
  next
    case False
    then have "sr' = sr1" "r \<noteq> Ok x" for x using st_bind_failed [OF q _ bind] by blast+
    then show ?thesis using run_to_error [OF run] by blast
  qed
qed

lemma served_lifts: "served E (\<lambda>_. NoOutput) (lifts r)"
  unfolding served_def lifts_def by (auto intro: run_to_refl)

lemma served_perform_initialize: "served E (\<lambda>_. NoOutput) (perform_initialize E)"
  unfolding perform_initialize_def
  by (intro served_bind [where h = "\<lambda>_. NoOutput"] served_lifts served_call [of E QueryConsensusState]
      served_call [of E "Initialize _"]) simp_all

lemma served_retry:
  assumes "served E f m" and "served E f again"
  shows "served E f (retry E m again)"
  unfolding served_def
proof (intro allI impI)
  fix sr r sr' assume retry: "retry E m again sr = (r, sr')"
  let ?again = "st_bind (perform_initialize E) (\<lambda>_. again)"
  have again: "served E f ?again" by (rule served_bind [OF served_perform_initialize assms(2)])
  obtain q sr1 where q: "m sr = (q, sr1)" by fastforce
  then have run: "run_to E f sr q sr1" using assms(1) unfolding served_def by blast
  have "(r, sr') = (q, sr1) \<or> ?again sr1 = (r, sr')"
    using retry q by (auto simp: retry_def split: rust.splits safety_error.splits)
  then show "run_to E f sr r sr'"
    using run run_to_trans [OF run] again unfolding served_def by blast
qed

lemma served_metrics:
  "served E Voted (metrics_construct_and_sign_vote E now later mvp)"
  "served E (Signed (MBlockData bd)) (metrics_sign_proposal E bd)"
  "served E (Signed (MTimeout t)) (metrics_sign_timeout E t)"
  "served E (Signed (MLedgerInfo li)) (metrics_sign_commit_vote E lis li)"
  unfolding metrics_construct_and_sign_vote_def metrics_sign_proposal_def metrics_sign_timeout_def
    metrics_sign_commit_vote_def
  by (intro served_retry served_call [of E "ConstructAndSignVote _ _"] served_call [of E "SignProposal _"]
      served_call [of E "SignTimeout _"] served_call [of E "SignCommitVote _ _"]; simp)+

lemma served_unwraps: "served E f m \<Longrightarrow> served E f (unwraps m)"
  unfolding served_def unwraps_def run_to_def by (auto split: prod.splits)

lemma served_map:
  assumes "served E (\<lambda>x. f (g x)) m"
  shows "served E f (st_bind m (\<lambda>x. st_return (g x)))"
  unfolding served_def
proof (intro allI impI)
  fix sr r sr' assume bind: "st_bind m (\<lambda>x. st_return (g x)) sr = (r, sr')"
  obtain q sr1 where q: "m sr = (q, sr1)" by fastforce
  then have run: "run_to E (\<lambda>x. f (g x)) sr q sr1" using assms unfolding served_def by blast
  show "run_to E f sr r sr'"
  proof (cases "\<exists>x. q = Ok x")
    case True
    then obtain x where "q = Ok x" "r = Ok (g x)" "sr' = sr1" using bind q by (auto simp: st_bind_def st_return_def)
    then show ?thesis using run by (simp add: run_to_def)
  next
    case False
    then have "sr' = sr1" "r \<noteq> Ok x" for x using st_bind_failed [OF q _ bind] by blast+
    then show ?thesis using run_to_error [OF run] by blast
  qed
qed

lemma served_mutate_proposal: "served E proposal_output (mutate_proposal E dr p)"
  unfolding mutate_proposal_def Let_def
proof (intro served_bind [OF served_lifts] served_map)
  fix payload
  let ?bd = "fuzzed_block_data (ve_author E) dr payload (pm_proposal p)"
  have "served E (Signed (MBlockData ?bd)) (unwraps (metrics_sign_proposal E ?bd))"
    by (intro served_unwraps served_metrics)
  then show "served E (\<lambda>sig. proposal_output
      \<lparr> pm_proposal = new_proposal_from_block_data_and_signature (ve_crypto E) ?bd sig, pm_sync_info = pm_sync_info p \<rparr>)
    (unwraps (metrics_sign_proposal E ?bd))"
    by (simp add: new_proposal_from_block_data_and_signature_def)
qed

subsection \<open>Voting under fuzzing\<close>

text \<open>The rules of the node come from a run of theirs that released what the node has put out.\<close>

definition fuzzed_from :: "'s validator_env \<Rightarrow> 's safety_rules \<Rightarrow> 's fuzz_node \<Rightarrow> bool" where
  "fuzzed_from E sr n \<longleftrightarrow> (\<exists>calls outs. sr_run (ve_crypto E) (ve_storage E) calls sr = (outs, fn_rules n) \<and>
     set (fn_outputs n) \<subseteq> insert NoOutput (set outs))"

lemma fuzzed_from_cong:
  "fuzzed_from E sr n \<Longrightarrow> fn_rules n' = fn_rules n \<Longrightarrow> fn_outputs n' = fn_outputs n \<Longrightarrow> fuzzed_from E sr n'"
  by (simp add: fuzzed_from_def)

lemma fuzzed_from_step:
  assumes "fuzzed_from E sr n" and "run_to E f (fn_rules n) r sr'" and "fn_rules n' = sr'"
    and "set (fn_outputs n') \<subseteq> set (fn_outputs n) \<union> {f x |x. r = Ok x}"
  shows "fuzzed_from E sr n'"
proof -
  obtain calls outs calls' outs' where "sr_run (ve_crypto E) (ve_storage E) calls sr = (outs, fn_rules n)"
    "set (fn_outputs n) \<subseteq> insert NoOutput (set outs)"
    "sr_run (ve_crypto E) (ve_storage E) calls' (fn_rules n) = (outs', sr')"
    "\<forall>x. r = Ok x \<longrightarrow> f x \<in> insert NoOutput (set outs')"
    using assms(1,2) unfolding fuzzed_from_def run_to_def by blast
  then show ?thesis unfolding fuzzed_from_def using assms(3,4)
    by (intro exI [of _ "calls @ calls'"] exI [of _ "outs @ outs'"]) (auto simp: sr_run_append)
qed

lemma serve_fuzzed:
  assumes "fuzzed_from E sr n" and "served E f m"
    and "\<And>x n. fn_rules (g x n) = fn_rules n \<and> fn_outputs (g x n) = fn_outputs n"
  shows "fuzzed_from E sr (serve f m g n)"
proof -
  obtain r sr' where r: "m (fn_rules n) = (r, sr')" by fastforce
  then have run: "run_to E f (fn_rules n) r sr'" using assms(2) unfolding served_def by blast
  show ?thesis
    by (rule fuzzed_from_step [OF assms(1) run]; cases r) (simp_all add: serve_def r assms(3))
qed

lemma send_clear_simps [simp]:
  "fn_rules (clear_full n) = fn_rules n" "fn_outputs (clear_full n) = fn_outputs n"
  "fn_running (clear_full n) = fn_running n" "fn_sent (clear_full n) = fn_sent n"
  "fn_rules (send_to_others E dr m n) = fn_rules n" "fn_outputs (send_to_others E dr m n) = fn_outputs n"
  "fn_running (send_to_others E dr m n) = fn_running n"
  by (simp_all add: clear_full_def send_to_others_def)

lemma fuzz_message_fuzzed: "fuzzed_from E sr n \<Longrightarrow> fuzzed_from E sr (fuzz_message E dr m n)"
  unfolding fuzz_message_def
  by (auto split: consensus_msg.splits intro: serve_fuzzed [OF _ served_mutate_proposal] fuzzed_from_cong)

lemma fuzz_event_fuzzed: "fuzzed_from E sr n \<Longrightarrow> fuzzed_from E sr (fuzz_event_step E ev n)"
proof (cases ev)
  case (Receive m)
  then show "fuzzed_from E sr n \<Longrightarrow> ?thesis"
    by (auto simp: record_message_def split: consensus_msg.splits intro: fuzzed_from_cong)
next
  case RestartProcess
  have "run_to E (\<lambda>_. NoOutput) (fn_rules n) (Ok ()) (snd (sr_step (ve_crypto E) (ve_storage E) Restart (fn_rules n)))"
    unfolding run_to_def by (intro exI [of _ "[Restart]"] exI [of _ "[NoOutput]"]) simp
  then show "fuzzed_from E sr n \<Longrightarrow> ?thesis" using RestartProcess by (auto intro: fuzzed_from_step)
qed (auto simp: fuzz_iteration_def intro: fuzz_message_fuzzed serve_fuzzed served_metrics)

lemma fuzz_run_fuzzed: "fuzzed_from E sr n \<Longrightarrow> fuzzed_from E sr (fuzz_node_run E evs n)"
  unfolding fuzz_node_run_def by (induction evs arbitrary: n) (simp_all add: fuzz_event_fuzzed)


definition sample_env :: "in_memory_storage validator_env" where
  "sample_env = \<lparr> ve_crypto = sample_crypto, ve_storage = in_memory_ops sample_crypto,
     retrieve_epoch_change_proof = (\<lambda>_. Ok sample_proof), ve_author = [1], ve_validators = [[1], [2], [3], [4]] \<rparr>"

definition sample_sync_info :: sync_info where
  "sample_sync_info = \<lparr> si_highest_quorum_cert = block_quorum_cert (sample_block 1),
     si_highest_commit_cert = None, si_highest_timeout_cert = None \<rparr>"

definition sample_draws :: fuzz_draws where
  "sample_draws = \<lparr> dr_index = 0, dr_recipients = (1, 1), dr_timestamp = 0, dr_round = 0,
     dr_proposed = (0, 0, 0, 0), dr_parent = (0, 0, 0, 0), dr_commit = (0, 0, 0, 0) \<rparr>"

definition sample_fuzz_node :: "in_memory_storage fuzz_node" where
  "sample_fuzz_node = \<lparr> fn_running = True, fn_last_msg = [], fn_rules = sample_rules [1], fn_sent = [], fn_outputs = [] \<rparr>"

fun vote_event :: "sr_call \<Rightarrow> fuzz_event" where
  "vote_event (ConstructAndSignVote now mvp) = ServeVote now now mvp"
| "vote_event _ = RestartProcess"

text \<open>A vote, a fuzzed proposal, a restart, and the same vote again.\<close>

definition sample_events :: "fuzz_event list" where
  "sample_events = [vote_event (sample_proposal 1),
     Receive (ProposalMsg \<lparr> pm_proposal = sample_block 1, pm_sync_info = sample_sync_info \<rparr>),
     Iterate sample_draws, RestartProcess, vote_event (sample_proposal 1)]"

lemma sample_fuzz_run:
  "fn_outputs (fuzz_node_run sample_env sample_events sample_fuzz_node) =
     [Voted (sample_vote [1] 1), Signed (MBlockData (fuzzed_block_data [1] sample_draws [] (sample_block 1))) [],
      Voted (sample_vote [1] 1)]"
  by code_simp


subsection \<open>What kills the process\<close>

lemma voting_move_epoch: "voting_move C c e d out d' \<Longrightarrow> sd_epoch d \<le> sd_epoch d'"
  by (induction rule: voting_move.induct) (auto simp: fresh_safety_data_def)

context safety_storage
begin

lemma run_coherent:
  assumes "sr_run C S calls sr = (outs, sr')" and "coherent S sr"
  shows "coherent S sr'"
  using assms
proof (induction calls arbitrary: sr outs)
  case (Cons c calls)
  then show ?case using sr_step_sim by (fastforce simp: sim_def split: prod.splits)
qed simp

lemma run_epoch:
  assumes "sr_run C S calls sr = (outs, sr')" and "coherent S sr" and "stored S sr' = Ok d'"
  shows "\<exists>d. stored S sr = Ok d \<and> sd_epoch d \<le> sd_epoch d'"
  using assms
proof (induction calls arbitrary: sr outs)
  case (Cons c calls)
  obtain out sr1 outs1 where step: "sr_step C S c sr = (out, sr1)" and run: "sr_run C S calls sr1 = (outs1, sr')"
    using Cons.prems(1) by (auto split: prod.splits)
  have sim: "sim C S c sr out sr1" by (rule sr_step_sim [OF Cons.prems(2) step])
  then obtain d1 where d1: "stored S sr1 = Ok d1" "sd_epoch d1 \<le> sd_epoch d'"
    using Cons.IH [OF run] Cons.prems(3) by (auto simp: sim_def)
  then show ?case using sim voting_move_epoch by (fastforce simp: sim_def intro: order_trans)
qed auto

end

lemma sign_proposal_Ok:
  assumes "guarded_sign_proposal C S bd sr = (Ok sig, sr')" and "coherent S sr"
  shows "\<exists>d. stored S sr = Ok d \<and> bd_epoch bd = sd_epoch d"
proof -
  obtain d sr1 where r: "safety_data_read S sr = (Ok d, sr1)" and e: "verify_epoch (bd_epoch bd) d = Ok ()"
    using assms(1) unfolding guarded_sign_proposal_def rust_simps by auto
  show ?thesis using read_Ok [OF r assms(2)] e by (simp add: verify_epoch_def split: if_splits)
qed

lemma sign_proposal_current:
  assumes "coherent S sr" and "stored S sr = Ok d" and "validator_signer_of sr = Some (Signer author sk)"
    and "bd_author (bd_block_type bd) = Some author"
  shows "bd_epoch bd = sd_epoch d \<Longrightarrow> \<exists>sr'. guarded_sign_proposal C S bd sr = (Ok (sign_message C sk (MBlockData bd)), sr')"
    and "bd_epoch bd \<noteq> sd_epoch d \<Longrightarrow>
      \<exists>sr'. guarded_sign_proposal C S bd sr = (Er (IncorrectEpoch (bd_epoch bd) (sd_epoch d)), sr')"
proof -
  have "safety_data_read S sr = (Ok d, set_cache (Some d) sr) \<or> safety_data_read S sr = (Ok d, sr)"
    using assms(1,2) by (auto simp: safety_data_read_def coherent_def stored_def split: option.splits rust.splits)
  then obtain sr1 where r: "safety_data_read S sr = (Ok d, sr1)" "validator_signer_of sr1 = Some (Signer author sk)"
    using assms(3) by auto
  note defs = guarded_sign_proposal_def st_bind_def reads_def lifts_def signer_def verify_author_def verify_epoch_def
    sign_def ok_or_def
  show "bd_epoch bd = sd_epoch d \<Longrightarrow> \<exists>sr'. guarded_sign_proposal C S bd sr = (Ok (sign_message C sk (MBlockData bd)), sr')"
    and "bd_epoch bd \<noteq> sd_epoch d \<Longrightarrow>
      \<exists>sr'. guarded_sign_proposal C S bd sr = (Er (IncorrectEpoch (bd_epoch bd) (sd_epoch d)), sr')"
    using assms(3,4) r by (simp_all add: defs)
qed

lemma sign_older_proposal_fails:
  assumes "safety_storage (ve_storage E)" and "coherent (ve_storage E) sr" and "stored (ve_storage E) sr = Ok d"
    and "validator_signer_of sr = Some (Signer author sk)" and "bd_author (bd_block_type bd) = Some author"
    and "bd_epoch bd < sd_epoch d" and "metrics_sign_proposal E bd sr = (r, sr')"
  shows "r \<noteq> Ok sig"
proof
  assume "r = Ok sig"
  let ?S = "ve_storage E" and ?C = "ve_crypto E"
  obtain sr1 where fail: "guarded_sign_proposal ?C ?S bd sr = (Er (IncorrectEpoch (bd_epoch bd) (sd_epoch d)), sr1)"
    using sign_proposal_current(2) [OF assms(2-5) less_imp_neq [OF assms(6)]] by blast
  then have "st_bind (perform_initialize E) (\<lambda>_. guarded_sign_proposal ?C ?S bd) sr1 = (Ok sig, sr')"
    using assms(7) \<open>r = Ok sig\<close> by (simp add: metrics_sign_proposal_def retry_def)
  then obtain sr2 where init: "perform_initialize E sr1 = (Ok (), sr2)"
    and sign: "guarded_sign_proposal ?C ?S bd sr2 = (Ok sig, sr')" unfolding rust_simps by auto
  have "run_to E (\<lambda>_. NoOutput) sr (Ok ()) sr2"
  proof (rule run_to_trans)
    show "run_to E (Signed (MBlockData bd)) sr (Er (IncorrectEpoch (bd_epoch bd) (sd_epoch d))) sr1"
      using served_call [of E "SignProposal bd" "Signed (MBlockData bd)" "guarded_sign_proposal ?C ?S bd"] fail
      unfolding served_def by simp
    show "run_to E (\<lambda>_. NoOutput) sr1 (Ok ()) sr2" using served_perform_initialize init unfolding served_def by blast
  qed
  then obtain calls outs where run: "sr_run ?C ?S calls sr = (outs, sr2)" unfolding run_to_def by blast
  have "coherent ?S sr2" by (rule safety_storage.run_coherent [OF assms(1) run assms(2)])
  then obtain d2 where d2: "stored ?S sr2 = Ok d2" "bd_epoch bd = sd_epoch d2" using sign_proposal_Ok [OF sign] by blast
  then have "sd_epoch d \<le> sd_epoch d2"
    using safety_storage.run_epoch [OF assms(1) run assms(2) d2(1)] assms(3) by auto
  then show False using assms(6) d2(2) by simp
qed

text \<open>C21: When the fuzzer takes the node down.  A node whose safety rules are initialized picks a
recorded proposal of its own or an earlier epoch.  If the proposal carries no payload (a nil block)
or belongs to an earlier epoch, the iteration panics and the process exits; otherwise the iteration
sends a freshly signed proposal and the node keeps running.\<close>

theorem fuzzer_kills_node_iff:
  assumes "safety_storage (ve_storage E)" and "coherent (ve_storage E) (fn_rules n)"
    and "stored (ve_storage E) (fn_rules n) = Ok d"
    and "validator_signer_of (fn_rules n) = Some (Signer (ve_author E) sk)" and "fn_running n"
    and "fn_last_msg n \<noteq> []" and "fn_last_msg n ! (dr_index dr mod length (fn_last_msg n)) = ProposalMsg p"
    and "bi_epoch (certified_block (block_quorum_cert (pm_proposal p))) \<le> sd_epoch d"
  shows "\<not> fn_running (fuzz_event_step E (Iterate dr) n) \<longleftrightarrow>
     bd_payload (bd_block_type (block_data_of (pm_proposal p))) = None \<or>
     bi_epoch (certified_block (block_quorum_cert (pm_proposal p))) < sd_epoch d"
proof -
  let ?b = "pm_proposal p" and ?n' = "fuzz_event_step E (Iterate dr) n"
  have step: "?n' = serve proposal_output (mutate_proposal E dr p) (\<lambda>p. clear_full \<circ> send_to_others E dr (ProposalMsg p)) n"
    using assms(5-7) by (simp add: fuzz_iteration_def fuzz_message_def)
  show ?thesis
  proof (cases "bd_payload (bd_block_type (block_data_of ?b))")
    case None
    then show ?thesis
      by (simp only: step) (simp add: serve_def mutate_proposal_def st_bind_def lifts_def ok_or_def)
  next
    case (Some payload)
    let ?bd = "fuzzed_block_data (ve_author E) dr payload ?b"
    have bd: "bd_author (bd_block_type ?bd) = Some (ve_author E)"
      "bd_epoch ?bd = bi_epoch (certified_block (block_quorum_cert ?b))"
      by (simp_all add: fuzzed_block_data_def BlockData_new_proposal_def)
    obtain r sr' where r: "metrics_sign_proposal E ?bd (fn_rules n) = (r, sr')" by fastforce
    have "fn_running ?n' \<longleftrightarrow> (\<exists>sig. r = Ok sig)"
      using Some assms(5) r unfolding step
      by (cases r) (simp_all add: serve_def mutate_proposal_def st_bind_def lifts_def
          st_return_def ok_or_def unwraps_def Let_def)
    moreover have "\<exists>sig. r = Ok sig" if "bd_epoch ?bd = sd_epoch d"
      using sign_proposal_current(1) [OF assms(2-4) bd(1) that, of "ve_crypto E"] r
      by (auto simp: metrics_sign_proposal_def retry_def)
    moreover have "\<nexists>sig. r = Ok sig" if "bd_epoch ?bd < sd_epoch d"
      using sign_older_proposal_fails [OF assms(1-4) bd(1) that r] by blast
    ultimately show ?thesis using Some bd(2) assms(8) by auto
  qed
qed

definition sample_initialized :: "in_memory_storage safety_rules" where
  "sample_initialized = snd (sr_step sample_crypto (in_memory_ops sample_crypto) (Initialize sample_proof) (sample_rules [1]))"

definition sample_nil :: proposal_msg where
  "sample_nil = \<lparr> pm_proposal = sample_block 1 \<lparr> block_data_of := block_data_of (sample_block 1) \<lparr> bd_block_type := NilBlock \<rparr> \<rparr>,
     pm_sync_info = sample_sync_info \<rparr>"

theorem fuzzer_kills_node_iff_witness:
  "\<not> fn_running (fuzz_event_step sample_env (Iterate sample_draws)
     (sample_fuzz_node \<lparr> fn_rules := sample_initialized, fn_last_msg := [ProposalMsg sample_nil] \<rparr>))"
proof -
  let ?S = "in_memory_ops sample_crypto"
  let ?n = "sample_fuzz_node \<lparr> fn_rules := sample_initialized, fn_last_msg := [ProposalMsg sample_nil] \<rparr>"
  have "sr_run sample_crypto ?S [Initialize sample_proof] (sample_rules [1]) =
      ([fst (sr_step sample_crypto ?S (Initialize sample_proof) (sample_rules [1]))], sample_initialized)"
    by (simp add: sample_initialized_def split: prod.splits)
  then have coh: "coherent ?S sample_initialized"
    by (rule in_memory.run_coherent) (rule sample_rules_start)
  have env: "ve_storage sample_env = ?S" "ve_author sample_env = [1]" by (simp_all add: sample_env_def)
  have st: "stored ?S sample_initialized = Ok (fresh_safety_data 1)"
    "validator_signer_of sample_initialized = Some (Signer [1] [1])" by code_simp+
  have "bi_epoch (certified_block (block_quorum_cert (pm_proposal sample_nil))) \<le> sd_epoch (fresh_safety_data 1)"
    by (simp add: sample_nil_def sample_block_def sample_vote_data_def sample_info_def fresh_safety_data_def)
  then show ?thesis
    using fuzzer_kills_node_iff [of sample_env ?n "fresh_safety_data 1" "[1]" sample_draws sample_nil]
      in_memory.safety_storage_axioms [of sample_crypto] coh st
    by (simp add: env sample_fuzz_node_def sample_draws_def) (simp add: sample_nil_def)
qed

subsection \<open>What receivers make of mutated votes\<close>

text \<open>C33: A mutated vote is useless unless the mutation left the ledger info alone.  The fuzzer keeps
the signature of the vote it mutates, and that signature covers the ledger info; so when a signature
is good for one message only, a receiver accepts the mutated vote only if the mutated ledger info is
the signed one, with the hash of the mutated vote data equal to the signed hash.\<close>

theorem mutated_vote_rejected:
  assumes "get_public_key V (vt_author (vm_vote m)) = Some pk"
    and "\<forall>msg. verify_struct_signature C pk msg (vt_signature (vm_vote m)) \<longrightarrow> msg = MLedgerInfo (vt_ledger_info (vm_vote m))"
    and "vote_verify C V (vm_vote (mutate_vote C dr m)) = Ok ()"
  shows "vt_ledger_info (vm_vote (mutate_vote C dr m)) = vt_ledger_info (vm_vote m) \<and>
    consensus_data_hash (vt_ledger_info (vm_vote m)) = vote_data_hash C (vt_vote_data (vm_vote (mutate_vote C dr m))) \<and>
    mutate_blockInfo (dr_commit dr) (commit_info (vt_ledger_info (vm_vote m))) = commit_info (vt_ledger_info (vm_vote m))"
proof -
  let ?w = "vm_vote (mutate_vote C dr m)"
  have w: "vt_author ?w = vt_author (vm_vote m)" "vt_signature ?w = vt_signature (vm_vote m)"
    "consensus_data_hash (vt_ledger_info ?w) = vote_data_hash C (vt_vote_data ?w)"
    "commit_info (vt_ledger_info ?w) = mutate_blockInfo (dr_commit dr) (commit_info (vt_ledger_info (vm_vote m)))"
    by (simp_all add: mutate_vote_def Vote_new_with_signature_def Let_def)
  have "verifier_verify C V (vt_author ?w) (MLedgerInfo (vt_ledger_info ?w)) (vt_signature ?w) = Ok ()"
    using assms(3) unfolding vote_verify_def rust_simps by auto
  then have "verify_struct_signature C pk (MLedgerInfo (vt_ledger_info ?w)) (vt_signature (vm_vote m))"
    using assms(1) w(1,2) by (simp add: verifier_verify_def split: if_splits)
  then have "vt_ledger_info ?w = vt_ledger_info (vm_vote m)" using assms(2) by blast
  then show ?thesis using w(3,4) by simp
qed

text \<open>Draws that change nothing: the mutated vote is the vote, and is accepted.\<close>

definition idle_draws :: fuzz_draws where
  "idle_draws = sample_draws \<lparr> dr_proposed := (3, 3, 3, 3), dr_parent := (3, 3, 3, 3), dr_commit := (3, 3, 3, 3) \<rparr>"

definition strict_crypto :: crypto_ops where
  "strict_crypto = sample_crypto \<lparr> verify_struct_signature := (\<lambda>pk m sig. pk = [2] \<and> m = MLedgerInfo (sample_ledger_info 2)) \<rparr>"

theorem mutated_vote_rejected_witness:
  "vote_verify strict_crypto sample_verifier (vm_vote (mutate_vote strict_crypto idle_draws
       \<lparr> vm_vote = sample_vote [2] 2, vm_sync_info = sample_sync_info \<rparr>)) = Ok () \<and>
   vt_ledger_info (vm_vote (mutate_vote strict_crypto idle_draws
       \<lparr> vm_vote = sample_vote [2] 2, vm_sync_info = sample_sync_info \<rparr>)) = sample_ledger_info 2"
proof -
  let ?m = "\<lparr> vm_vote = sample_vote [2] 2, vm_sync_info = sample_sync_info \<rparr>"
  have ok: "vote_verify strict_crypto sample_verifier (vm_vote (mutate_vote strict_crypto idle_draws ?m)) = Ok ()"
    by code_simp
  have pk: "get_public_key sample_verifier (vt_author (vm_vote ?m)) = Some [2]" by code_simp
  have "\<forall>msg. verify_struct_signature strict_crypto [2] msg (vt_signature (vm_vote ?m)) \<longrightarrow>
      msg = MLedgerInfo (vt_ledger_info (vm_vote ?m))"
    by (simp add: strict_crypto_def sample_vote_def)
  from mutated_vote_rejected [OF pk this ok] ok show ?thesis by (simp add: sample_vote_def)
qed

end
