(* ===== verification/PbftTypes.thy ===== *)
theory PbftTypes
  imports Prelude "HOL-Library.Monad_Syntax" "HOL-Library.List_Lexorder" "HOL-Library.Product_Lexorder"
begin

text \<open>
  Data of the PBFT engine of FISCO BCOS (\<open>bcos-pbft\<close>): messages and proposals as objects behind
  shared pointers, the consensus configuration with its quorums, the message factory, and the codec
  that signs and checks messages.

  An object is a cell of a \<open>store\<close>, and a pointer its address, because the engine and the fuzzer hold
  the same objects and both write to them.  \<open>None\<close> as a result stands for a call that does not return:
  a null dereference, a failed \<open>assert\<close> or an exception nobody in the model catches.

  Block numbers are unbounded integers.  Views, node indexes, weights, time stamps and versions have
  their width.  Hashing, signing and the protobuf encodings are arguments.  Logging, locks and timers
  are left out.
\<close>

subsection \<open>Objects\<close>

type_synonym ptr = nat
type_synonym hash_type = bytes
type_synonym node_id = bytes
type_synonym block_number = int

datatype packet_type =
    PrePreparePacket | PreparePacket | CommitPacket | ViewChangePacket | NewViewPacket
  | CommittedProposalRequest | CommittedProposalResponse | PreparedProposalRequest
  | PreparedProposalResponse | CheckPoint | RecoverRequest | RecoverResponse

text \<open>\<open>HashType\<close> has 32 bytes, all 0 when nothing else is said.\<close>

definition zero_hash_type :: hash_type where
  "zero_hash_type = replicate 32 0"

record base_message =
  bm_version :: i32
  bm_index :: block_number
  bm_hash :: hash_type
  bm_view :: u64
  bm_timestamp :: i64
  bm_generatedFrom :: u64
  bm_signatureHash :: hash_type
  bm_signatureData :: bytes

definition empty_base :: base_message where
  "empty_base = \<lparr> bm_version = 0, bm_index = 0, bm_hash = zero_hash_type, bm_view = 0, bm_timestamp = 0,
     bm_generatedFrom = 0, bm_signatureHash = zero_hash_type, bm_signatureData = [] \<rparr>"

record pbft_proposal =
  pp_index :: block_number
  pp_hash :: hash_type
  pp_sealerId :: u64
  pp_data :: bytes
  pp_systemProposal :: bool
  pp_signature :: bytes
  pp_proofs :: "(u64 \<times> bytes) list"

definition createPBFTProposal :: pbft_proposal where
  "createPBFTProposal = \<lparr> pp_index = 0, pp_hash = zero_hash_type, pp_sealerId = 0, pp_data = [],
     pp_systemProposal = False, pp_signature = [], pp_proofs = [] \<rparr>"

text \<open>
  A \<open>PBFTMessage\<close> keeps the encoding of its base fields as of the last time it was encoded or decoded,
  and the signature over that encoding.  Its list of proposals, which only answers to requests for
  committed proposals fill, is left out.
\<close>

record pbft_message =
  pb_base :: base_message
  pb_packetType :: packet_type
  pb_hashFieldsData :: bytes
  pb_signatureData :: bytes
  pb_signatureDataHash :: hash_type
  pb_consensusProposal :: "ptr option"
  pb_from :: "node_id option"

definition createPBFTMsg :: pbft_message where
  "createPBFTMsg = \<lparr> pb_base = empty_base, pb_packetType = PrePreparePacket, pb_hashFieldsData = [],
     pb_signatureData = [], pb_signatureDataHash = zero_hash_type, pb_consensusProposal = None, pb_from = None \<rparr>"

text \<open>A \<open>PBFTViewChangeMsg\<close> carries its signature, and the hash it is for, in its base fields.\<close>

record view_change_msg =
  vc_base :: base_message
  vc_packetType :: packet_type
  vc_committedProposal :: "ptr option"
  vc_preparedProposals :: "ptr list"
  vc_from :: "node_id option"

definition createViewChangeMsg :: view_change_msg where
  "createViewChangeMsg = \<lparr> vc_base = empty_base, vc_packetType = ViewChangePacket, vc_committedProposal = None,
     vc_preparedProposals = [], vc_from = None \<rparr>"

abbreviation "pb_view m \<equiv> bm_view (pb_base m)"
abbreviation "pb_index m \<equiv> bm_index (pb_base m)"
abbreviation "pb_hash m \<equiv> bm_hash (pb_base m)"
abbreviation "pb_generatedFrom m \<equiv> bm_generatedFrom (pb_base m)"

record pbft_store =
  st_msgs :: "ptr \<Rightarrow> pbft_message option"
  st_proposals :: "ptr \<Rightarrow> pbft_proposal option"
  st_views :: "ptr \<Rightarrow> view_change_msg option"
  st_next :: ptr

definition empty_store :: pbft_store where
  "empty_store = \<lparr> st_msgs = Map.empty, st_proposals = Map.empty, st_views = Map.empty, st_next = 0 \<rparr>"

definition new_msg :: "pbft_message \<Rightarrow> pbft_store \<Rightarrow> ptr \<times> pbft_store" where
  "new_msg m s = (st_next s, s \<lparr> st_msgs := (st_msgs s)(st_next s \<mapsto> m), st_next := Suc (st_next s) \<rparr>)"

definition new_proposal :: "pbft_proposal \<Rightarrow> pbft_store \<Rightarrow> ptr \<times> pbft_store" where
  "new_proposal p s = (st_next s, s \<lparr> st_proposals := (st_proposals s)(st_next s \<mapsto> p), st_next := Suc (st_next s) \<rparr>)"

definition new_view_change :: "view_change_msg \<Rightarrow> pbft_store \<Rightarrow> ptr \<times> pbft_store" where
  "new_view_change v s = (st_next s, s \<lparr> st_views := (st_views s)(st_next s \<mapsto> v), st_next := Suc (st_next s) \<rparr>)"

definition set_msg :: "ptr \<Rightarrow> pbft_message \<Rightarrow> pbft_store \<Rightarrow> pbft_store" where
  "set_msg a m s = s \<lparr> st_msgs := (st_msgs s)(a \<mapsto> m) \<rparr>"

definition set_proposal :: "ptr \<Rightarrow> pbft_proposal \<Rightarrow> pbft_store \<Rightarrow> pbft_store" where
  "set_proposal a p s = s \<lparr> st_proposals := (st_proposals s)(a \<mapsto> p) \<rparr>"

definition set_view_change :: "ptr \<Rightarrow> view_change_msg \<Rightarrow> pbft_store \<Rightarrow> pbft_store" where
  "set_view_change a v s = s \<lparr> st_views := (st_views s)(a \<mapsto> v) \<rparr>"

text \<open>The proposal a message points to; a null pointer is not followed.\<close>

definition proposal_of :: "pbft_store \<Rightarrow> pbft_message \<Rightarrow> pbft_proposal option" where
  "proposal_of s m = do { a \<leftarrow> pb_consensusProposal m; st_proposals s a }"

subsection \<open>Cryptography and encodings\<close>

text \<open>Messages as protobuf has them on the wire.\<close>

record raw_pbft_message =
  raw_hashFieldsData :: bytes
  raw_consensusProposal :: "pbft_proposal option"
  raw_signatureData :: bytes

record raw_view_change_message =
  rv_message :: base_message
  rv_committedProposal :: "pbft_proposal option"
  rv_preparedProposals :: "raw_pbft_message list"

record raw_message =
  rm_version :: i32
  rm_type :: packet_type
  rm_signatureData :: bytes
  rm_payLoad :: bytes

record pbft_libs =
  hash_of :: "bytes \<Rightarrow> hash_type"
  sign_with :: "hash_type \<Rightarrow> bytes"
  verify_with :: "node_id \<Rightarrow> hash_type \<Rightarrow> bytes \<Rightarrow> bool"
  enc_base :: "base_message \<Rightarrow> bytes"
  dec_base :: "bytes \<Rightarrow> base_message option"
  enc_pbft :: "raw_pbft_message \<Rightarrow> bytes"
  dec_pbft :: "bytes \<Rightarrow> raw_pbft_message option"
  enc_view :: "raw_view_change_message \<Rightarrow> bytes"
  dec_view :: "bytes \<Rightarrow> raw_view_change_message option"

subsection \<open>Configuration\<close>

record consensus_node =
  cn_nodeID :: node_id
  cn_weight :: u64

record pbft_config =
  m_nodeID :: node_id
  m_consensusNodeList :: "consensus_node list"
  m_nodeIndex :: u64
  m_consensusNodeNum :: u64
  m_totalQuorum :: u64
  m_maxFaultyQuorum :: u64
  m_minRequiredQuorum :: u64
  m_view :: u64
  m_toView :: u64
  m_committedProposal :: "(block_number \<times> hash_type) option"
  m_progressedIndex :: block_number
  m_expectedCheckPoint :: block_number
  m_lowWaterMark :: block_number
  m_warterMarkLimit :: block_number
  m_leaderSwitchPeriod :: u64
  m_syncingHighestNumber :: block_number
  m_timeoutState :: bool
  m_startRecovered :: bool
  m_waitSealUntil :: block_number
  m_waitResealUntil :: block_number
  m_nodeUpdated :: bool

definition NON_CONSENSUS_NODE :: u64 where
  "NON_CONSENSUS_NODE = - 1"

definition MaxView :: u64 where
  "MaxView = (- 1) div 2"

definition getConsensusNodeByIndex :: "pbft_config \<Rightarrow> u64 \<Rightarrow> consensus_node option" where
  "getConsensusNodeByIndex C i =
     (if unat i < length (m_consensusNodeList C) then Some (m_consensusNodeList C ! unat i) else None)"

fun node_index_from :: "u64 \<Rightarrow> node_id \<Rightarrow> consensus_node list \<Rightarrow> u64" where
  "node_index_from i k [] = NON_CONSENSUS_NODE"
| "node_index_from i k (n # ns) = (if cn_nodeID n = k then i else node_index_from (i + 1) k ns)"

definition getNodeIndexByNodeID :: "pbft_config \<Rightarrow> node_id \<Rightarrow> u64" where
  "getNodeIndexByNodeID C k = node_index_from 0 k (m_consensusNodeList C)"

definition isConsensusNode :: "pbft_config \<Rightarrow> bool" where
  "isConsensusNode C \<longleftrightarrow> m_nodeIndex C \<noteq> NON_CONSENSUS_NODE"

definition consensusNodeIDList :: "bool \<Rightarrow> pbft_config \<Rightarrow> node_id list" where
  "consensusNodeIDList excludeSelf C =
     filter (\<lambda>k. \<not> (excludeSelf \<and> k = m_nodeID C)) (map cn_nodeID (m_consensusNodeList C))"

fun compareConsensusNode :: "consensus_node list \<Rightarrow> consensus_node list \<Rightarrow> bool" where
  "compareConsensusNode [] [] = True"
| "compareConsensusNode (l # ls) (r # rs) =
     (cn_nodeID l = cn_nodeID r \<and> cn_weight l = cn_weight r \<and> compareConsensusNode ls rs)"
| "compareConsensusNode _ _ = False"

definition updateQuorum :: "pbft_config \<Rightarrow> pbft_config" where
  "updateQuorum C =
     (let total = sum_list (map cn_weight (m_consensusNodeList C)); faulty = (total - 1) div 3 in
      C \<lparr> m_totalQuorum := total, m_maxFaultyQuorum := faulty, m_minRequiredQuorum := total - faulty \<rparr>)"

text \<open>An empty list raises \<open>InitConsensusException\<close>.\<close>

definition setConsensusNodeList :: "consensus_node list \<Rightarrow> pbft_config \<Rightarrow> pbft_config option" where
  "setConsensusNodeList ns C =
     (if ns = [] then None
      else let sorted = sort_key (\<lambda>n. (cn_nodeID n, cn_weight n)) ns in
      if compareConsensusNode sorted (m_consensusNodeList C) then Some (C \<lparr> m_nodeUpdated := False \<rparr>)
      else let C' = C \<lparr> m_consensusNodeList := sorted, m_nodeUpdated := True,
                 m_consensusNodeNum := of_nat (length sorted) \<rparr> in
        Some (updateQuorum (C' \<lparr> m_nodeIndex := getNodeIndexByNodeID C' (m_nodeID C') \<rparr>)))"

text \<open>
  The leader switches with the block number and the view.  The period is positive, and so is the number of
  nodes once a list has been set; the callers ask only then.
\<close>

definition leaderIndexInNewViewPeriod :: "pbft_config \<Rightarrow> block_number \<Rightarrow> u64 \<Rightarrow> u64" where
  "leaderIndexInNewViewPeriod C i view =
     (word_of_int i div m_leaderSwitchPeriod C + view) mod m_consensusNodeNum C"

definition leaderIndex :: "pbft_config \<Rightarrow> block_number \<Rightarrow> u64" where
  "leaderIndex C i = (word_of_int i div m_leaderSwitchPeriod C + m_view C) mod m_consensusNodeNum C"

definition leaderAfterViewChange :: "pbft_config \<Rightarrow> bool" where
  "leaderAfterViewChange C \<longleftrightarrow> m_nodeIndex C = leaderIndexInNewViewPeriod C (m_progressedIndex C) (m_toView C)"

definition highWaterMark :: "pbft_config \<Rightarrow> block_number" where
  "highWaterMark C = m_progressedIndex C + m_warterMarkLimit C"

definition setCommittedProposal :: "block_number \<times> hash_type \<Rightarrow> pbft_config \<Rightarrow> pbft_config" where
  "setCommittedProposal p C =
     C \<lparr> m_committedProposal := Some p, m_progressedIndex := max (m_progressedIndex C) (fst p + 1),
       m_expectedCheckPoint := max (m_expectedCheckPoint C) (fst p + 1),
       m_lowWaterMark := max (m_lowWaterMark C) (fst p + 1) \<rparr>"

definition setExpectedCheckPoint :: "block_number \<Rightarrow> pbft_config \<Rightarrow> pbft_config option" where
  "setExpectedCheckPoint i C = do { p \<leftarrow> m_committedProposal C;
     Some (C \<lparr> m_expectedCheckPoint := max (fst p + 1) i \<rparr>) }"

definition resetToView :: "pbft_config \<Rightarrow> pbft_config" where
  "resetToView C = C \<lparr> m_toView := m_view C, m_timeoutState := False \<rparr>"

definition resetTimeoutState :: "pbft_config \<Rightarrow> pbft_config" where
  "resetTimeoutState C = C \<lparr> m_timeoutState := True, m_toView := m_toView C + 1 \<rparr>"

definition resetNewViewState :: "u64 \<Rightarrow> pbft_config \<Rightarrow> pbft_config" where
  "resetNewViewState view C =
     (if m_view C > view then C
      else C \<lparr> m_startRecovered := True, m_view := view, m_toView := view, m_timeoutState := False \<rparr>)"

subsection \<open>Making messages\<close>

text \<open>The three \<open>populateFrom\<close> of the factory that the engine uses.\<close>

definition populateSigned :: "pbft_libs \<Rightarrow> packet_type \<Rightarrow> i32 \<Rightarrow> u64 \<Rightarrow> i64 \<Rightarrow> u64 \<Rightarrow> ptr \<Rightarrow> bool \<Rightarrow>
    pbft_store \<Rightarrow> (ptr \<times> pbft_store) option" where
  "populateSigned L t version view now from pa needSign s = do {
     p \<leftarrow> st_proposals s pa;
     let (qa, s1) = new_proposal (createPBFTProposal \<lparr> pp_index := pp_index p, pp_hash := pp_hash p,
       pp_sealerId := pp_sealerId p, pp_signature := (if needSign then sign_with L (pp_hash p) else []) \<rparr>) s;
     Some (new_msg (createPBFTMsg \<lparr> pb_packetType := t, pb_consensusProposal := Some qa,
       pb_base := empty_base \<lparr> bm_version := version, bm_view := view, bm_timestamp := now,
         bm_generatedFrom := from, bm_hash := pp_hash p, bm_index := pp_index p \<rparr> \<rparr>) s1) }"

definition populateMessage :: "packet_type \<Rightarrow> ptr \<Rightarrow> i32 \<Rightarrow> u64 \<Rightarrow> i64 \<Rightarrow> u64 \<Rightarrow> pbft_store \<Rightarrow> (ptr \<times> pbft_store) option" where
  "populateMessage t pa version view now from s = do {
     p \<leftarrow> st_proposals s pa;
     Some (new_msg (createPBFTMsg \<lparr> pb_packetType := t, pb_consensusProposal := Some pa,
       pb_base := empty_base \<lparr> bm_version := version, bm_view := view, bm_timestamp := now,
         bm_generatedFrom := from, bm_hash := pp_hash p, bm_index := pp_index p \<rparr> \<rparr>) s) }"

definition populateProposal :: "ptr \<Rightarrow> bool \<Rightarrow> bool \<Rightarrow> pbft_store \<Rightarrow> (ptr \<times> pbft_store) option" where
  "populateProposal pa withData withProof s = do {
     p \<leftarrow> st_proposals s pa;
     Some (new_proposal (createPBFTProposal \<lparr> pp_index := pp_index p, pp_hash := pp_hash p,
       pp_sealerId := pp_sealerId p, pp_data := (if withData then pp_data p else []),
       pp_proofs := (if withProof then pp_proofs p else []) \<rparr>) s) }"

text \<open>\<open>PBFTMessage::populateWithoutProposal\<close> reads the base fields back from their last encoding.\<close>

definition populateWithoutProposal :: "pbft_libs \<Rightarrow> pbft_message \<Rightarrow> pbft_message option" where
  "populateWithoutProposal L m = do {
     base \<leftarrow> dec_base L (pb_hashFieldsData m);
     Some (createPBFTMsg \<lparr> pb_hashFieldsData := pb_hashFieldsData m, pb_base := base \<rparr>) }"

subsection \<open>Codec\<close>

text \<open>
  \<open>PBFTMessage::encode\<close> renews the encoding of the base fields and the signature in the object itself,
  with the key of the node that encodes.  The packet type is outside what is signed.
\<close>

definition renew_signature :: "pbft_libs \<Rightarrow> pbft_message \<Rightarrow> pbft_message" where
  "renew_signature L m =
     (let fields = enc_base L (pb_base m) in
      m \<lparr> pb_hashFieldsData := fields, pb_signatureDataHash := hash_of L fields,
        pb_signatureData := sign_with L (hash_of L fields) \<rparr>)"

definition raw_of :: "pbft_store \<Rightarrow> pbft_message \<Rightarrow> raw_pbft_message" where
  "raw_of s m = \<lparr> raw_hashFieldsData = pb_hashFieldsData m, raw_consensusProposal = proposal_of s m,
     raw_signatureData = pb_signatureData m \<rparr>"

definition encode_pbft :: "pbft_libs \<Rightarrow> ptr \<Rightarrow> i32 \<Rightarrow> pbft_store \<Rightarrow> (raw_message \<times> pbft_store) option" where
  "encode_pbft L a version s = do {
     m \<leftarrow> st_msgs s a;
     let m' = renew_signature L m;
     Some (\<lparr> rm_version = version, rm_type = pb_packetType m', rm_signatureData = [],
         rm_payLoad = enc_pbft L (raw_of s m') \<rparr>, set_msg a m' s) }"

text \<open>A view change is signed once: when its base fields carry a signature already, it keeps that one.\<close>

definition encode_view_change :: "pbft_libs \<Rightarrow> ptr \<Rightarrow> i32 \<Rightarrow> pbft_store \<Rightarrow> (raw_message \<times> pbft_store) option" where
  "encode_view_change L a version s = do {
     v \<leftarrow> st_views s a;
     prepared \<leftarrow> those (map (st_msgs s) (vc_preparedProposals v));
     let payload = enc_view L \<lparr> rv_message = vc_base v,
           rv_committedProposal = Option.bind (vc_committedProposal v) (st_proposals s),
           rv_preparedProposals = map (raw_of s) prepared \<rparr>;
     if bm_signatureData (vc_base v) = [] \<and> vc_packetType v \<in> {ViewChangePacket, NewViewPacket} then
       let h = hash_of L payload; sig = sign_with L h in
       Some (\<lparr> rm_version = version, rm_type = vc_packetType v, rm_signatureData = sig, rm_payLoad = payload \<rparr>,
         set_view_change a (v \<lparr> vc_base := (vc_base v) \<lparr> bm_signatureHash := h, bm_signatureData := sig \<rparr> \<rparr>) s)
     else Some (\<lparr> rm_version = version, rm_type = vc_packetType v, rm_signatureData = [], rm_payLoad = payload \<rparr>, s) }"

definition decode_proposal :: "pbft_proposal option \<Rightarrow> pbft_store \<Rightarrow> ptr option \<times> pbft_store" where
  "decode_proposal p s = (case p of None \<Rightarrow> (None, s) | Some q \<Rightarrow> (case new_proposal q s of (a, s') \<Rightarrow> (Some a, s')))"

text \<open>\<open>PBFTCodec::decode\<close> for the packets that hold a \<open>PBFTMessage\<close>, with the sender set afterwards.\<close>

definition pbft_packets :: "packet_type set" where
  "pbft_packets = {PrePreparePacket, PreparePacket, CommitPacket, CommittedProposalResponse, CheckPoint,
     RecoverRequest, RecoverResponse}"

definition decode_raw_pbft :: "pbft_libs \<Rightarrow> raw_pbft_message \<Rightarrow> pbft_store \<Rightarrow> (pbft_message \<times> pbft_store) option" where
  "decode_raw_pbft L raw s = do {
     base \<leftarrow> dec_base L (raw_hashFieldsData raw);
     let (pa, s1) = decode_proposal (raw_consensusProposal raw) s;
     Some (createPBFTMsg \<lparr> pb_base := base, pb_hashFieldsData := raw_hashFieldsData raw,
       pb_signatureData := raw_signatureData raw, pb_consensusProposal := pa \<rparr>, s1) }"

definition decode_pbft :: "pbft_libs \<Rightarrow> node_id \<Rightarrow> raw_message \<Rightarrow> pbft_store \<Rightarrow> (ptr \<times> pbft_store) option" where
  "decode_pbft L from rm s = (if rm_type rm \<notin> pbft_packets then None else do {
     raw \<leftarrow> dec_pbft L (rm_payLoad rm);
     (m, s1) \<leftarrow> decode_raw_pbft L raw s;
     Some (new_msg (m \<lparr> pb_signatureDataHash := hash_of L (raw_hashFieldsData raw), pb_packetType := rm_type rm,
       pb_from := Some from \<rparr>) s1) })"

fun decode_prepared :: "pbft_libs \<Rightarrow> raw_pbft_message list \<Rightarrow> pbft_store \<Rightarrow> (ptr list \<times> pbft_store) option" where
  "decode_prepared L [] s = Some ([], s)"
| "decode_prepared L (raw # raws) s = do {
     (m, s1) \<leftarrow> decode_raw_pbft L raw s;
     let (a, s2) = new_msg m s1;
     (as, s3) \<leftarrow> decode_prepared L raws s2;
     Some (a # as, s3) }"

text \<open>
  For a view change the hash that its signature is checked against is the one in the message, unless
  the message has no signature.
\<close>

definition decode_view_change :: "pbft_libs \<Rightarrow> node_id \<Rightarrow> raw_message \<Rightarrow> pbft_store \<Rightarrow> (ptr \<times> pbft_store) option" where
  "decode_view_change L from rm s = (if rm_type rm \<noteq> ViewChangePacket then None else do {
     raw \<leftarrow> dec_view L (rm_payLoad rm);
     let (pa, s1) = new_proposal (case rv_committedProposal raw of None \<Rightarrow> createPBFTProposal | Some p \<Rightarrow> p) s;
     (as, s2) \<leftarrow> decode_prepared L (rv_preparedProposals raw) s1;
     let base = (if bm_signatureData (rv_message raw) = []
       then (rv_message raw) \<lparr> bm_signatureHash := hash_of L (rm_payLoad rm), bm_signatureData := rm_signatureData rm \<rparr>
       else rv_message raw);
     Some (new_view_change \<lparr> vc_base = base, vc_packetType = ViewChangePacket, vc_committedProposal = Some pa,
       vc_preparedProposals = as, vc_from = Some from \<rparr> s2) })"

end
