(* ===== verification/PbftCache.thy ===== *)
theory PbftCache
  imports PbftTypes "HOL-Library.AList"
begin

text \<open>
  \<open>PBFTCache\<close>: what a node knows about one block number.  It collects prepare, commit and checkpoint
  messages by hash and sender with their weight, moves to the precommitted and committed status when a
  quorum is there, and starts the counts anew after a view change.

  The lemmas show what keeps a cache well formed (no null pointer is followed, no assertion fails),
  that the weight of a hash is that of the nodes recorded for it, and that two quorums share more
  weight than the faulty nodes may have.
\<close>

subsection \<open>Votes by sender\<close>

text \<open>
  The two maps every collection has: messages by key and sender, in the order of the senders, and
  weights by key.  The order of the keys is never looked at.
\<close>

type_synonym 'k votes = "('k \<times> (u64 \<times> ptr) list) list"
type_synonym 'k weights = "('k \<times> u64) list"

definition votes_at :: "'k votes \<Rightarrow> 'k \<Rightarrow> (u64 \<times> ptr) list" where
  "votes_at V k = (case map_of V k of None \<Rightarrow> [] | Some es \<Rightarrow> es)"

definition weight_at :: "'k weights \<Rightarrow> 'k \<Rightarrow> u64" where
  "weight_at W k = (case map_of W k of None \<Rightarrow> 0 | Some w \<Rightarrow> w)"

fun put_vote :: "u64 \<Rightarrow> ptr \<Rightarrow> (u64 \<times> ptr) list \<Rightarrow> (u64 \<times> ptr) list" where
  "put_vote i a [] = [(i, a)]"
| "put_vote i a ((j, b) # es) =
     (if i < j then (i, a) # (j, b) # es else if i = j then (i, a) # es else (j, b) # put_vote i a es)"

definition has_vote :: "'k votes \<Rightarrow> 'k \<Rightarrow> u64 \<Rightarrow> bool" where
  "has_vote V k i \<longleftrightarrow> i \<in> set (map fst (votes_at V k))"

definition record_vote :: "'k \<Rightarrow> u64 \<Rightarrow> u64 \<Rightarrow> ptr \<Rightarrow> 'k votes \<times> 'k weights \<Rightarrow> 'k votes \<times> 'k weights" where
  "record_vote k i w a VW = (AList.update k (put_vote i a (votes_at (fst VW) k)) (fst VW),
     AList.update k (weight_at (snd VW) k + w) (snd VW))"

subsection \<open>The cache of one block number\<close>

record pbft_cache =
  m_index :: block_number
  m_submitted :: bool
  m_stableCommitted :: bool
  m_precommitted :: bool
  m_prepare :: "hash_type votes \<times> hash_type weights"
  m_commit :: "hash_type votes \<times> hash_type weights"
  m_checkpoint :: "hash_type votes \<times> hash_type weights"
  m_prePrepare :: "ptr option"
  m_precommit :: "ptr option"
  m_precommitWithoutData :: "ptr option"
  m_checkpointProposal :: "ptr option"

definition new_cache :: "block_number \<Rightarrow> pbft_cache" where
  "new_cache i = \<lparr> m_index = i, m_submitted = False, m_stableCommitted = False, m_precommitted = False,
     m_prepare = ([], []), m_commit = ([], []), m_checkpoint = ([], []), m_prePrepare = None,
     m_precommit = None, m_precommitWithoutData = None, m_checkpointProposal = None \<rparr>"

record cache_state =
  cs_cache :: pbft_cache
  cs_store :: pbft_store
  cs_sent :: "raw_message list"

definition existPrePrepare :: "pbft_store \<Rightarrow> ptr \<Rightarrow> pbft_cache \<Rightarrow> bool option" where
  "existPrePrepare s a c = (case m_prePrepare c of None \<Rightarrow> Some False | Some b \<Rightarrow> do {
     m \<leftarrow> st_msgs s a; pre \<leftarrow> st_msgs s b;
     Some (pb_hash m = pb_hash pre \<and> pb_view pre \<ge> pb_view m) })"

definition addCache :: "pbft_config \<Rightarrow> pbft_store \<Rightarrow> block_number \<Rightarrow> ptr \<Rightarrow>
    hash_type votes \<times> hash_type weights \<Rightarrow> (hash_type votes \<times> hash_type weights) option" where
  "addCache C s i a VW = do {
     m \<leftarrow> st_msgs s a;
     Some (if pb_index m \<noteq> i then VW
      else if has_vote (fst VW) (pb_hash m) (pb_generatedFrom m) then VW
      else case getConsensusNodeByIndex C (pb_generatedFrom m) of
        None \<Rightarrow> VW
      | Some n \<Rightarrow> record_vote (pb_hash m) (pb_generatedFrom m) (cn_weight n) a VW) }"

definition addPrepareCache :: "pbft_config \<Rightarrow> pbft_store \<Rightarrow> ptr \<Rightarrow> pbft_cache \<Rightarrow> pbft_cache option" where
  "addPrepareCache C s a c = do { VW \<leftarrow> addCache C s (m_index c) a (m_prepare c); Some (c \<lparr> m_prepare := VW \<rparr>) }"

definition addCommitCache :: "pbft_config \<Rightarrow> pbft_store \<Rightarrow> ptr \<Rightarrow> pbft_cache \<Rightarrow> pbft_cache option" where
  "addCommitCache C s a c = do { VW \<leftarrow> addCache C s (m_index c) a (m_commit c); Some (c \<lparr> m_commit := VW \<rparr>) }"

definition addCheckPointMsg :: "pbft_config \<Rightarrow> pbft_store \<Rightarrow> ptr \<Rightarrow> pbft_cache \<Rightarrow> pbft_cache option" where
  "addCheckPointMsg C s a c = do { VW \<leftarrow> addCache C s (m_index c) a (m_checkpoint c); Some (c \<lparr> m_checkpoint := VW \<rparr>) }"

definition proposal_hash :: "pbft_store \<Rightarrow> ptr \<Rightarrow> hash_type option" where
  "proposal_hash s a = do { m \<leftarrow> st_msgs s a; p \<leftarrow> proposal_of s m; Some (pp_hash p) }"

definition addPrePrepareCache :: "pbft_store \<Rightarrow> ptr \<Rightarrow> pbft_cache \<Rightarrow> pbft_cache option" where
  "addPrePrepareCache s a c =
     (if m_stableCommitted c then Some c
      else case (m_checkpointProposal c, m_prePrepare c) of
        (Some _, Some b) \<Rightarrow> do {
          h \<leftarrow> proposal_hash s a; h' \<leftarrow> proposal_hash s b;
          Some (if h \<noteq> h' then c else c \<lparr> m_prePrepare := Some a \<rparr>) }
      | _ \<Rightarrow> Some (c \<lparr> m_prePrepare := Some a \<rparr>))"

definition conflictWithProcessedReq :: "pbft_config \<Rightarrow> pbft_store \<Rightarrow> ptr \<Rightarrow> pbft_cache \<Rightarrow> bool option" where
  "conflictWithProcessedReq C s a c =
     (if m_submitted c \<or> m_stableCommitted c then Some True else do {
      m \<leftarrow> st_msgs s a;
      if pb_view m < m_view C then Some True
      else case m_prePrepare c of
        None \<Rightarrow> Some False
      | Some b \<Rightarrow> do {
          pre \<leftarrow> st_msgs s b;
          Some (if pb_view m < pb_view pre then True
            else if pb_view m = pb_view pre then pb_hash m \<noteq> pb_hash pre
            else False) } })"

definition checkPrePrepareProposalStatus :: "pbft_config \<Rightarrow> pbft_store \<Rightarrow> pbft_cache \<Rightarrow> bool option" where
  "checkPrePrepareProposalStatus C s c = (case m_prePrepare c of None \<Rightarrow> Some False | Some b \<Rightarrow> do {
     pre \<leftarrow> st_msgs s b; Some (pb_view pre = m_view C) })"

definition collectEnoughQuorum :: "pbft_config \<Rightarrow> hash_type \<Rightarrow> hash_type weights \<Rightarrow> bool" where
  "collectEnoughQuorum C h W = (case map_of W h of None \<Rightarrow> False | Some w \<Rightarrow> w \<ge> m_minRequiredQuorum C)"

definition collectEnoughFor ::
    "(pbft_cache \<Rightarrow> hash_type weights) \<Rightarrow> pbft_config \<Rightarrow> pbft_store \<Rightarrow> pbft_cache \<Rightarrow> bool option" where
  "collectEnoughFor sel C s c = do {
     ok \<leftarrow> checkPrePrepareProposalStatus C s c;
     if \<not> ok then Some False else do {
       b \<leftarrow> m_prePrepare c; pre \<leftarrow> st_msgs s b;
       Some (collectEnoughQuorum C (pb_hash pre) (sel c)) } }"

definition collectEnoughPrepareReq :: "pbft_config \<Rightarrow> pbft_store \<Rightarrow> pbft_cache \<Rightarrow> bool option" where
  "collectEnoughPrepareReq = collectEnoughFor (snd \<circ> m_prepare)"

definition collectEnoughCommitReq :: "pbft_config \<Rightarrow> pbft_store \<Rightarrow> pbft_cache \<Rightarrow> bool option" where
  "collectEnoughCommitReq = collectEnoughFor (snd \<circ> m_commit)"

fun signature_proofs :: "pbft_store \<Rightarrow> (u64 \<times> ptr) list \<Rightarrow> (u64 \<times> bytes) list option" where
  "signature_proofs s [] = Some []"
| "signature_proofs s ((i, a) # es) = do {
     m \<leftarrow> st_msgs s a; p \<leftarrow> proposal_of s m; ps \<leftarrow> signature_proofs s es;
     Some ((i, pp_signature p) # ps) }"

definition setSignatureList :: "ptr \<Rightarrow> hash_type votes \<Rightarrow> pbft_store \<Rightarrow> pbft_store option" where
  "setSignatureList pa V s = do {
     p \<leftarrow> st_proposals s pa;
     es \<leftarrow> map_of V (pp_hash p);
     ps \<leftarrow> signature_proofs (set_proposal pa (p \<lparr> pp_proofs := [] \<rparr>) s) es;
     Some (set_proposal pa (p \<lparr> pp_proofs := ps \<rparr>) s) }"

text \<open>
  The precommitted message is the pre-prepare object itself, with this node as its sender from now on.
\<close>

definition intoPrecommit :: "pbft_libs \<Rightarrow> pbft_config \<Rightarrow> pbft_cache \<Rightarrow> pbft_store \<Rightarrow> (pbft_cache \<times> pbft_store) option" where
  "intoPrecommit L C c s = do {
     a \<leftarrow> m_prePrepare c;
     m \<leftarrow> st_msgs s a;
     let s1 = set_msg a (m \<lparr> pb_base := (pb_base m) \<lparr> bm_generatedFrom := m_nodeIndex C \<rparr> \<rparr>) s;
     pa \<leftarrow> pb_consensusProposal m;
     s2 \<leftarrow> setSignatureList pa (fst (m_prepare c)) s1;
     w \<leftarrow> populateWithoutProposal L m;
     (qa, s3) \<leftarrow> populateProposal pa False True s2;
     let (wa, s4) = new_msg (w \<lparr> pb_consensusProposal := Some qa \<rparr>) s3;
     Some (c \<lparr> m_precommit := Some a, m_precommitWithoutData := Some wa \<rparr>, s4) }"

definition conflictWithPrecommitReq :: "pbft_config \<Rightarrow> pbft_store \<Rightarrow> ptr \<Rightarrow> pbft_cache \<Rightarrow> bool option" where
  "conflictWithPrecommitReq C s a c = (case m_precommit c of None \<Rightarrow> Some False | Some b \<Rightarrow> do {
     pre \<leftarrow> st_msgs s b;
     if pb_index pre < m_progressedIndex C then Some False else do {
       m \<leftarrow> st_msgs s a;
       Some (pb_index m = pb_index pre \<and> pb_hash m \<noteq> pb_hash pre) } })"

definition checkAndCommit :: "pbft_config \<Rightarrow> pbft_store \<Rightarrow> pbft_cache \<Rightarrow> (bool \<times> pbft_cache) option" where
  "checkAndCommit C s c =
     (if m_submitted c then Some (False, c)
      else case m_precommit c of
        None \<Rightarrow> Some (False, c)
      | Some b \<Rightarrow> do {
          pre \<leftarrow> st_msgs s b;
          if pb_view pre \<noteq> m_view C then Some (False, c) else do {
            enough \<leftarrow> collectEnoughCommitReq C s c;
            Some (if enough then (True, c \<lparr> m_submitted := True \<rparr>) else (False, c)) } })"

text \<open>The two early exits on the view; the first one reads the pre-prepare whenever there is a precommit.\<close>

definition precommit_waits :: "pbft_config \<Rightarrow> pbft_store \<Rightarrow> pbft_cache \<Rightarrow> bool option" where
  "precommit_waits C s c = do {
     old \<leftarrow> (case m_precommit c of None \<Rightarrow> Some False | Some b \<Rightarrow> do {
       pc \<leftarrow> st_msgs s b; a \<leftarrow> m_prePrepare c; pre \<leftarrow> st_msgs s a; Some (pb_view pc \<ge> pb_view pre) });
     if old then Some True else (case m_prePrepare c of None \<Rightarrow> Some False | Some a \<Rightarrow> do {
       pre \<leftarrow> st_msgs s a; Some (pb_view pre \<noteq> m_view C) }) }"

definition checkAndPreCommit :: "pbft_libs \<Rightarrow> pbft_config \<Rightarrow> i64 \<Rightarrow> cache_state \<Rightarrow> (bool \<times> cache_state) option" where
  "checkAndPreCommit L C now x =
     (if m_precommitted (cs_cache x) then Some (False, x) else do {
      waits \<leftarrow> precommit_waits C (cs_store x) (cs_cache x);
      if waits then Some (False, x) else do {
      enough \<leftarrow> collectEnoughPrepareReq C (cs_store x) (cs_cache x);
      if \<not> enough then Some (False, x) else do {
      (c1, s1) \<leftarrow> intoPrecommit L C (cs_cache x) (cs_store x);
      wa \<leftarrow> m_precommitWithoutData c1; w \<leftarrow> st_msgs s1 wa; qa \<leftarrow> pb_consensusProposal w;
      (b, s2) \<leftarrow> populateSigned L CommitPacket 0 (m_view C) now (m_nodeIndex C) qa True s1;
      c2 \<leftarrow> addCommitCache C s2 b c1;
      (rm, s3) \<leftarrow> encode_pbft L b 0 s2;
      (ret, c3) \<leftarrow> checkAndCommit C s3 (c2 \<lparr> m_precommitted := True \<rparr>);
      Some (ret, \<lparr> cs_cache = c3, cs_store = s3, cs_sent = cs_sent x @ [rm] \<rparr>) } } })"

definition shouldStopTimer :: "pbft_config \<Rightarrow> pbft_cache \<Rightarrow> bool option" where
  "shouldStopTimer C c = do { p \<leftarrow> m_committedProposal C; Some (m_index c \<le> fst p \<or> m_submitted c) }"

subsection \<open>After a view change\<close>

fun drop_expired :: "pbft_store \<Rightarrow> u64 \<Rightarrow> (u64 \<times> ptr) list \<Rightarrow> (u64 \<times> ptr) list option" where
  "drop_expired s view [] = Some []"
| "drop_expired s view ((i, a) # es) = do {
     m \<leftarrow> st_msgs s a; es' \<leftarrow> drop_expired s view es;
     Some (if pb_view m < view then es' else (i, a) # es') }"

fun resetCacheAfterViewChange :: "pbft_store \<Rightarrow> u64 \<Rightarrow> 'k votes \<Rightarrow> 'k votes option" where
  "resetCacheAfterViewChange s view [] = Some []"
| "resetCacheAfterViewChange s view ((k, es) # V) = do {
     es' \<leftarrow> drop_expired s view es; V' \<leftarrow> resetCacheAfterViewChange s view V;
     Some (if es' = [] then V' else (k, es') # V') }"

definition node_weight :: "pbft_config \<Rightarrow> u64 \<Rightarrow> u64" where
  "node_weight C i = (case getConsensusNodeByIndex C i of None \<Rightarrow> 0 | Some n \<Rightarrow> cn_weight n)"

text \<open>The weight of a message is that of the node it names as its sender now.\<close>

fun recount :: "pbft_config \<Rightarrow> pbft_store \<Rightarrow> (u64 \<times> ptr) list \<Rightarrow> u64 option" where
  "recount C s [] = Some 0"
| "recount C s ((i, a) # es) = do {
     m \<leftarrow> st_msgs s a; w \<leftarrow> recount C s es; Some (node_weight C (pb_generatedFrom m) + w) }"

fun recalculateQuorum :: "pbft_config \<Rightarrow> pbft_store \<Rightarrow> 'k votes \<Rightarrow> 'k weights option" where
  "recalculateQuorum C s [] = Some []"
| "recalculateQuorum C s ((k, es) # V) = do {
     w \<leftarrow> recount C s es; W \<leftarrow> recalculateQuorum C s V; Some ((k, w) # W) }"

definition reset_votes :: "pbft_config \<Rightarrow> pbft_store \<Rightarrow> u64 \<Rightarrow> 'k votes \<times> 'k weights \<Rightarrow> ('k votes \<times> 'k weights) option" where
  "reset_votes C s view VW = do {
     V \<leftarrow> resetCacheAfterViewChange s view (fst VW); W \<leftarrow> recalculateQuorum C s V; Some (V, W) }"

definition resetCache :: "pbft_config \<Rightarrow> pbft_store \<Rightarrow> u64 \<Rightarrow> pbft_cache \<Rightarrow> pbft_cache option" where
  "resetCache C s view c = do {
     prepare \<leftarrow> reset_votes C s view (m_prepare c);
     commit \<leftarrow> reset_votes C s view (m_commit c);
     Some (c \<lparr> m_submitted := False, m_precommitted := False, m_prepare := prepare, m_commit := commit \<rparr>) }"

subsection \<open>Checkpoints\<close>

definition setCheckPointProposal :: "pbft_config \<Rightarrow> pbft_store \<Rightarrow> ptr \<Rightarrow> pbft_cache \<Rightarrow> pbft_cache option" where
  "setCheckPointProposal C s pa c = do {
     p \<leftarrow> st_proposals s pa; committed \<leftarrow> m_committedProposal C;
     Some (if pp_index p \<le> fst committed then c
       else if pp_index p \<noteq> m_index c then c
       else c \<lparr> m_checkpointProposal := Some pa \<rparr>) }"

definition collectEnoughCheckpoint :: "pbft_config \<Rightarrow> pbft_store \<Rightarrow> pbft_cache \<Rightarrow> bool option" where
  "collectEnoughCheckpoint C s c = (case m_checkpointProposal c of None \<Rightarrow> Some False | Some pa \<Rightarrow> do {
     p \<leftarrow> st_proposals s pa; Some (collectEnoughQuorum C (pp_hash p) (snd (m_checkpoint c))) })"

definition checkAndCommitStableCheckPoint ::
    "pbft_config \<Rightarrow> pbft_cache \<Rightarrow> pbft_store \<Rightarrow> (bool \<times> pbft_cache \<times> pbft_store) option" where
  "checkAndCommitStableCheckPoint C c s =
     (if m_stableCommitted c then Some (False, c, s) else do {
      enough \<leftarrow> collectEnoughCheckpoint C s c;
      if \<not> enough then Some (False, c, s) else do {
      pa \<leftarrow> m_checkpointProposal c;
      s1 \<leftarrow> setSignatureList pa (fst (m_checkpoint c)) s;
      p \<leftarrow> st_proposals s1 pa; committed \<leftarrow> m_committedProposal C;
      Some (fst committed < pp_index p, c \<lparr> m_stableCommitted := True \<rparr>, s1) } })"

definition getCollectedCheckPointWeight :: "pbft_cache \<Rightarrow> hash_type \<Rightarrow> u64" where
  "getCollectedCheckPointWeight c h = weight_at (snd (m_checkpoint c)) h"

text \<open>A checkpoint timeout sends the checkpoint message again.\<close>

definition onCheckPointTimeout :: "pbft_libs \<Rightarrow> pbft_config \<Rightarrow> i64 \<Rightarrow> cache_state \<Rightarrow> cache_state option" where
  "onCheckPointTimeout L C now x = (case m_checkpointProposal (cs_cache x) of
       None \<Rightarrow> Some x
     | Some pa \<Rightarrow> do {
         (a, s1) \<leftarrow> populateSigned L CheckPoint 0 (m_view C) now (m_nodeIndex C) pa True (cs_store x);
         (rm, s2) \<leftarrow> encode_pbft L a 0 s1;
         Some (x \<lparr> cs_store := s2, cs_sent := cs_sent x @ [rm] \<rparr>) })"

subsection \<open>Weights are those of the recorded senders\<close>

definition tally_ok :: "pbft_config \<Rightarrow> 'k votes \<times> 'k weights \<Rightarrow> bool" where
  "tally_ok C VW \<longleftrightarrow> distinct (map fst (fst VW)) \<and> (\<forall>k. distinct (map fst (votes_at (fst VW) k)) \<and>
     (\<forall>i\<in>set (map fst (votes_at (fst VW) k)). unat i < length (m_consensusNodeList C)) \<and>
     weight_at (snd VW) k = sum_list (map (node_weight C) (map fst (votes_at (fst VW) k))))"

lemma tally_okD:
  assumes "tally_ok C VW"
  shows "distinct (map fst (fst VW))" "distinct (map fst (votes_at (fst VW) k))"
    "i \<in> set (map fst (votes_at (fst VW) k)) \<Longrightarrow> unat i < length (m_consensusNodeList C)"
    "weight_at (snd VW) k = sum_list (map (node_weight C) (map fst (votes_at (fst VW) k)))"
  using assms unfolding tally_ok_def by blast+

lemma tally_ok_empty [simp]: "tally_ok C ([], [])"
  by (simp add: tally_ok_def votes_at_def weight_at_def)

lemma set_put_vote: "i \<notin> set (map fst es) \<Longrightarrow> set (put_vote i a es) = insert (i, a) (set es)"
  by (induction i a es rule: put_vote.induct) auto

lemma distinct_put_vote: "i \<notin> set (map fst es) \<Longrightarrow> distinct (map fst es) \<Longrightarrow> distinct (map fst (put_vote i a es))"
proof (induction i a es rule: put_vote.induct)
  case (2 i a j b es)
  then have "set (map fst (put_vote i a es)) = insert i (set (map fst es))" by (auto simp: set_put_vote)
  with 2 show ?case by auto
qed simp

lemma sum_put_vote: "i \<notin> set (map fst es) \<Longrightarrow>
    sum_list (map f (map fst (put_vote i a es))) = (f i + sum_list (map f (map fst es)) :: u64)"
  by (induction i a es rule: put_vote.induct) auto

lemma votes_at_update [simp]: "votes_at (AList.update k es V) k' = (if k' = k then es else votes_at V k')"
  by (simp add: votes_at_def update_conv)

lemma weight_at_update [simp]: "weight_at (AList.update k w W) k' = (if k' = k then w else weight_at W k')"
  by (simp add: weight_at_def update_conv)

lemma getConsensusNodeByIndex_Some:
  "getConsensusNodeByIndex C i = Some n \<Longrightarrow> unat i < length (m_consensusNodeList C) \<and> node_weight C i = cn_weight n"
  by (auto simp: getConsensusNodeByIndex_def node_weight_def split: if_splits)

lemma tally_ok_record:
  assumes "tally_ok C VW" and "\<not> has_vote (fst VW) k i" and "getConsensusNodeByIndex C i = Some n"
  shows "tally_ok C (record_vote k i (cn_weight n) a VW)"
proof -
  have i: "i \<notin> set (map fst (votes_at (fst VW) k))" using assms(2) by (simp add: has_vote_def)
  have members: "set (map fst (put_vote i a (votes_at (fst VW) k))) = insert i (set (map fst (votes_at (fst VW) k)))"
    using set_put_vote [OF i] by auto
  note n = getConsensusNodeByIndex_Some [OF assms(3)]
  show ?thesis
    using tally_okD [OF assms(1)] n unfolding tally_ok_def record_vote_def
    by (auto simp: distinct_update distinct_put_vote [OF i] members sum_put_vote [OF i] simp del: set_map map_map)
qed

subsection \<open>Recorded messages\<close>

definition vote_ptrs :: "'k votes \<times> 'k weights \<Rightarrow> ptr set" where
  "vote_ptrs VW = (\<Union>k. snd ` set (votes_at (fst VW) k))"

definition votes_stored :: "pbft_store \<Rightarrow> block_number \<Rightarrow> hash_type votes \<times> hash_type weights \<Rightarrow> bool" where
  "votes_stored s i VW \<longleftrightarrow> (\<forall>h j a. (j, a) \<in> set (votes_at (fst VW) h) \<longrightarrow>
     (\<exists>m p. st_msgs s a = Some m \<and> pb_generatedFrom m = j \<and> pb_hash m = h \<and> pb_index m = i \<and> proposal_of s m = Some p))"

lemma votes_stored_empty [simp]: "votes_stored s i ([], [])"
  by (simp add: votes_stored_def votes_at_def)

lemma votes_storedD:
  "votes_stored s i VW \<Longrightarrow> (j, a) \<in> set (votes_at (fst VW) h) \<Longrightarrow>
   \<exists>m p. st_msgs s a = Some m \<and> pb_generatedFrom m = j \<and> pb_hash m = h \<and> pb_index m = i \<and> proposal_of s m = Some p"
  unfolding votes_stored_def by blast

lemma votes_ptrI: "(j, a) \<in> set (votes_at (fst VW) h) \<Longrightarrow> a \<in> vote_ptrs VW"
  unfolding vote_ptrs_def by force

text \<open>
  What the cache does to the store: messages keep what counts as a vote, except for the sender of those
  in \<open>A\<close>, and proposals keep their hash and index.
\<close>

text \<open>Protobuf parses what it has written, and the empty string.\<close>

definition protobuf_ok :: "pbft_libs \<Rightarrow> bool" where
  "protobuf_ok L \<longleftrightarrow> (\<forall>b. dec_base L (enc_base L b) \<noteq> None) \<and> dec_base L [] \<noteq> None"

definition store_ok :: "pbft_store \<Rightarrow> bool" where
  "store_ok s \<longleftrightarrow> (\<forall>a. (st_msgs s a \<noteq> None \<or> st_proposals s a \<noteq> None \<or> st_views s a \<noteq> None) \<longrightarrow> a < st_next s)"

definition same_message :: "pbft_libs \<Rightarrow> bool \<Rightarrow> pbft_message \<Rightarrow> pbft_message \<Rightarrow> bool" where
  "same_message L sender m m' \<longleftrightarrow> pb_consensusProposal m' = pb_consensusProposal m \<and> pb_hash m' = pb_hash m \<and>
     pb_view m' = pb_view m \<and> pb_index m' = pb_index m \<and> (sender \<longrightarrow> pb_base m' = pb_base m) \<and>
     (dec_base L (pb_hashFieldsData m) \<noteq> None \<longrightarrow> dec_base L (pb_hashFieldsData m') \<noteq> None)"

definition evolves :: "pbft_libs \<Rightarrow> ptr set \<Rightarrow> pbft_store \<Rightarrow> pbft_store \<Rightarrow> bool" where
  "evolves L A s s' \<longleftrightarrow> (store_ok s \<longrightarrow> store_ok s') \<and>
     (\<forall>a m. st_msgs s a = Some m \<longrightarrow> (\<exists>m'. st_msgs s' a = Some m' \<and> same_message L (a \<notin> A) m m')) \<and>
     (\<forall>a p. st_proposals s a = Some p \<longrightarrow>
       (\<exists>p'. st_proposals s' a = Some p' \<and> pp_hash p' = pp_hash p \<and> pp_index p' = pp_index p))"

lemma evolves_msg:
  "evolves L A s s' \<Longrightarrow> st_msgs s a = Some m \<Longrightarrow> \<exists>m'. st_msgs s' a = Some m' \<and> same_message L (a \<notin> A) m m'"
  unfolding evolves_def by blast

lemma evolves_proposal:
  "evolves L A s s' \<Longrightarrow> st_proposals s a = Some p \<Longrightarrow>
   \<exists>p'. st_proposals s' a = Some p' \<and> pp_hash p' = pp_hash p \<and> pp_index p' = pp_index p"
  unfolding evolves_def by blast

lemma evolves_store_ok: "evolves L A s s' \<Longrightarrow> store_ok s \<Longrightarrow> store_ok s'"
  unfolding evolves_def by blast

lemma same_message_refl [simp]: "same_message L b m m"
  by (simp add: same_message_def)

lemma same_message_trans: "same_message L b m m' \<Longrightarrow> same_message L b' m' m'' \<Longrightarrow> same_message L (b \<and> b') m m''"
  by (auto simp: same_message_def)

lemma evolves_refl [simp]: "evolves L A s s"
  by (simp add: evolves_def)

lemma evolves_trans:
  assumes "evolves L A s t" and "evolves L B t u"
  shows "evolves L (A \<union> B) s u"
  unfolding evolves_def
proof (intro conjI allI impI)
  fix a m assume "st_msgs s a = Some m"
  from evolves_msg [OF assms(1) this] obtain m' where m': "st_msgs t a = Some m'" "same_message L (a \<notin> A) m m'" by blast
  from evolves_msg [OF assms(2) m'(1)] obtain m'' where "st_msgs u a = Some m''" "same_message L (a \<notin> B) m' m''" by blast
  with same_message_trans [OF m'(2)] show "\<exists>m'. st_msgs u a = Some m' \<and> same_message L (a \<notin> A \<union> B) m m'"
    by fastforce
next
  fix a p assume "st_proposals s a = Some p"
  from evolves_proposal [OF assms(1) this] obtain p' where p': "st_proposals t a = Some p'" "pp_hash p' = pp_hash p"
    "pp_index p' = pp_index p" by blast
  from evolves_proposal [OF assms(2) p'(1)] p'(2,3)
  show "\<exists>p'. st_proposals u a = Some p' \<and> pp_hash p' = pp_hash p \<and> pp_index p' = pp_index p" by fastforce
qed (use assms in \<open>auto dest: evolves_store_ok\<close>)

lemma store_ok_fresh:
  assumes "store_ok s" shows "st_msgs s (st_next s) = None" "st_proposals s (st_next s) = None"
  using assms unfolding store_ok_def by (metis less_irrefl)+

lemma evolves_new:
  assumes "store_ok s"
  shows "new_msg m s = (a, s') \<Longrightarrow> evolves L A s s'" "new_proposal p s = (a, s') \<Longrightarrow> evolves L A s s'"
  using assms store_ok_fresh [OF assms]
  by (auto simp: evolves_def store_ok_def new_msg_def new_proposal_def less_Suc_eq)

lemma evolves_set_msg:
  "st_msgs s a = Some m \<Longrightarrow> same_message L (a \<notin> A) m m' \<Longrightarrow> evolves L A s (set_msg a m' s)"
  by (auto simp: evolves_def set_msg_def store_ok_def)

lemma evolves_set_proposal:
  "st_proposals s a = Some p \<Longrightarrow> pp_hash p' = pp_hash p \<Longrightarrow> pp_index p' = pp_index p \<Longrightarrow> evolves L A s (set_proposal a p' s)"
  by (auto simp: evolves_def set_proposal_def store_ok_def)

lemma proposal_of_evolves:
  assumes "evolves L A s s'" and "proposal_of s m = Some p" and "pb_consensusProposal m' = pb_consensusProposal m"
  shows "\<exists>p'. proposal_of s' m' = Some p' \<and> pp_hash p' = pp_hash p \<and> pp_index p' = pp_index p"
  using evolves_proposal [OF assms(1)] assms(2,3) by (auto simp: proposal_of_def bind_eq_Some_conv)

lemma votes_stored_evolves:
  assumes "votes_stored s i VW" and "evolves L A s s'" and "A \<inter> vote_ptrs VW = {}"
  shows "votes_stored s' i VW"
  unfolding votes_stored_def
proof (intro allI impI)
  fix h j a assume a: "(j, a) \<in> set (votes_at (fst VW) h)"
  from votes_storedD [OF assms(1) a] obtain m p where m: "st_msgs s a = Some m" "pb_generatedFrom m = j" "pb_hash m = h"
    "pb_index m = i" "proposal_of s m = Some p" by blast
  have "a \<notin> A" using votes_ptrI [OF a] assms(3) by blast
  with evolves_msg [OF assms(2) m(1)] obtain m' where m': "st_msgs s' a = Some m'" "pb_base m' = pb_base m"
    "pb_consensusProposal m' = pb_consensusProposal m" unfolding same_message_def by auto
  from proposal_of_evolves [OF assms(2) m(5) m'(3)] m m'
  show "\<exists>m p. st_msgs s' a = Some m \<and> pb_generatedFrom m = j \<and> pb_hash m = h \<and> pb_index m = i \<and> proposal_of s' m = Some p"
    by auto
qed

lemma addCache_votes:
  assumes "st_msgs s a = Some m" and "addCache C s i a VW = Some VW'" and "tally_ok C VW"
  shows "tally_ok C VW'" "set (votes_at (fst VW) h) \<subseteq> set (votes_at (fst VW') h)"
    "set (votes_at (fst VW') h) \<subseteq> set (votes_at (fst VW) h) \<union>
      (if h = pb_hash m \<and> pb_index m = i then {(pb_generatedFrom m, a)} else {})"
proof -
  consider "VW' = VW" | n where "VW' = record_vote (pb_hash m) (pb_generatedFrom m) (cn_weight n) a VW" "pb_index m = i"
      "\<not> has_vote (fst VW) (pb_hash m) (pb_generatedFrom m)" "getConsensusNodeByIndex C (pb_generatedFrom m) = Some n"
    using assms(1,2) by (auto simp: addCache_def split: if_splits option.splits)
  then have "tally_ok C VW' \<and> set (votes_at (fst VW) h) \<subseteq> set (votes_at (fst VW') h) \<and>
      set (votes_at (fst VW') h) \<subseteq> set (votes_at (fst VW) h) \<union>
        (if h = pb_hash m \<and> pb_index m = i then {(pb_generatedFrom m, a)} else {})"
  proof cases
    case 1
    then show ?thesis using assms(3) by simp
  next
    case 2
    then have "pb_generatedFrom m \<notin> set (map fst (votes_at (fst VW) (pb_hash m)))" by (simp add: has_vote_def)
    from set_put_vote [OF this] 2(1,2) tally_ok_record [OF assms(3) 2(3,4)] show ?thesis
      by (auto simp: record_vote_def)
  qed
  then show "tally_ok C VW'" "set (votes_at (fst VW) h) \<subseteq> set (votes_at (fst VW') h)"
    "set (votes_at (fst VW') h) \<subseteq> set (votes_at (fst VW) h) \<union>
      (if h = pb_hash m \<and> pb_index m = i then {(pb_generatedFrom m, a)} else {})" by blast+
qed

lemma addCache_ptrs:
  assumes "st_msgs s a = Some m" and "addCache C s i a VW = Some VW'" and "tally_ok C VW"
  shows "vote_ptrs VW' \<subseteq> insert a (vote_ptrs VW)"
proof
  fix b assume "b \<in> vote_ptrs VW'"
  then obtain h j where "(j, b) \<in> set (votes_at (fst VW') h)" unfolding vote_ptrs_def by auto
  with addCache_votes(3) [OF assms, of h] have "b = a \<or> (j, b) \<in> set (votes_at (fst VW) h)" by (auto split: if_splits)
  with votes_ptrI show "b \<in> insert a (vote_ptrs VW)" by fast
qed

lemma addCache_ok:
  assumes "st_msgs s a = Some m" and "proposal_of s m = Some p" and "tally_ok C VW" and "votes_stored s i VW"
  shows "\<exists>VW'. addCache C s i a VW = Some VW' \<and> tally_ok C VW' \<and> votes_stored s i VW' \<and> vote_ptrs VW' \<subseteq> insert a (vote_ptrs VW)"
proof -
  obtain VW' where VW': "addCache C s i a VW = Some VW'" using assms(1) by (simp add: addCache_def)
  note votes = addCache_votes [OF assms(1) VW' assms(3)]
  have "votes_stored s i VW'"
    unfolding votes_stored_def
  proof (intro allI impI)
    fix h j b assume b: "(j, b) \<in> set (votes_at (fst VW') h)"
    show "\<exists>m p. st_msgs s b = Some m \<and> pb_generatedFrom m = j \<and> pb_hash m = h \<and> pb_index m = i \<and> proposal_of s m = Some p"
      using votes_storedD [OF assms(4), of j b h] votes(3) [of h] b assms(1,2) by (auto split: if_splits)
  qed
  then show ?thesis using VW' votes(1) addCache_ptrs [OF assms(1) VW' assms(3)] by blast
qed

subsection \<open>Counting anew\<close>

lemma drop_expired_eq:
  "(\<And>i a. (i, a) \<in> set es \<Longrightarrow> st_msgs s a \<noteq> None) \<Longrightarrow>
   drop_expired s view es = Some (filter (\<lambda>(i, a). view \<le> pb_view (the (st_msgs s a))) es)"
proof (induction es)
  case (Cons x es)
  obtain i a where x: "x = (i, a)" by fastforce
  then obtain m where "st_msgs s a = Some m" using Cons.prems [of i a] by auto
  moreover have "drop_expired s view es = Some (filter (\<lambda>(i, a). view \<le> pb_view (the (st_msgs s a))) es)"
    by (rule Cons.IH) (use Cons.prems in auto)
  ultimately show ?case using x by (auto simp: not_less)
qed simp

lemma votes_at_Cons: "votes_at ((k, es) # V) k' = (if k' = k then es else votes_at V k')"
  by (simp add: votes_at_def)

lemma votes_at_notin: "k \<notin> set (map fst V) \<Longrightarrow> votes_at V k = []"
  using map_of_eq_None_iff [of V k] by (simp add: votes_at_def)

lemma resetCacheAfterViewChange_eq:
  "distinct (map fst V) \<Longrightarrow> \<forall>k i a. (i, a) \<in> set (votes_at V k) \<longrightarrow> st_msgs s a \<noteq> None \<Longrightarrow>
   \<exists>V'. resetCacheAfterViewChange s view V = Some V' \<and> distinct (map fst V') \<and> set (map fst V') \<subseteq> set (map fst V) \<and>
     (\<forall>k. votes_at V' k = filter (\<lambda>(i, a). view \<le> pb_view (the (st_msgs s a))) (votes_at V k))"
proof (induction V)
  case (Cons x V)
  obtain k es where x: "x = (k, es)" by fastforce
  have k: "k \<notin> set (map fst V)" using Cons.prems(1) x by simp
  have all: "(i, a) \<in> set (votes_at (x # V) k') \<Longrightarrow> st_msgs s a \<noteq> None" for k' i a using Cons.prems(2) by blast
  have "(i, a) \<in> set (votes_at V k') \<Longrightarrow> st_msgs s a \<noteq> None" for k' i a
    using all [of i a k'] votes_at_notin [OF k] x by (cases "k' = k") (simp_all add: votes_at_Cons)
  then have valid: "\<forall>k i a. (i, a) \<in> set (votes_at V k) \<longrightarrow> st_msgs s a \<noteq> None" by blast
  obtain V' where V': "resetCacheAfterViewChange s view V = Some V'" "distinct (map fst V')"
    "set (map fst V') \<subseteq> set (map fst V)"
    "\<forall>k. votes_at V' k = filter (\<lambda>(i, a). view \<le> pb_view (the (st_msgs s a))) (votes_at V k)"
    using Cons.IH [OF _ valid] Cons.prems(1) x by auto
  have es: "drop_expired s view es = Some (filter (\<lambda>(i, a). view \<le> pb_view (the (st_msgs s a))) es)"
    using all [of _ _ k] x by (intro drop_expired_eq) (auto simp: votes_at_Cons)
  have "k \<notin> set (map fst V')" using k V'(3) by blast
  then show ?case using V' es x votes_at_notin [of k V']
    by (auto simp: votes_at_Cons intro!: exI split: if_splits)
qed (simp add: votes_at_def)

lemma recount_eq:
  "(\<And>i a. (i, a) \<in> set es \<Longrightarrow> \<exists>m. st_msgs s a = Some m \<and> pb_generatedFrom m = i) \<Longrightarrow>
   recount C s es = Some (sum_list (map (node_weight C) (map fst es)))"
proof (induction es)
  case (Cons x es)
  obtain i a where x: "x = (i, a)" by fastforce
  then obtain m where "st_msgs s a = Some m" "pb_generatedFrom m = i" using Cons.prems [of i a] by auto
  moreover have "recount C s es = Some (sum_list (map (node_weight C) (map fst es)))"
    by (rule Cons.IH) (use Cons.prems in auto)
  ultimately show ?case using x by simp
qed simp

lemma weight_at_Cons: "weight_at ((k, w) # W) k' = (if k' = k then w else weight_at W k')"
  by (simp add: weight_at_def)

lemma recalculateQuorum_eq:
  "distinct (map fst V) \<Longrightarrow> \<forall>k i a. (i, a) \<in> set (votes_at V k) \<longrightarrow> (\<exists>m. st_msgs s a = Some m \<and> pb_generatedFrom m = i) \<Longrightarrow>
   \<exists>W. recalculateQuorum C s V = Some W \<and> (\<forall>k. weight_at W k = sum_list (map (node_weight C) (map fst (votes_at V k))))"
proof (induction V)
  case (Cons x V)
  obtain k es where x: "x = (k, es)" by fastforce
  have k: "k \<notin> set (map fst V)" using Cons.prems(1) x by simp
  have all: "(i, a) \<in> set (votes_at (x # V) k') \<Longrightarrow> \<exists>m. st_msgs s a = Some m \<and> pb_generatedFrom m = i" for k' i a
    using Cons.prems(2) by blast
  have "(i, a) \<in> set (votes_at V k') \<Longrightarrow> \<exists>m. st_msgs s a = Some m \<and> pb_generatedFrom m = i" for k' i a
    using all [of i a k'] votes_at_notin [OF k] x by (cases "k' = k") (simp_all add: votes_at_Cons)
  then have valid: "\<forall>k i a. (i, a) \<in> set (votes_at V k) \<longrightarrow> (\<exists>m. st_msgs s a = Some m \<and> pb_generatedFrom m = i)" by blast
  obtain W where "recalculateQuorum C s V = Some W"
    "\<forall>k. weight_at W k = sum_list (map (node_weight C) (map fst (votes_at V k)))"
    using Cons.IH [OF _ valid] Cons.prems(1) x by auto
  moreover have "recount C s es = Some (sum_list (map (node_weight C) (map fst es)))"
    using all [of _ _ k] x by (intro recount_eq) (auto simp: votes_at_Cons)
  ultimately show ?case using x by (simp add: votes_at_Cons weight_at_Cons)
qed (simp add: votes_at_def weight_at_def)

lemma reset_votes_sub:
  assumes "tally_ok C VW"
    and "\<forall>k j a. (j, a) \<in> set (votes_at (fst VW) k) \<longrightarrow> (\<exists>m. st_msgs s a = Some m \<and> pb_generatedFrom m = j)"
  shows "\<exists>VW'. reset_votes C s view VW = Some VW' \<and> tally_ok C VW' \<and>
    (\<forall>k. set (votes_at (fst VW') k) \<subseteq> set (votes_at (fst VW) k))"
proof -
  have "\<forall>k j a. (j, a) \<in> set (votes_at (fst VW) k) \<longrightarrow> st_msgs s a \<noteq> None" using assms(2) by fastforce
  from resetCacheAfterViewChange_eq [OF tally_okD(1) [OF assms(1)] this]
  obtain V where V: "resetCacheAfterViewChange s view (fst VW) = Some V" "distinct (map fst V)"
    and votes: "\<forall>k. votes_at V k = filter (\<lambda>(i, a). view \<le> pb_view (the (st_msgs s a))) (votes_at (fst VW) k)" by blast
  have sub: "set (votes_at V k) \<subseteq> set (votes_at (fst VW) k)" for k using votes by auto
  have "\<forall>k j a. (j, a) \<in> set (votes_at V k) \<longrightarrow> (\<exists>m. st_msgs s a = Some m \<and> pb_generatedFrom m = j)"
    using assms(2) sub by blast
  from recalculateQuorum_eq [OF V(2) this, of C] obtain W where W: "recalculateQuorum C s V = Some W"
    "\<forall>k. weight_at W k = sum_list (map (node_weight C) (map fst (votes_at V k)))" by blast
  have "unat j < length (m_consensusNodeList C)" if "j \<in> set (map fst (votes_at V k))" for k j
    using tally_okD(3) [OF assms(1)] sub [of k] that by fastforce
  moreover have "distinct (map fst (votes_at V k))" for k
    using tally_okD(2) [OF assms(1), of k] votes by (simp add: distinct_map_filter)
  ultimately have "tally_ok C (V, W)" using V(2) W(2) by (simp add: tally_ok_def del: set_map map_map)
  then show ?thesis using V(1) W(1) sub by (simp add: reset_votes_def)
qed

lemma vote_ptrs_mono: "(\<And>k. set (votes_at (fst VW) k) \<subseteq> set (votes_at (fst VW') k)) \<Longrightarrow> vote_ptrs VW \<subseteq> vote_ptrs VW'"
  unfolding vote_ptrs_def by (rule UN_mono) auto

lemma reset_votes_ok:
  assumes "tally_ok C VW" and "votes_stored s i VW"
  shows "\<exists>VW'. reset_votes C s view VW = Some VW' \<and> tally_ok C VW' \<and> votes_stored s i VW' \<and> vote_ptrs VW' \<subseteq> vote_ptrs VW"
proof -
  have "\<forall>k j a. (j, a) \<in> set (votes_at (fst VW) k) \<longrightarrow> (\<exists>m. st_msgs s a = Some m \<and> pb_generatedFrom m = j)"
    using votes_storedD [OF assms(2)] by blast
  from reset_votes_sub [OF assms(1) this] obtain VW' where VW': "reset_votes C s view VW = Some VW'" "tally_ok C VW'"
    and sub: "\<And>k. set (votes_at (fst VW') k) \<subseteq> set (votes_at (fst VW) k)" by blast
  have "votes_stored s i VW'" using assms(2) sub unfolding votes_stored_def by blast
  then show ?thesis using VW' vote_ptrs_mono [OF sub] by blast
qed

subsection \<open>Well-formed caches\<close>

definition cache_ptrs :: "pbft_cache \<Rightarrow> ptr set" where
  "cache_ptrs c = vote_ptrs (m_prepare c) \<union> vote_ptrs (m_commit c) \<union> vote_ptrs (m_checkpoint c)"

definition proposed_ok :: "pbft_libs \<Rightarrow> pbft_store \<Rightarrow> ptr \<Rightarrow> bool" where
  "proposed_ok L s a \<longleftrightarrow> (\<exists>m p. st_msgs s a = Some m \<and> proposal_of s m = Some p \<and> pp_hash p = pb_hash m \<and>
     dec_base L (pb_hashFieldsData m) \<noteq> None)"

definition votes_ok :: "pbft_config \<Rightarrow> pbft_store \<Rightarrow> block_number \<Rightarrow> hash_type votes \<times> hash_type weights \<Rightarrow> bool" where
  "votes_ok C s i VW \<longleftrightarrow> tally_ok C VW \<and> votes_stored s i VW"

definition cache_ok :: "pbft_libs \<Rightarrow> pbft_config \<Rightarrow> pbft_store \<Rightarrow> pbft_cache \<Rightarrow> bool" where
  "cache_ok L C s c \<longleftrightarrow> store_ok s \<and> votes_ok C s (m_index c) (m_prepare c) \<and> votes_ok C s (m_index c) (m_commit c) \<and>
     votes_ok C s (m_index c) (m_checkpoint c) \<and>
     (\<forall>a. m_prePrepare c = Some a \<longrightarrow> proposed_ok L s a \<and> a \<notin> cache_ptrs c) \<and>
     (\<forall>a. m_precommit c = Some a \<longrightarrow> m_prePrepare c \<noteq> None \<and> proposed_ok L s a \<and> a \<notin> cache_ptrs c) \<and>
     (\<forall>a. m_precommitWithoutData c = Some a \<longrightarrow> (\<exists>m p. st_msgs s a = Some m \<and> proposal_of s m = Some p)) \<and>
     (\<forall>a. m_checkpointProposal c = Some a \<longrightarrow> st_proposals s a \<noteq> None)"

lemma cache_okD:
  assumes "cache_ok L C s c"
  shows "store_ok s" "votes_ok C s (m_index c) (m_prepare c)" "votes_ok C s (m_index c) (m_commit c)"
    "votes_ok C s (m_index c) (m_checkpoint c)"
    "m_prePrepare c = Some a \<Longrightarrow> proposed_ok L s a" "m_prePrepare c = Some a \<Longrightarrow> a \<notin> cache_ptrs c"
    "m_precommit c = Some a \<Longrightarrow> \<exists>b. m_prePrepare c = Some b" "m_precommit c = Some a \<Longrightarrow> proposed_ok L s a"
    "m_precommit c = Some a \<Longrightarrow> a \<notin> cache_ptrs c"
    "m_precommitWithoutData c = Some a \<Longrightarrow> \<exists>m p. st_msgs s a = Some m \<and> proposal_of s m = Some p"
    "m_checkpointProposal c = Some a \<Longrightarrow> \<exists>p. st_proposals s a = Some p"
  using assms unfolding cache_ok_def by blast+

lemma cache_ok_new [simp]: "cache_ok L C s (new_cache i) \<longleftrightarrow> store_ok s"
  by (simp add: cache_ok_def new_cache_def votes_ok_def)

lemma proposed_ok_evolves:
  assumes "proposed_ok L s a" and "evolves L A s s'"
  shows "proposed_ok L s' a"
proof -
  obtain m p where m: "st_msgs s a = Some m" "proposal_of s m = Some p" "pp_hash p = pb_hash m"
    "dec_base L (pb_hashFieldsData m) \<noteq> None" using assms(1) unfolding proposed_ok_def by blast
  from evolves_msg [OF assms(2) m(1)] obtain m' where m': "st_msgs s' a = Some m'" "same_message L (a \<notin> A) m m'" by blast
  then have "pb_consensusProposal m' = pb_consensusProposal m" by (simp add: same_message_def)
  from proposal_of_evolves [OF assms(2) m(2) this] m m' show ?thesis
    unfolding proposed_ok_def same_message_def by auto
qed

lemma votes_ok_evolves:
  "votes_ok C s i VW \<Longrightarrow> evolves L A s s' \<Longrightarrow> A \<inter> vote_ptrs VW = {} \<Longrightarrow> votes_ok C s' i VW"
  unfolding votes_ok_def using votes_stored_evolves by blast

lemma cache_ok_evolves:
  assumes "cache_ok L C s c" and "evolves L A s s'" and "A \<inter> cache_ptrs c = {}"
  shows "cache_ok L C s' c"
proof -
  have disjoint: "A \<inter> vote_ptrs (m_prepare c) = {}" "A \<inter> vote_ptrs (m_commit c) = {}" "A \<inter> vote_ptrs (m_checkpoint c) = {}"
    using assms(3) unfolding cache_ptrs_def by blast+
  have "\<exists>m p. st_msgs s' a = Some m \<and> proposal_of s' m = Some p" if without: "m_precommitWithoutData c = Some a" for a
  proof -
    from cache_okD(10) [OF assms(1) without] obtain m p where m: "st_msgs s a = Some m" "proposal_of s m = Some p" by blast
    from evolves_msg [OF assms(2) m(1)] obtain m' where "st_msgs s' a = Some m'"
      "pb_consensusProposal m' = pb_consensusProposal m" unfolding same_message_def by blast
    with proposal_of_evolves [OF assms(2) m(2)] show ?thesis by blast
  qed
  moreover have "st_proposals s' a \<noteq> None" if "m_checkpointProposal c = Some a" for a
    using cache_okD(11) [OF assms(1) that] evolves_proposal [OF assms(2)] by fastforce
  ultimately show ?thesis
    using cache_okD [OF assms(1)] votes_ok_evolves [OF _ assms(2)] disjoint proposed_ok_evolves [OF _ assms(2)]
      evolves_store_ok [OF assms(2)] unfolding cache_ok_def by blast
qed

lemma collectEnoughQuorum_votes:
  assumes "collectEnoughQuorum C h (snd VW)" and "0 < m_minRequiredQuorum C" and "tally_ok C VW"
  shows "\<exists>es. map_of (fst VW) h = Some es \<and> es \<noteq> []"
proof -
  have "weight_at (snd VW) h \<noteq> 0"
    using assms(1,2) by (auto simp: collectEnoughQuorum_def weight_at_def split: option.splits)
  then have "votes_at (fst VW) h \<noteq> []" using tally_okD(4) [OF assms(3), of h] by auto
  then show ?thesis by (auto simp: votes_at_def split: option.splits)
qed

lemma signature_proofs_ok:
  "(\<And>i a. (i, a) \<in> set es \<Longrightarrow> \<exists>m p. st_msgs s a = Some m \<and> proposal_of s m = Some p) \<Longrightarrow>
   \<exists>ps. signature_proofs s es = Some ps"
proof (induction es)
  case (Cons x es)
  obtain i a where x: "x = (i, a)" by fastforce
  then obtain m p where "st_msgs s a = Some m" "proposal_of s m = Some p" using Cons.prems [of i a] by auto
  moreover have "\<exists>ps. signature_proofs s es = Some ps" by (rule Cons.IH) (use Cons.prems in auto)
  ultimately show ?case using x by auto
qed simp

lemma setSignatureList_ok:
  assumes "st_proposals s pa = Some p" and "map_of (fst VW) (pp_hash p) = Some es" and "votes_stored s i VW"
  shows "\<exists>s'. setSignatureList pa (fst VW) s = Some s' \<and> evolves L {} s s' \<and> st_next s' = st_next s \<and> st_msgs s' = st_msgs s"
proof -
  let ?s = "set_proposal pa (p \<lparr> pp_proofs := [] \<rparr>) s"
  have s: "evolves L {} s ?s" by (rule evolves_set_proposal [OF assms(1)]) simp_all
  have es: "votes_at (fst VW) (pp_hash p) = es" using assms(2) by (simp add: votes_at_def)
  have "\<exists>m q. st_msgs ?s a = Some m \<and> proposal_of ?s m = Some q" if a: "(j, a) \<in> set es" for j a
  proof -
    from votes_storedD [OF assms(3)] a es obtain m q where "st_msgs s a = Some m" "proposal_of s m = Some q" by blast
    with proposal_of_evolves [OF s] show ?thesis by (fastforce simp: set_proposal_def)
  qed
  then have "\<exists>ps. signature_proofs ?s es = Some ps" by (rule signature_proofs_ok)
  then obtain ps where "signature_proofs ?s es = Some ps" by blast
  moreover have "evolves L {} s (set_proposal pa (p \<lparr> pp_proofs := ps \<rparr>) s)"
    by (rule evolves_set_proposal [OF assms(1)]) simp_all
  ultimately show ?thesis using assms(1,2) by (simp add: setSignatureList_def set_proposal_def)
qed

text \<open>The precommit and the commit message made from it.\<close>

lemma populateSigned_ok:
  assumes "store_ok s" and "st_proposals s pa = Some p"
  shows "\<exists>a s'. populateSigned L t version view now from pa needSign s = Some (a, s') \<and> evolves L {} s s' \<and>
    st_msgs s a = None \<and> (\<exists>m q. st_msgs s' a = Some m \<and> proposal_of s' m = Some q \<and> pb_hash m = pp_hash p \<and>
      pb_index m = pp_index p \<and> pb_generatedFrom m = from \<and> pb_view m = view)"
proof -
  define q where "q = createPBFTProposal \<lparr> pp_index := pp_index p, pp_hash := pp_hash p, pp_sealerId := pp_sealerId p,
    pp_signature := (if needSign then sign_with L (pp_hash p) else []) \<rparr>"
  obtain qa s1 where s1: "new_proposal q s = (qa, s1)" by fastforce
  define m where "m = createPBFTMsg \<lparr> pb_packetType := t, pb_consensusProposal := Some qa,
    pb_base := empty_base \<lparr> bm_version := version, bm_view := view, bm_timestamp := now,
      bm_generatedFrom := from, bm_hash := pp_hash p, bm_index := pp_index p \<rparr> \<rparr>"
  obtain a s2 where s2: "new_msg m s1 = (a, s2)" by fastforce
  have 1: "evolves L {} s s1" by (rule evolves_new(2) [OF assms(1) s1])
  have 2: "evolves L {} s1 s2" by (rule evolves_new(1) [OF evolves_store_ok [OF 1 assms(1)] s2])
  have "st_msgs s a = None"
    using assms(1) s1 s2 by (auto simp: new_proposal_def new_msg_def store_ok_def intro: ccontr)
  moreover have "st_msgs s2 a = Some m \<and> proposal_of s2 m = Some q"
    using s1 s2 by (auto simp: new_proposal_def new_msg_def proposal_of_def m_def)
  moreover have "populateSigned L t version view now from pa needSign s = Some (a, s2)"
    using assms(2) s1 s2 by (simp add: populateSigned_def q_def [symmetric] m_def [symmetric])
  ultimately show ?thesis using evolves_trans [OF 1 2] by (auto simp: m_def)
qed

lemma encode_pbft_ok:
  assumes "st_msgs s a = Some m" and "protobuf_ok L"
  shows "\<exists>rm s'. encode_pbft L a version s = Some (rm, s') \<and> evolves L {} s s'"
proof -
  have "same_message L True m (renew_signature L m)"
    using assms(2) by (simp add: same_message_def renew_signature_def Let_def protobuf_ok_def)
  with evolves_set_msg [OF assms(1), of L "{}"] show ?thesis using assms(1) by (simp add: encode_pbft_def Let_def)
qed

lemma intoPrecommit_ok:
  assumes "cache_ok L C s c" and "m_prePrepare c = Some a" and "st_msgs s a = Some m"
    and "map_of (fst (m_prepare c)) (pb_hash m) = Some es"
  shows "\<exists>wa s'. intoPrecommit L C c s = Some (c \<lparr> m_precommit := Some a, m_precommitWithoutData := Some wa \<rparr>, s') \<and>
    evolves L {a} s s' \<and> (\<exists>w qa q. st_msgs s' wa = Some w \<and> pb_consensusProposal w = Some qa \<and>
      st_proposals s' qa = Some q \<and> pp_hash q = pb_hash m)"
proof -
  obtain p where p: "proposal_of s m = Some p" "pp_hash p = pb_hash m" "dec_base L (pb_hashFieldsData m) \<noteq> None"
    using cache_okD(5) [OF assms(1,2)] assms(3) unfolding proposed_ok_def by auto
  obtain pa where pa: "pb_consensusProposal m = Some pa" "st_proposals s pa = Some p"
    using p(1) by (auto simp: proposal_of_def bind_eq_Some_conv)
  define m1 where "m1 = m \<lparr> pb_base := (pb_base m) \<lparr> bm_generatedFrom := m_nodeIndex C \<rparr> \<rparr>"
  let ?s1 = "set_msg a m1 s"
  have 1: "evolves L {a} s ?s1"
    by (rule evolves_set_msg [OF assms(3)]) (simp add: same_message_def m1_def)
  have "{a} \<inter> vote_ptrs (m_prepare c) = {}" using cache_okD(6) [OF assms(1,2)] unfolding cache_ptrs_def by blast
  then have stored: "votes_stored ?s1 (m_index c) (m_prepare c)"
    using votes_ok_evolves [OF cache_okD(2) [OF assms(1)] 1] unfolding votes_ok_def by blast
  have "st_proposals ?s1 pa = Some p" using pa(2) by (simp add: set_msg_def)
  from setSignatureList_ok [OF this _ stored, of es L] assms(4) p(2)
  obtain s2 where s2: "setSignatureList pa (fst (m_prepare c)) ?s1 = Some s2" "evolves L {} ?s1 s2" by auto
  from evolves_proposal [OF s2(2) \<open>st_proposals ?s1 pa = Some p\<close>] obtain p2 where p2: "st_proposals s2 pa = Some p2"
    "pp_hash p2 = pp_hash p" by blast
  obtain base where base: "dec_base L (pb_hashFieldsData m) = Some base" using p(3) by auto
  let ?w = "createPBFTMsg \<lparr> pb_hashFieldsData := pb_hashFieldsData m, pb_base := base \<rparr>"
  obtain qa s3 where s3: "populateProposal pa False True s2 = Some (qa, s3)"
    "new_proposal (createPBFTProposal \<lparr> pp_index := pp_index p2, pp_hash := pp_hash p2,
       pp_sealerId := pp_sealerId p2, pp_data := [], pp_proofs := pp_proofs p2 \<rparr>) s2 = (qa, s3)"
    using p2(1) by (simp add: populateProposal_def new_proposal_def)
  obtain wa s4 where s4: "new_msg (?w \<lparr> pb_consensusProposal := Some qa \<rparr>) s3 = (wa, s4)" by fastforce
  have ok2: "store_ok s2" using evolves_store_ok [OF s2(2) evolves_store_ok [OF 1 cache_okD(1) [OF assms(1)]]] .
  have 3: "evolves L {} s2 s3" by (rule evolves_new(2) [OF ok2 s3(2)])
  have 4: "evolves L {} s3 s4" by (rule evolves_new(1) [OF evolves_store_ok [OF 3 ok2] s4])
  have "intoPrecommit L C c s = Some (c \<lparr> m_precommit := Some a, m_precommitWithoutData := Some wa \<rparr>, s4)"
    using assms(2,3) pa(1) s2(1) s3(1) s4 base
    by (simp add: intoPrecommit_def populateWithoutProposal_def m1_def [symmetric])
  moreover have "evolves L {a} s s4"
    using evolves_trans [OF evolves_trans [OF evolves_trans [OF 1 s2(2)] 3] 4] by simp
  moreover have "st_msgs s4 wa = Some (?w \<lparr> pb_consensusProposal := Some qa \<rparr>)"
    "\<exists>q. st_proposals s4 qa = Some q \<and> pp_hash q = pb_hash m"
    using s3(2) s4 p(2) p2(2) by (auto simp: new_proposal_def new_msg_def)
  ultimately show ?thesis by auto
qed

lemma votes_ok_addCache:
  assumes "st_msgs s a = Some m" and "proposal_of s m = Some p" and "votes_ok C s i VW"
  shows "\<exists>VW'. addCache C s i a VW = Some VW' \<and> votes_ok C s i VW' \<and> vote_ptrs VW' \<subseteq> insert a (vote_ptrs VW)"
  using addCache_ok [OF assms(1,2)] assms(3) unfolding votes_ok_def by blast

text \<open>New votes for a cache, none of them the pre-prepare or the precommit.\<close>

lemma cache_ok_votes:
  assumes "cache_ok L C s c" and "votes_ok C s (m_index c) VW" and "m_prePrepare c \<notin> Some ` B" "m_precommit c \<notin> Some ` B"
  shows "vote_ptrs VW \<subseteq> B \<union> vote_ptrs (m_prepare c) \<Longrightarrow> cache_ok L C s (c \<lparr> m_prepare := VW \<rparr>)"
    "vote_ptrs VW \<subseteq> B \<union> vote_ptrs (m_commit c) \<Longrightarrow> cache_ok L C s (c \<lparr> m_commit := VW \<rparr>)"
    "vote_ptrs VW \<subseteq> B \<union> vote_ptrs (m_checkpoint c) \<Longrightarrow> cache_ok L C s (c \<lparr> m_checkpoint := VW \<rparr>)"
  using assms unfolding cache_ok_def cache_ptrs_def by (simp_all, blast+)

lemma cache_ok_add:
  assumes "cache_ok L C s c" and "st_msgs s a = Some m" and "proposal_of s m = Some p"
    and "m_prePrepare c \<noteq> Some a" and "m_precommit c \<noteq> Some a"
  shows "\<exists>c'. addPrepareCache C s a c = Some c' \<and> cache_ok L C s c'"
    "\<exists>c'. addCommitCache C s a c = Some c' \<and> cache_ok L C s c'"
    "\<exists>c'. addCheckPointMsg C s a c = Some c' \<and> cache_ok L C s c'"
proof -
  note ok = cache_okD [OF assms(1)]
  note add = votes_ok_addCache [OF assms(2,3)]
  have update: "cache_ok L C s (c \<lparr> m_prepare := VW \<rparr>)" if "votes_ok C s (m_index c) VW" "vote_ptrs VW \<subseteq> insert a (vote_ptrs (m_prepare c))" for VW
    using cache_ok_votes(1) [OF assms(1) that(1), of "{a}"] that(2) assms(4,5) by auto
  then show "\<exists>c'. addPrepareCache C s a c = Some c' \<and> cache_ok L C s c'"
    using add [OF ok(2)] by (auto simp: addPrepareCache_def)
  have "cache_ok L C s (c \<lparr> m_commit := VW \<rparr>)" if "votes_ok C s (m_index c) VW" "vote_ptrs VW \<subseteq> insert a (vote_ptrs (m_commit c))" for VW
    using cache_ok_votes(2) [OF assms(1) that(1), of "{a}"] that(2) assms(4,5) by auto
  then show "\<exists>c'. addCommitCache C s a c = Some c' \<and> cache_ok L C s c'"
    using add [OF ok(3)] by (auto simp: addCommitCache_def)
  have "cache_ok L C s (c \<lparr> m_checkpoint := VW \<rparr>)" if "votes_ok C s (m_index c) VW" "vote_ptrs VW \<subseteq> insert a (vote_ptrs (m_checkpoint c))" for VW
    using cache_ok_votes(3) [OF assms(1) that(1), of "{a}"] that(2) assms(4,5) by auto
  then show "\<exists>c'. addCheckPointMsg C s a c = Some c' \<and> cache_ok L C s c'"
    using add [OF ok(4)] by (auto simp: addCheckPointMsg_def)
qed

lemma cache_ok_addPrePrepare:
  assumes "cache_ok L C s c" and "proposed_ok L s a" and "a \<notin> cache_ptrs c"
  shows "\<exists>c'. addPrePrepareCache s a c = Some c' \<and> cache_ok L C s c'"
proof -
  have "cache_ok L C s (c \<lparr> m_prePrepare := Some a \<rparr>)"
    using assms by (auto simp: cache_ok_def cache_ptrs_def)
  moreover have hash: "\<exists>h. proposal_hash s b = Some h" if "proposed_ok L s b" for b
    using that by (auto simp: proposed_ok_def proposal_hash_def)
  moreover have "\<exists>h. proposal_hash s b = Some h" if "m_prePrepare c = Some b" for b
    using hash cache_okD(5) [OF assms(1) that] by blast
  ultimately show ?thesis
    using assms(1,2) by (fastforce simp: addPrePrepareCache_def split: option.splits)
qed

lemma collectEnoughFor_ok:
  assumes "cache_ok L C s c"
  shows "\<exists>r. collectEnoughFor sel C s c = Some r \<and> (r \<longrightarrow> (\<exists>a m. m_prePrepare c = Some a \<and> st_msgs s a = Some m \<and>
    pb_view m = m_view C \<and> collectEnoughQuorum C (pb_hash m) (sel c)))"
proof (cases "m_prePrepare c")
  case None
  then show ?thesis by (auto simp: collectEnoughFor_def checkPrePrepareProposalStatus_def)
next
  case (Some a)
  then obtain m where "st_msgs s a = Some m" using cache_okD(5) [OF assms Some] unfolding proposed_ok_def by blast
  with Some show ?thesis by (auto simp: collectEnoughFor_def checkPrePrepareProposalStatus_def)
qed

lemma checkAndCommit_ok:
  assumes "cache_ok L C s c"
  shows "\<exists>r c'. checkAndCommit C s c = Some (r, c') \<and> cache_ok L C s c'"
proof (cases "m_precommit c")
  case None
  then show ?thesis using assms by (auto simp: checkAndCommit_def)
next
  case (Some b)
  then obtain m where "st_msgs s b = Some m" using cache_okD(8) [OF assms Some] unfolding proposed_ok_def by blast
  moreover have "cache_ok L C s (c \<lparr> m_submitted := True \<rparr>)" using assms by (simp add: cache_ok_def cache_ptrs_def)
  ultimately show ?thesis using Some assms collectEnoughFor_ok [OF assms, of "snd \<circ> m_commit"]
    by (auto simp: checkAndCommit_def collectEnoughCommitReq_def)
qed

lemma precommit_waits_ok:
  assumes "cache_ok L C s c"
  shows "\<exists>r. precommit_waits C s c = Some r"
proof -
  have msg: "\<exists>m. st_msgs s a = Some m" if "proposed_ok L s a" for a using that unfolding proposed_ok_def by blast
  have pre: "\<exists>m. st_msgs s a = Some m" if "m_prePrepare c = Some a" for a using msg cache_okD(5) [OF assms that] by blast
  have "\<exists>r. (case m_precommit c of None \<Rightarrow> Some False | Some b \<Rightarrow> do {
       pc \<leftarrow> st_msgs s b; a \<leftarrow> m_prePrepare c; pre \<leftarrow> st_msgs s a; Some (pb_view pc \<ge> pb_view pre) }) = Some r"
    using msg cache_okD(7,8) [OF assms] pre by (fastforce split: option.splits)
  then show ?thesis using pre unfolding precommit_waits_def by (fastforce split: option.splits)
qed

lemma checkAndPreCommit_ok:
  assumes "cache_ok L C (cs_store x) (cs_cache x)" and "0 < m_minRequiredQuorum C" and "protobuf_ok L"
  shows "\<exists>r y. checkAndPreCommit L C now x = Some (r, y) \<and> cache_ok L C (cs_store y) (cs_cache y)"
proof (cases "\<not> m_precommitted (cs_cache x) \<and> precommit_waits C (cs_store x) (cs_cache x) = Some False \<and>
    collectEnoughPrepareReq C (cs_store x) (cs_cache x) = Some True")
  case False
  moreover obtain r r' where "precommit_waits C (cs_store x) (cs_cache x) = Some r"
    "collectEnoughPrepareReq C (cs_store x) (cs_cache x) = Some r'"
    using precommit_waits_ok [OF assms(1)] collectEnoughFor_ok [OF assms(1)] unfolding collectEnoughPrepareReq_def by blast
  ultimately show ?thesis using assms(1) by (auto simp: checkAndPreCommit_def)
next
  case True
  define s c where sc: "s = cs_store x" "c = cs_cache x"
  note ok = assms(1) [folded sc]
  from collectEnoughFor_ok [OF ok, of "snd \<circ> m_prepare"] True
  obtain a m where a: "m_prePrepare c = Some a" "st_msgs s a = Some m" "collectEnoughQuorum C (pb_hash m) (snd (m_prepare c))"
    unfolding collectEnoughPrepareReq_def sc by auto
  have "tally_ok C (m_prepare c)" using cache_okD(2) [OF ok] unfolding votes_ok_def by blast
  from collectEnoughQuorum_votes [OF a(3) assms(2) this] obtain es where "map_of (fst (m_prepare c)) (pb_hash m) = Some es" by blast
  from intoPrecommit_ok [OF ok a(1,2) this] obtain wa s1 w qa q where
    into: "intoPrecommit L C c s = Some (c \<lparr> m_precommit := Some a, m_precommitWithoutData := Some wa \<rparr>, s1)"
    and s1: "evolves L {a} s s1" and w: "st_msgs s1 wa = Some w" "pb_consensusProposal w = Some qa" "st_proposals s1 qa = Some q" by blast
  have "cache_ok L C s1 c" using cache_ok_evolves [OF ok s1] cache_okD(6) [OF ok a(1)] by blast
  moreover have "proposal_of s1 w = Some q" using w by (simp add: proposal_of_def)
  ultimately have ok1: "cache_ok L C s1 (c \<lparr> m_precommit := Some a, m_precommitWithoutData := Some wa \<rparr>)" (is "cache_ok L C s1 ?c1")
    using a(1) w(1) by (auto simp: cache_ok_def cache_ptrs_def)
  from populateSigned_ok [OF cache_okD(1) [OF ok1] w(3), of L CommitPacket 0 "m_view C" now "m_nodeIndex C" True]
  obtain b s2 mb mq where s2: "populateSigned L CommitPacket 0 (m_view C) now (m_nodeIndex C) qa True s1 = Some (b, s2)"
    "evolves L {} s1 s2" "st_msgs s1 b = None" "st_msgs s2 b = Some mb" "proposal_of s2 mb = Some mq" by blast
  have ok2: "cache_ok L C s2 ?c1" using cache_ok_evolves [OF ok1 s2(2)] by simp
  have "b \<noteq> a" using cache_okD(5) [OF ok1, of a] a(1) s2(3) unfolding proposed_ok_def by auto
  from cache_ok_add(2) [OF ok2 s2(4,5)] this a(1) obtain c2 where c2: "addCommitCache C s2 b ?c1 = Some c2" "cache_ok L C s2 c2" by auto
  from encode_pbft_ok [OF s2(4) assms(3), of 0] obtain rm s3 where s3: "encode_pbft L b 0 s2 = Some (rm, s3)" "evolves L {} s2 s3" by blast
  have "cache_ok L C s3 (c2 \<lparr> m_precommitted := True \<rparr>)"
    using cache_ok_evolves [OF c2(2) s3(2)] by (simp add: cache_ok_def cache_ptrs_def)
  from checkAndCommit_ok [OF this] obtain r c3 where "checkAndCommit C s3 (c2 \<lparr> m_precommitted := True \<rparr>) = Some (r, c3)"
    "cache_ok L C s3 c3" by blast
  then show ?thesis using True into w s2(1) c2(1) s3(1) by (simp add: checkAndPreCommit_def sc [symmetric])
qed

lemma resetCache_ok:
  assumes "cache_ok L C s c"
  shows "\<exists>c'. resetCache C s view c = Some c' \<and> cache_ok L C s c'"
proof -
  obtain P where P: "reset_votes C s view (m_prepare c) = Some P" "votes_ok C s (m_index c) P" "vote_ptrs P \<subseteq> vote_ptrs (m_prepare c)"
    using reset_votes_ok cache_okD(2) [OF assms] unfolding votes_ok_def by blast
  obtain Q where Q: "reset_votes C s view (m_commit c) = Some Q" "votes_ok C s (m_index c) Q" "vote_ptrs Q \<subseteq> vote_ptrs (m_commit c)"
    using reset_votes_ok cache_okD(3) [OF assms] unfolding votes_ok_def by blast
  have "cache_ok L C s (c \<lparr> m_prepare := P \<rparr>)" using cache_ok_votes(1) [OF assms P(2), of "{}"] P(3) by auto
  then have "cache_ok L C s (c \<lparr> m_prepare := P, m_commit := Q \<rparr>)" using cache_ok_votes(2) [of L C s _ Q "{}"] Q(2,3) by auto
  then have "cache_ok L C s (c \<lparr> m_submitted := False, m_precommitted := False, m_prepare := P, m_commit := Q \<rparr>)"
    by (simp add: cache_ok_def cache_ptrs_def)
  then show ?thesis using P(1) Q(1) by (simp add: resetCache_def)
qed

lemma setCheckPointProposal_ok:
  assumes "cache_ok L C s c" and "st_proposals s pa = Some p" and "m_committedProposal C \<noteq> None"
  shows "\<exists>c'. setCheckPointProposal C s pa c = Some c' \<and> cache_ok L C s c'"
  using assms by (auto simp: setCheckPointProposal_def cache_ok_def cache_ptrs_def)

lemma checkAndCommitStableCheckPoint_ok:
  assumes "cache_ok L C s c" and "0 < m_minRequiredQuorum C" and "m_committedProposal C \<noteq> None"
  shows "\<exists>r c' s'. checkAndCommitStableCheckPoint C c s = Some (r, c', s') \<and> cache_ok L C s' c'"
proof (cases "m_stableCommitted c \<or> collectEnoughCheckpoint C s c = Some False")
  case True
  then show ?thesis using assms(1) by (auto simp: checkAndCommitStableCheckPoint_def)
next
  case False
  from False obtain pa where pa: "m_checkpointProposal c = Some pa"
    by (cases "m_checkpointProposal c") (auto simp: collectEnoughCheckpoint_def)
  obtain p where p: "st_proposals s pa = Some p" using cache_okD(11) [OF assms(1) pa] by blast
  have enough: "collectEnoughQuorum C (pp_hash p) (snd (m_checkpoint c))"
    using False pa p by (auto simp: collectEnoughCheckpoint_def)
  have "votes_stored s (m_index c) (m_checkpoint c)" "tally_ok C (m_checkpoint c)"
    using cache_okD(4) [OF assms(1)] unfolding votes_ok_def by blast+
  with collectEnoughQuorum_votes [OF enough assms(2)] setSignatureList_ok [OF p, of "m_checkpoint c" _ _ L]
  obtain s' where s': "setSignatureList pa (fst (m_checkpoint c)) s = Some s'" "evolves L {} s s'" by blast
  obtain p' where "st_proposals s' pa = Some p'" using evolves_proposal [OF s'(2) p] by blast
  moreover have "cache_ok L C s' (c \<lparr> m_stableCommitted := True \<rparr>)"
    using cache_ok_evolves [OF assms(1) s'(2)] by (simp add: cache_ok_def cache_ptrs_def)
  ultimately show ?thesis using False pa p enough s'(1) assms(3)
    by (auto simp: checkAndCommitStableCheckPoint_def collectEnoughCheckpoint_def)
qed

lemma onCheckPointTimeout_ok:
  assumes "cache_ok L C (cs_store x) (cs_cache x)" and "protobuf_ok L"
  shows "\<exists>y. onCheckPointTimeout L C now x = Some y \<and> cache_ok L C (cs_store y) (cs_cache y)"
proof (cases "m_checkpointProposal (cs_cache x)")
  case None
  then show ?thesis using assms(1) by (simp add: onCheckPointTimeout_def)
next
  case (Some pa)
  obtain p where p: "st_proposals (cs_store x) pa = Some p" using cache_okD(11) [OF assms(1) Some] by blast
  from populateSigned_ok [OF cache_okD(1) [OF assms(1)] p, of L CheckPoint 0 "m_view C" now "m_nodeIndex C" True]
  obtain a s1 m where s1: "populateSigned L CheckPoint 0 (m_view C) now (m_nodeIndex C) pa True (cs_store x) = Some (a, s1)"
    "evolves L {} (cs_store x) s1" "st_msgs s1 a = Some m" by blast
  from encode_pbft_ok [OF s1(3) assms(2), of 0] obtain rm s2 where s2: "encode_pbft L a 0 s1 = Some (rm, s2)" "evolves L {} s1 s2" by blast
  have "cache_ok L C s2 (cs_cache x)" using cache_ok_evolves [OF assms(1) evolves_trans [OF s1(2) s2(2)]] by simp
  then show ?thesis using Some s1(1) s2(1) by (simp add: onCheckPointTimeout_def)
qed

subsection \<open>Runs of a cache\<close>

text \<open>
  The calls a cache receives, in any order, each under the configuration of the moment.  Between them
  the rest of the engine creates objects and renews signatures (\<open>Elsewhere\<close>).
\<close>

datatype cache_event =
    Elsewhere pbft_store
  | AddPrePrepare ptr
  | AddPrepare ptr
  | AddCommit ptr
  | AddCheckPoint ptr
  | CheckAndPreCommit i64
  | CheckAndCommit
  | ResetCache u64
  | SetCheckPointProposal ptr
  | CheckStableCheckPoint
  | CheckPointTimeout i64

definition in_cache :: "cache_state \<Rightarrow> pbft_cache option \<Rightarrow> (bool \<times> cache_state) option" where
  "in_cache x r = do { c \<leftarrow> r; Some (True, x \<lparr> cs_cache := c \<rparr>) }"

fun cache_step :: "pbft_libs \<Rightarrow> pbft_config \<Rightarrow> cache_event \<Rightarrow> cache_state \<Rightarrow> (bool \<times> cache_state) option" where
  "cache_step L C (Elsewhere s) x = Some (True, x \<lparr> cs_store := s \<rparr>)"
| "cache_step L C (AddPrePrepare a) x = in_cache x (addPrePrepareCache (cs_store x) a (cs_cache x))"
| "cache_step L C (AddPrepare a) x = in_cache x (addPrepareCache C (cs_store x) a (cs_cache x))"
| "cache_step L C (AddCommit a) x = in_cache x (addCommitCache C (cs_store x) a (cs_cache x))"
| "cache_step L C (AddCheckPoint a) x = in_cache x (addCheckPointMsg C (cs_store x) a (cs_cache x))"
| "cache_step L C (CheckAndPreCommit now) x = checkAndPreCommit L C now x"
| "cache_step L C CheckAndCommit x = do { (r, c) \<leftarrow> checkAndCommit C (cs_store x) (cs_cache x); Some (r, x \<lparr> cs_cache := c \<rparr>) }"
| "cache_step L C (ResetCache view) x = in_cache x (resetCache C (cs_store x) view (cs_cache x))"
| "cache_step L C (SetCheckPointProposal a) x = in_cache x (setCheckPointProposal C (cs_store x) a (cs_cache x))"
| "cache_step L C CheckStableCheckPoint x = do {
     (r, c, s) \<leftarrow> checkAndCommitStableCheckPoint C (cs_cache x) (cs_store x); Some (r, x \<lparr> cs_cache := c, cs_store := s \<rparr>) }"
| "cache_step L C (CheckPointTimeout now) x = do { y \<leftarrow> onCheckPointTimeout L C now x; Some (True, y) }"

text \<open>What a caller has to see to: pointers to complete messages, no object in two roles.\<close>

definition complete_vote :: "ptr \<Rightarrow> cache_state \<Rightarrow> bool" where
  "complete_vote a x \<longleftrightarrow> (\<exists>m p. st_msgs (cs_store x) a = Some m \<and> proposal_of (cs_store x) m = Some p) \<and>
     m_prePrepare (cs_cache x) \<noteq> Some a \<and> m_precommit (cs_cache x) \<noteq> Some a"

fun admissible :: "pbft_libs \<Rightarrow> cache_event \<Rightarrow> cache_state \<Rightarrow> bool" where
  "admissible L (Elsewhere s) x \<longleftrightarrow> evolves L {} (cs_store x) s"
| "admissible L (AddPrePrepare a) x \<longleftrightarrow> proposed_ok L (cs_store x) a \<and> a \<notin> cache_ptrs (cs_cache x)"
| "admissible L (AddPrepare a) x \<longleftrightarrow> complete_vote a x"
| "admissible L (AddCommit a) x \<longleftrightarrow> complete_vote a x"
| "admissible L (AddCheckPoint a) x \<longleftrightarrow> complete_vote a x"
| "admissible L (SetCheckPointProposal a) x \<longleftrightarrow> st_proposals (cs_store x) a \<noteq> None"
| "admissible L _ x \<longleftrightarrow> True"

fun cache_run :: "pbft_libs \<Rightarrow> (pbft_config \<times> cache_event) list \<Rightarrow> cache_state \<Rightarrow> (bool list \<times> cache_state) option" where
  "cache_run L [] x = Some ([], x)"
| "cache_run L ((C, e) # es) x = do {
     (r, y) \<leftarrow> cache_step L C e x; (rs, z) \<leftarrow> cache_run L es y; Some (r # rs, z) }"

fun admissible_run :: "pbft_libs \<Rightarrow> (pbft_config \<times> cache_event) list \<Rightarrow> cache_state \<Rightarrow> bool" where
  "admissible_run L [] x \<longleftrightarrow> True"
| "admissible_run L ((C, e) # es) x \<longleftrightarrow> admissible L e x \<and>
     (case cache_step L C e x of None \<Rightarrow> True | Some (r, y) \<Rightarrow> admissible_run L es y)"

text \<open>Configurations of one committee: the view and the committed block may differ.\<close>

definition same_committee :: "pbft_config \<Rightarrow> pbft_config \<Rightarrow> bool" where
  "same_committee C C' \<longleftrightarrow> m_consensusNodeList C' = m_consensusNodeList C \<and>
     m_minRequiredQuorum C' = m_minRequiredQuorum C \<and> m_committedProposal C' \<noteq> None"

lemma cache_ok_committee:
  assumes "m_consensusNodeList C' = m_consensusNodeList C"
  shows "cache_ok L C' s c \<longleftrightarrow> cache_ok L C s c"
proof -
  have "node_weight C' = node_weight C" using assms by (simp add: fun_eq_iff node_weight_def getConsensusNodeByIndex_def)
  then have "tally_ok C' VW = tally_ok C VW" for VW :: "hash_type votes \<times> hash_type weights"
    using assms by (simp add: tally_ok_def)
  then show ?thesis by (simp add: cache_ok_def votes_ok_def)
qed

lemma cache_step_ok:
  assumes "cache_ok L C (cs_store x) (cs_cache x)" and "admissible L e x" and "0 < m_minRequiredQuorum C"
    and "m_committedProposal C \<noteq> None" and "protobuf_ok L"
  shows "\<exists>r y. cache_step L C e x = Some (r, y) \<and> cache_ok L C (cs_store y) (cs_cache y)"
proof (cases e)
  case (Elsewhere s)
  then show ?thesis using cache_ok_evolves [OF assms(1), of "{}" s] assms(2) by auto
next
  case (AddPrePrepare a)
  then show ?thesis using cache_ok_addPrePrepare [OF assms(1), of a] assms(2) by (auto simp: in_cache_def)
next
  case (AddPrepare a)
  then show ?thesis using cache_ok_add(1) [OF assms(1), of a] assms(2) by (fastforce simp: in_cache_def complete_vote_def)
next
  case (AddCommit a)
  then show ?thesis using cache_ok_add(2) [OF assms(1), of a] assms(2) by (fastforce simp: in_cache_def complete_vote_def)
next
  case (AddCheckPoint a)
  then show ?thesis using cache_ok_add(3) [OF assms(1), of a] assms(2) by (fastforce simp: in_cache_def complete_vote_def)
next
  case (CheckAndPreCommit now)
  then show ?thesis using checkAndPreCommit_ok [OF assms(1,3,5)] by simp
next
  case CheckAndCommit
  then show ?thesis using checkAndCommit_ok [OF assms(1)] by auto
next
  case (ResetCache view)
  then show ?thesis using resetCache_ok [OF assms(1), of view] by (auto simp: in_cache_def)
next
  case (SetCheckPointProposal a)
  then show ?thesis using setCheckPointProposal_ok [OF assms(1) _ assms(4), of a] assms(2) by (fastforce simp: in_cache_def)
next
  case CheckStableCheckPoint
  then show ?thesis using checkAndCommitStableCheckPoint_ok [OF assms(1,3,4)] by fastforce
next
  case (CheckPointTimeout now)
  then show ?thesis using onCheckPointTimeout_ok [OF assms(1,5), of now] by auto
qed

lemma cache_run_ok:
  assumes "cache_ok L C (cs_store x) (cs_cache x)" and "admissible_run L es x" and "0 < m_minRequiredQuorum C"
    and "\<forall>(C', e)\<in>set es. same_committee C C'" and "protobuf_ok L"
  shows "\<exists>rs y. cache_run L es x = Some (rs, y) \<and> cache_ok L C (cs_store y) (cs_cache y)"
  using assms(1,2,4)
proof (induction es arbitrary: x)
  case (Cons Ce es)
  obtain C' e where Ce: "Ce = (C', e)" by fastforce
  have committee: "m_consensusNodeList C' = m_consensusNodeList C" "0 < m_minRequiredQuorum C'" "m_committedProposal C' \<noteq> None"
    using Cons.prems(3) assms(3) Ce by (auto simp: same_committee_def)
  note same = cache_ok_committee [OF committee(1)]
  from cache_step_ok [of L C' x e] Cons.prems(1,2) Ce committee(2,3) assms(5)
  obtain r y where y: "cache_step L C' e x = Some (r, y)" "cache_ok L C (cs_store y) (cs_cache y)" by (auto simp: same)
  with Cons.IH [OF y(2)] Cons.prems(2,3) Ce show ?case by auto
qed simp


subsection \<open>Quorums\<close>

definition voters :: "'k votes \<times> 'k weights \<Rightarrow> 'k \<Rightarrow> u64 set" where
  "voters VW k = set (map fst (votes_at (fst VW) k))"

definition nodes_weight :: "pbft_config \<Rightarrow> u64 set \<Rightarrow> nat" where
  "nodes_weight C Q = (\<Sum>i\<in>Q. unat (node_weight C i))"

definition total_weight :: "pbft_config \<Rightarrow> nat" where
  "total_weight C = sum_list (map (unat \<circ> cn_weight) (m_consensusNodeList C))"

text \<open>The quorums are those \<open>updateQuorum\<close> computes, and the weights together fit into 64 bits.\<close>

definition committee_ok :: "pbft_config \<Rightarrow> bool" where
  "committee_ok C \<longleftrightarrow> 0 < total_weight C \<and> total_weight C < 2 ^ 64 \<and>
     m_maxFaultyQuorum C = m_maxFaultyQuorum (updateQuorum C) \<and> m_minRequiredQuorum C = m_minRequiredQuorum (updateQuorum C)"

lemma unat_sum_list_le: "unat (sum_list ws :: u64) \<le> sum_list (map unat ws)"
proof (induction ws)
  case (Cons w ws)
  have "unat (w + sum_list ws) \<le> unat w + unat (sum_list ws)" by (simp add: unat_word_ariths(1))
  with Cons show ?case by simp
qed simp

lemma unat_sum_list: "sum_list (map unat ws) < 2 ^ 64 \<Longrightarrow> unat (sum_list ws :: u64) = sum_list (map unat ws)"
proof (induction ws)
  case (Cons w ws)
  then have "unat (sum_list ws) = sum_list (map unat ws)" "unat w + sum_list (map unat ws) < 2 ^ 64" by simp_all
  then show ?case by (simp add: unat_word_ariths(1))
qed simp

lemma committee_quorums:
  assumes "committee_ok C"
  shows "unat (m_maxFaultyQuorum C) = (total_weight C - 1) div 3"
    "unat (m_minRequiredQuorum C) = total_weight C - (total_weight C - 1) div 3" "0 < m_minRequiredQuorum C"
proof -
  let ?total = "sum_list (map cn_weight (m_consensusNodeList C)) :: u64"
  have total: "unat ?total = total_weight C"
    using assms unat_sum_list [of "map cn_weight (m_consensusNodeList C)"] by (simp add: committee_ok_def total_weight_def)
  have "1 \<le> ?total" using assms total by (simp add: committee_ok_def word_le_nat_alt)
  then have minus: "unat (?total - 1) = total_weight C - 1" using total by (simp add: unat_sub)
  then show faulty: "unat (m_maxFaultyQuorum C) = (total_weight C - 1) div 3"
    using assms by (simp add: committee_ok_def updateQuorum_def Let_def unat_div)
  have "m_maxFaultyQuorum C \<le> ?total" using faulty total by (simp add: word_le_nat_alt)
  then show quorum: "unat (m_minRequiredQuorum C) = total_weight C - (total_weight C - 1) div 3"
    using assms faulty total by (simp add: committee_ok_def updateQuorum_def Let_def unat_sub)
  have "0 < total_weight C" using assms unfolding committee_ok_def by blast
  then have "0 < unat (m_minRequiredQuorum C)" unfolding quorum by linarith
  then show "0 < m_minRequiredQuorum C" by (simp add: word_less_nat_alt)
qed

lemma quorum_weight:
  assumes "tally_ok C VW" and "collectEnoughQuorum C k (snd VW)"
  shows "unat (m_minRequiredQuorum C) \<le> nodes_weight C (voters VW k)"
proof -
  let ?is = "map fst (votes_at (fst VW) k)"
  have "m_minRequiredQuorum C \<le> sum_list (map (node_weight C) ?is)"
    using assms tally_okD(4) [OF assms(1), of k] by (simp add: collectEnoughQuorum_def weight_at_def split: option.splits)
  then have "unat (m_minRequiredQuorum C) \<le> sum_list (map unat (map (node_weight C) ?is))"
    using unat_sum_list_le [of "map (node_weight C) ?is"] by (simp add: word_le_nat_alt)
  also have "\<dots> = nodes_weight C (voters VW k)"
    using sum_list_distinct_conv_sum_set [OF tally_okD(2) [OF assms(1)], of "\<lambda>i. unat (node_weight C i)" k]
    by (simp add: nodes_weight_def voters_def comp_def)
  finally show ?thesis .
qed

lemma nodes_weight_le:
  assumes "\<And>i. i \<in> Q \<Longrightarrow> unat i < length (m_consensusNodeList C)"
  shows "nodes_weight C Q \<le> total_weight C"
proof -
  let ?f = "\<lambda>n. unat (cn_weight (m_consensusNodeList C ! n))"
  have "nodes_weight C Q = (\<Sum>i\<in>Q. ?f (unat i))"
    unfolding nodes_weight_def by (rule sum.cong) (use assms in \<open>simp_all add: node_weight_def getConsensusNodeByIndex_def\<close>)
  also have "\<dots> = sum ?f (unat ` Q)" by (rule sum.reindex [symmetric, unfolded comp_def]) (simp add: inj_on_def word_unat_eq_iff)
  also have "\<dots> \<le> sum ?f {..<length (m_consensusNodeList C)}" by (rule sum_mono2) (use assms in auto)
  also have "\<dots> = total_weight C" by (simp add: total_weight_def sum_list_sum_nth atLeast0LessThan)
  finally show ?thesis .
qed

text \<open>Two quorums share more weight than the faulty nodes may have.\<close>

lemma quorum_intersection:
  assumes "committee_ok C"
    and "\<And>i. i \<in> Q \<Longrightarrow> unat i < length (m_consensusNodeList C)" "\<And>i. i \<in> Q' \<Longrightarrow> unat i < length (m_consensusNodeList C)"
    and "unat (m_minRequiredQuorum C) \<le> nodes_weight C Q" "unat (m_minRequiredQuorum C) \<le> nodes_weight C Q'"
  shows "unat (m_maxFaultyQuorum C) < nodes_weight C (Q \<inter> Q')"
proof -
  have "nodes_weight C Q + nodes_weight C Q' = nodes_weight C (Q \<union> Q') + nodes_weight C (Q \<inter> Q')"
    unfolding nodes_weight_def by (rule sum.union_inter [symmetric]) simp_all
  moreover have "nodes_weight C (Q \<union> Q') \<le> total_weight C" by (rule nodes_weight_le) (use assms(2,3) in blast)
  moreover have "0 < total_weight C" using assms(1) unfolding committee_ok_def by blast
  ultimately show ?thesis using assms(4,5) committee_quorums [OF assms(1)] by linarith
qed

lemma voters_bounded: "tally_ok C VW \<Longrightarrow> i \<in> voters VW k \<Longrightarrow> unat i < length (m_consensusNodeList C)"
  unfolding voters_def by (rule tally_okD(3))

subsection \<open>An example\<close>

text \<open>Four nodes of weight 1, so that three are a quorum; this node is the first.\<close>

definition example_libs :: pbft_libs where
  "example_libs = \<lparr> hash_of = id, sign_with = (\<lambda>h. 1 # h), verify_with = (\<lambda>k h sig. sig = k @ h),
     enc_base = (\<lambda>b. ucast (bm_view b) # ucast (bm_generatedFrom b) # bm_hash b),
     dec_base = (\<lambda>bs. Some (case bs of v # g # h \<Rightarrow> empty_base \<lparr> bm_view := ucast v, bm_generatedFrom := ucast g, bm_hash := h, bm_index := 7 \<rparr>
       | _ \<Rightarrow> empty_base)),
     enc_pbft = raw_signatureData, dec_pbft = (\<lambda>_. None), enc_view = bm_hash \<circ> rv_message, dec_view = (\<lambda>_. None) \<rparr>"

definition example_config :: pbft_config where
  "example_config = updateQuorum \<lparr> m_nodeID = [1],
     m_consensusNodeList = map (\<lambda>k. \<lparr> cn_nodeID = [k], cn_weight = 1 \<rparr>) [1, 2, 3, 4],
     m_nodeIndex = 0, m_consensusNodeNum = 4, m_totalQuorum = 0, m_maxFaultyQuorum = 0, m_minRequiredQuorum = 0,
     m_view = 5, m_toView = 5, m_committedProposal = Some (6, [6]), m_progressedIndex = 7, m_expectedCheckPoint = 7,
     m_lowWaterMark = 7, m_warterMarkLimit = 10, m_leaderSwitchPeriod = 1, m_syncingHighestNumber = 6,
     m_timeoutState = False, m_startRecovered = True, m_waitSealUntil = 0, m_waitResealUntil = 0, m_nodeUpdated = False \<rparr>"

definition example_message :: "packet_type \<Rightarrow> u64 \<Rightarrow> pbft_message" where
  "example_message t i = createPBFTMsg \<lparr> pb_packetType := t, pb_consensusProposal := Some 0,
     pb_base := empty_base \<lparr> bm_view := 5, bm_index := 7, bm_hash := [9], bm_generatedFrom := i \<rparr> \<rparr>"

text \<open>A pre-prepare at address 1, prepares of three nodes from 2 on, commits of two nodes from 5 on.\<close>

definition example_store :: pbft_store where
  "example_store = \<lparr>
     st_msgs = [1 \<mapsto> example_message PrePreparePacket 3, 2 \<mapsto> example_message PreparePacket 0,
       3 \<mapsto> example_message PreparePacket 1, 4 \<mapsto> example_message PreparePacket 2,
       5 \<mapsto> example_message CommitPacket 1, 6 \<mapsto> example_message CommitPacket 2],
     st_proposals = [0 \<mapsto> createPBFTProposal \<lparr> pp_index := 7, pp_hash := [9] \<rparr>],
     st_views = Map.empty, st_next = 7 \<rparr>"

definition example_calls :: "cache_event list" where
  "example_calls = [AddPrePrepare 1, AddPrepare 2, AddPrepare 3, AddPrepare 4, AddCommit 5, AddCommit 6, CheckAndPreCommit 100]"

definition example_start :: cache_state where
  "example_start = \<lparr> cs_cache = new_cache 7, cs_store = example_store, cs_sent = [] \<rparr>"

lemma example_libs_ok: "protobuf_ok example_libs"
  by (simp add: protobuf_ok_def example_libs_def)

lemma example_store_ok: "store_ok example_store"
  by (auto simp: store_ok_def example_store_def split: if_splits)

lemma example_quorum: "m_minRequiredQuorum example_config = 3"
  by code_simp

lemma example_committed: "map_option (\<lambda>(rs, y). (rs, m_submitted (cs_cache y), length (cs_sent y)))
    (cache_run example_libs (map (Pair example_config) example_calls) example_start) =
  Some ([True, True, True, True, True, True, True], True, 1)"
  by code_simp

text \<open>Adding a vote leaves the objects and the two proposals alone.\<close>

lemma add_votes_frame:
  "addPrepareCache C s a c = Some c' \<Longrightarrow> m_prePrepare c' = m_prePrepare c \<and> m_precommit c' = m_precommit c"
  "addCommitCache C s a c = Some c' \<Longrightarrow> m_prePrepare c' = m_prePrepare c \<and> m_precommit c' = m_precommit c"
  by (auto simp: addPrepareCache_def addCommitCache_def bind_eq_Some_conv)

lemma example_complete: "a \<in> {2, 3, 4, 5, 6} \<Longrightarrow> cs_store x = example_store \<Longrightarrow> m_prePrepare (cs_cache x) = Some 1 \<Longrightarrow>
    m_precommit (cs_cache x) = None \<Longrightarrow> complete_vote a x"
  by (auto simp: complete_vote_def example_store_def example_message_def proposal_of_def)

lemma example_admissible_votes:
  "\<forall>e\<in>set es. e \<in> AddPrepare ` {2, 3, 4} \<union> AddCommit ` {5, 6} \<Longrightarrow> cs_store x = example_store \<Longrightarrow>
   m_prePrepare (cs_cache x) = Some 1 \<Longrightarrow> m_precommit (cs_cache x) = None \<Longrightarrow>
   admissible_run L (map (Pair C) (es @ [CheckAndPreCommit now])) x"
proof (induction es arbitrary: x)
  case Nil
  then show ?case by (auto split: option.splits)
next
  case (Cons e es)
  then obtain a where "a \<in> {2, 3, 4, 5, 6}" "e = AddPrepare a \<or> e = AddCommit a" by auto
  with Cons show ?case
    by (auto simp: in_cache_def bind_eq_Some_conv intro!: example_complete dest!: add_votes_frame split: option.splits)
qed

lemma example_admissible: "admissible_run example_libs (map (Pair example_config) example_calls) example_start"
proof -
  have "admissible example_libs (AddPrePrepare 1) example_start"
    by (auto simp: example_start_def proposed_ok_def example_store_def example_message_def proposal_of_def
        example_libs_def cache_ptrs_def vote_ptrs_def new_cache_def votes_at_def)
  then show ?thesis
    using example_admissible_votes [of "[AddPrepare 2, AddPrepare 3, AddPrepare 4, AddCommit 5, AddCommit 6]"
        "example_start \<lparr> cs_cache := (new_cache 7) \<lparr> m_prePrepare := Some 1 \<rparr> \<rparr>" example_libs example_config 100]
    by (simp add: example_calls_def in_cache_def addPrePrepareCache_def example_start_def new_cache_def)
qed


end
