(* ===== verification/Libloki.thy ===== *)
theory Libloki
  imports PbftCache
begin

text \<open>
  The fuzzer of LOKI for FISCO BCOS (\<open>libloki\<close>): the state it keeps, how it chooses nodes and packets,
  how it mutates messages, and what it sends.

  The fuzzer holds the node's own message objects, so its mutations write to the \<open>store\<close> that the engine
  reads.  \<open>rand_from t n\<close> is the value of the \<open>n\<close>-th call of \<open>rand\<close> after \<open>srand(t)\<close>; the readings of the
  clock that seed it are a stream.
\<close>

subsection \<open>State\<close>

datatype package_type = PREPARE_REQ | SIGN_REQ | COMMIT_REQ | VIEWCHANGE_REQ

record loki_state =
  pbft_msg_packets :: "ptr list"
  preprepare_msg_packets :: "ptr list"
  prepare_msg_packets :: "ptr list"
  commit_msg_packets :: "ptr list"
  view_change_msgs :: "ptr list"
  cur_state :: int

definition State_new :: loki_state where
  "State_new = \<lparr> pbft_msg_packets = [], preprepare_msg_packets = [], prepare_msg_packets = [],
     commit_msg_packets = [], view_change_msgs = [], cur_state = - 1 \<rparr>"

definition add_pbft_msgs :: "ptr \<Rightarrow> loki_state \<Rightarrow> loki_state" where
  "add_pbft_msgs a st = st \<lparr> pbft_msg_packets := [a] \<rparr>"

definition add_preprepare_msgs :: "ptr \<Rightarrow> loki_state \<Rightarrow> loki_state" where
  "add_preprepare_msgs a st = st \<lparr> preprepare_msg_packets := [a] \<rparr>"

definition add_prepare_msgs :: "ptr \<Rightarrow> loki_state \<Rightarrow> loki_state" where
  "add_prepare_msgs a st = st \<lparr> prepare_msg_packets := [a] \<rparr>"

definition add_commit_msgs :: "ptr \<Rightarrow> loki_state \<Rightarrow> loki_state" where
  "add_commit_msgs a st = st \<lparr> commit_msg_packets := [a] \<rparr>"

definition add_view_change_msgs :: "ptr \<Rightarrow> loki_state \<Rightarrow> loki_state" where
  "add_view_change_msgs a st = st \<lparr> view_change_msgs := [a] \<rparr>"

definition set_cur_state :: "int \<Rightarrow> loki_state \<Rightarrow> loki_state" where
  "set_cur_state i st = st \<lparr> cur_state := i \<rparr>"

subsection \<open>Choosing nodes and packets\<close>

record loki_env =
  le_libs :: pbft_libs
  rand_from :: "nat \<Rightarrow> nat \<Rightarrow> nat"

definition random_send_nodes :: "loki_env \<Rightarrow> nat \<Rightarrow> node_id list \<Rightarrow> node_id list" where
  "random_send_nodes E t nodes = [k. (i, k) \<leftarrow> enumerate 0 nodes, even (rand_from E t i)]"

text \<open>
  \<open>PackageType(i)\<close>; a number that is no enumerator falls into the default branch of the only
  \<open>switch\<close> over it.
\<close>

definition PackageType :: "int \<Rightarrow> package_type option" where
  "PackageType i = (if i = 0 then Some PREPARE_REQ else if i = 1 then Some SIGN_REQ
     else if i = 2 then Some COMMIT_REQ else if i = 3 then Some VIEWCHANGE_REQ else None)"

definition choose_packet :: "int \<Rightarrow> nat \<Rightarrow> package_type option" where
  "choose_packet cur temp =
     (if cur = - 1 then PackageType (int temp mod 4)
      else if temp mod 5 \<le> 1 then PackageType ((cur + 1) mod 4)
      else if temp mod 5 = 2 then PackageType cur
      else if temp mod 5 = 3 then PackageType ((cur + 2) mod 4)
      else PackageType ((cur + 3) mod 4))"

definition random_send_protocol :: "loki_env \<Rightarrow> nat \<Rightarrow> loki_state \<Rightarrow> node_id list \<Rightarrow> package_type option list" where
  "random_send_protocol E t st nodes = map (\<lambda>i. choose_packet (cur_state st) (rand_from E t i)) [0..<length nodes]"

subsection \<open>Mutations\<close>

text \<open>The view and time stamp mutations, the same for all three kinds of messages.\<close>

definition mutate_view :: "nat \<Rightarrow> u64 \<Rightarrow> u64" where
  "mutate_view temp v = (if temp = 0 then v else if temp = 1 then v - 100 else if temp = 2 then v + 100
     else if temp = 3 then v - 1 else v + 1)"

definition mutate_timestamp :: "nat \<Rightarrow> i64 \<Rightarrow> i64" where
  "mutate_timestamp temp t = (if temp = 0 then t else if temp = 1 then t + 1000 else t - 1000)"

definition packet_types :: "packet_type list" where
  "packet_types = [PrePreparePacket, PreparePacket, CommitPacket, ViewChangePacket, NewViewPacket,
     CommittedProposalRequest, CommittedProposalResponse, PreparedProposalRequest, PreparedProposalResponse,
     CheckPoint, RecoverRequest, RecoverResponse]"

text \<open>
  The ten draws of \<open>mutatePbftMsg\<close> are made in any case; a sender, a version and a packet type drawn at
  random come after them, in this order, each only when needed.
\<close>

definition mutated_msg :: "(nat \<Rightarrow> nat) \<Rightarrow> pbft_message \<Rightarrow> pbft_message" where
  "mutated_msg r m =
     (let view_temp = r 0 mod 5; timestamp_temp = r 1 mod 3; version_temp = r 2 mod 3; from_temp = r 3 mod 3;
          change_view = even (r 4); change_hash = even (r 5); change_type = even (r 6);
          change_from = even (r 7); change_version = even (r 8); change_timestamp = even (r 9);
          n1 = (if change_from \<and> from_temp = 2 then 11 else 10);
          n2 = (if change_version \<and> version_temp = 2 then n1 + 1 else n1);
          b = pb_base m in
      m \<lparr> pb_base := b \<lparr>
            bm_view := (if change_view then mutate_view view_temp (bm_view b) else bm_view b),
            bm_timestamp := (if change_timestamp then mutate_timestamp timestamp_temp (bm_timestamp b) else bm_timestamp b),
            bm_generatedFrom := (if change_from then
                if from_temp = 0 then bm_generatedFrom b + 1
                else if from_temp = 1 then bm_generatedFrom b - 1 else of_nat (r 10)
              else bm_generatedFrom b),
            bm_hash := (if change_hash then zero_hash_type else bm_hash b),
            bm_version := (if change_version then
                if version_temp = 0 then bm_version b + 1
                else if version_temp = 1 then bm_version b - 1 else of_nat (r n1)
              else bm_version b) \<rparr>,
          pb_packetType := (if change_type then packet_types ! (r n2 mod 12) else pb_packetType m) \<rparr>)"

definition mutated_base :: "(nat \<Rightarrow> nat) \<Rightarrow> base_message \<Rightarrow> base_message" where
  "mutated_base r b =
     (let view_temp = r 0 mod 5; timestamp_temp = r 1 mod 3; change_view = even (r 2); change_timestamp = even (r 3) in
      b \<lparr> bm_view := (if change_view then mutate_view view_temp (bm_view b) else bm_view b),
          bm_timestamp := (if change_timestamp then mutate_timestamp timestamp_temp (bm_timestamp b) else bm_timestamp b) \<rparr>)"

record loki_world =
  lw_state :: loki_state
  lw_cur_view :: u64
  lw_store :: pbft_store
  lw_clock :: source
  lw_sent :: "(node_id list \<times> raw_message) list"

text \<open>\<open>srand(time(NULL))\<close>.\<close>

definition seed :: "loki_world \<Rightarrow> nat \<times> loki_world" where
  "seed w = (case draw (lw_clock w) of (t, clock) \<Rightarrow> (t, w \<lparr> lw_clock := clock \<rparr>))"

text \<open>The new message is the old one: \<open>new_msg = old_msg\<close> copies a pointer.\<close>

definition mutatePbftMsg :: "loki_env \<Rightarrow> ptr \<Rightarrow> loki_world \<Rightarrow> (ptr \<times> loki_world) option" where
  "mutatePbftMsg E a w = do {
     let (t, w) = seed w;
     m \<leftarrow> st_msgs (lw_store w) a;
     Some (a, w \<lparr> lw_store := set_msg a (mutated_msg (rand_from E t) m) (lw_store w) \<rparr>) }"

definition mutateViewChange :: "loki_env \<Rightarrow> ptr \<Rightarrow> loki_world \<Rightarrow> (ptr \<times> loki_world) option" where
  "mutateViewChange E a w = do {
     let (t, w) = seed w;
     v \<leftarrow> st_views (lw_store w) a;
     Some (a, w \<lparr> lw_store := set_view_change a (v \<lparr> vc_base := mutated_base (rand_from E t) (vc_base v) \<rparr>) (lw_store w) \<rparr>) }"

subsection \<open>Sending\<close>

definition sendToNodes :: "loki_env \<Rightarrow> node_id list \<Rightarrow> ptr \<Rightarrow> loki_world \<Rightarrow> loki_world option" where
  "sendToNodes E nodes a w = do {
     (rm, s) \<leftarrow> encode_pbft (le_libs E) a 0 (lw_store w);
     Some (w \<lparr> lw_store := s, lw_sent := lw_sent w @ [(nodes, rm)] \<rparr>) }"

definition sendViewChangeToNodes :: "loki_env \<Rightarrow> node_id list \<Rightarrow> ptr \<Rightarrow> loki_world \<Rightarrow> loki_world option" where
  "sendViewChangeToNodes E nodes a w = do {
     (rm, s) \<leftarrow> encode_view_change (le_libs E) a 0 (lw_store w);
     Some (w \<lparr> lw_store := s, lw_sent := lw_sent w @ [(nodes, rm)] \<rparr>) }"

definition send_mutated :: "loki_env \<Rightarrow> node_id list \<Rightarrow> ptr list \<Rightarrow> loki_world \<Rightarrow> loki_world option" where
  "send_mutated E nodes pool w = (case pool of
       old # _ \<Rightarrow> do { (new, w1) \<leftarrow> mutatePbftMsg E old w; sendToNodes E nodes new w1 }
     | [] \<Rightarrow> (case new_msg createPBFTMsg (lw_store w) of (a, s) \<Rightarrow> sendToNodes E nodes a (w \<lparr> lw_store := s \<rparr>)))"

definition send_mutated_view_change :: "loki_env \<Rightarrow> node_id list \<Rightarrow> ptr list \<Rightarrow> loki_world \<Rightarrow> loki_world option" where
  "send_mutated_view_change E nodes pool w = (case pool of
       old # _ \<Rightarrow> do { (new, w1) \<leftarrow> mutateViewChange E old w; sendViewChangeToNodes E nodes new w1 }
     | [] \<Rightarrow> (case new_view_change createViewChangeMsg (lw_store w) of (a, s) \<Rightarrow>
         sendViewChangeToNodes E nodes a (w \<lparr> lw_store := s \<rparr>)))"

definition send_packet :: "loki_env \<Rightarrow> node_id list \<Rightarrow> package_type option \<Rightarrow> loki_world \<Rightarrow> loki_world option" where
  "send_packet E nodes p w = (case p of
       Some PREPARE_REQ \<Rightarrow> send_mutated E nodes (preprepare_msg_packets (lw_state w)) w
     | Some SIGN_REQ \<Rightarrow> send_mutated E nodes (prepare_msg_packets (lw_state w)) w
     | Some COMMIT_REQ \<Rightarrow> send_mutated E nodes (commit_msg_packets (lw_state w)) w
     | Some VIEWCHANGE_REQ \<Rightarrow> send_mutated_view_change E nodes (view_change_msgs (lw_state w)) w
     | None \<Rightarrow> Some w)"

fun send_packets :: "loki_env \<Rightarrow> node_id list \<Rightarrow> package_type option list \<Rightarrow> loki_world \<Rightarrow> loki_world option" where
  "send_packets E nodes [] w = Some w"
| "send_packets E nodes (p # ps) w = do { w1 \<leftarrow> send_packet E nodes p w; send_packets E nodes ps w1 }"

text \<open>Numbers of nodes and packets that differ throw a \<open>runtime_error\<close>.\<close>

definition protocol_mutate :: "loki_env \<Rightarrow> pbft_config \<Rightarrow> loki_world \<Rightarrow> loki_world option" where
  "protocol_mutate E C w =
     (let (t, w1) = seed w;
          sending_nodes = random_send_nodes E t (consensusNodeIDList True C);
          (t', w2) = seed w1;
          chosen = random_send_protocol E t' (lw_state w2) sending_nodes in
      if length sending_nodes \<noteq> length chosen then None
      else send_packets E sending_nodes chosen w2)"

subsection \<open>Handlers\<close>

definition in_state :: "(loki_state \<Rightarrow> loki_state) \<Rightarrow> loki_world \<Rightarrow> loki_world" where
  "in_state f w = w \<lparr> lw_state := f (lw_state w) \<rparr>"

definition loki_handlePrePrepareMsg :: "loki_env \<Rightarrow> pbft_config \<Rightarrow> ptr \<Rightarrow> loki_world \<Rightarrow> loki_world option" where
  "loki_handlePrePrepareMsg E C a w = do {
     m \<leftarrow> st_msgs (lw_store w) a;
     protocol_mutate E C (in_state (set_cur_state 0 \<circ> add_preprepare_msgs a \<circ> add_pbft_msgs a)
       (w \<lparr> lw_cur_view := pb_view m \<rparr>)) }"

definition loki_handlePrepareMsg :: "loki_env \<Rightarrow> pbft_config \<Rightarrow> ptr \<Rightarrow> loki_world \<Rightarrow> loki_world option" where
  "loki_handlePrepareMsg E C a w = do {
     m \<leftarrow> st_msgs (lw_store w) a;
     protocol_mutate E C (in_state (set_cur_state 1 \<circ> add_prepare_msgs a \<circ> add_pbft_msgs a)
       (w \<lparr> lw_cur_view := pb_view m \<rparr>)) }"

definition loki_handleCommitMsg :: "loki_env \<Rightarrow> pbft_config \<Rightarrow> ptr \<Rightarrow> loki_world \<Rightarrow> loki_world option" where
  "loki_handleCommitMsg E C a w = do {
     m \<leftarrow> st_msgs (lw_store w) a;
     protocol_mutate E C (in_state (set_cur_state 2 \<circ> add_commit_msgs a \<circ> add_pbft_msgs a)
       (w \<lparr> lw_cur_view := pb_view m \<rparr>)) }"

definition loki_handleViewChangeMsg :: "loki_env \<Rightarrow> pbft_config \<Rightarrow> ptr \<Rightarrow> loki_world \<Rightarrow> loki_world option" where
  "loki_handleViewChangeMsg E C a w = protocol_mutate E C (in_state (set_cur_state 3 \<circ> add_view_change_msgs a) w)"

definition loki_handleNewViewMsg :: "loki_env \<Rightarrow> pbft_config \<Rightarrow> loki_world \<Rightarrow> loki_world option" where
  "loki_handleNewViewMsg E C w = protocol_mutate E C (in_state (set_cur_state 4) w)"

definition loki_handleCheckPointMsg :: "loki_env \<Rightarrow> pbft_config \<Rightarrow> ptr \<Rightarrow> loki_world \<Rightarrow> loki_world option" where
  "loki_handleCheckPointMsg E C a w = protocol_mutate E C (in_state (set_cur_state 5 \<circ> add_pbft_msgs a) w)"

definition loki_handleRecoverRequest :: "loki_env \<Rightarrow> pbft_config \<Rightarrow> ptr \<Rightarrow> loki_world \<Rightarrow> loki_world option" where
  "loki_handleRecoverRequest E C a w = protocol_mutate E C (in_state (set_cur_state 6 \<circ> add_pbft_msgs a) w)"

definition loki_handleRecoverResponse :: "loki_env \<Rightarrow> pbft_config \<Rightarrow> ptr \<Rightarrow> loki_world \<Rightarrow> loki_world option" where
  "loki_handleRecoverResponse E C a w = protocol_mutate E C (in_state (set_cur_state 7 \<circ> add_pbft_msgs a) w)"

text \<open>
  The thread that sends without having received anything works on a copy of the fuzzer made when the
  engine is constructed.
\<close>

definition initiative_iteration :: "loki_env \<Rightarrow> pbft_config \<Rightarrow> loki_world \<Rightarrow> loki_world option" where
  "initiative_iteration E C w = do {
     w1 \<leftarrow> protocol_mutate E C (w \<lparr> lw_state := State_new \<rparr>);
     Some (w1 \<lparr> lw_state := lw_state w \<rparr>) }"

end
