(* ===== verification/PbftEngine.thy ===== *)
theory PbftEngine
  imports Libloki
begin

text \<open>
  The normal case of the PBFT engine of FISCO BCOS: the caches of all block numbers with the queues
  of committed proposals and stable checkpoints (\<open>PBFTCacheProcessor\<close>), and the handlers of
  pre-prepare, prepare, commit and checkpoint messages (\<open>PBFTEngine\<close>), with the calls into the fuzzer.

  The validator and the state machine answer later; a request waits in \<open>nd_verifying\<close> or
  \<open>nd_applying\<close>.  Notifications of the sealer, the transaction pool and the sync module are left out, and so
  are the timers with the view changes they start.
\<close>

subsection \<open>The node\<close>

record pbft_node =
  nd_config :: pbft_config
  nd_store :: pbft_store
  nd_caches :: "(block_number \<times> pbft_cache) list"
  nd_executing :: "(hash_type \<times> block_number) list"
  nd_committedQueue :: "(block_number \<times> ptr) list"
  nd_committedList :: "block_number list"
  nd_stableQueue :: "(block_number \<times> ptr) list"
  nd_verifying :: "(ptr \<times> bool) list"
  nd_applying :: "ptr list"
  nd_stored :: "ptr list"
  nd_sent :: "(node_id list \<times> raw_message) list"
  nd_loki :: loki_state
  nd_cur_view :: u64
  nd_clock :: source

text \<open>A call of the node's fuzzer.\<close>

definition with_loki :: "(loki_world \<Rightarrow> loki_world option) \<Rightarrow> pbft_node \<Rightarrow> pbft_node option" where
  "with_loki f N = do {
     w \<leftarrow> f \<lparr> lw_state = nd_loki N, lw_cur_view = nd_cur_view N, lw_store = nd_store N, lw_clock = nd_clock N, lw_sent = nd_sent N \<rparr>;
     Some (N \<lparr> nd_loki := lw_state w, nd_cur_view := lw_cur_view w, nd_store := lw_store w, nd_clock := lw_clock w, nd_sent := lw_sent w \<rparr>) }"

definition fuzz_msg :: "loki_env \<Rightarrow> ptr \<Rightarrow> pbft_node \<Rightarrow> pbft_node option" where
  "fuzz_msg E a = with_loki (\<lambda>w. do { (_, w1) \<leftarrow> mutatePbftMsg E a w; Some w1 })"

text \<open>Encoding and sending to the other consensus nodes.\<close>

definition broadcast :: "loki_env \<Rightarrow> ptr \<Rightarrow> pbft_node \<Rightarrow> pbft_node option" where
  "broadcast E a N = do {
     (rm, s) \<leftarrow> encode_pbft (le_libs E) a 0 (nd_store N);
     Some (N \<lparr> nd_store := s, nd_sent := nd_sent N @ [(consensusNodeIDList True (nd_config N), rm)] \<rparr>) }"

subsection \<open>The cache processor\<close>

text \<open>Maps and queues in the order of block numbers.\<close>

fun put_at :: "block_number \<Rightarrow> 'a \<Rightarrow> (block_number \<times> 'a) list \<Rightarrow> (block_number \<times> 'a) list" where
  "put_at i x [] = [(i, x)]"
| "put_at i x ((j, y) # xs) = (if i < j then (i, x) # (j, y) # xs else if i = j then (i, x) # xs else (j, y) # put_at i x xs)"

fun push_at :: "block_number \<Rightarrow> 'a \<Rightarrow> (block_number \<times> 'a) list \<Rightarrow> (block_number \<times> 'a) list" where
  "push_at i x [] = [(i, x)]"
| "push_at i x ((j, y) # xs) = (if i < j then (i, x) # (j, y) # xs else (j, y) # push_at i x xs)"

definition ask_cache :: "(pbft_cache \<Rightarrow> bool option) \<Rightarrow> ptr \<Rightarrow> pbft_node \<Rightarrow> bool option" where
  "ask_cache f a N = do {
     m \<leftarrow> st_msgs (nd_store N) a;
     case map_of (nd_caches N) (pb_index m) of None \<Rightarrow> Some False | Some c \<Rightarrow> f c }"

definition cp_existPrePrepare :: "ptr \<Rightarrow> pbft_node \<Rightarrow> bool option" where
  "cp_existPrePrepare a N = ask_cache (existPrePrepare (nd_store N) a) a N"

definition cp_conflictWithProcessedReq :: "ptr \<Rightarrow> pbft_node \<Rightarrow> bool option" where
  "cp_conflictWithProcessedReq a N = ask_cache (conflictWithProcessedReq (nd_config N) (nd_store N) a) a N"

definition cp_conflictWithPrecommitReq :: "ptr \<Rightarrow> pbft_node \<Rightarrow> bool option" where
  "cp_conflictWithPrecommitReq a N = ask_cache (conflictWithPrecommitReq (nd_config N) (nd_store N) a) a N"

definition cp_addCache :: "(pbft_cache \<Rightarrow> pbft_cache option) \<Rightarrow> ptr \<Rightarrow> pbft_node \<Rightarrow> pbft_node option" where
  "cp_addCache f a N = do {
     m \<leftarrow> st_msgs (nd_store N) a;
     c \<leftarrow> f (case map_of (nd_caches N) (pb_index m) of None \<Rightarrow> new_cache (pb_index m) | Some c \<Rightarrow> c);
     Some (N \<lparr> nd_caches := put_at (pb_index m) c (nd_caches N) \<rparr>) }"

definition cp_addPrePrepareCache :: "ptr \<Rightarrow> pbft_node \<Rightarrow> pbft_node option" where
  "cp_addPrePrepareCache a N = cp_addCache (addPrePrepareCache (nd_store N) a) a N"

definition cp_addPrepareCache :: "ptr \<Rightarrow> pbft_node \<Rightarrow> pbft_node option" where
  "cp_addPrepareCache a N = cp_addCache (addPrepareCache (nd_config N) (nd_store N) a) a N"

definition cp_addCommitReq :: "ptr \<Rightarrow> pbft_node \<Rightarrow> pbft_node option" where
  "cp_addCommitReq a N = cp_addCache (addCommitCache (nd_config N) (nd_store N) a) a N"

definition cp_addCheckPointMsg :: "ptr \<Rightarrow> pbft_node \<Rightarrow> pbft_node option" where
  "cp_addCheckPointMsg a N = cp_addCache (addCheckPointMsg (nd_config N) (nd_store N) a) a N"

text \<open>The proposal a block number was executed to, which the next one builds on.\<close>

definition getAppliedCheckPointProposal :: "block_number \<Rightarrow> pbft_node \<Rightarrow> bool option" where
  "getAppliedCheckPointProposal i N = do {
     p \<leftarrow> m_committedProposal (nd_config N);
     Some (i = fst p \<or> (case map_of (nd_caches N) i of None \<Rightarrow> False | Some c \<Rightarrow> m_checkpointProposal c \<noteq> None)) }"

definition tryToApplyCommitQueue :: "pbft_node \<Rightarrow> (bool \<times> pbft_node) option" where
  "tryToApplyCommitQueue N =
     (let expected = m_expectedCheckPoint (nd_config N);
          q = dropWhile (\<lambda>(i, _). i < expected) (nd_committedQueue N);
          N1 = N \<lparr> nd_committedQueue := q \<rparr> in
      case q of
        [] \<Rightarrow> Some (False, N1)
      | (i, pa) # rest \<Rightarrow>
          if i \<noteq> expected then Some (False, N1) else do {
          applied \<leftarrow> getAppliedCheckPointProposal (expected - 1) N1;
          p \<leftarrow> st_proposals (nd_store N1) pa;
          if \<not> applied then Some (False, N1)
          else if map_of (nd_executing N1) (pp_hash p) \<noteq> None then Some (False, N1)
          else Some (True, N1 \<lparr> nd_committedQueue := rest, nd_executing := AList.update (pp_hash p) (pp_index p) (nd_executing N1),
            nd_applying := nd_applying N1 @ [pa] \<rparr>) })"

definition updateCommitQueue :: "ptr \<Rightarrow> pbft_node \<Rightarrow> pbft_node option" where
  "updateCommitQueue pa N = do {
     p \<leftarrow> st_proposals (nd_store N) pa;
     if map_of (nd_executing N) (pp_hash p) \<noteq> None then Some N else do {
     (_, N1) \<leftarrow> tryToApplyCommitQueue (N \<lparr> nd_committedQueue := push_at (pp_index p) pa (nd_committedQueue N),
       nd_committedList := List.insert (pp_index p) (nd_committedList N) \<rparr>);
     Some N1 } }"

definition commit_proposal :: "pbft_cache \<Rightarrow> pbft_node \<Rightarrow> pbft_node option" where
  "commit_proposal c N = do {
     b \<leftarrow> m_precommit c; m \<leftarrow> st_msgs (nd_store N) b; pa \<leftarrow> pb_consensusProposal m; updateCommitQueue pa N }"

definition precommit_one :: "loki_env \<Rightarrow> i64 \<Rightarrow> block_number \<Rightarrow> pbft_node \<Rightarrow> pbft_node option" where
  "precommit_one E now i N = do {
     c \<leftarrow> map_of (nd_caches N) i;
     (ret, x) \<leftarrow> checkAndPreCommit (le_libs E) (nd_config N) now \<lparr> cs_cache = c, cs_store = nd_store N, cs_sent = [] \<rparr>;
     let N1 = N \<lparr> nd_caches := put_at i (cs_cache x) (nd_caches N), nd_store := cs_store x,
       nd_sent := nd_sent N @ map (Pair (consensusNodeIDList True (nd_config N))) (cs_sent x) \<rparr>;
     if ret then commit_proposal (cs_cache x) N1 else Some N1 }"

definition commit_one :: "block_number \<Rightarrow> pbft_node \<Rightarrow> pbft_node option" where
  "commit_one i N = do {
     c \<leftarrow> map_of (nd_caches N) i;
     (ret, c1) \<leftarrow> checkAndCommit (nd_config N) (nd_store N) c;
     let N1 = N \<lparr> nd_caches := put_at i c1 (nd_caches N) \<rparr>;
     if ret then do { N2 \<leftarrow> commit_proposal c1 N1; Some (N2 \<lparr> nd_config := resetToView (nd_config N2) \<rparr>) }
     else Some N1 }"

fun each_cache :: "(block_number \<Rightarrow> pbft_node \<Rightarrow> pbft_node option) \<Rightarrow> block_number list \<Rightarrow> pbft_node \<Rightarrow> pbft_node option" where
  "each_cache f [] N = Some N"
| "each_cache f (i # is) N = do { N1 \<leftarrow> f i N; each_cache f is N1 }"

definition cp_checkAndPreCommit :: "loki_env \<Rightarrow> i64 \<Rightarrow> pbft_node \<Rightarrow> pbft_node option" where
  "cp_checkAndPreCommit E now N = each_cache (precommit_one E now) (map fst (nd_caches N)) N"

definition cp_checkAndCommit :: "pbft_node \<Rightarrow> pbft_node option" where
  "cp_checkAndCommit N = each_cache commit_one (map fst (nd_caches N)) N"

definition tryToCommitStableCheckPoint :: "pbft_node \<Rightarrow> pbft_node option" where
  "tryToCommitStableCheckPoint N = do {
     p \<leftarrow> m_committedProposal (nd_config N);
     let old = takeWhile (\<lambda>(i, _). i \<le> fst p) (nd_stableQueue N);
     let q = dropWhile (\<lambda>(i, _). i \<le> fst p) (nd_stableQueue N);
     let N1 = N \<lparr> nd_stableQueue := q, nd_committedList := filter (\<lambda>i. i \<notin> set (map fst old)) (nd_committedList N) \<rparr>;
     Some (case q of
       (i, pa) # rest \<Rightarrow> if i = fst p + 1 then N1 \<lparr> nd_stableQueue := rest,
           nd_committedList := removeAll i (nd_committedList N1), nd_stored := nd_stored N1 @ [pa] \<rparr> else N1
     | [] \<Rightarrow> N1) }"

definition updateStableCheckPointQueue :: "ptr \<Rightarrow> pbft_node \<Rightarrow> pbft_node option" where
  "updateStableCheckPointQueue pa N = do {
     p \<leftarrow> st_proposals (nd_store N) pa;
     tryToCommitStableCheckPoint (N \<lparr> nd_stableQueue := push_at (pp_index p) pa (nd_stableQueue N) \<rparr>) }"

fun stable_caches :: "block_number list \<Rightarrow> pbft_node \<Rightarrow> (ptr list \<times> pbft_node) option" where
  "stable_caches [] N = Some ([], N)"
| "stable_caches (i # is) N = do {
     c \<leftarrow> map_of (nd_caches N) i;
     (ret, c1, s1) \<leftarrow> checkAndCommitStableCheckPoint (nd_config N) c (nd_store N);
     (pas, N1) \<leftarrow> stable_caches is (N \<lparr> nd_caches := put_at i c1 (nd_caches N), nd_store := s1 \<rparr>);
     if ret then do { pa \<leftarrow> m_checkpointProposal c1; Some (pa # pas, N1) } else Some (pas, N1) }"

fun each_stable :: "ptr list \<Rightarrow> pbft_node \<Rightarrow> pbft_node option" where
  "each_stable [] N = Some N"
| "each_stable (pa # pas) N = do { N1 \<leftarrow> updateStableCheckPointQueue pa N; each_stable pas N1 }"

definition cp_checkAndCommitStableCheckPoint :: "pbft_node \<Rightarrow> pbft_node option" where
  "cp_checkAndCommitStableCheckPoint N = do {
     (pas, N1) \<leftarrow> stable_caches (map fst (nd_caches N)) N; each_stable pas N1 }"

definition cp_setCheckPointProposal :: "ptr \<Rightarrow> pbft_node \<Rightarrow> pbft_node option" where
  "cp_setCheckPointProposal pa N = do {
     p \<leftarrow> st_proposals (nd_store N) pa;
     c \<leftarrow> setCheckPointProposal (nd_config N) (nd_store N) pa
       (case map_of (nd_caches N) (pp_index p) of None \<Rightarrow> new_cache (pp_index p) | Some c \<Rightarrow> c);
     Some (N \<lparr> nd_caches := put_at (pp_index p) c (nd_caches N) \<rparr>) }"

definition removeConsensusedCache :: "block_number \<Rightarrow> pbft_node \<Rightarrow> pbft_node" where
  "removeConsensusedCache n N =
     N \<lparr> nd_caches := filter (\<lambda>(i, c). \<not> (i \<le> n \<or> m_stableCommitted c)) (nd_caches N) \<rparr>"

fun reset_each :: "pbft_config \<Rightarrow> pbft_store \<Rightarrow> u64 \<Rightarrow> (block_number \<times> pbft_cache) list \<Rightarrow> (block_number \<times> pbft_cache) list option" where
  "reset_each C s view [] = Some []"
| "reset_each C s view ((i, c) # cs) = do { c1 \<leftarrow> resetCache C s view c; cs1 \<leftarrow> reset_each C s view cs; Some ((i, c1) # cs1) }"

subsection \<open>Checking messages\<close>

definition isSyncingHigher :: "pbft_config \<Rightarrow> bool option" where
  "isSyncingHigher C = do { p \<leftarrow> m_committedProposal C; Some (m_syncingHighestNumber C \<ge> fst p + m_warterMarkLimit C) }"

definition checkPBFTMsgState :: "ptr \<Rightarrow> pbft_node \<Rightarrow> bool option" where
  "checkPBFTMsgState a N = do {
     m \<leftarrow> st_msgs (nd_store N) a;
     let C = nd_config N;
     Some (pb_consensusProposal m \<noteq> None \<and>
       \<not> (pb_index m < m_lowWaterMark C \<or> pb_index m < m_expectedCheckPoint C \<or> pb_index m \<ge> highWaterMark C \<or>
          pb_index m \<le> m_syncingHighestNumber C \<or> pb_index m \<in> set (nd_committedList N)) \<and>
       \<not> pb_view m < m_view C) }"

definition checkPrePrepareMsg :: "ptr \<Rightarrow> pbft_node \<Rightarrow> bool option" where
  "checkPrePrepareMsg a N = do {
     ok \<leftarrow> checkPBFTMsgState a N;
     if \<not> ok then Some False else do {
     exist \<leftarrow> cp_existPrePrepare a N;
     if exist then Some False else do {
     conflict \<leftarrow> cp_conflictWithProcessedReq a N;
     if conflict then Some False else do {
     conflict \<leftarrow> cp_conflictWithPrecommitReq a N;
     Some (\<not> conflict) } } } }"

definition checkSignature :: "pbft_libs \<Rightarrow> pbft_config \<Rightarrow> pbft_message \<Rightarrow> bool" where
  "checkSignature L C m = (case getConsensusNodeByIndex C (pb_generatedFrom m) of
       None \<Rightarrow> False
     | Some n \<Rightarrow> verify_with L (cn_nodeID n) (pb_signatureDataHash m) (pb_signatureData m))"

definition checkProposalSignature :: "pbft_libs \<Rightarrow> pbft_config \<Rightarrow> u64 \<Rightarrow> pbft_proposal option \<Rightarrow> bool" where
  "checkProposalSignature L C from p = (case p of
       None \<Rightarrow> False
     | Some q \<Rightarrow> pp_signature q \<noteq> [] \<and> (case getConsensusNodeByIndex C from of
           None \<Rightarrow> False
         | Some n \<Rightarrow> verify_with L (cn_nodeID n) (pp_hash q) (pp_signature q)))"

definition checkPBFTMsg :: "pbft_libs \<Rightarrow> ptr \<Rightarrow> pbft_node \<Rightarrow> bool option" where
  "checkPBFTMsg L a N = do {
     ok \<leftarrow> checkPBFTMsgState a N;
     m \<leftarrow> st_msgs (nd_store N) a;
     if \<not> ok then Some False
     else if pb_generatedFrom m = m_nodeIndex (nd_config N) then Some False else do {
     exist \<leftarrow> cp_existPrePrepare a N;
     conflict \<leftarrow> (if exist then cp_conflictWithProcessedReq a N else Some False);
     if conflict then Some False else Some (checkSignature L (nd_config N) m) } }"

subsection \<open>Handlers\<close>

definition broadcastPrepareMsg :: "loki_env \<Rightarrow> i64 \<Rightarrow> ptr \<Rightarrow> pbft_node \<Rightarrow> pbft_node option" where
  "broadcastPrepareMsg E now a N = do {
     pre \<leftarrow> st_msgs (nd_store N) a; pa \<leftarrow> pb_consensusProposal pre;
     (b, s) \<leftarrow> populateSigned (le_libs E) PreparePacket 0 (m_view (nd_config N)) now (m_nodeIndex (nd_config N)) pa True (nd_store N);
     m \<leftarrow> st_msgs s b;
     let s1 = set_msg b (m \<lparr> pb_base := (pb_base m) \<lparr> bm_index := pb_index pre \<rparr> \<rparr>) s;
     N1 \<leftarrow> cp_addPrepareCache b (N \<lparr> nd_store := s1 \<rparr>);
     N2 \<leftarrow> fuzz_msg E b N1;
     N3 \<leftarrow> broadcast E b N2;
     cp_checkAndPreCommit E now N3 }"

definition handlePrePrepareMsg :: "loki_env \<Rightarrow> i64 \<Rightarrow> ptr \<Rightarrow> bool \<Rightarrow> bool \<Rightarrow> bool \<Rightarrow> pbft_node \<Rightarrow> (bool \<times> pbft_node) option" where
  "handlePrePrepareMsg E now a needVerifyProposal generatedFromNewView needCheckSignature N = do {
     syncing \<leftarrow> isSyncingHigher (nd_config N);
     m \<leftarrow> st_msgs (nd_store N) a;
     if syncing then Some (False, N)
     else if map_of (nd_executing N) (pb_hash m) \<noteq> None then Some (False, N) else do {
     ok \<leftarrow> checkPrePrepareMsg a N;
     if \<not> ok then Some (False, N)
     else if \<not> generatedFromNewView \<and> leaderIndex (nd_config N) (pb_index m) \<noteq> pb_generatedFrom m then Some (False, N)
     else if \<not> generatedFromNewView \<and> needCheckSignature \<and> \<not> checkSignature (le_libs E) (nd_config N) m then Some (False, N)
     else if \<not> needVerifyProposal then do {
       N1 \<leftarrow> cp_addPrePrepareCache a N;
       N2 \<leftarrow> broadcastPrepareMsg E now a N1;
       N3 \<leftarrow> cp_checkAndPreCommit E now N2;
       Some (True, N3) }
     else case getConsensusNodeByIndex (nd_config N) (pb_generatedFrom m) of
         None \<Rightarrow> Some (False, N)
       | Some _ \<Rightarrow> Some (True, N \<lparr> nd_verifying := nd_verifying N @ [(a, generatedFromNewView)] \<rparr>) } }"

text \<open>The answer of the validator for a pre-prepare; the answers come in any order.\<close>

definition onVerifyFinished :: "loki_env \<Rightarrow> i64 \<Rightarrow> nat \<Rightarrow> bool \<Rightarrow> pbft_node \<Rightarrow> pbft_node option" where
  "onVerifyFinished E now k result N =
     (if k < length (nd_verifying N) then
        (case nd_verifying N ! k of (a, fromNewView) \<Rightarrow>
         let N1 = N \<lparr> nd_verifying := take k (nd_verifying N) @ drop (Suc k) (nd_verifying N) \<rparr> in do {
         m \<leftarrow> st_msgs (nd_store N1) a; p \<leftarrow> m_committedProposal (nd_config N1);
         if fst p \<ge> pb_index m then Some N1
         else if \<not> result then Some N1
         else do { (_, N2) \<leftarrow> handlePrePrepareMsg E now a False fromNewView False N1; Some N2 } })
      else Some N)"

definition handlePrepareMsg :: "loki_env \<Rightarrow> i64 \<Rightarrow> ptr \<Rightarrow> pbft_node \<Rightarrow> (bool \<times> pbft_node) option" where
  "handlePrepareMsg E now a N = do {
     ok \<leftarrow> checkPBFTMsg (le_libs E) a N;
     m \<leftarrow> st_msgs (nd_store N) a;
     if \<not> ok then Some (False, N)
     else if \<not> checkProposalSignature (le_libs E) (nd_config N) (pb_generatedFrom m) (proposal_of (nd_store N) m) then Some (False, N)
     else do {
     N1 \<leftarrow> cp_addPrepareCache a N;
     N2 \<leftarrow> cp_checkAndPreCommit E now N1;
     Some (True, N2) } }"

definition handleCommitMsg :: "loki_env \<Rightarrow> ptr \<Rightarrow> pbft_node \<Rightarrow> (bool \<times> pbft_node) option" where
  "handleCommitMsg E a N = do {
     ok \<leftarrow> checkPBFTMsg (le_libs E) a N;
     if \<not> ok then Some (False, N)
     else do {
     N1 \<leftarrow> cp_addCommitReq a N;
     N2 \<leftarrow> cp_checkAndCommit N1;
     Some (True, N2) } }"

text \<open>
  Whether to ask the sender of a checkpoint message for the proposal.  With f+1 such messages the block number is
  marked, so that it is asked for once.
\<close>

definition shouldRequestCheckPoint :: "ptr \<Rightarrow> pbft_node \<Rightarrow> (bool \<times> pbft_node) option" where
  "shouldRequestCheckPoint a N = do {
     m \<leftarrow> st_msgs (nd_store N) a; p \<leftarrow> m_committedProposal (nd_config N);
     let i = pb_index m;
     let C = nd_config N;
     if i \<le> fst p \<or> i \<le> m_syncingHighestNumber C then Some (False, N)
     else if i \<in> set (nd_committedList N) then Some (False, N)
     else Some (case map_of (nd_caches N) i of
         None \<Rightarrow> (m_timeoutState C, N)
       | Some c \<Rightarrow> if m_checkpointProposal c \<noteq> None then (False, N)
           else if m_timeoutState C then (True, N)
           else if m_precommitted c then (False, N)
           else if getCollectedCheckPointWeight c (pb_hash m) < m_maxFaultyQuorum C + 1 then (False, N)
           else (True, N \<lparr> nd_committedList := List.insert i (nd_committedList N) \<rparr>)) }"

text \<open>The request itself, which goes to the log synchronization, is left out.\<close>

definition handleCheckPointMsg :: "loki_env \<Rightarrow> ptr \<Rightarrow> pbft_node \<Rightarrow> (bool \<times> pbft_node) option" where
  "handleCheckPointMsg E a N = do {
     m \<leftarrow> st_msgs (nd_store N) a; p \<leftarrow> m_committedProposal (nd_config N); syncing \<leftarrow> isSyncingHigher (nd_config N);
     if pb_index m \<le> fst p then Some (False, N)
     else if syncing then Some (False, N)
     else if \<not> checkSignature (le_libs E) (nd_config N) m then Some (False, N)
     else if \<not> checkProposalSignature (le_libs E) (nd_config N) (pb_generatedFrom m) (proposal_of (nd_store N) m) then Some (False, N)
     else do {
     N1 \<leftarrow> cp_addCheckPointMsg a N;
     (_, N2) \<leftarrow> tryToApplyCommitQueue N1;
     N3 \<leftarrow> cp_checkAndCommitStableCheckPoint N2;
     (_, N4) \<leftarrow> shouldRequestCheckPoint a N3;
     Some (True, N4) } }"

text \<open>
  The switch of \<open>handleMsg\<close> for these packets; the fuzzer comes first.  The queue a message waits in before,
  and the order in which a busy engine takes messages from it, only decide when it arrives here.
\<close>

definition handleMsg :: "loki_env \<Rightarrow> i64 \<Rightarrow> ptr \<Rightarrow> pbft_node \<Rightarrow> pbft_node option" where
  "handleMsg E now a N = do {
     m \<leftarrow> st_msgs (nd_store N) a;
     if pb_view m > MaxView then Some N
     else case pb_packetType m of
       PrePreparePacket \<Rightarrow> do {
         N1 \<leftarrow> with_loki (loki_handlePrePrepareMsg E (nd_config N) a) N;
         (_, N2) \<leftarrow> handlePrePrepareMsg E now a True False True N1; Some N2 }
     | PreparePacket \<Rightarrow> do {
         N1 \<leftarrow> with_loki (loki_handlePrepareMsg E (nd_config N) a) N;
         (_, N2) \<leftarrow> handlePrepareMsg E now a N1; Some N2 }
     | CommitPacket \<Rightarrow> do {
         N1 \<leftarrow> with_loki (loki_handleCommitMsg E (nd_config N) a) N;
         (_, N2) \<leftarrow> handleCommitMsg E a N1; Some N2 }
     | CheckPoint \<Rightarrow> do {
         N1 \<leftarrow> with_loki (loki_handleCheckPointMsg E (nd_config N) a) N;
         (_, N2) \<leftarrow> handleCheckPointMsg E a N1; Some N2 }
     | _ \<Rightarrow> Some N }"

text \<open>A packet from the network: what cannot be decoded is dropped.\<close>

definition onReceivePBFTMessage :: "loki_env \<Rightarrow> i64 \<Rightarrow> node_id \<Rightarrow> raw_message \<Rightarrow> pbft_node \<Rightarrow> pbft_node option" where
  "onReceivePBFTMessage E now from rm N =
     (if \<not> isConsensusNode (nd_config N) then Some N
      else case decode_pbft (le_libs E) from rm (nd_store N) of
        None \<Rightarrow> Some N
      | Some (a, s) \<Rightarrow> handleMsg E now a (N \<lparr> nd_store := s \<rparr>))"

text \<open>A proposal of the node's own sealer.\<close>

definition onRecvProposal :: "loki_env \<Rightarrow> i64 \<Rightarrow> bool \<Rightarrow> bytes \<Rightarrow> block_number \<Rightarrow> hash_type \<Rightarrow> pbft_node \<Rightarrow> pbft_node option" where
  "onRecvProposal E now containSysTxs proposalData i h N =
     (let C = nd_config N in
      if proposalData = [] then Some N else do {
      p \<leftarrow> m_committedProposal C;
      if i \<le> m_syncingHighestNumber C \<or> i \<le> fst p \<or> i < m_expectedCheckPoint C \<or> i < m_lowWaterMark C then Some N
      else if leaderIndex C i \<noteq> m_nodeIndex C \<or> m_timeoutState C then Some N
      else let (pa, s) = new_proposal (createPBFTProposal \<lparr> pp_data := proposalData, pp_index := i, pp_hash := h,
             pp_sealerId := m_nodeIndex C, pp_systemProposal := containSysTxs \<rparr>) (nd_store N) in do {
      (a, s1) \<leftarrow> populateMessage PrePreparePacket pa 0 (m_view C) now (m_nodeIndex C) s;
      (ret, N1) \<leftarrow> handlePrePrepareMsg E now a False False False (N \<lparr> nd_store := s1 \<rparr>);
      if ret then do { N2 \<leftarrow> fuzz_msg E a N1; broadcast E a N2 } else Some N1 } })"

text \<open>The state machine has executed a proposal.\<close>

definition eraseExecutedProposal :: "hash_type \<Rightarrow> pbft_node \<Rightarrow> pbft_node" where
  "eraseExecutedProposal h N = N \<lparr> nd_executing := AList.delete h (nd_executing N) \<rparr>"

definition onProposalApplySuccess :: "loki_env \<Rightarrow> i64 \<Rightarrow> ptr \<Rightarrow> ptr \<Rightarrow> pbft_node \<Rightarrow> pbft_node option" where
  "onProposalApplySuccess E now pa executed N = do {
     (a, s) \<leftarrow> populateSigned (le_libs E) CheckPoint 0 (m_view (nd_config N)) now (m_nodeIndex (nd_config N)) executed True (nd_store N);
     N1 \<leftarrow> fuzz_msg E a (N \<lparr> nd_store := s \<rparr>);
     N2 \<leftarrow> broadcast E a N1;
     N3 \<leftarrow> cp_addCheckPointMsg a N2;
     N4 \<leftarrow> cp_setCheckPointProposal executed N3;
     q \<leftarrow> st_proposals (nd_store N4) executed;
     C \<leftarrow> setExpectedCheckPoint (pp_index q + 1) (nd_config N4);
     N5 \<leftarrow> cp_checkAndCommitStableCheckPoint (N4 \<lparr> nd_config := C \<rparr>);
     (_, N6) \<leftarrow> tryToApplyCommitQueue N5;
     p \<leftarrow> st_proposals (nd_store N6) pa;
     Some (eraseExecutedProposal (pp_hash p) N6) }"

text \<open>The state machine has failed on a proposal, which goes back to the queue.\<close>

definition onProposalApplyFailed :: "ptr \<Rightarrow> pbft_node \<Rightarrow> pbft_node option" where
  "onProposalApplyFailed pa N = do {
     p \<leftarrow> st_proposals (nd_store N) pa; committed \<leftarrow> m_committedProposal (nd_config N);
     N1 \<leftarrow> (if pp_index p \<ge> fst committed \<or> pp_index p \<ge> m_syncingHighestNumber (nd_config N)
       then updateCommitQueue pa (eraseExecutedProposal (pp_hash p) N) else Some N);
     C \<leftarrow> setExpectedCheckPoint (fst committed + 1) (nd_config N1);
     Some (eraseExecutedProposal (pp_hash p) (N1 \<lparr> nd_config := C \<rparr>)) }"

text \<open>A proposal that had been stored is loaded and verified again.\<close>

definition onLoadAndVerifyProposalSucc :: "ptr \<Rightarrow> pbft_node \<Rightarrow> pbft_node option" where
  "onLoadAndVerifyProposalSucc pa N = updateCommitQueue pa N"

text \<open>A new view, as far as the caches and the configuration are concerned.\<close>

definition reachNewView :: "u64 \<Rightarrow> pbft_node \<Rightarrow> pbft_node option" where
  "reachNewView view N = (let C = resetNewViewState view (nd_config N) in do {
     cs \<leftarrow> reset_each C (nd_store N) (m_view C) (nd_caches N);
     Some (N \<lparr> nd_config := C, nd_caches := cs \<rparr>) })"

text \<open>A block has been written to the ledger, by this node or by the block synchronization.\<close>

record ledger_config =
  lc_blockNumber :: block_number
  lc_hash :: hash_type
  lc_consensusNodeList :: "consensus_node list"
  lc_leaderSwitchPeriod :: u64

definition resetConfig :: "ledger_config \<Rightarrow> pbft_config \<Rightarrow> pbft_config option" where
  "resetConfig l C =
     (let committedIndex = (case m_committedProposal C of None \<Rightarrow> 0 | Some p \<Rightarrow> fst p) in
      if lc_blockNumber l \<le> committedIndex \<and> committedIndex > 0 then Some C else do {
      C1 \<leftarrow> setConsensusNodeList (lc_consensusNodeList l) (setCommittedProposal (lc_blockNumber l, lc_hash l) C);
      Some (C1 \<lparr> m_leaderSwitchPeriod := lc_leaderSwitchPeriod l,
        m_timeoutState := m_timeoutState C1 \<or> m_syncingHighestNumber C1 > lc_blockNumber l \<rparr>) })"

definition removeFutureProposals :: "pbft_node \<Rightarrow> pbft_node option" where
  "removeFutureProposals N = do {
     p \<leftarrow> m_committedProposal (nd_config N);
     C \<leftarrow> setExpectedCheckPoint (fst p + 1) (nd_config N);
     Some (N \<lparr> nd_config := C, nd_committedQueue := [], nd_committedList := [], nd_stableQueue := [],
       nd_caches := filter (\<lambda>(i, c). \<not> (m_index c \<ge> fst p \<and> m_checkpointProposal c \<noteq> None)) (nd_caches N) \<rparr>) }"

definition finalizeConsensus :: "ledger_config \<Rightarrow> bool \<Rightarrow> pbft_node \<Rightarrow> pbft_node option" where
  "finalizeConsensus l syncedBlock N = do {
     C \<leftarrow> resetConfig l (nd_config N);
     (_, N1) \<leftarrow> tryToApplyCommitQueue (N \<lparr> nd_config := C \<rparr>);
     N2 \<leftarrow> tryToCommitStableCheckPoint (removeConsensusedCache (lc_blockNumber l) N1);
     if syncedBlock then removeFutureProposals N2 else Some N2 }"

subsection \<open>Runs of a node\<close>

datatype pbft_event =
    ReceivePacket i64 node_id raw_message
  | SealProposal i64 bool bytes block_number hash_type
  | VerifyFinished i64 nat bool
  | ProposalApplied i64 ptr pbft_proposal
  | ProposalFailed ptr
  | ProposalLoaded pbft_proposal
  | NewViewReached u64
  | BlockWritten ledger_config bool

fun pbft_step :: "loki_env \<Rightarrow> pbft_event \<Rightarrow> pbft_node \<Rightarrow> pbft_node option" where
  "pbft_step E (ReceivePacket now from rm) N = onReceivePBFTMessage E now from rm N"
| "pbft_step E (SealProposal now sys txs i h) N = onRecvProposal E now sys txs i h N"
| "pbft_step E (VerifyFinished now k result) N = onVerifyFinished E now k result N"
| "pbft_step E (ProposalApplied now pa executed) N =
     (case new_proposal executed (nd_store N) of (qa, s) \<Rightarrow> onProposalApplySuccess E now pa qa (N \<lparr> nd_store := s \<rparr>))"
| "pbft_step E (ProposalFailed pa) N = onProposalApplyFailed pa N"
| "pbft_step E (ProposalLoaded p) N =
     (case new_proposal p (nd_store N) of (pa, s) \<Rightarrow> onLoadAndVerifyProposalSucc pa (N \<lparr> nd_store := s \<rparr>))"
| "pbft_step E (NewViewReached view) N = reachNewView view N"
| "pbft_step E (BlockWritten l synced) N = finalizeConsensus l synced N"

fun pbft_run :: "loki_env \<Rightarrow> pbft_event list \<Rightarrow> pbft_node \<Rightarrow> pbft_node option" where
  "pbft_run E [] N = Some N"
| "pbft_run E (e # es) N = do { N1 \<leftarrow> pbft_step E e N; pbft_run E es N1 }"

definition pbft_init :: "pbft_config \<Rightarrow> source \<Rightarrow> pbft_node" where
  "pbft_init C clock = \<lparr> nd_config = C, nd_store = empty_store, nd_caches = [], nd_executing = [], nd_committedQueue = [],
     nd_committedList = [], nd_stableQueue = [], nd_verifying = [], nd_applying = [], nd_stored = [], nd_sent = [],
     nd_loki = State_new, nd_cur_view = 0, nd_clock = clock \<rparr>"

end
