(* ===== verification/PbftSafety.thy ===== *)
theory PbftSafety
  imports PbftEngine
begin

text \<open>
  What the engine guarantees when the fuzzer leaves messages alone: two nodes that commit different
  proposals for one block number show that nodes with more weight than may be faulty endorsed both.
\<close>

subsection \<open>What happens to stored messages\<close>

definition drifts :: "ptr set \<Rightarrow> pbft_store \<Rightarrow> pbft_store \<Rightarrow> bool" where
  "drifts A s s' \<longleftrightarrow> store_ok s' \<and> (\<forall>a m. st_msgs s a = Some m \<longrightarrow>
     (\<exists>m'. st_msgs s' a = Some m' \<and> pb_hash m' = pb_hash m \<and> (a \<notin> A \<longrightarrow> pb_base m' = pb_base m)))"

lemma driftsD: "drifts A s s' \<Longrightarrow> st_msgs s a = Some m \<Longrightarrow>
    \<exists>m'. st_msgs s' a = Some m' \<and> pb_hash m' = pb_hash m \<and> (a \<notin> A \<longrightarrow> pb_base m' = pb_base m)"
  unfolding drifts_def by blast

lemma drifts_ok: "drifts A s s' \<Longrightarrow> store_ok s'"
  unfolding drifts_def by blast

lemma drifts_refl: "store_ok s \<Longrightarrow> drifts A s s"
  by (simp add: drifts_def)

lemma drifts_trans:
  assumes "drifts A s t" and "drifts A t u"
  shows "drifts A s u"
  unfolding drifts_def
proof (intro conjI allI impI)
  fix a m assume "st_msgs s a = Some m"
  from driftsD [OF assms(1) this] obtain m' where "st_msgs t a = Some m'" "pb_hash m' = pb_hash m" "a \<notin> A \<longrightarrow> pb_base m' = pb_base m" by blast
  with driftsD [OF assms(2), of a m'] show "\<exists>m'. st_msgs u a = Some m' \<and> pb_hash m' = pb_hash m \<and> (a \<notin> A \<longrightarrow> pb_base m' = pb_base m)"
    by fastforce
qed (rule drifts_ok [OF assms(2)])

lemma drifts_new:
  assumes "store_ok s"
  shows "new_msg m s = (a, s') \<Longrightarrow> drifts A s s'" "new_proposal p s = (a, s') \<Longrightarrow> drifts A s s'"
  using assms store_ok_fresh [OF assms]
  by (auto simp: drifts_def store_ok_def new_msg_def new_proposal_def less_Suc_eq)

lemma drifts_set_msg:
  "store_ok s \<Longrightarrow> st_msgs s a = Some m \<Longrightarrow> pb_hash m' = pb_hash m \<Longrightarrow> (a \<notin> A \<longrightarrow> pb_base m' = pb_base m) \<Longrightarrow> drifts A s (set_msg a m' s)"
  by (auto simp: drifts_def set_msg_def store_ok_def)

lemma drifts_set_proposal: "store_ok s \<Longrightarrow> st_proposals s a = Some p \<Longrightarrow> drifts A s (set_proposal a p' s)"
  by (auto simp: drifts_def set_proposal_def store_ok_def)

lemma drifts_encode:
  "store_ok s \<Longrightarrow> encode_pbft L a v s = Some (rm, s') \<Longrightarrow> drifts A s s'"
  by (auto simp: encode_pbft_def bind_eq_Some_conv Let_def renew_signature_def intro!: drifts_set_msg)

lemma drifts_populateSigned:
  assumes "store_ok s" and "populateSigned L t v view now from pa sg s = Some (a, s')"
  shows "drifts A s s'" "st_msgs s a = None" "\<exists>m. st_msgs s' a = Some m \<and> pb_generatedFrom m = from"
proof -
  obtain p where p: "st_proposals s pa = Some p" using assms(2) by (auto simp: populateSigned_def bind_eq_Some_conv)
  let ?q = "createPBFTProposal \<lparr> pp_index := pp_index p, pp_hash := pp_hash p,
       pp_sealerId := pp_sealerId p, pp_signature := (if sg then sign_with L (pp_hash p) else []) \<rparr>"
  obtain qa s1 where s1: "new_proposal ?q s = (qa, s1)" by fastforce
  obtain m where m: "new_msg m s1 = (a, s')" "pb_generatedFrom m = from"
    using assms(2) p s1 by (auto simp: populateSigned_def)
  have 1: "drifts A s s1" by (rule drifts_new(2) [OF assms(1) s1])
  then show "drifts A s s'" using drifts_trans drifts_new(1) [OF drifts_ok [OF 1] m(1)] by blast
  show "st_msgs s a = None"
    using assms(1) s1 m(1) by (auto simp: new_proposal_def new_msg_def store_ok_def intro: ccontr)
  show "\<exists>m. st_msgs s' a = Some m \<and> pb_generatedFrom m = from" using m by (auto simp: new_msg_def)
qed

lemma drifts_setSignatureList:
  "store_ok s \<Longrightarrow> setSignatureList pa V s = Some s' \<Longrightarrow> drifts A s s'"
  by (auto simp: setSignatureList_def bind_eq_Some_conv intro: drifts_set_proposal)

lemma intoPrecommit_drifts:
  assumes "store_ok s" and "intoPrecommit L C c s = Some (c', s')"
  shows "drifts (set_option (m_prePrepare c)) s s'"
    "\<exists>b wa. c' = c \<lparr> m_precommit := b, m_precommitWithoutData := wa \<rparr>"
proof -
  obtain a m pa s2 w qa s3 wa where a: "m_prePrepare c = Some a" "st_msgs s a = Some m"
    and s2: "setSignatureList pa (fst (m_prepare c)) (set_msg a (m \<lparr> pb_base := (pb_base m) \<lparr> bm_generatedFrom := m_nodeIndex C \<rparr> \<rparr>) s) = Some s2"
    and s3: "populateProposal pa False True s2 = Some (qa, s3)" and s4: "new_msg (w \<lparr> pb_consensusProposal := Some qa \<rparr>) s3 = (wa, s')"
    and c': "c' = c \<lparr> m_precommit := Some a, m_precommitWithoutData := Some wa \<rparr>"
    using assms(2) by (auto simp: intoPrecommit_def bind_eq_Some_conv Let_def case_prod_beta new_msg_def)
  let ?A = "set_option (m_prePrepare c)"
  let ?s1 = "set_msg a (m \<lparr> pb_base := (pb_base m) \<lparr> bm_generatedFrom := m_nodeIndex C \<rparr> \<rparr>) s"
  have 1: "drifts ?A s ?s1"
    using a by (intro drifts_set_msg [OF assms(1) a(2)]) auto
  have 2: "drifts ?A ?s1 s2" by (rule drifts_setSignatureList [OF drifts_ok [OF 1] s2])
  obtain p where "new_proposal p s2 = (qa, s3)" using s3 by (auto simp: populateProposal_def bind_eq_Some_conv)
  from drifts_new(2) [OF drifts_ok [OF 2] this] have 3: "drifts ?A s2 s3" .
  have 4: "drifts ?A s3 s'" by (rule drifts_new(1) [OF drifts_ok [OF 3] s4])
  show "drifts ?A s s'" using drifts_trans [OF drifts_trans [OF drifts_trans [OF 1 2] 3] 4] .
  show "\<exists>b wa. c' = c \<lparr> m_precommit := b, m_precommitWithoutData := wa \<rparr>" using c' by blast
qed

subsection \<open>Endorsements\<close>

text \<open>A node endorses a hash at a block number with a valid signature on base fields that name them.\<close>

definition endorsed :: "pbft_libs \<Rightarrow> pbft_config \<Rightarrow> u64 \<Rightarrow> hash_type \<Rightarrow> block_number \<Rightarrow> bool" where
  "endorsed L C j h i \<longleftrightarrow> (\<exists>n fields sig base. getConsensusNodeByIndex C j = Some n \<and> dec_base L fields = Some base \<and>
     bm_generatedFrom base = j \<and> bm_hash base = h \<and> bm_index base = i \<and> verify_with L (cn_nodeID n) (hash_of L fields) sig)"

definition commit_votes_ok :: "pbft_libs \<Rightarrow> pbft_config \<Rightarrow> pbft_store \<Rightarrow> pbft_cache \<Rightarrow> bool" where
  "commit_votes_ok L C s c \<longleftrightarrow> tally_ok C (m_commit c) \<and> (\<forall>h j a. (j, a) \<in> set (votes_at (fst (m_commit c)) h) \<longrightarrow>
     (\<exists>m. st_msgs s a = Some m \<and> pb_generatedFrom m = j) \<and> (j = m_nodeIndex C \<or> endorsed L C j h (m_index c)))"

definition submitted_ok :: "pbft_config \<Rightarrow> pbft_store \<Rightarrow> pbft_cache \<Rightarrow> bool" where
  "submitted_ok C s c \<longleftrightarrow> (m_submitted c \<longrightarrow> (\<exists>a m. m_prePrepare c = Some a \<and> st_msgs s a = Some m \<and>
     unat (m_minRequiredQuorum C) \<le> nodes_weight C (voters (m_commit c) (pb_hash m))))"

definition cache_safe :: "pbft_libs \<Rightarrow> pbft_config \<Rightarrow> pbft_store \<Rightarrow> pbft_cache \<Rightarrow> bool" where
  "cache_safe L C s c \<longleftrightarrow> commit_votes_ok L C s c \<and> submitted_ok C s c \<and> (\<forall>a. m_prePrepare c = Some a \<longrightarrow> st_msgs s a \<noteq> None)"

lemma cache_safe_new [simp]: "cache_safe L C s (new_cache i)"
  by (simp add: cache_safe_def commit_votes_ok_def submitted_ok_def new_cache_def votes_at_def)

lemma cache_safe_drifts:
  assumes "cache_safe L C s c" and "drifts A s s'" and "A \<inter> vote_ptrs (m_commit c) = {}"
  shows "cache_safe L C s' c"
proof -
  have "\<exists>m. st_msgs s' a = Some m \<and> pb_generatedFrom m = j" if a: "(j, a) \<in> set (votes_at (fst (m_commit c)) h)" for h j a
  proof -
    from a assms(1) obtain m where m: "st_msgs s a = Some m" "pb_generatedFrom m = j"
      unfolding cache_safe_def commit_votes_ok_def by blast
    have "a \<notin> A" using votes_ptrI [OF a] assms(3) by blast
    with driftsD [OF assms(2) m(1)] m(2) show ?thesis by auto
  qed
  moreover have "submitted_ok C s' c"
    using assms(1) driftsD [OF assms(2)] unfolding cache_safe_def submitted_ok_def by metis
  moreover have "st_msgs s' a \<noteq> None" if "m_prePrepare c = Some a" for a
    using assms(1) driftsD [OF assms(2)] that unfolding cache_safe_def by fastforce
  ultimately show ?thesis using assms(1) unfolding cache_safe_def commit_votes_ok_def by blast
qed

text \<open>The fields a committed proposal depends on.\<close>

definition same_commits :: "pbft_cache \<Rightarrow> pbft_cache \<Rightarrow> bool" where
  "same_commits c c' \<longleftrightarrow> m_index c' = m_index c \<and> m_commit c' = m_commit c \<and> m_submitted c' = m_submitted c \<and>
     m_prePrepare c' = m_prePrepare c"

lemma cache_safe_same: "same_commits c c' \<Longrightarrow> cache_safe L C s c' = cache_safe L C s c"
  by (simp add: same_commits_def cache_safe_def commit_votes_ok_def submitted_ok_def)

lemma same_commits_ops:
  "addPrepareCache C s a c = Some c' \<Longrightarrow> same_commits c c'"
  "addCheckPointMsg C s a c = Some c' \<Longrightarrow> same_commits c c'"
  "setCheckPointProposal C s a c = Some c' \<Longrightarrow> same_commits c c'"
  "checkAndCommitStableCheckPoint C c s = Some (r, c', s') \<Longrightarrow> same_commits c c'"
  by (auto simp: same_commits_def addPrepareCache_def addCheckPointMsg_def setCheckPointProposal_def
      checkAndCommitStableCheckPoint_def bind_eq_Some_conv split: if_splits)

definition same_seat :: "pbft_config \<Rightarrow> pbft_config \<Rightarrow> bool" where
  "same_seat C C' \<longleftrightarrow> m_consensusNodeList C' = m_consensusNodeList C \<and> m_nodeIndex C' = m_nodeIndex C \<and>
     m_minRequiredQuorum C' = m_minRequiredQuorum C"

lemma node_weight_committee: "m_consensusNodeList C' = m_consensusNodeList C \<Longrightarrow> node_weight C' = node_weight C"
  by (simp add: fun_eq_iff node_weight_def getConsensusNodeByIndex_def)

lemma endorsed_committee: "m_consensusNodeList C' = m_consensusNodeList C \<Longrightarrow> endorsed L C' = endorsed L C"
  by (simp add: fun_eq_iff endorsed_def getConsensusNodeByIndex_def)

lemma cache_safe_seat:
  assumes "same_seat C C'" shows "cache_safe L C' s c = cache_safe L C s c"
  using assms node_weight_committee [of C' C] endorsed_committee [of C' C L]
  by (simp add: same_seat_def cache_safe_def commit_votes_ok_def submitted_ok_def tally_ok_def nodes_weight_def)

subsection \<open>The operations of a cache\<close>

lemma addCommitCache_safe:
  assumes "cache_safe L C s c" and "st_msgs s a = Some m" and "addCommitCache C s a c = Some c'"
    and "pb_generatedFrom m = m_nodeIndex C \<or> endorsed L C (pb_generatedFrom m) (pb_hash m) (pb_index m)"
  shows "cache_safe L C s c'" "vote_ptrs (m_commit c') \<subseteq> insert a (vote_ptrs (m_commit c))"
    "m_index c' = m_index c" "m_prePrepare c' = m_prePrepare c"
proof -
  let ?votes = "\<lambda>VW h. set (votes_at (fst VW) h)"
  have fields: "m_index c' = m_index c" "m_prePrepare c' = m_prePrepare c" "m_submitted c' = m_submitted c"
    and add: "addCache C s (m_index c) a (m_commit c) = Some (m_commit c')"
    using assms(3) by (auto simp: addCommitCache_def bind_eq_Some_conv)
  have tally: "tally_ok C (m_commit c)" using assms(1) by (simp add: cache_safe_def commit_votes_ok_def)
  note votes = addCache_votes [OF assms(2) add tally]
  have old: "(\<exists>m. st_msgs s b = Some m \<and> pb_generatedFrom m = j) \<and> (j = m_nodeIndex C \<or> endorsed L C j h (m_index c))"
    if "(j, b) \<in> ?votes (m_commit c) h" for h j b
    using assms(1) that unfolding cache_safe_def commit_votes_ok_def by blast
  have "(\<exists>m. st_msgs s b = Some m \<and> pb_generatedFrom m = j) \<and> (j = m_nodeIndex C \<or> endorsed L C j h (m_index c))"
    if "(j, b) \<in> ?votes (m_commit c') h" for h j b
  proof (cases "(j, b) \<in> ?votes (m_commit c) h")
    case False
    then have "h = pb_hash m" "pb_index m = m_index c" "j = pb_generatedFrom m" "b = a"
      using votes(3) [of h] that by (auto split: if_splits)
    then show ?thesis using assms(2,4) by auto
  qed (rule old)
  then have "commit_votes_ok L C s c'" using votes(1) fields by (simp add: commit_votes_ok_def)
  moreover have "nodes_weight C (voters (m_commit c) h) \<le> nodes_weight C (voters (m_commit c') h)" for h
    unfolding nodes_weight_def voters_def by (rule sum_mono2) (use votes(2) [of h] in auto)
  then have "submitted_ok C s c'"
    using assms(1) fields unfolding cache_safe_def submitted_ok_def by (metis order_trans)
  ultimately show "cache_safe L C s c'" using assms(1) fields by (simp add: cache_safe_def)
  show "vote_ptrs (m_commit c') \<subseteq> insert a (vote_ptrs (m_commit c))"
    by (rule addCache_ptrs [OF assms(2) add tally])
qed (use assms(3) in \<open>auto simp: addCommitCache_def bind_eq_Some_conv\<close>)

lemma checkAndCommit_safe:
  assumes "cache_safe L C s c" and "checkAndCommit C s c = Some (r, c')"
  shows "cache_safe L C s c'" "m_commit c' = m_commit c" "m_index c' = m_index c" "m_prePrepare c' = m_prePrepare c"
proof -
  have "tally_ok C (m_commit c)" using assms(1) by (simp add: cache_safe_def commit_votes_ok_def)
  note quorum = quorum_weight [OF this]
  have fields: "m_commit c' = m_commit c" "m_index c' = m_index c" "m_prePrepare c' = m_prePrepare c"
    using assms(2) by (auto simp: checkAndCommit_def bind_eq_Some_conv split: if_splits option.splits)
  have "m_submitted c' \<Longrightarrow> m_submitted c \<or> (\<exists>a m. m_prePrepare c = Some a \<and> st_msgs s a = Some m \<and>
      collectEnoughQuorum C (pb_hash m) (snd (m_commit c)))"
    using assms(2) by (auto simp: checkAndCommit_def bind_eq_Some_conv collectEnoughCommitReq_def collectEnoughFor_def
        split: if_splits option.splits)
  then have "submitted_ok C s c'"
    using assms(1) quorum fields unfolding cache_safe_def submitted_ok_def by metis
  then show "cache_safe L C s c'" using assms(1) fields by (simp add: cache_safe_def commit_votes_ok_def)
qed (use assms(2) in \<open>auto simp: checkAndCommit_def bind_eq_Some_conv split: if_splits option.splits\<close>)

lemma checkAndPreCommit_safe:
  assumes "store_ok (cs_store x)" and "cache_safe L C (cs_store x) (cs_cache x)"
    and "set_option (m_prePrepare (cs_cache x)) \<inter> vote_ptrs (m_commit (cs_cache x)) = {}"
    and "checkAndPreCommit L C now x = Some (r, y)"
  shows "drifts (set_option (m_prePrepare (cs_cache x))) (cs_store x) (cs_store y) \<and> cache_safe L C (cs_store y) (cs_cache y) \<and>
    vote_ptrs (m_commit (cs_cache y)) \<subseteq> vote_ptrs (m_commit (cs_cache x)) \<union> {a. st_msgs (cs_store x) a = None} \<and>
    m_index (cs_cache y) = m_index (cs_cache x) \<and> m_prePrepare (cs_cache y) = m_prePrepare (cs_cache x)"
proof (cases "y = x")
  case True
  then show ?thesis using assms(1,2) drifts_refl by blast
next
  case False
  let ?A = "set_option (m_prePrepare (cs_cache x))"
  obtain c1 s1 qa b s2 c2 rm where s1: "intoPrecommit L C (cs_cache x) (cs_store x) = Some (c1, s1)"
    and s2: "populateSigned L CommitPacket 0 (m_view C) now (m_nodeIndex C) qa True s1 = Some (b, s2)"
    and c2: "addCommitCache C s2 b c1 = Some c2" and s3: "encode_pbft L b 0 s2 = Some (rm, cs_store y)"
    and c3: "checkAndCommit C (cs_store y) (c2 \<lparr> m_precommitted := True \<rparr>) = Some (r, cs_cache y)"
    using assms(4) False by (auto simp: checkAndPreCommit_def bind_eq_Some_conv split: if_splits)
  have 1: "drifts ?A (cs_store x) s1" by (rule intoPrecommit_drifts(1) [OF assms(1) s1])
  note 2 = drifts_populateSigned [OF drifts_ok [OF 1] s2]
  have 3: "drifts ?A s2 (cs_store y)" by (rule drifts_encode [OF drifts_ok [OF 2(1)] s3])
  have same: "same_commits (cs_cache x) c1" using intoPrecommit_drifts(2) [OF assms(1) s1] by (auto simp: same_commits_def)
  have "cache_safe L C s2 c1"
    using cache_safe_drifts [OF assms(2) drifts_trans [OF 1 2(1)] assms(3)] cache_safe_same [OF same] by simp
  note c2 = addCommitCache_safe [OF this _ c2]
  obtain m where m: "st_msgs s2 b = Some m" "pb_generatedFrom m = m_nodeIndex C" using 2(3) by blast
  note c2 = c2 [OF m(1) disjI1 [OF m(2)]]
  have fresh: "st_msgs (cs_store x) b = None" using 2(2) driftsD [OF 1, of b] by fastforce
  have ptrs: "vote_ptrs (m_commit c2) \<subseteq> vote_ptrs (m_commit (cs_cache x)) \<union> {a. st_msgs (cs_store x) a = None}"
    using c2(2) same fresh unfolding same_commits_def by auto
  have "?A \<inter> {a. st_msgs (cs_store x) a = None} = {}"
    using assms(2) unfolding cache_safe_def by auto
  then have "?A \<inter> vote_ptrs (m_commit c2) = {}" using ptrs assms(3) by blast
  then have "cache_safe L C (cs_store y) c2" by (rule cache_safe_drifts [OF c2(1) 3])
  then have "cache_safe L C (cs_store y) (c2 \<lparr> m_precommitted := True \<rparr>)"
    using cache_safe_same [of c2 "c2 \<lparr> m_precommitted := True \<rparr>"] by (simp add: same_commits_def)
  note c3 = checkAndCommit_safe [OF this c3]
  show ?thesis using drifts_trans [OF drifts_trans [OF 1 2(1)] 3] c3 ptrs c2(3,4) same by (auto simp: same_commits_def)
qed

lemma resetCache_safe:
  assumes "cache_safe L C s c" and "resetCache C s view c = Some c'"
  shows "cache_safe L C s c'" "vote_ptrs (m_commit c') \<subseteq> vote_ptrs (m_commit c)" "m_index c' = m_index c"
    "m_prePrepare c' = m_prePrepare c"
proof -
  have votes: "\<forall>h j a. (j, a) \<in> set (votes_at (fst (m_commit c)) h) \<longrightarrow> (\<exists>m. st_msgs s a = Some m \<and> pb_generatedFrom m = j)"
    and tally: "tally_ok C (m_commit c)" using assms(1) unfolding cache_safe_def commit_votes_ok_def by blast+
  have fields: "reset_votes C s view (m_commit c) = Some (m_commit c')" "\<not> m_submitted c'" "m_index c' = m_index c"
    "m_prePrepare c' = m_prePrepare c" using assms(2) by (auto simp: resetCache_def bind_eq_Some_conv)
  with reset_votes_sub [OF tally votes, of view] have tally': "tally_ok C (m_commit c')"
    and sub: "\<And>k. set (votes_at (fst (m_commit c')) k) \<subseteq> set (votes_at (fst (m_commit c)) k)" by auto
  have "commit_votes_ok L C s c'"
    unfolding commit_votes_ok_def fields(3)
  proof (intro conjI allI impI)
    fix h j a assume "(j, a) \<in> set (votes_at (fst (m_commit c')) h)"
    with sub have "(j, a) \<in> set (votes_at (fst (m_commit c)) h)" by blast
    with assms(1) show "\<exists>m. st_msgs s a = Some m \<and> pb_generatedFrom m = j" "j = m_nodeIndex C \<or> endorsed L C j h (m_index c)"
      unfolding cache_safe_def commit_votes_ok_def by blast+
  qed (rule tally')
  then show "cache_safe L C s c'" using assms(1) fields by (simp add: cache_safe_def submitted_ok_def)
  show "vote_ptrs (m_commit c') \<subseteq> vote_ptrs (m_commit c)" by (rule vote_ptrs_mono [OF sub])
qed (use assms(2) in \<open>auto simp: resetCache_def bind_eq_Some_conv\<close>)

subsection \<open>The invariant of a node\<close>

definition commit_ptrs :: "(block_number \<times> pbft_cache) list \<Rightarrow> ptr set" where
  "commit_ptrs cs = (\<Union>(i, c)\<in>set cs. vote_ptrs (m_commit c))"

definition proposal_ptrs :: "(block_number \<times> pbft_cache) list \<Rightarrow> (ptr \<times> bool) list \<Rightarrow> ptr set" where
  "proposal_ptrs cs vs = (\<Union>(i, c)\<in>set cs. set_option (m_prePrepare c)) \<union> fst ` set vs"

definition caches_safe :: "pbft_libs \<Rightarrow> pbft_config \<Rightarrow> pbft_store \<Rightarrow> (block_number \<times> pbft_cache) list \<Rightarrow> (ptr \<times> bool) list \<Rightarrow> bool" where
  "caches_safe L C s cs vs \<longleftrightarrow> store_ok s \<and> (\<forall>i c. (i, c) \<in> set cs \<longrightarrow> m_index c = i \<and> cache_safe L C s c) \<and>
     (\<forall>a\<in>proposal_ptrs cs vs. st_msgs s a \<noteq> None) \<and> commit_ptrs cs \<inter> proposal_ptrs cs vs = {}"

definition node_safe :: "pbft_libs \<Rightarrow> pbft_config \<Rightarrow> pbft_node \<Rightarrow> bool" where
  "node_safe L C N \<longleftrightarrow> same_seat C (nd_config N) \<and> caches_safe L C (nd_store N) (nd_caches N) (nd_verifying N)"

lemma caches_safeD:
  assumes "caches_safe L C s cs vs"
  shows "store_ok s" "(i, c) \<in> set cs \<Longrightarrow> m_index c = i" "(i, c) \<in> set cs \<Longrightarrow> cache_safe L C s c"
    "a \<in> proposal_ptrs cs vs \<Longrightarrow> st_msgs s a \<noteq> None" "commit_ptrs cs \<inter> proposal_ptrs cs vs = {}"
  using assms unfolding caches_safe_def by blast+

lemma commit_ptrs_stored:
  assumes "caches_safe L C s cs vs" and "a \<in> commit_ptrs cs" shows "st_msgs s a \<noteq> None"
proof -
  obtain i c h j where "(i, c) \<in> set cs" "(j, a) \<in> set (votes_at (fst (m_commit c)) h)"
    using assms(2) unfolding commit_ptrs_def vote_ptrs_def by auto
  with caches_safeD(3) [OF assms(1)] show ?thesis unfolding cache_safe_def commit_votes_ok_def by fastforce
qed

lemma commit_ptrsI: "(i, c) \<in> set cs \<Longrightarrow> a \<in> vote_ptrs (m_commit c) \<Longrightarrow> a \<in> commit_ptrs cs"
  unfolding commit_ptrs_def by blast

lemma proposal_ptrsI: "(i, c) \<in> set cs \<Longrightarrow> m_prePrepare c = Some a \<Longrightarrow> a \<in> proposal_ptrs cs vs"
  unfolding proposal_ptrs_def by fastforce

lemma set_put_at: "set (put_at i x xs) \<subseteq> insert (i, x) (set xs)"
  by (induction i x xs rule: put_at.induct) auto

text \<open>
  A step that replaces the cache of one block number: what it adds to the votes has not been a proposal,
  and what it adds to the proposals has not been a vote.
\<close>

lemma caches_safe_put:
  assumes "caches_safe L C s cs vs" and "drifts A s s'" and "A \<inter> commit_ptrs cs = {}"
    and "m_index c = i" and "cache_safe L C s' c"
    and "vote_ptrs (m_commit c) \<subseteq> commit_ptrs cs \<union> F" and "F \<inter> (proposal_ptrs cs vs \<union> P) = {}"
    and "set_option (m_prePrepare c) \<subseteq> proposal_ptrs cs vs \<union> P" and "P \<inter> commit_ptrs cs = {}"
  shows "caches_safe L C s' (put_at i c cs) vs"
proof -
  note old = caches_safeD [OF assms(1)]
  have commits: "commit_ptrs (put_at i c cs) \<subseteq> commit_ptrs cs \<union> F"
    using set_put_at [of i c cs] assms(6) unfolding commit_ptrs_def by blast
  have proposals: "proposal_ptrs (put_at i c cs) vs \<subseteq> proposal_ptrs cs vs \<union> set_option (m_prePrepare c)"
    using set_put_at [of i c cs] unfolding proposal_ptrs_def by blast
  have "m_index d = k \<and> cache_safe L C s' d" if "(k, d) \<in> set (put_at i c cs)" for k d
  proof (cases "(k, d) = (i, c)")
    case False
    then have d: "(k, d) \<in> set cs" using that set_put_at [of i c cs] by blast
    then have "A \<inter> vote_ptrs (m_commit d) = {}" using assms(3) commit_ptrsI by blast
    with cache_safe_drifts [OF old(3) [OF d] assms(2)] old(2) [OF d] show ?thesis by blast
  qed (use assms(4,5) in simp)
  moreover have "st_msgs s' a \<noteq> None" if "a \<in> proposal_ptrs (put_at i c cs) vs" for a
  proof (cases "m_prePrepare c = Some a")
    case False
    then have "a \<in> proposal_ptrs cs vs" using that proposals by auto
    with old(4) driftsD [OF assms(2)] show ?thesis by fastforce
  qed (use assms(5) in \<open>auto simp: cache_safe_def\<close>)
  moreover have "commit_ptrs (put_at i c cs) \<inter> proposal_ptrs (put_at i c cs) vs = {}"
    using commits proposals assms(7,8,9) old(5) by blast
  ultimately show ?thesis using drifts_ok [OF assms(2)] unfolding caches_safe_def by blast
qed

lemma caches_safe_drifts:
  assumes "caches_safe L C s cs vs" and "drifts A s s'" and "A \<inter> commit_ptrs cs = {}"
  shows "caches_safe L C s' cs vs"
proof -
  note old = caches_safeD [OF assms(1)]
  have "cache_safe L C s' c" if c: "(i, c) \<in> set cs" for i c
  proof -
    have "A \<inter> vote_ptrs (m_commit c) = {}" using assms(3) c commit_ptrsI by blast
    then show ?thesis by (rule cache_safe_drifts [OF old(3) [OF c] assms(2)])
  qed
  moreover have "st_msgs s' a \<noteq> None" if "a \<in> proposal_ptrs cs vs" for a
    using old(4) [OF that] driftsD [OF assms(2)] by fastforce
  ultimately show ?thesis using drifts_ok [OF assms(2)] old(2,5) unfolding caches_safe_def by blast
qed

lemma caches_safe_sub:
  assumes "caches_safe L C s cs vs" and "set cs' \<subseteq> set cs" and "set vs' \<subseteq> set vs"
  shows "caches_safe L C s cs' vs'"
proof -
  have "proposal_ptrs cs' vs' \<subseteq> proposal_ptrs cs vs" "commit_ptrs cs' \<subseteq> commit_ptrs cs"
    using assms(2,3) unfolding proposal_ptrs_def commit_ptrs_def by blast+
  then show ?thesis using assms(1,2) unfolding caches_safe_def by blast
qed

lemma caches_safe_verifying:
  assumes "caches_safe L C s cs vs" and "st_msgs s a \<noteq> None" and "a \<notin> commit_ptrs cs"
  shows "caches_safe L C s cs (vs @ [(a, b)])"
proof -
  have "proposal_ptrs cs (vs @ [(a, b)]) = insert a (proposal_ptrs cs vs)" unfolding proposal_ptrs_def by auto
  then show ?thesis using assms unfolding caches_safe_def by auto
qed

text \<open>What only queues and messages to other nodes depend on.\<close>

definition same_core :: "pbft_node \<Rightarrow> pbft_node \<Rightarrow> bool" where
  "same_core N N' \<longleftrightarrow> nd_config N' = nd_config N \<and> nd_store N' = nd_store N \<and> nd_caches N' = nd_caches N \<and>
     nd_verifying N' = nd_verifying N"

lemma node_safe_same: "same_core N N' \<Longrightarrow> node_safe L C N \<Longrightarrow> node_safe L C N'"
  by (simp add: same_core_def node_safe_def)

lemma same_core_trans: "same_core N N' \<Longrightarrow> same_core N' N'' \<Longrightarrow> same_core N N''"
  by (simp add: same_core_def)

lemma same_core_tryToApply: "tryToApplyCommitQueue N = Some (r, N') \<Longrightarrow> same_core N N'"
  by (auto simp: tryToApplyCommitQueue_def same_core_def Let_def bind_eq_Some_conv split: list.splits if_splits prod.splits)

lemma same_core_updateCommitQueue: "updateCommitQueue pa N = Some N' \<Longrightarrow> same_core N N'"
  by (auto simp: updateCommitQueue_def bind_eq_Some_conv same_core_def dest!: same_core_tryToApply split: if_splits)

lemma same_core_commit: "commit_proposal c N = Some N' \<Longrightarrow> same_core N N'"
  using same_core_updateCommitQueue by (auto simp: commit_proposal_def bind_eq_Some_conv)

lemma same_core_tryToCommitStable: "tryToCommitStableCheckPoint N = Some N' \<Longrightarrow> same_core N N'"
  by (auto simp: tryToCommitStableCheckPoint_def same_core_def Let_def bind_eq_Some_conv split: list.split prod.split)

lemma same_core_each_stable: "each_stable pas N = Some N' \<Longrightarrow> same_core N N'"
proof (induction pas arbitrary: N)
  case (Cons pa pas)
  then obtain N1 where N1: "updateStableCheckPointQueue pa N = Some N1" "each_stable pas N1 = Some N'"
    by (auto simp: bind_eq_Some_conv)
  then have "same_core N N1"
    by (auto simp: updateStableCheckPointQueue_def bind_eq_Some_conv same_core_def dest!: same_core_tryToCommitStable)
  with Cons.IH [OF N1(2)] show ?case using same_core_trans by blast
qed (simp add: same_core_def)

lemma same_core_request: "shouldRequestCheckPoint a N = Some (r, N') \<Longrightarrow> same_core N N'"
  by (auto simp: shouldRequestCheckPoint_def same_core_def Let_def bind_eq_Some_conv split: if_splits option.splits)

lemma same_core_erase: "same_core N (eraseExecutedProposal h N)"
  by (simp add: eraseExecutedProposal_def same_core_def)

subsection \<open>The operations of the cache processor\<close>

text \<open>The cache a message or a proposal of a block number goes to.\<close>

definition cache_at :: "block_number \<Rightarrow> pbft_node \<Rightarrow> pbft_cache" where
  "cache_at i N = (case map_of (nd_caches N) i of None \<Rightarrow> new_cache i | Some c \<Rightarrow> c)"

lemma cache_at_safe:
  assumes "caches_safe L C s (nd_caches N) vs"
  shows "m_index (cache_at i N) = i" "cache_safe L C s (cache_at i N)"
    "vote_ptrs (m_commit (cache_at i N)) \<subseteq> commit_ptrs (nd_caches N)"
    "set_option (m_prePrepare (cache_at i N)) \<subseteq> proposal_ptrs (nd_caches N) vs"
proof -
  consider "cache_at i N = new_cache i" | c where "cache_at i N = c" "(i, c) \<in> set (nd_caches N)"
    by (cases "map_of (nd_caches N) i") (auto simp: cache_at_def dest: map_of_SomeD)
  then have "m_index (cache_at i N) = i \<and> cache_safe L C s (cache_at i N) \<and>
    vote_ptrs (m_commit (cache_at i N)) \<subseteq> commit_ptrs (nd_caches N) \<and>
    set_option (m_prePrepare (cache_at i N)) \<subseteq> proposal_ptrs (nd_caches N) vs"
  proof cases
    case 2
    then show ?thesis using caches_safeD(2,3) [OF assms 2(2)] commit_ptrsI [OF 2(2)] proposal_ptrsI [OF 2(2)] by auto
  qed (simp add: new_cache_def vote_ptrs_def votes_at_def cache_safe_new [unfolded new_cache_def])
  then show "m_index (cache_at i N) = i" "cache_safe L C s (cache_at i N)"
    "vote_ptrs (m_commit (cache_at i N)) \<subseteq> commit_ptrs (nd_caches N)"
    "set_option (m_prePrepare (cache_at i N)) \<subseteq> proposal_ptrs (nd_caches N) vs" by blast+
qed

lemma put_same_safe:
  assumes "caches_safe L C (nd_store N) (nd_caches N) vs" and "drifts {} (nd_store N) s'" and "same_commits (cache_at i N) c"
  shows "caches_safe L C s' (put_at i c (nd_caches N)) vs"
proof (rule caches_safe_put [OF assms(1,2), of _ _ "{}" "{}"])
  note old = cache_at_safe [OF assms(1), of i]
  show "cache_safe L C s' c" using cache_safe_drifts [OF old(2) assms(2)] cache_safe_same [OF assms(3)] by simp
  show "m_index c = i" "vote_ptrs (m_commit c) \<subseteq> commit_ptrs (nd_caches N) \<union> {}"
    "set_option (m_prePrepare c) \<subseteq> proposal_ptrs (nd_caches N) vs \<union> {}"
    using old assms(3) by (auto simp: same_commits_def)
qed simp_all

lemma node_safe_add_same:
  assumes "node_safe L C N" and "cp_addCache f a N = Some N'" and "\<And>c c'. f c = Some c' \<Longrightarrow> same_commits c c'"
  shows "node_safe L C N'"
proof -
  obtain i c where c: "f (cache_at i N) = Some c" "N' = N \<lparr> nd_caches := put_at i c (nd_caches N) \<rparr>"
    using assms(2) by (auto simp: cp_addCache_def bind_eq_Some_conv cache_at_def)
  have safe: "caches_safe L C (nd_store N) (nd_caches N) (nd_verifying N)" using assms(1) by (simp add: node_safe_def)
  from put_same_safe [OF safe drifts_refl [OF caches_safeD(1) [OF safe]] assms(3) [OF c(1)]] assms(1) c(2)
  show ?thesis by (simp add: node_safe_def)
qed

lemma node_safe_addPrepare: "node_safe L C N \<Longrightarrow> cp_addPrepareCache a N = Some N' \<Longrightarrow> node_safe L C N'"
  unfolding cp_addPrepareCache_def by (erule node_safe_add_same) (auto intro: same_commits_ops)

lemma node_safe_addCheckPoint: "node_safe L C N \<Longrightarrow> cp_addCheckPointMsg a N = Some N' \<Longrightarrow> node_safe L C N'"
  unfolding cp_addCheckPointMsg_def by (erule node_safe_add_same) (auto intro: same_commits_ops)

lemma node_safe_setCheckPoint:
  assumes "node_safe L C N" and "cp_setCheckPointProposal pa N = Some N'"
  shows "node_safe L C N'"
proof -
  obtain i c where c: "setCheckPointProposal (nd_config N) (nd_store N) pa (cache_at i N) = Some c"
    "N' = N \<lparr> nd_caches := put_at i c (nd_caches N) \<rparr>"
    using assms(2) by (auto simp: cp_setCheckPointProposal_def bind_eq_Some_conv cache_at_def)
  have safe: "caches_safe L C (nd_store N) (nd_caches N) (nd_verifying N)" using assms(1) by (simp add: node_safe_def)
  from put_same_safe [OF safe drifts_refl [OF caches_safeD(1) [OF safe]] same_commits_ops(3) [OF c(1)]] assms(1) c(2)
  show ?thesis by (simp add: node_safe_def)
qed

lemma addPrePrepare_safe:
  assumes "cache_safe L C s c" and "st_msgs s a \<noteq> None" and "\<not> m_submitted c" and "addPrePrepareCache s a c = Some c'"
  shows "cache_safe L C s c'" "m_commit c' = m_commit c" "m_index c' = m_index c"
    "m_prePrepare c' = m_prePrepare c \<or> m_prePrepare c' = Some a"
proof -
  have "c' = c \<or> c' = c \<lparr> m_prePrepare := Some a \<rparr>"
    using assms(4) by (auto simp: addPrePrepareCache_def bind_eq_Some_conv split: if_splits option.splits)
  moreover have "commit_votes_ok L C s (c \<lparr> m_prePrepare := Some a \<rparr>) = commit_votes_ok L C s c"
    by (simp add: commit_votes_ok_def)
  ultimately show "cache_safe L C s c'" using assms(1-3) by (elim disjE) (simp_all add: cache_safe_def submitted_ok_def)
qed (use assms(4) in \<open>auto simp: addPrePrepareCache_def bind_eq_Some_conv split: if_splits option.splits\<close>)

lemma node_safe_addPrePrepare:
  assumes "node_safe L C N" and "cp_addPrePrepareCache a N = Some N'" and "st_msgs (nd_store N) a = Some m"
    and "a \<notin> commit_ptrs (nd_caches N)" and "cp_conflictWithProcessedReq a N = Some False"
  shows "node_safe L C N'"
proof -
  obtain c where c: "addPrePrepareCache (nd_store N) a (cache_at (pb_index m) N) = Some c"
    "N' = N \<lparr> nd_caches := put_at (pb_index m) c (nd_caches N) \<rparr>"
    using assms(2,3) by (auto simp: cp_addPrePrepareCache_def cp_addCache_def bind_eq_Some_conv cache_at_def)
  have safe: "caches_safe L C (nd_store N) (nd_caches N) (nd_verifying N)" using assms(1) by (simp add: node_safe_def)
  note old = cache_at_safe [OF safe, of "pb_index m"]
  have "\<not> m_submitted (cache_at (pb_index m) N)"
    using assms(3,5) by (auto simp: cp_conflictWithProcessedReq_def ask_cache_def conflictWithProcessedReq_def cache_at_def
        new_cache_def split: option.splits if_splits)
  note new = addPrePrepare_safe [OF old(2) _ this c(1)]
  have "caches_safe L C (nd_store N) (put_at (pb_index m) c (nd_caches N)) (nd_verifying N)"
    by (rule caches_safe_put [OF safe drifts_refl [OF caches_safeD(1) [OF safe]], of "{}" _ _ "{}" "{a}"])
      (use new old assms(3,4) in auto)
  then show ?thesis using assms(1) c(2) by (simp add: node_safe_def)
qed

text \<open>A received message as the decoder leaves it: its hash is that of the encoding its fields were read from.\<close>

definition authentic :: "pbft_libs \<Rightarrow> pbft_message \<Rightarrow> bool" where
  "authentic L m \<longleftrightarrow> dec_base L (pb_hashFieldsData m) = Some (pb_base m) \<and> pb_signatureDataHash m = hash_of L (pb_hashFieldsData m)"

lemma checkSignature_endorsed:
  assumes "authentic L m" and "checkSignature L C m"
  shows "endorsed L C (pb_generatedFrom m) (pb_hash m) (pb_index m)"
  using assms unfolding endorsed_def authentic_def
  by (fastforce simp: checkSignature_def split: option.splits)

lemma node_safe_addCommit:
  assumes "node_safe L C N" and "cp_addCommitReq a N = Some N'" and "st_msgs (nd_store N) a = Some m"
    and "a \<notin> proposal_ptrs (nd_caches N) (nd_verifying N)" and "endorsed L C (pb_generatedFrom m) (pb_hash m) (pb_index m)"
  shows "node_safe L C N'"
proof -
  obtain c where c: "addCommitCache (nd_config N) (nd_store N) a (cache_at (pb_index m) N) = Some c"
    "N' = N \<lparr> nd_caches := put_at (pb_index m) c (nd_caches N) \<rparr>"
    using assms(2,3) by (auto simp: cp_addCommitReq_def cp_addCache_def bind_eq_Some_conv cache_at_def)
  have safe: "caches_safe L C (nd_store N) (nd_caches N) (nd_verifying N)" and seat: "same_seat C (nd_config N)"
    using assms(1) by (simp_all add: node_safe_def)
  note old = cache_at_safe [OF safe, of "pb_index m"]
  have "cache_safe L (nd_config N) (nd_store N) (cache_at (pb_index m) N)"
    "endorsed L (nd_config N) (pb_generatedFrom m) (pb_hash m) (pb_index m)"
    using old(2) cache_safe_seat [OF seat] assms(5) endorsed_committee [of "nd_config N" C] seat by (simp_all add: same_seat_def)
  note new = addCommitCache_safe [OF this(1) assms(3) c(1) disjI2 [OF this(2)], unfolded cache_safe_seat [OF seat]]
  have "caches_safe L C (nd_store N) (put_at (pb_index m) c (nd_caches N)) (nd_verifying N)"
    by (rule caches_safe_put [OF safe drifts_refl [OF caches_safeD(1) [OF safe]], of "{}" _ _ "{a}" "{}"])
      (use new old assms(3,4) in auto)
  then show ?thesis using assms(1) c(2) by (simp add: node_safe_def)
qed

lemma node_safe_precommit_one:
  assumes "node_safe (le_libs E) C N" and "precommit_one E now i N = Some N'"
  shows "node_safe (le_libs E) C N'"
proof -
  let ?L = "le_libs E" and ?s = "nd_store N" and ?cs = "nd_caches N" and ?vs = "nd_verifying N"
  obtain c r x where c: "map_of ?cs i = Some c"
    and x: "checkAndPreCommit ?L (nd_config N) now \<lparr> cs_cache = c, cs_store = ?s, cs_sent = [] \<rparr> = Some (r, x)"
    and N': "same_core (N \<lparr> nd_caches := put_at i (cs_cache x) ?cs, nd_store := cs_store x,
      nd_sent := nd_sent N @ map (Pair (consensusNodeIDList True (nd_config N))) (cs_sent x) \<rparr>) N'"
    using assms(2) by (auto simp: precommit_one_def bind_eq_Some_conv Let_def same_core_def dest: same_core_commit split: if_splits)
  have safe: "caches_safe ?L C ?s ?cs ?vs" and seat: "same_seat C (nd_config N)"
    using assms(1) by (simp_all add: node_safe_def)
  note old = caches_safeD [OF safe] and mem = map_of_SomeD [OF c]
  have pre: "set_option (m_prePrepare c) \<subseteq> proposal_ptrs ?cs ?vs" using proposal_ptrsI [OF mem] by auto
  have votes: "vote_ptrs (m_commit c) \<subseteq> commit_ptrs ?cs" using commit_ptrsI [OF mem] by blast
  have "set_option (m_prePrepare c) \<inter> vote_ptrs (m_commit c) = {}" using pre votes old(5) by blast
  with checkAndPreCommit_safe [OF _ _ _ x] old(1) old(3) [OF mem] cache_safe_seat [OF seat]
  have new: "drifts (set_option (m_prePrepare c)) ?s (cs_store x)" "cache_safe ?L C (cs_store x) (cs_cache x)"
    "vote_ptrs (m_commit (cs_cache x)) \<subseteq> vote_ptrs (m_commit c) \<union> {a. st_msgs ?s a = None}"
    "m_index (cs_cache x) = m_index c" "m_prePrepare (cs_cache x) = m_prePrepare c" by simp_all
  have "caches_safe ?L C (cs_store x) (put_at i (cs_cache x) ?cs) ?vs"
  proof (rule caches_safe_put [OF safe new(1), of _ _ "{a. st_msgs ?s a = None}" "{}"])
    show "{a. st_msgs ?s a = None} \<inter> (proposal_ptrs ?cs ?vs \<union> {}) = {}" using old(4) by blast
  qed (use new pre votes old(5) old(2) [OF mem] in auto)
  with seat have "node_safe ?L C (N \<lparr> nd_caches := put_at i (cs_cache x) ?cs, nd_store := cs_store x,
      nd_sent := nd_sent N @ map (Pair (consensusNodeIDList True (nd_config N))) (cs_sent x) \<rparr>)"
    by (simp add: node_safe_def)
  then show ?thesis by (rule node_safe_same [OF N'])
qed

lemma node_safe_commit_one:
  assumes "node_safe L C N" and "commit_one i N = Some N'"
  shows "node_safe L C N'"
proof -
  let ?s = "nd_store N" and ?cs = "nd_caches N" and ?vs = "nd_verifying N"
  obtain c r c1 where c: "map_of ?cs i = Some c" "checkAndCommit (nd_config N) ?s c = Some (r, c1)"
    and N': "nd_store N' = ?s" "nd_caches N' = put_at i c1 ?cs" "nd_verifying N' = ?vs" "same_seat (nd_config N) (nd_config N')"
    using assms(2) by (auto simp: commit_one_def bind_eq_Some_conv Let_def same_core_def same_seat_def resetToView_def
        dest!: same_core_commit split: if_splits)
  have safe: "caches_safe L C ?s ?cs ?vs" and seat: "same_seat C (nd_config N)"
    using assms(1) by (simp_all add: node_safe_def)
  note old = caches_safeD [OF safe] and mem = map_of_SomeD [OF c(1)]
  have "cache_safe L (nd_config N) ?s c" using old(3) [OF mem] cache_safe_seat [OF seat] by simp
  note new = checkAndCommit_safe [OF this c(2), unfolded cache_safe_seat [OF seat]]
  have "caches_safe L C ?s (put_at i c1 ?cs) ?vs"
    by (rule caches_safe_put [OF safe drifts_refl [OF old(1)], of "{}" _ _ "{}" "{}"])
      (use new old(2) [OF mem] commit_ptrsI [OF mem] proposal_ptrsI [OF mem] in auto)
  then show ?thesis using N' seat by (simp add: node_safe_def same_seat_def)
qed

lemma node_safe_each:
  assumes "\<And>i N N'. node_safe L C N \<Longrightarrow> f i N = Some N' \<Longrightarrow> node_safe L C N'"
  shows "node_safe L C N \<Longrightarrow> each_cache f is N = Some N' \<Longrightarrow> node_safe L C N'"
proof (induction "is" arbitrary: N)
  case (Cons i "is")
  then obtain N1 where "f i N = Some N1" "each_cache f is N1 = Some N'" by (auto simp: bind_eq_Some_conv)
  with Cons.IH assms [OF Cons.prems(1)] show ?case by blast
qed simp

lemma node_safe_precommit: "node_safe (le_libs E) C N \<Longrightarrow> cp_checkAndPreCommit E now N = Some N' \<Longrightarrow> node_safe (le_libs E) C N'"
  unfolding cp_checkAndPreCommit_def by (rule node_safe_each [of "le_libs E" C "precommit_one E now"]) (rule node_safe_precommit_one)

lemma node_safe_commit: "node_safe L C N \<Longrightarrow> cp_checkAndCommit N = Some N' \<Longrightarrow> node_safe L C N'"
  unfolding cp_checkAndCommit_def by (rule node_safe_each [of L C commit_one]) (rule node_safe_commit_one)

lemma drifts_stable: "store_ok s \<Longrightarrow> checkAndCommitStableCheckPoint C c s = Some (r, c', s') \<Longrightarrow> drifts A s s'"
  by (auto simp: checkAndCommitStableCheckPoint_def bind_eq_Some_conv split: if_splits intro: drifts_refl drifts_setSignatureList)

lemma node_safe_stable_caches:
  "node_safe L C N \<Longrightarrow> stable_caches is N = Some (pas, N') \<Longrightarrow> node_safe L C N'"
proof (induction "is" arbitrary: N pas)
  case (Cons i "is")
  then obtain c r c1 s1 pas' where c: "map_of (nd_caches N) i = Some c"
    and c1: "checkAndCommitStableCheckPoint (nd_config N) c (nd_store N) = Some (r, c1, s1)"
    and rest: "stable_caches is (N \<lparr> nd_caches := put_at i c1 (nd_caches N), nd_store := s1 \<rparr>) = Some (pas', N')"
    by (auto simp: bind_eq_Some_conv split: if_splits)
  have safe: "caches_safe L C (nd_store N) (nd_caches N) (nd_verifying N)" using Cons.prems(1) by (simp add: node_safe_def)
  have "same_commits (cache_at i N) c1" using same_commits_ops(4) [OF c1] c by (simp add: cache_at_def)
  from put_same_safe [OF safe drifts_stable [OF caches_safeD(1) [OF safe] c1] this] Cons.prems(1)
  have "node_safe L C (N \<lparr> nd_caches := put_at i c1 (nd_caches N), nd_store := s1 \<rparr>)" by (simp add: node_safe_def)
  from Cons.IH [OF this rest] show ?case .
qed simp

lemma node_safe_stable:
  assumes "node_safe L C N" and "cp_checkAndCommitStableCheckPoint N = Some N'"
  shows "node_safe L C N'"
proof -
  obtain pas N1 where "stable_caches (map fst (nd_caches N)) N = Some (pas, N1)" "each_stable pas N1 = Some N'"
    using assms(2) by (auto simp: cp_checkAndCommitStableCheckPoint_def bind_eq_Some_conv)
  with node_safe_stable_caches [OF assms(1)] node_safe_same [OF same_core_each_stable] show ?thesis by blast
qed

subsection \<open>A fuzzer that stays quiet\<close>

text \<open>
  Every choice of the fuzzer is the parity of a random number: with odd numbers only it picks no node to
  send to and mutates nothing, and the node runs the protocol as FISCO BCOS has it.
\<close>

definition quiet :: "loki_env \<Rightarrow> bool" where
  "quiet E \<longleftrightarrow> (\<forall>t n. odd (rand_from E t n))"

lemma mutated_msg_quiet: "quiet E \<Longrightarrow> mutated_msg (rand_from E t) m = m"
  by (simp add: quiet_def mutated_msg_def Let_def)

lemma set_msg_same: "st_msgs s a = Some m \<Longrightarrow> set_msg a m s = s"
  by (simp add: set_msg_def fun_upd_idem)

lemma seed_frame: "seed w = (t, w') \<Longrightarrow> lw_store w' = lw_store w \<and> lw_state w' = lw_state w"
  by (auto simp: seed_def split: prod.splits)

lemma fuzz_msg_quiet:
  assumes "quiet E" and "fuzz_msg E a N = Some N'" shows "same_core N N'"
  using assms by (auto simp: fuzz_msg_def with_loki_def mutatePbftMsg_def bind_eq_Some_conv Let_def same_core_def
      mutated_msg_quiet set_msg_same dest!: seed_frame split: prod.split_asm)

lemma protocol_mutate_quiet:
  assumes "quiet E" and "protocol_mutate E C w = Some w'"
  shows "lw_store w' = lw_store w"
proof -
  obtain t w1 t' w2 where "seed w = (t, w1)" "seed w1 = (t', w2)" by fastforce
  moreover have "random_send_nodes E t ks = []" for ks using assms(1) by (simp add: quiet_def random_send_nodes_def)
  ultimately show ?thesis using assms(2)
    by (auto simp: protocol_mutate_def random_send_protocol_def dest!: seed_frame)
qed

lemma with_loki_quiet:
  assumes "\<And>w w'. f w = Some w' \<Longrightarrow> lw_store w' = lw_store w" and "with_loki f N = Some N'"
  shows "same_core N N'"
  using assms by (fastforce simp: with_loki_def same_core_def bind_eq_Some_conv)

lemma loki_handle_quiet:
  assumes "quiet E"
  shows "with_loki (loki_handlePrePrepareMsg E C a) N = Some N' \<Longrightarrow> same_core N N'"
    "with_loki (loki_handlePrepareMsg E C a) N = Some N' \<Longrightarrow> same_core N N'"
    "with_loki (loki_handleCommitMsg E C a) N = Some N' \<Longrightarrow> same_core N N'"
    "with_loki (loki_handleCheckPointMsg E C a) N = Some N' \<Longrightarrow> same_core N N'"
  by (erule with_loki_quiet [rotated]; auto simp: loki_handlePrePrepareMsg_def loki_handlePrepareMsg_def
      loki_handleCommitMsg_def loki_handleCheckPointMsg_def in_state_def bind_eq_Some_conv
      dest!: protocol_mutate_quiet [OF assms])+

subsection \<open>The handlers\<close>

lemma node_safe_store:
  "node_safe L C N \<Longrightarrow> drifts {} (nd_store N) s \<Longrightarrow> node_safe L C (N \<lparr> nd_store := s \<rparr>)"
  using caches_safe_drifts by (fastforce simp: node_safe_def)

lemma node_safe_store_ok: "node_safe L C N \<Longrightarrow> store_ok (nd_store N)"
  by (simp add: node_safe_def caches_safe_def)

lemma node_safe_broadcast:
  assumes "node_safe L C N" and "broadcast E a N = Some N'" shows "node_safe L C N'"
proof -
  obtain rm s where s: "encode_pbft (le_libs E) a 0 (nd_store N) = Some (rm, s)"
    and N': "same_core (N \<lparr> nd_store := s \<rparr>) N'"
    using assms(2) by (auto simp: broadcast_def bind_eq_Some_conv same_core_def)
  show ?thesis by (rule node_safe_same [OF N' node_safe_store [OF assms(1) drifts_encode [OF node_safe_store_ok [OF assms(1)] s]]])
qed

lemma drifts_set_fresh: "drifts A s s' \<Longrightarrow> st_msgs s a = None \<Longrightarrow> st_msgs s' a \<noteq> None \<Longrightarrow> drifts A s (set_msg a m s')"
  by (auto simp: drifts_def set_msg_def store_ok_def)

lemma node_safe_broadcastPrepare:
  assumes "quiet E" and "node_safe (le_libs E) C N" and "broadcastPrepareMsg E now a N = Some N'"
  shows "node_safe (le_libs E) C N'"
proof -
  obtain pa b s m m' N1 N2 N3 where s: "populateSigned (le_libs E) PreparePacket 0 (m_view (nd_config N)) now
      (m_nodeIndex (nd_config N)) pa True (nd_store N) = Some (b, s)"
    and m: "st_msgs s b = Some m" and N1: "cp_addPrepareCache b (N \<lparr> nd_store := set_msg b m' s \<rparr>) = Some N1"
    and N2: "fuzz_msg E b N1 = Some N2" and N3: "broadcast E b N2 = Some N3" "cp_checkAndPreCommit E now N3 = Some N'"
    using assms(3) by (auto simp: broadcastPrepareMsg_def bind_eq_Some_conv Let_def)
  note s = drifts_populateSigned [OF node_safe_store_ok [OF assms(2)] s]
  have "node_safe (le_libs E) C (N \<lparr> nd_store := set_msg b m' s \<rparr>)"
    using node_safe_store [OF assms(2) drifts_set_fresh [OF s(1,2)]] m by simp
  from node_safe_addPrepare [OF this N1] have "node_safe (le_libs E) C N2"
    by (rule node_safe_same [OF fuzz_msg_quiet [OF assms(1) N2]])
  from node_safe_precommit [OF node_safe_broadcast [OF this N3(1)] N3(2)] show ?thesis .
qed

lemma node_safe_prePrepare:
  assumes "quiet E" and "node_safe (le_libs E) C N" and "a \<notin> commit_ptrs (nd_caches N)"
    and "handlePrePrepareMsg E now a v g k N = Some (r, N')"
  shows "node_safe (le_libs E) C N'"
proof -
  obtain m where m: "st_msgs (nd_store N) a = Some m" using assms(4) by (auto simp: handlePrePrepareMsg_def bind_eq_Some_conv)
  consider "N' = N" | b where "N' = N \<lparr> nd_verifying := nd_verifying N @ [(a, b)] \<rparr>"
    | N1 N2 where "cp_conflictWithProcessedReq a N = Some False" "cp_addPrePrepareCache a N = Some N1"
        "broadcastPrepareMsg E now a N1 = Some N2" "cp_checkAndPreCommit E now N2 = Some N'"
    using assms(4) by (auto simp: handlePrePrepareMsg_def checkPrePrepareMsg_def bind_eq_Some_conv Let_def split: if_splits option.splits)
  then show ?thesis
  proof cases
    case 2
    then show ?thesis using assms(2,3) m caches_safe_verifying by (auto simp: node_safe_def)
  next
    case 3
    from node_safe_addPrePrepare [OF assms(2) 3(2) m assms(3) 3(1)] 3(3)
    have "node_safe (le_libs E) C N2" by (rule node_safe_broadcastPrepare [OF assms(1)])
    then show ?thesis using 3(4) by (rule node_safe_precommit)
  qed (use assms(2) in simp)
qed

lemma node_safe_prepare:
  assumes "node_safe (le_libs E) C N" and "handlePrepareMsg E now a N = Some (r, N')"
  shows "node_safe (le_libs E) C N'"
proof -
  consider "N' = N" | N1 where "cp_addPrepareCache a N = Some N1" "cp_checkAndPreCommit E now N1 = Some N'"
    using assms(2) by (auto simp: handlePrepareMsg_def bind_eq_Some_conv split: if_splits)
  then show ?thesis using assms(1) node_safe_addPrepare node_safe_precommit by cases blast+
qed

lemma node_safe_handleCommit:
  assumes "node_safe (le_libs E) C N" and "handleCommitMsg E a N = Some (r, N')" and "st_msgs (nd_store N) a = Some m"
    and "authentic (le_libs E) m" and "a \<notin> proposal_ptrs (nd_caches N) (nd_verifying N)"
  shows "node_safe (le_libs E) C N'"
proof -
  consider "N' = N" | N1 where "checkSignature (le_libs E) (nd_config N) m" "cp_addCommitReq a N = Some N1" "cp_checkAndCommit N1 = Some N'"
    using assms(2,3) by (auto simp: handleCommitMsg_def checkPBFTMsg_def bind_eq_Some_conv split: if_splits)
  then show ?thesis
  proof cases
    case 2
    have "endorsed (le_libs E) C (pb_generatedFrom m) (pb_hash m) (pb_index m)"
      using checkSignature_endorsed [OF assms(4) 2(1)] endorsed_committee [of "nd_config N" C] assms(1)
      by (simp add: node_safe_def same_seat_def)
    from node_safe_addCommit [OF assms(1) 2(2) assms(3,5) this] 2(3) show ?thesis by (rule node_safe_commit)
  qed (use assms(1) in simp)
qed

lemma node_safe_checkPoint:
  assumes "node_safe L C N" and "handleCheckPointMsg E a N = Some (r, N')"
  shows "node_safe L C N'"
proof -
  consider "N' = N" | N1 q N2 N3 r' where "cp_addCheckPointMsg a N = Some N1" "tryToApplyCommitQueue N1 = Some (q, N2)"
      "cp_checkAndCommitStableCheckPoint N2 = Some N3" "shouldRequestCheckPoint a N3 = Some (r', N')"
    using assms(2) by (auto simp: handleCheckPointMsg_def bind_eq_Some_conv split: if_splits)
  then show ?thesis
    using assms(1) node_safe_addCheckPoint node_safe_same [OF same_core_tryToApply] node_safe_stable
      node_safe_same [OF same_core_request] by cases blast+
qed

lemma decode_pbft_fresh:
  assumes "store_ok s" and "decode_pbft L from rm s = Some (a, s')"
  shows "drifts A s s'" "st_msgs s a = None"
    "\<exists>m. st_msgs s' a = Some m \<and> authentic L m \<and> pb_packetType m = rm_type rm"
proof -
  obtain raw base where base: "dec_base L (raw_hashFieldsData raw) = Some base"
    and raw: "dec_pbft L (rm_payLoad rm) = Some raw" "rm_type rm \<in> pbft_packets"
    using assms(2) by (auto simp: decode_pbft_def decode_raw_pbft_def bind_eq_Some_conv split: if_splits)
  obtain pa s1 where s1: "decode_proposal (raw_consensusProposal raw) s = (pa, s1)" by fastforce
  define m where "m = createPBFTMsg \<lparr> pb_base := base, pb_hashFieldsData := raw_hashFieldsData raw,
    pb_signatureData := raw_signatureData raw, pb_consensusProposal := pa, pb_signatureDataHash := hash_of L (raw_hashFieldsData raw),
    pb_packetType := rm_type rm, pb_from := Some from \<rparr>"
  have s': "new_msg m s1 = (a, s')" using assms(2) base raw s1 by (simp add: decode_pbft_def decode_raw_pbft_def m_def)
  have 1: "drifts A s s1 \<and> (st_msgs s1 = st_msgs s) \<and> st_next s \<le> st_next s1"
    using s1 assms(1) drifts_new(2) [OF assms(1)] drifts_refl [OF assms(1)]
    by (auto simp: decode_proposal_def new_proposal_def split: option.splits)
  then have 2: "drifts A s1 s'" using drifts_new(1) [OF _ s'] drifts_ok by blast
  show "drifts A s s'" using 1 2 drifts_trans by blast
  show "st_msgs s a = None" using 1 s' store_ok_fresh(1) [of s1] drifts_ok [of A s s1] by (auto simp: new_msg_def)
  show "\<exists>m. st_msgs s' a = Some m \<and> authentic L m \<and> pb_packetType m = rm_type rm"
    using base s' by (auto simp: new_msg_def authentic_def m_def)
qed

lemma fresh_ptrs:
  assumes "node_safe L C N" and "st_msgs (nd_store N) a = None"
  shows "a \<notin> commit_ptrs (nd_caches N)" "a \<notin> proposal_ptrs (nd_caches N) (nd_verifying N)"
  using assms commit_ptrs_stored caches_safeD(4) unfolding node_safe_def by blast+

lemma node_safe_handleMsg:
  assumes "quiet E" and "node_safe (le_libs E) C N" and "st_msgs (nd_store N) a = Some m" and "authentic (le_libs E) m"
    and "a \<notin> commit_ptrs (nd_caches N)" and "a \<notin> proposal_ptrs (nd_caches N) (nd_verifying N)"
    and "handleMsg E now a N = Some N'"
  shows "node_safe (le_libs E) C N'"
proof -
  consider "N' = N"
    | N1 r where "same_core N N1" "handlePrePrepareMsg E now a True False True N1 = Some (r, N')"
    | N1 r where "same_core N N1" "handlePrepareMsg E now a N1 = Some (r, N')"
    | N1 r where "same_core N N1" "handleCommitMsg E a N1 = Some (r, N')"
    | N1 r where "same_core N N1" "handleCheckPointMsg E a N1 = Some (r, N')"
    using assms(7,3)
    by (auto simp: handleMsg_def bind_eq_Some_conv dest!: loki_handle_quiet [OF assms(1)] split: if_splits packet_type.splits)
  then show ?thesis
  proof cases
    case 2
    from node_safe_prePrepare [OF assms(1) node_safe_same [OF 2(1) assms(2)] _ 2(2)] assms(5) 2(1)
    show ?thesis by (simp add: same_core_def)
  next
    case 3
    from node_safe_prepare [OF node_safe_same [OF 3(1) assms(2)] 3(2)] show ?thesis .
  next
    case 4
    from node_safe_handleCommit [OF node_safe_same [OF 4(1) assms(2)] 4(2) _ assms(4)] assms(3,6) 4(1)
    show ?thesis by (simp add: same_core_def)
  next
    case 5
    from node_safe_checkPoint [OF node_safe_same [OF 5(1) assms(2)] 5(2)] show ?thesis .
  qed (use assms(2) in simp)
qed

lemma node_safe_receive:
  assumes "quiet E" and "node_safe (le_libs E) C N" and "onReceivePBFTMessage E now from rm N = Some N'"
  shows "node_safe (le_libs E) C N'"
proof (cases "N' = N")
  case False
  then obtain a s where s: "decode_pbft (le_libs E) from rm (nd_store N) = Some (a, s)"
    "handleMsg E now a (N \<lparr> nd_store := s \<rparr>) = Some N'"
    using assms(3) by (auto simp: onReceivePBFTMessage_def split: if_splits option.splits)
  note a = decode_pbft_fresh [OF node_safe_store_ok [OF assms(2)] s(1)]
  obtain m where m: "st_msgs s a = Some m" "authentic (le_libs E) m" using a(3) by blast
  show ?thesis
    by (rule node_safe_handleMsg [OF assms(1) node_safe_store [OF assms(2) a(1)] _ m(2) _ _ s(2)])
      (use m(1) fresh_ptrs [OF assms(2) a(2)] in simp_all)
qed (use assms(2) in simp)

lemma node_safe_seal:
  assumes "quiet E" and "node_safe (le_libs E) C N" and "onRecvProposal E now sys txs i h N = Some N'"
  shows "node_safe (le_libs E) C N'"
proof (cases "N' = N")
  case False
  obtain pa s where s: "new_proposal (createPBFTProposal \<lparr> pp_data := txs, pp_index := i, pp_hash := h,
      pp_sealerId := m_nodeIndex (nd_config N), pp_systemProposal := sys \<rparr>) (nd_store N) = (pa, s)" by fastforce
  with False obtain a s1 r N1 where
    s1: "populateMessage PrePreparePacket pa 0 (m_view (nd_config N)) now (m_nodeIndex (nd_config N)) s = Some (a, s1)"
    and N1: "handlePrePrepareMsg E now a False False False (N \<lparr> nd_store := s1 \<rparr>) = Some (r, N1)"
    and N': "N' = N1 \<or> (\<exists>N2. fuzz_msg E a N1 = Some N2 \<and> broadcast E a N2 = Some N')"
    using assms(3) by (auto simp: onRecvProposal_def Let_def bind_eq_Some_conv split: if_splits)
  obtain m where m: "new_msg m s = (a, s1)" using s1 by (auto simp: populateMessage_def bind_eq_Some_conv)
  have 1: "drifts {} (nd_store N) s" by (rule drifts_new(2) [OF node_safe_store_ok [OF assms(2)] s])
  have 2: "drifts {} s s1" by (rule drifts_new(1) [OF drifts_ok [OF 1] m])
  have "st_msgs (nd_store N) a = None"
    using s m node_safe_store_ok [OF assms(2)] by (auto simp: new_proposal_def new_msg_def store_ok_def intro: ccontr)
  note fresh = fresh_ptrs [OF assms(2) this]
  have N1: "node_safe (le_libs E) C N1"
    by (rule node_safe_prePrepare [OF assms(1) node_safe_store [OF assms(2) drifts_trans [OF 1 2]] _ N1]) (use fresh in simp)
  with N' show ?thesis using node_safe_same [OF fuzz_msg_quiet [OF assms(1)]] node_safe_broadcast by blast
qed (use assms(2) in simp)

lemma node_safe_verified:
  assumes "quiet E" and "node_safe (le_libs E) C N" and "onVerifyFinished E now k result N = Some N'"
  shows "node_safe (le_libs E) C N'"
proof (cases "k < length (nd_verifying N)")
  case True
  obtain a g where a: "nd_verifying N ! k = (a, g)" by fastforce
  let ?N1 = "N \<lparr> nd_verifying := take k (nd_verifying N) @ drop (Suc k) (nd_verifying N) \<rparr>"
  have "set (nd_verifying ?N1) \<subseteq> set (nd_verifying N)" by (auto dest: in_set_takeD in_set_dropD)
  then have N1: "node_safe (le_libs E) C ?N1" using assms(2) caches_safe_sub by (fastforce simp: node_safe_def)
  have "(a, g) \<in> set (nd_verifying N)" using True a nth_mem by metis
  then have "a \<in> proposal_ptrs (nd_caches N) (nd_verifying N)" unfolding proposal_ptrs_def by force
  then have fresh: "a \<notin> commit_ptrs (nd_caches N)" using assms(2) caches_safeD(5) unfolding node_safe_def by blast
  consider "N' = ?N1" | r where "handlePrePrepareMsg E now a False g False ?N1 = Some (r, N')"
    using assms(3) True a by (auto simp: onVerifyFinished_def bind_eq_Some_conv Let_def split: if_splits)
  then show ?thesis using N1 node_safe_prePrepare [OF assms(1) N1] fresh by cases auto
qed (use assms(2,3) in \<open>simp add: onVerifyFinished_def\<close>)

lemma node_safe_config:
  "node_safe L C N \<Longrightarrow> same_seat (nd_config N) C' \<Longrightarrow> node_safe L C (N \<lparr> nd_config := C' \<rparr>)"
  by (simp add: node_safe_def same_seat_def)

lemma setExpectedCheckPoint_seat: "setExpectedCheckPoint i C = Some C' \<Longrightarrow> same_seat C C'"
  by (auto simp: setExpectedCheckPoint_def bind_eq_Some_conv same_seat_def)

lemma node_safe_applied:
  assumes "quiet E" and "node_safe (le_libs E) C N" and "onProposalApplySuccess E now pa q N = Some N'"
  shows "node_safe (le_libs E) C N'"
proof -
  obtain a s N1 N2 N3 N4 i C1 N5 r N6 where
    s: "populateSigned (le_libs E) CheckPoint 0 (m_view (nd_config N)) now (m_nodeIndex (nd_config N)) q True (nd_store N) = Some (a, s)"
    and N1: "fuzz_msg E a (N \<lparr> nd_store := s \<rparr>) = Some N1" and N2: "broadcast E a N1 = Some N2"
    and N3: "cp_addCheckPointMsg a N2 = Some N3" and N4: "cp_setCheckPointProposal q N3 = Some N4"
    and C1: "setExpectedCheckPoint i (nd_config N4) = Some C1"
    and N5: "cp_checkAndCommitStableCheckPoint (N4 \<lparr> nd_config := C1 \<rparr>) = Some N5"
    and N6: "tryToApplyCommitQueue N5 = Some (r, N6)" "same_core N6 N'"
    using assms(3) by (auto simp: onProposalApplySuccess_def bind_eq_Some_conv same_core_def eraseExecutedProposal_def)
  have "node_safe (le_libs E) C (N \<lparr> nd_store := s \<rparr>)"
    by (rule node_safe_store [OF assms(2) drifts_populateSigned(1) [OF node_safe_store_ok [OF assms(2)] s]])
  from node_safe_same [OF fuzz_msg_quiet [OF assms(1) N1] this]
  have "node_safe (le_libs E) C N4"
    using node_safe_broadcast [OF _ N2] node_safe_addCheckPoint [OF _ N3] node_safe_setCheckPoint [OF _ N4] by blast
  from node_safe_stable [OF node_safe_config [OF this setExpectedCheckPoint_seat [OF C1]] N5]
  show ?thesis using node_safe_same [OF same_core_tryToApply [OF N6(1)]] node_safe_same [OF N6(2)] by blast
qed

lemma node_safe_failed:
  assumes "node_safe L C N" and "onProposalApplyFailed pa N = Some N'"
  shows "node_safe L C N'"
proof -
  obtain h N1 i C1 where "N1 = N \<or> updateCommitQueue pa (eraseExecutedProposal h N) = Some N1"
    and C1: "setExpectedCheckPoint i (nd_config N1) = Some C1" "N' = eraseExecutedProposal h (N1 \<lparr> nd_config := C1 \<rparr>)"
    using assms(2) by (auto simp: onProposalApplyFailed_def bind_eq_Some_conv split: if_splits)
  then have N1: "same_core N N1"
    using same_core_trans [OF same_core_erase same_core_updateCommitQueue] by (auto simp: same_core_def)
  from node_safe_config [OF node_safe_same [OF N1 assms(1)] setExpectedCheckPoint_seat [OF C1(1)]]
  show ?thesis unfolding C1(2) by (rule node_safe_same [OF same_core_erase])
qed

lemma reset_each_safe:
  assumes "same_seat C C'"
  shows "reset_each C' s view cs = Some cs' \<Longrightarrow> \<forall>i c. (i, c) \<in> set cs \<longrightarrow> m_index c = i \<and> cache_safe L C s c \<Longrightarrow>
    (\<forall>i c. (i, c) \<in> set cs' \<longrightarrow> m_index c = i \<and> cache_safe L C s c) \<and> commit_ptrs cs' \<subseteq> commit_ptrs cs \<and>
    proposal_ptrs cs' vs = proposal_ptrs cs vs"
proof (induction cs arbitrary: cs')
  case (Cons x cs)
  obtain i c where x: "x = (i, c)" by fastforce
  with Cons.prems(1) obtain c1 cs1 where c1: "resetCache C' s view c = Some c1" "reset_each C' s view cs = Some cs1" "cs' = (i, c1) # cs1"
    by (auto simp: bind_eq_Some_conv)
  have c: "m_index c = i" "cache_safe L C' s c" using Cons.prems(2) x cache_safe_seat [OF assms] by simp_all
  note new = resetCache_safe [OF c(2) c1(1), unfolded cache_safe_seat [OF assms]]
  from Cons.IH [OF c1(2)] Cons.prems(2)
  have "(\<forall>i c. (i, c) \<in> set cs1 \<longrightarrow> m_index c = i \<and> cache_safe L C s c) \<and> commit_ptrs cs1 \<subseteq> commit_ptrs cs \<and>
    proposal_ptrs cs1 vs = proposal_ptrs cs vs" by simp
  with new c(1) x c1(3) show ?case unfolding commit_ptrs_def proposal_ptrs_def by auto
qed simp

lemma node_safe_newView:
  assumes "node_safe L C N" and "reachNewView view N = Some N'"
  shows "node_safe L C N'"
proof -
  let ?C = "resetNewViewState view (nd_config N)"
  obtain cs where cs: "reset_each ?C (nd_store N) (m_view ?C) (nd_caches N) = Some cs" "N' = N \<lparr> nd_config := ?C, nd_caches := cs \<rparr>"
    using assms(2) by (auto simp: reachNewView_def Let_def bind_eq_Some_conv)
  have seat: "same_seat C ?C" and safe: "caches_safe L C (nd_store N) (nd_caches N) (nd_verifying N)"
    using assms(1) by (simp_all add: node_safe_def same_seat_def resetNewViewState_def)
  have "\<forall>i c. (i, c) \<in> set (nd_caches N) \<longrightarrow> m_index c = i \<and> cache_safe L C (nd_store N) c"
    using safe unfolding caches_safe_def by blast
  from reset_each_safe [OF seat cs(1) this, of "nd_verifying N"] safe
  have "caches_safe L C (nd_store N) cs (nd_verifying N)" unfolding caches_safe_def by auto
  then show ?thesis using cs(2) seat by (simp add: node_safe_def)
qed

text \<open>The committee of a chain does not change with a block: the ledger names the nodes it has.\<close>

fun keeps_committee :: "pbft_config \<Rightarrow> pbft_event \<Rightarrow> bool" where
  "keeps_committee C (BlockWritten l synced) \<longleftrightarrow>
     compareConsensusNode (sort_key (\<lambda>n. (cn_nodeID n, cn_weight n)) (lc_consensusNodeList l)) (m_consensusNodeList C)"
| "keeps_committee C _ \<longleftrightarrow> True"

lemma resetConfig_seat:
  assumes "keeps_committee C (BlockWritten l synced)" and "same_seat C C1" and "resetConfig l C1 = Some C2"
  shows "same_seat C1 C2"
  using assms by (auto simp: resetConfig_def Let_def bind_eq_Some_conv setConsensusNodeList_def setCommittedProposal_def
      same_seat_def split: if_splits option.splits)

lemma node_safe_finalize:
  assumes "node_safe L C N" and "keeps_committee C (BlockWritten l synced)" and "finalizeConsensus l synced N = Some N'"
  shows "node_safe L C N'"
proof -
  obtain C1 r N1 N2 where C1: "resetConfig l (nd_config N) = Some C1" and N1: "tryToApplyCommitQueue (N \<lparr> nd_config := C1 \<rparr>) = Some (r, N1)"
    and N2: "tryToCommitStableCheckPoint (removeConsensusedCache (lc_blockNumber l) N1) = Some N2"
    and N': "N' = N2 \<or> removeFutureProposals N2 = Some N'"
    using assms(3) by (auto simp: finalizeConsensus_def bind_eq_Some_conv split: if_splits)
  have "same_seat C (nd_config N)" using assms(1) by (simp add: node_safe_def)
  from node_safe_config [OF assms(1) resetConfig_seat [OF assms(2) this C1]]
  have "node_safe L C N1" by (rule node_safe_same [OF same_core_tryToApply [OF N1]])
  then have "node_safe L C (removeConsensusedCache (lc_blockNumber l) N1)"
    using caches_safe_sub by (fastforce simp: node_safe_def removeConsensusedCache_def)
  then have "node_safe L C N2" by (rule node_safe_same [OF same_core_tryToCommitStable [OF N2]])
  moreover have "node_safe L C N'" if removed: "removeFutureProposals N2 = Some N'"
  proof -
    obtain i C3 where C3: "setExpectedCheckPoint i (nd_config N2) = Some C3" "nd_config N' = C3" "nd_store N' = nd_store N2"
      "nd_verifying N' = nd_verifying N2" "set (nd_caches N') \<subseteq> set (nd_caches N2)"
      using removed by (auto simp: removeFutureProposals_def bind_eq_Some_conv)
    with \<open>node_safe L C N2\<close> setExpectedCheckPoint_seat [OF C3(1)] caches_safe_sub show ?thesis
      by (fastforce simp: node_safe_def same_seat_def)
  qed
  ultimately show ?thesis using N' by blast
qed

lemma node_safe_step:
  assumes "quiet E" and "node_safe (le_libs E) C N" and "keeps_committee C e" and "pbft_step E e N = Some N'"
  shows "node_safe (le_libs E) C N'"
proof (cases e)
  case (ProposalApplied now pa p)
  obtain qa s where s: "new_proposal p (nd_store N) = (qa, s)" by fastforce
  have "node_safe (le_libs E) C (N \<lparr> nd_store := s \<rparr>)"
    by (rule node_safe_store [OF assms(2) drifts_new(2) [OF node_safe_store_ok [OF assms(2)] s]])
  then show ?thesis using node_safe_applied [OF assms(1)] assms(4) ProposalApplied s by simp
next
  case (ProposalLoaded p)
  obtain pa s where s: "new_proposal p (nd_store N) = (pa, s)" by fastforce
  have "node_safe (le_libs E) C (N \<lparr> nd_store := s \<rparr>)"
    by (rule node_safe_store [OF assms(2) drifts_new(2) [OF node_safe_store_ok [OF assms(2)] s]])
  then show ?thesis using node_safe_same [OF same_core_updateCommitQueue] assms(4) ProposalLoaded s
    by (simp add: onLoadAndVerifyProposalSucc_def)
qed (use assms in \<open>auto intro: node_safe_receive node_safe_seal node_safe_verified node_safe_failed node_safe_newView node_safe_finalize\<close>)

lemma node_safe_init: "node_safe L C (pbft_init C clock)"
  by (simp add: node_safe_def same_seat_def pbft_init_def caches_safe_def store_ok_def empty_store_def proposal_ptrs_def commit_ptrs_def)

text \<open>The moves of a node whose fuzzer is quiet, in one committee.\<close>

definition pbft_move :: "loki_env \<Rightarrow> pbft_config \<Rightarrow> pbft_node \<Rightarrow> pbft_node \<Rightarrow> bool" where
  "pbft_move E C N N' \<longleftrightarrow> quiet E \<and> (\<exists>e. keeps_committee C e \<and> pbft_step E e N = Some N')"

interpretation pbft: transition_system "\<lambda>N. \<exists>clock. N = pbft_init C clock" "pbft_move E C" "node_safe (le_libs E) C" for E C
  by unfold_locales (auto simp: pbft_move_def node_safe_init intro: node_safe_step)

lemma pbft_run_moves:
  "quiet E \<Longrightarrow> \<forall>e\<in>set es. keeps_committee C e \<Longrightarrow> pbft_run E es N = Some N' \<Longrightarrow> rtranclp (pbft_move E C) N N'"
proof (induction es arbitrary: N)
  case (Cons e es)
  then obtain N1 where "pbft_step E e N = Some N1" "pbft_run E es N1 = Some N'" by (auto simp: bind_eq_Some_conv)
  then have "pbft_move E C N N1" using Cons.prems by (auto simp: pbft_move_def)
  moreover have "rtranclp (pbft_move E C) N1 N'" using Cons.IH Cons.prems \<open>pbft_run E es N1 = Some N'\<close> by simp
  ultimately show ?case by (rule converse_rtranclp_into_rtranclp)
qed simp

lemma node_safe_run:
  assumes "quiet E" and "\<forall>e\<in>set es. keeps_committee C e" and "pbft_run E es (pbft_init C clock) = Some N"
  shows "node_safe (le_libs E) C N"
  using pbft.runs_inv pbft_run_moves [OF assms] by blast

subsection \<open>Agreement\<close>

text \<open>A node has committed the proposal with a hash for a block number.\<close>

definition has_committed :: "pbft_node \<Rightarrow> block_number \<Rightarrow> hash_type \<Rightarrow> bool" where
  "has_committed N i h \<longleftrightarrow> (\<exists>c a m. map_of (nd_caches N) i = Some c \<and> m_submitted c \<and> m_prePrepare c = Some a \<and>
     st_msgs (nd_store N) a = Some m \<and> pb_hash m = h)"

text \<open>The votes a node counts: its own, and those that carry a signature of the sender.\<close>

definition counts_vote :: "pbft_libs \<Rightarrow> pbft_config \<Rightarrow> u64 \<Rightarrow> hash_type \<Rightarrow> block_number \<Rightarrow> bool" where
  "counts_vote L C j h i \<longleftrightarrow> j = m_nodeIndex C \<or> endorsed L C j h i"

lemma committed_quorum:
  assumes "node_safe L C N" and "has_committed N i h"
  shows "\<exists>Q. unat (m_minRequiredQuorum C) \<le> nodes_weight C Q \<and> (\<forall>j\<in>Q. unat j < length (m_consensusNodeList C) \<and> counts_vote L C j h i)"
proof -
  obtain c a m where c: "map_of (nd_caches N) i = Some c" "m_submitted c" "m_prePrepare c = Some a"
    "st_msgs (nd_store N) a = Some m" "pb_hash m = h" using assms(2) unfolding has_committed_def by blast
  have safe: "caches_safe L C (nd_store N) (nd_caches N) (nd_verifying N)" using assms(1) by (simp add: node_safe_def)
  have i: "m_index c = i" and ok: "cache_safe L C (nd_store N) c"
    using caches_safeD(2,3) [OF safe map_of_SomeD [OF c(1)]] by blast+
  have "unat (m_minRequiredQuorum C) \<le> nodes_weight C (voters (m_commit c) h)"
    using ok c(2-5) by (auto simp: cache_safe_def submitted_ok_def)
  moreover have tally: "tally_ok C (m_commit c)" using ok by (simp add: cache_safe_def commit_votes_ok_def)
  moreover have "counts_vote L C j h i" if j: "j \<in> voters (m_commit c) h" for j
  proof -
    obtain b where "(j, b) \<in> set (votes_at (fst (m_commit c)) h)" using j unfolding voters_def by auto
    with ok show ?thesis unfolding cache_safe_def commit_votes_ok_def counts_vote_def i by blast
  qed
  ultimately show ?thesis using voters_bounded [OF tally] by blast
qed


subsection \<open>An example\<close>

text \<open>
  Four nodes of weight 1.  An encoding is the view, the sender, the block number and the hash, one byte each;
  a packet has the signature behind it, which is the key of the signer and what is signed.
\<close>

definition wire_libs :: "node_id \<Rightarrow> pbft_libs" where
  "wire_libs key = \<lparr> hash_of = id, sign_with = (\<lambda>h. key @ h), verify_with = (\<lambda>k h sig. sig = k @ h),
     enc_base = (\<lambda>b. [ucast (bm_view b), ucast (bm_generatedFrom b), word_of_int (bm_index b)] @ bm_hash b),
     dec_base = (\<lambda>bs. Some (case bs of v # g # i # h \<Rightarrow>
         empty_base \<lparr> bm_view := ucast v, bm_generatedFrom := ucast g, bm_hash := h, bm_index := uint i \<rparr> | _ \<Rightarrow> empty_base)),
     enc_pbft = (\<lambda>raw. raw_hashFieldsData raw @ raw_signatureData raw),
     dec_pbft = (\<lambda>bs. Some \<lparr> raw_hashFieldsData = take 4 bs,
       raw_consensusProposal = Some (createPBFTProposal \<lparr> pp_index := uint (bs ! 2), pp_hash := [bs ! 3], pp_signature := [bs ! 4, bs ! 3] \<rparr>),
       raw_signatureData = drop 4 bs \<rparr>),
     enc_view = bm_hash \<circ> rv_message, dec_view = (\<lambda>_. None) \<rparr>"

definition quiet_env :: "node_id \<Rightarrow> loki_env" where
  "quiet_env key = \<lparr> le_libs = wire_libs key, rand_from = (\<lambda>_ _. 1) \<rparr>"

definition wire_packet :: "packet_type \<Rightarrow> 8 word \<Rightarrow> 8 word \<Rightarrow> raw_message" where
  "wire_packet t j h = \<lparr> rm_version = 0, rm_type = t, rm_signatureData = [], rm_payLoad = [5, j, 7, h, j + 1, 5, j, 7, h] \<rparr>"

text \<open>The first node leads the view and proposes a block; the second one is sent another proposal, which the
  first and the third node vote for as well.\<close>

definition leader_events :: "pbft_event list" where
  "leader_events = SealProposal 100 False [1] 7 [9] #
     map (ReceivePacket 101 [2]) [wire_packet PreparePacket 1 9, wire_packet PreparePacket 2 9, wire_packet CommitPacket 1 9, wire_packet CommitPacket 2 9]"

definition follower_events :: "pbft_event list" where
  "follower_events = [ReceivePacket 100 [1] (wire_packet PrePreparePacket 0 8), VerifyFinished 101 0 True] @
     map (ReceivePacket 102 [1]) [wire_packet PreparePacket 0 8, wire_packet PreparePacket 2 8, wire_packet CommitPacket 0 8, wire_packet CommitPacket 2 8]"

definition follower_config :: pbft_config where
  "follower_config = example_config \<lparr> m_nodeID := [2], m_nodeIndex := 1 \<rparr>"

definition committed_hash :: "pbft_node \<Rightarrow> block_number \<Rightarrow> hash_type option" where
  "committed_hash N i = do { c \<leftarrow> map_of (nd_caches N) i; a \<leftarrow> m_prePrepare c; m \<leftarrow> st_msgs (nd_store N) a;
     if m_submitted c then Some (pb_hash m) else None }"

lemma committed_hashD: "committed_hash N i = Some h \<Longrightarrow> has_committed N i h"
  by (auto simp: committed_hash_def has_committed_def bind_eq_Some_conv split: if_splits)

lemma leader_run: "Option.bind (pbft_run (quiet_env [1]) leader_events (pbft_init example_config (\<lambda>_. 0))) (\<lambda>N. committed_hash N 7) = Some [9]"
  by code_simp

lemma follower_run: "Option.bind (pbft_run (quiet_env [2]) follower_events (pbft_init follower_config (\<lambda>_. 0))) (\<lambda>N. committed_hash N 7) = Some [8]"
  by code_simp


end
