(* ===== verification/PbftFuzzing.thy ===== *)
theory PbftFuzzing
  imports PbftSafety
begin

text \<open>
  What signatures and the fuzzer mean for votes: the kind of a message is not signed, so that a prepare
  also counts as a commit, and a vote that the fuzzer sends again is lost for the node itself, because the
  fuzzer signs the node's own object anew.  What one round of the fuzzer sends.
\<close>

subsection \<open>The kind of a message is not signed\<close>

lemma set_put_at_Some: "map_of (put_at i x xs) i = Some x"
  by (induction i x xs rule: put_at.induct) auto

lemma decode_pbft_eq:
  assumes "decode_pbft L from rm s = Some (a, s')"
  shows "\<exists>m s1. new_msg m s1 = (a, s') \<and> st_msgs s' a = Some m \<and> rm_type rm \<in> pbft_packets \<and>
    (\<forall>t\<in>pbft_packets. \<forall>from'. decode_pbft L from' (rm \<lparr> rm_type := t \<rparr>) s =
       Some (new_msg (m \<lparr> pb_packetType := t, pb_from := Some from' \<rparr>) s1))"
proof -
  obtain raw base where base: "dec_base L (raw_hashFieldsData raw) = Some base"
    and raw: "dec_pbft L (rm_payLoad rm) = Some raw" "rm_type rm \<in> pbft_packets"
    using assms by (auto simp: decode_pbft_def decode_raw_pbft_def bind_eq_Some_conv split: if_splits)
  obtain pa s1 where s1: "decode_proposal (raw_consensusProposal raw) s = (pa, s1)" by fastforce
  then show ?thesis using assms base raw
    by (intro exI [of _ "createPBFTMsg \<lparr> pb_base := base, pb_hashFieldsData := raw_hashFieldsData raw,
      pb_signatureData := raw_signatureData raw, pb_consensusProposal := pa, pb_signatureDataHash := hash_of L (raw_hashFieldsData raw),
      pb_packetType := rm_type rm, pb_from := Some from \<rparr>"] exI [of _ s1])
      (auto simp: decode_pbft_def decode_raw_pbft_def new_msg_def)
qed

text \<open>The checks of a vote look at its base fields, its signature and whether it has a proposal.\<close>

definition same_bases :: "pbft_store \<Rightarrow> pbft_store \<Rightarrow> bool" where
  "same_bases s s' \<longleftrightarrow> (\<forall>b. map_option pb_base (st_msgs s' b) = map_option pb_base (st_msgs s b))"

lemma same_basesE:
  assumes "same_bases s s'"
  obtains "st_msgs s b = None" "st_msgs s' b = None"
  | m m' where "st_msgs s b = Some m" "st_msgs s' b = Some m'" "pb_base m' = pb_base m"
  using assms that unfolding same_bases_def by (cases "st_msgs s b"; cases "st_msgs s' b") (auto dest!: spec [of _ b])

lemma existPrePrepare_bases:
  assumes "same_bases s s'" shows "existPrePrepare s' a c = existPrePrepare s a c"
proof (cases "m_prePrepare c")
  case (Some b)
  then show ?thesis
    by (cases rule: same_basesE [OF assms, of a]; cases rule: same_basesE [OF assms, of b])
      (simp_all add: existPrePrepare_def)
qed (simp add: existPrePrepare_def)

lemma conflictWithProcessedReq_bases:
  assumes "same_bases s s'" shows "conflictWithProcessedReq C s' a c = conflictWithProcessedReq C s a c"
proof (cases "m_prePrepare c")
  case (Some b)
  then show ?thesis
    by (cases rule: same_basesE [OF assms, of a]; cases rule: same_basesE [OF assms, of b])
      (simp_all add: conflictWithProcessedReq_def)
next
  case None
  then show ?thesis
    by (cases rule: same_basesE [OF assms, of a]) (simp_all add: conflictWithProcessedReq_def)
qed

lemma checkPBFTMsg_kind:
  assumes "st_msgs s a = Some m"
    and s'_def: "s' = set_msg a (m \<lparr> pb_packetType := t, pb_from := f \<rparr>) s"
  shows "checkPBFTMsg L a (N \<lparr> nd_store := s' \<rparr>) = checkPBFTMsg L a (N \<lparr> nd_store := s \<rparr>)"
proof -
  have bases: "same_bases s s'" using assms(1) by (simp add: same_bases_def s'_def set_msg_def)
  note same = existPrePrepare_bases [OF bases] conflictWithProcessedReq_bases [OF bases]
  let ?N = "N \<lparr> nd_store := s \<rparr>" and ?N' = "N \<lparr> nd_store := s' \<rparr>" and ?m' = "m \<lparr> pb_packetType := t, pb_from := f \<rparr>"
  have m': "st_msgs s' a = Some ?m'" by (simp add: s'_def set_msg_def)
  have "cp_existPrePrepare a ?N' = cp_existPrePrepare a ?N" "cp_conflictWithProcessedReq a ?N' = cp_conflictWithProcessedReq a ?N"
    using assms(1) m' by (simp_all add: cp_existPrePrepare_def cp_conflictWithProcessedReq_def ask_cache_def same cong: option.case_cong)
  moreover have "checkPBFTMsgState a ?N' = checkPBFTMsgState a ?N" using assms(1) m' by (simp add: checkPBFTMsgState_def Let_def)
  moreover have "checkSignature L (nd_config N) ?m' = checkSignature L (nd_config N) m" by (simp add: checkSignature_def cong: option.case_cong)
  ultimately show ?thesis using assms(1) m' by (simp add: checkPBFTMsg_def cong: if_cong)
qed

text \<open>A vote that is recorded: its sender is among the voters of its hash.\<close>

lemma addCommitCache_records:
  assumes "st_msgs s a = Some m" and "getConsensusNodeByIndex C (pb_generatedFrom m) = Some n" and "pb_index m = m_index c"
  shows "\<exists>c'. addCommitCache C s a c = Some c' \<and> pb_generatedFrom m \<in> voters (m_commit c') (pb_hash m)"
proof -
  have "\<exists>VW. addCache C s (m_index c) a (m_commit c) = Some VW \<and> pb_generatedFrom m \<in> voters VW (pb_hash m)"
  proof (cases "has_vote (fst (m_commit c)) (pb_hash m) (pb_generatedFrom m)")
    case True
    then show ?thesis using assms by (simp add: addCache_def has_vote_def voters_def)
  next
    case False
    then have "pb_generatedFrom m \<notin> set (map fst (votes_at (fst (m_commit c)) (pb_hash m)))" by (simp add: has_vote_def)
    from set_put_vote [OF this] False assms show ?thesis by (simp add: addCache_def voters_def record_vote_def)
  qed
  then show ?thesis by (auto simp: addCommitCache_def)
qed

lemma checkPBFTMsg_node:
  assumes "checkPBFTMsg L a N = Some True" and "st_msgs (nd_store N) a = Some m"
  shows "\<exists>n. getConsensusNodeByIndex (nd_config N) (pb_generatedFrom m) = Some n"
proof -
  have "checkSignature L (nd_config N) m"
    using assms by (auto simp: checkPBFTMsg_def bind_eq_Some_conv split: if_splits)
  then show ?thesis by (auto simp: checkSignature_def split: option.splits)
qed

text \<open>
  C22: The kind of a vote is not signed.  Whoever has seen a prepare packet that a node accepts can send
  the same bytes as a commit: the node decodes it to the same message, its checks pass, the sender of the
  prepare is recorded among those that commit to its hash, and the node goes on as for a commit.
\<close>

theorem prepare_counts_as_commit:
  assumes "decode_pbft (le_libs E) from rm (nd_store N) = Some (a, s)" and "st_msgs s a = Some m"
    and "handlePrepareMsg E now a (N \<lparr> nd_store := s \<rparr>) = Some (True, N1)"
    and "\<forall>(i, c)\<in>set (nd_caches N). m_index c = i"
  shows "\<exists>s' N2 c. decode_pbft (le_libs E) other (rm \<lparr> rm_type := CommitPacket \<rparr>) (nd_store N) = Some (a, s') \<and>
    cp_addCommitReq a (N \<lparr> nd_store := s' \<rparr>) = Some N2 \<and>
    handleCommitMsg E a (N \<lparr> nd_store := s' \<rparr>) = map_option (Pair True) (cp_checkAndCommit N2) \<and>
    map_of (nd_caches N2) (pb_index m) = Some c \<and> pb_generatedFrom m \<in> voters (m_commit c) (pb_hash m)"
proof -
  define m' where "m' = m \<lparr> pb_packetType := CommitPacket, pb_from := Some other \<rparr>"
  define s' where "s' = set_msg a m' s"
  obtain s1 where s1: "new_msg m s1 = (a, s)"
    "decode_pbft (le_libs E) other (rm \<lparr> rm_type := CommitPacket \<rparr>) (nd_store N) = Some (new_msg m' s1)"
    using decode_pbft_eq [OF assms(1)] assms(2) by (fastforce simp: pbft_packets_def m'_def)
  then have decoded: "decode_pbft (le_libs E) other (rm \<lparr> rm_type := CommitPacket \<rparr>) (nd_store N) = Some (a, s')"
    by (auto simp: new_msg_def s'_def set_msg_def)
  have ok: "checkPBFTMsg (le_libs E) a (N \<lparr> nd_store := s \<rparr>) = Some True"
    using assms(3) by (auto simp: handlePrepareMsg_def bind_eq_Some_conv split: if_splits)
  then have ok': "checkPBFTMsg (le_libs E) a (N \<lparr> nd_store := s' \<rparr>) = Some True"
    using checkPBFTMsg_kind [OF assms(2) s'_def [unfolded m'_def]] by simp
  have m': "st_msgs s' a = Some m'" and index: "pb_index m' = pb_index m" by (simp_all add: s'_def set_msg_def m'_def)
  from checkPBFTMsg_node [OF ok] assms(2) obtain n where n: "getConsensusNodeByIndex (nd_config N) (pb_generatedFrom m') = Some n"
    by (auto simp: m'_def)
  let ?c = "cache_at (pb_index m) N"
  have "m_index ?c = pb_index m"
    using assms(4) by (auto simp: cache_at_def new_cache_def dest!: map_of_SomeD split: option.splits)
  then obtain c where c: "addCommitCache (nd_config N) s' a ?c = Some c" "pb_generatedFrom m' \<in> voters (m_commit c) (pb_hash m')"
    using addCommitCache_records [OF m' n, of ?c] by (auto simp: m'_def)
  let ?N2 = "N \<lparr> nd_store := s', nd_caches := put_at (pb_index m) c (nd_caches N) \<rparr>"
  have "cp_addCommitReq a (N \<lparr> nd_store := s' \<rparr>) = Some ?N2"
    using m' c(1) index by (simp add: cp_addCommitReq_def cp_addCache_def cache_at_def cong: option.case_cong)
  moreover have "map_of (nd_caches ?N2) (pb_index m) = Some c" by (simp add: set_put_at_Some)
  moreover have "pb_generatedFrom m \<in> voters (m_commit c) (pb_hash m)" using c(2) by (simp add: m'_def)
  ultimately show ?thesis using decoded ok' by (fastforce simp: handleCommitMsg_def map_option_case split: option.splits)
qed

text \<open>The leader of the example has sealed its proposal and receives the prepare of the second node.\<close>

definition sealed_node :: "pbft_node option" where
  "sealed_node = pbft_run (quiet_env [1]) [SealProposal 100 False [1] 7 [9]] (pbft_init example_config (\<lambda>_. 0))"

definition received_prepare :: "(pbft_node \<times> ptr \<times> pbft_store \<times> pbft_message \<times> pbft_node) option" where
  "received_prepare = do {
     N \<leftarrow> sealed_node;
     (a, s) \<leftarrow> decode_pbft (wire_libs [1]) [2] (wire_packet PreparePacket 1 9) (nd_store N);
     m \<leftarrow> st_msgs s a;
     (ok, N1) \<leftarrow> handlePrepareMsg (quiet_env [1]) 101 a (N \<lparr> nd_store := s \<rparr>);
     if ok \<and> list_all (\<lambda>(i, c). m_index c = i) (nd_caches N) \<and> pb_generatedFrom m = 1 \<and> pb_hash m = [9] then Some (N, a, s, m, N1) else None }"

lemma prepare_received: "received_prepare \<noteq> None"
  by code_simp

theorem prepare_counts_as_commit_witness:
  "\<exists>N a s N2 c i. sealed_node = Some N \<and>
    decode_pbft (wire_libs [1]) [3] ((wire_packet PreparePacket 1 9) \<lparr> rm_type := CommitPacket \<rparr>) (nd_store N) = Some (a, s) \<and>
    cp_addCommitReq a (N \<lparr> nd_store := s \<rparr>) = Some N2 \<and>
    handleCommitMsg (quiet_env [1]) a (N \<lparr> nd_store := s \<rparr>) = map_option (Pair True) (cp_checkAndCommit N2) \<and>
    map_of (nd_caches N2) i = Some c \<and> 1 \<in> voters (m_commit c) [9]"
proof -
  obtain N a s m N1 where N: "sealed_node = Some N"
    "decode_pbft (le_libs (quiet_env [1])) [2] (wire_packet PreparePacket 1 9) (nd_store N) = Some (a, s)" "st_msgs s a = Some m"
    "handlePrepareMsg (quiet_env [1]) 101 a (N \<lparr> nd_store := s \<rparr>) = Some (True, N1)" "\<forall>(i, c)\<in>set (nd_caches N). m_index c = i"
    "pb_generatedFrom m = 1" "pb_hash m = [9]"
    using prepare_received by (auto simp: received_prepare_def list_all_iff quiet_env_def bind_eq_Some_conv split: if_splits)
  from prepare_counts_as_commit [OF N(2-5), of "[3]"] N(1,6,7) show ?thesis by (simp add: quiet_env_def) blast
qed

subsection \<open>Votes that the fuzzer sends again\<close>

text \<open>The signature on a message is one with the node's own key.\<close>

definition own_signed :: "pbft_libs \<Rightarrow> pbft_message \<Rightarrow> bool" where
  "own_signed L m \<longleftrightarrow> pb_signatureData m = sign_with L (pb_signatureDataHash m)"

definition own_signed_at :: "pbft_libs \<Rightarrow> ptr \<Rightarrow> pbft_store \<Rightarrow> bool" where
  "own_signed_at L a s \<longleftrightarrow> (\<exists>m. st_msgs s a = Some m \<and> own_signed L m)"

lemma encode_own_signed:
  assumes "encode_pbft L b v s = Some (rm, s')"
  shows "own_signed_at L b s'" "own_signed_at L a s \<Longrightarrow> own_signed_at L a s'"
  using assms by (auto simp: encode_pbft_def bind_eq_Some_conv Let_def own_signed_at_def set_msg_def renew_signature_def own_signed_def)

lemma mutate_own_signed:
  assumes "mutatePbftMsg E b w = Some (b', w')"
  shows "b' = b" "lw_state w' = lw_state w" "own_signed_at L a (lw_store w) \<Longrightarrow> own_signed_at L a (lw_store w')"
proof -
  obtain t w1 m where w1: "seed w = (t, w1)" "st_msgs (lw_store w1) b = Some m"
    "(b', w') = (b, w1 \<lparr> lw_store := set_msg b (mutated_msg (rand_from E t) m) (lw_store w1) \<rparr>)"
    using assms by (cases "seed w") (auto simp: mutatePbftMsg_def bind_eq_Some_conv)
  have "own_signed L (mutated_msg r m) = own_signed L m" for r by (simp add: mutated_msg_def own_signed_def Let_def)
  with w1 seed_frame [OF w1(1)]
  show "b' = b" "lw_state w' = lw_state w" "own_signed_at L a (lw_store w) \<Longrightarrow> own_signed_at L a (lw_store w')"
    by (auto simp: own_signed_at_def set_msg_def)
qed

lemma sendToNodes_own_signed:
  assumes "sendToNodes E nodes b w = Some w'"
  shows "own_signed_at (le_libs E) b (lw_store w')" "lw_state w' = lw_state w"
    "own_signed_at (le_libs E) a (lw_store w) \<Longrightarrow> own_signed_at (le_libs E) a (lw_store w')"
  using assms encode_own_signed by (auto simp: sendToNodes_def bind_eq_Some_conv)

lemma send_mutated_own_signed:
  assumes "send_mutated E nodes pool w = Some w'"
  shows "lw_state w' = lw_state w" "own_signed_at (le_libs E) a (lw_store w) \<Longrightarrow> own_signed_at (le_libs E) a (lw_store w')"
    "pool = [a] \<Longrightarrow> own_signed_at (le_libs E) a (lw_store w')"
proof (atomize (full), cases pool)
  case Nil
  obtain b s where b: "new_msg createPBFTMsg (lw_store w) = (b, s)" by fastforce
  note sent = sendToNodes_own_signed [of E nodes b "w \<lparr> lw_store := s \<rparr>" w']
  have sends: "sendToNodes E nodes b (w \<lparr> lw_store := s \<rparr>) = Some w'" using assms Nil b by (simp add: send_mutated_def)
  have "own_signed_at (le_libs E) a (lw_store w')" if "own_signed_at (le_libs E) a (lw_store w)"
  proof (cases "a = b")
    case False
    then have "own_signed_at (le_libs E) a s" using that b by (auto simp: own_signed_at_def new_msg_def)
    then show ?thesis using sent(3) [OF sends] by simp
  qed (use sent(1) [OF sends] in simp)
  then show "lw_state w' = lw_state w \<and> (own_signed_at (le_libs E) a (lw_store w) \<longrightarrow> own_signed_at (le_libs E) a (lw_store w')) \<and>
      (pool = [a] \<longrightarrow> own_signed_at (le_libs E) a (lw_store w'))"
    using sent(2) [OF sends] Nil by simp
next
  case (Cons b bs)
  then obtain b' w1 where w1: "mutatePbftMsg E b w = Some (b', w1)" "sendToNodes E nodes b' w1 = Some w'"
    using assms by (auto simp: send_mutated_def bind_eq_Some_conv)
  show "lw_state w' = lw_state w \<and> (own_signed_at (le_libs E) a (lw_store w) \<longrightarrow> own_signed_at (le_libs E) a (lw_store w')) \<and>
      (pool = [a] \<longrightarrow> own_signed_at (le_libs E) a (lw_store w'))"
    using mutate_own_signed [OF w1(1)] sendToNodes_own_signed [OF w1(2)] Cons by auto
qed

lemma send_view_change_own_signed:
  assumes "send_mutated_view_change E nodes pool w = Some w'"
  shows "lw_state w' = lw_state w" "own_signed_at L a (lw_store w) \<Longrightarrow> own_signed_at L a (lw_store w')"
proof -
  have "lw_state w' = lw_state w \<and> st_msgs (lw_store w') = st_msgs (lw_store w)"
    using assms by (auto simp: send_mutated_view_change_def sendViewChangeToNodes_def encode_view_change_def mutateViewChange_def
        new_view_change_def set_view_change_def bind_eq_Some_conv Let_def dest!: seed_frame split: list.splits prod.split_asm if_splits)
  then show "lw_state w' = lw_state w" "own_signed_at L a (lw_store w) \<Longrightarrow> own_signed_at L a (lw_store w')"
    by (simp_all add: own_signed_at_def)
qed

text \<open>The packet kinds that stand for a message the fuzzer holds.\<close>

fun pool_of :: "package_type \<Rightarrow> loki_state \<Rightarrow> ptr list" where
  "pool_of PREPARE_REQ st = preprepare_msg_packets st"
| "pool_of SIGN_REQ st = prepare_msg_packets st"
| "pool_of COMMIT_REQ st = commit_msg_packets st"
| "pool_of VIEWCHANGE_REQ st = []"

lemma send_packet_own_signed:
  assumes "send_packet E nodes p w = Some w'"
  shows "lw_state w' = lw_state w" "own_signed_at (le_libs E) a (lw_store w) \<Longrightarrow> own_signed_at (le_libs E) a (lw_store w')"
    "p = Some k \<Longrightarrow> pool_of k (lw_state w) = [a] \<Longrightarrow> own_signed_at (le_libs E) a (lw_store w')"
  using assms send_mutated_own_signed send_view_change_own_signed
  by (cases k; auto simp: send_packet_def split: option.splits package_type.splits)+

lemma send_packets_own_signed:
  "send_packets E nodes ps w = Some w' \<Longrightarrow>
   lw_state w' = lw_state w \<and> (own_signed_at (le_libs E) a (lw_store w) \<longrightarrow> own_signed_at (le_libs E) a (lw_store w')) \<and>
   (Some k \<in> set ps \<longrightarrow> pool_of k (lw_state w) = [a] \<longrightarrow> own_signed_at (le_libs E) a (lw_store w'))"
proof (induction ps arbitrary: w)
  case (Cons p ps)
  then obtain w1 where w1: "send_packet E nodes p w = Some w1" "send_packets E nodes ps w1 = Some w'"
    by (auto simp: bind_eq_Some_conv)
  note first = send_packet_own_signed [OF w1(1)] and rest = Cons.IH [OF w1(2)]
  then show ?case by auto
qed simp

text \<open>One round of the fuzzer: two readings of the clock, then a packet for every node chosen.\<close>

lemma protocol_mutate_eq:
  "protocol_mutate E C w =
     (let nodes = random_send_nodes E (lw_clock w 0) (consensusNodeIDList True C) in
      send_packets E nodes (random_send_protocol E (lw_clock w 1) (lw_state w) nodes) (w \<lparr> lw_clock := \<lambda>n. lw_clock w (Suc (Suc n)) \<rparr>))"
  by (simp add: protocol_mutate_def seed_def draw_def Let_def random_send_protocol_def)

lemma protocol_mutate_own_signed:
  assumes "protocol_mutate E C w = Some w'" and "pool_of k (lw_state w) = [a]"
    and "i < length (random_send_nodes E (lw_clock w 0) (consensusNodeIDList True C))"
    and "choose_packet (cur_state (lw_state w)) (rand_from E (lw_clock w 1) i) = Some k"
  shows "own_signed_at (le_libs E) a (lw_store w')"
proof -
  let ?nodes = "random_send_nodes E (lw_clock w 0) (consensusNodeIDList True C)"
  let ?ps = "random_send_protocol E (lw_clock w 1) (lw_state w) ?nodes"
  have "Some k \<in> set ?ps" using assms(3,4) by (auto simp: random_send_protocol_def image_iff intro!: bexI [of _ i])
  with send_packets_own_signed [of E ?nodes ?ps _ w' a k] assms(1,2) show ?thesis
    by (auto simp: protocol_mutate_eq Let_def)
qed

lemma with_loki_caches:
  assumes "with_loki f N = Some N'"
  shows "nd_caches N' = nd_caches N" "nd_config N' = nd_config N"
    "\<exists>w. f \<lparr> lw_state = nd_loki N, lw_cur_view = nd_cur_view N, lw_store = nd_store N, lw_clock = nd_clock N, lw_sent = nd_sent N \<rparr> = Some w \<and>
      nd_store N' = lw_store w"
  using assms by (auto simp: with_loki_def bind_eq_Some_conv)

lemma own_signed_rejected:
  assumes "own_signed_at L a (nd_store N)" and "checkPBFTMsg L a N = Some ok"
    and "\<forall>k h. verify_with L k h (sign_with L h) \<longrightarrow> k = m_nodeID (nd_config N)"
    and "\<forall>j n. getConsensusNodeByIndex (nd_config N) j = Some n \<longrightarrow> cn_nodeID n = m_nodeID (nd_config N) \<longrightarrow> j = m_nodeIndex (nd_config N)"
  shows "\<not> ok"
proof
  assume ok
  obtain m where m: "st_msgs (nd_store N) a = Some m" "own_signed L m" using assms(1) unfolding own_signed_at_def by blast
  have other: "pb_generatedFrom m \<noteq> m_nodeIndex (nd_config N)" and signed: "checkSignature L (nd_config N) m"
    using assms(2) \<open>ok\<close> m(1) by (auto simp: checkPBFTMsg_def bind_eq_Some_conv split: if_splits)
  then obtain n where "getConsensusNodeByIndex (nd_config N) (pb_generatedFrom m) = Some n"
    "verify_with L (cn_nodeID n) (pb_signatureDataHash m) (sign_with L (pb_signatureDataHash m))"
    using m(2) by (auto simp: checkSignature_def own_signed_def split: option.splits)
  with assms(3,4) other show False by blast
qed

text \<open>
  C23: A vote that the fuzzer sends again is lost for the node that fuzzes.  When one of the packets that
  the fuzzer draws for a received prepare or commit is the kind just received (a draw of 2 modulo 5), the
  message object is mutated and signed anew with the key of this node before the engine looks at it.  Then
  the engine records nothing: its caches are what they were.  This rests on signatures that verify only
  for the key that made them, and on node identities that are not used twice in the committee.
\<close>

theorem resent_votes_are_lost:
  assumes "st_msgs (nd_store N) a = Some m" and "pb_packetType m = PreparePacket \<or> pb_packetType m = CommitPacket"
    and "i < length (random_send_nodes E (nd_clock N 0) (consensusNodeIDList True (nd_config N)))"
    and "rand_from E (nd_clock N 1) i mod 5 = 2"
    and "\<forall>k h. verify_with (le_libs E) k h (sign_with (le_libs E) h) \<longrightarrow> k = m_nodeID (nd_config N)"
    and "\<forall>j n. getConsensusNodeByIndex (nd_config N) j = Some n \<longrightarrow> cn_nodeID n = m_nodeID (nd_config N) \<longrightarrow> j = m_nodeIndex (nd_config N)"
    and "handleMsg E now a N = Some N'"
  shows "nd_caches N' = nd_caches N"
proof (cases "N' = N")
  case False
  let ?f = "\<lambda>w. if pb_packetType m = PreparePacket then loki_handlePrepareMsg E (nd_config N) a w else loki_handleCommitMsg E (nd_config N) a w"
  obtain N1 r where N1: "with_loki ?f N = Some N1"
    and N': "handlePrepareMsg E now a N1 = Some (r, N') \<or> handleCommitMsg E a N1 = Some (r, N')"
    using assms(1,2,7) False by (auto simp: handleMsg_def bind_eq_Some_conv split: if_splits; blast)
  note frame = with_loki_caches [OF N1]
  obtain w where w: "?f \<lparr> lw_state = nd_loki N, lw_cur_view = nd_cur_view N, lw_store = nd_store N, lw_clock = nd_clock N, lw_sent = nd_sent N \<rparr> = Some w"
    "nd_store N1 = lw_store w" using frame(3) by blast
  have "own_signed_at (le_libs E) a (nd_store N1)"
  proof (cases "pb_packetType m = PreparePacket")
    case True
    with w assms(1) obtain v where "protocol_mutate E (nd_config N) v = Some w" "pool_of SIGN_REQ (lw_state v) = [a]"
      "cur_state (lw_state v) = 1" "lw_clock v = nd_clock N"
      by (auto simp: loki_handlePrepareMsg_def in_state_def set_cur_state_def add_prepare_msgs_def add_pbft_msgs_def)
    then show ?thesis using protocol_mutate_own_signed [of E "nd_config N" v w SIGN_REQ a i] assms(3,4) w(2)
      by (simp add: choose_packet_def PackageType_def)
  next
    case False
    with w assms(1) obtain v where "protocol_mutate E (nd_config N) v = Some w" "pool_of COMMIT_REQ (lw_state v) = [a]"
      "cur_state (lw_state v) = 2" "lw_clock v = nd_clock N"
      by (auto simp: loki_handleCommitMsg_def in_state_def set_cur_state_def add_commit_msgs_def add_pbft_msgs_def)
    then show ?thesis using protocol_mutate_own_signed [of E "nd_config N" v w COMMIT_REQ a i] assms(3,4) w(2)
      by (simp add: choose_packet_def PackageType_def)
  qed
  from own_signed_rejected [OF this] assms(5,6) frame(2)
  have "checkPBFTMsg (le_libs E) a N1 \<noteq> Some True" by auto
  with N' have "N' = N1" by (auto simp: handlePrepareMsg_def handleCommitMsg_def bind_eq_Some_conv split: if_splits)
  then show ?thesis using frame(1) by simp
qed simp

text \<open>The leader of the example receives the same prepare, with a fuzzer that draws nothing but twos.\<close>

definition loud_env :: "node_id \<Rightarrow> loki_env" where
  "loud_env key = \<lparr> le_libs = wire_libs key, rand_from = (\<lambda>_ _. 2) \<rparr>"

definition fuzzed_prepare :: "(ptr \<times> pbft_message \<times> pbft_node \<times> pbft_node) option" where
  "fuzzed_prepare = do {
     N \<leftarrow> sealed_node;
     (a, s) \<leftarrow> decode_pbft (wire_libs [1]) [2] (wire_packet PreparePacket 1 9) (nd_store N);
     m \<leftarrow> st_msgs s a;
     N1 \<leftarrow> handleMsg (loud_env [1]) 101 a (N \<lparr> nd_store := s \<rparr>);
     if pb_packetType m = PreparePacket \<and> consensusNodeIDList True (nd_config N) = [[2], [3], [4]] \<and> m_nodeID (nd_config N) = [1] \<and>
       m_nodeIndex (nd_config N) = 0 \<and> map cn_nodeID (m_consensusNodeList (nd_config N)) = [[1], [2], [3], [4]]
     then Some (a, m, N \<lparr> nd_store := s \<rparr>, N1) else None }"

lemma prepare_fuzzed: "fuzzed_prepare \<noteq> None"
  by code_simp

theorem resent_votes_are_lost_witness:
  "\<exists>a m N N'. fuzzed_prepare = Some (a, m, N, N') \<and> handleMsg (loud_env [1]) 101 a N = Some N' \<and> nd_caches N' = nd_caches N"
proof -
  obtain a m N N' where N: "fuzzed_prepare = Some (a, m, N, N')" using prepare_fuzzed by fastforce
  then have run: "st_msgs (nd_store N) a = Some m" "pb_packetType m = PreparePacket" "handleMsg (loud_env [1]) 101 a N = Some N'"
    and committee: "consensusNodeIDList True (nd_config N) = [[2], [3], [4]]" "m_nodeID (nd_config N) = [1]"
      "m_nodeIndex (nd_config N) = 0" "map cn_nodeID (m_consensusNodeList (nd_config N)) = [[1], [2], [3], [4]]"
    by (auto simp: fuzzed_prepare_def bind_eq_Some_conv split: if_splits)
  have own: "j = m_nodeIndex (nd_config N)"
    if "getConsensusNodeByIndex (nd_config N) j = Some n" "cn_nodeID n = m_nodeID (nd_config N)" for j n
  proof -
    have "length (m_consensusNodeList (nd_config N)) = 4" using arg_cong [OF committee(4), of length] by simp
    with that committee(2) have "unat j < 4" "[[1], [2], [3], [4 :: 8 word]] ! unat j = [1]"
      using nth_map [of "unat j" "m_consensusNodeList (nd_config N)" cn_nodeID]
      by (auto simp: getConsensusNodeByIndex_def committee(4) split: if_splits)
    moreover from this(1) have "unat j = 0 \<or> unat j = 1 \<or> unat j = 2 \<or> unat j = 3" by linarith
    ultimately have "unat j = 0" by (elim disjE) simp_all
    then show ?thesis using committee(3) by (simp add: unat_eq_zero)
  qed
  have "nd_caches N' = nd_caches N"
    by (rule resent_votes_are_lost [OF run(1) disjI1 [OF run(2)], of 0 "loud_env [1]" 101])
      (use run(3) committee(1,2) own in \<open>auto simp: loud_env_def wire_libs_def random_send_nodes_def\<close>)
  then show ?thesis using N run(3) by blast
qed

subsection \<open>What one round sends\<close>

text \<open>The pointers the fuzzer holds lead to objects.\<close>

definition view_changes_ok :: "pbft_store \<Rightarrow> bool" where
  "view_changes_ok s \<longleftrightarrow> (\<forall>a v b. st_views s a = Some v \<longrightarrow> b \<in> set (vc_preparedProposals v) \<longrightarrow> st_msgs s b \<noteq> None)"

definition pools_ok :: "loki_state \<Rightarrow> pbft_store \<Rightarrow> bool" where
  "pools_ok st s \<longleftrightarrow> set (preprepare_msg_packets st) \<union> set (prepare_msg_packets st) \<union> set (commit_msg_packets st) \<subseteq> dom (st_msgs s) \<and>
     set (view_change_msgs st) \<subseteq> dom (st_views s) \<and> view_changes_ok s"

definition grows :: "pbft_store \<Rightarrow> pbft_store \<Rightarrow> bool" where
  "grows s s' \<longleftrightarrow> dom (st_msgs s) \<subseteq> dom (st_msgs s') \<and> dom (st_views s) \<subseteq> dom (st_views s') \<and>
     (view_changes_ok s \<longrightarrow> view_changes_ok s')"

lemma pools_ok_grows: "pools_ok st s \<Longrightarrow> grows s s' \<Longrightarrow> pools_ok st s'"
  unfolding pools_ok_def grows_def by blast

lemma grows_trans: "grows s t \<Longrightarrow> grows t u \<Longrightarrow> grows s u"
  unfolding grows_def by blast

lemma grows_refl: "grows s s"
  by (simp add: grows_def)

lemma grows_ops:
  "grows s (set_msg a m s)" "new_msg m s = (a, s') \<Longrightarrow> grows s s'"
  by (auto simp: grows_def set_msg_def new_msg_def view_changes_ok_def)

lemma grows_views:
  assumes "\<forall>b\<in>set (vc_preparedProposals v). view_changes_ok s \<longrightarrow> st_msgs s b \<noteq> None"
  shows "grows s (set_view_change a v s)" "new_view_change v s = (a, s') \<Longrightarrow> grows s s'"
  using assms by (auto simp: grows_def set_view_change_def new_view_change_def view_changes_ok_def split: if_splits)

definition sends_one :: "loki_world \<Rightarrow> node_id list \<Rightarrow> loki_world option \<Rightarrow> bool" where
  "sends_one w nodes r \<longleftrightarrow> (\<exists>w' rm. r = Some w' \<and> lw_state w' = lw_state w \<and> grows (lw_store w) (lw_store w') \<and>
     lw_sent w' = lw_sent w @ [(nodes, rm)])"

lemma sends_oneI:
  "r = Some w' \<Longrightarrow> lw_state w' = lw_state w \<Longrightarrow> grows (lw_store w) (lw_store w') \<Longrightarrow> lw_sent w' = lw_sent w @ [(nodes, rm)] \<Longrightarrow>
   sends_one w nodes r"
  unfolding sends_one_def by blast

lemma sendToNodes_one:
  assumes "st_msgs (lw_store w) a \<noteq> None" shows "sends_one w nodes (sendToNodes E nodes a w)"
  using assms by (auto simp: sendToNodes_def encode_pbft_def Let_def intro!: sends_oneI grows_ops(1))

lemma send_mutated_one:
  assumes "set pool \<subseteq> dom (st_msgs (lw_store w))"
  shows "sends_one w nodes (send_mutated E nodes pool w)"
proof (cases pool)
  case Nil
  obtain a s where a: "new_msg createPBFTMsg (lw_store w) = (a, s)" by fastforce
  then have "st_msgs s a \<noteq> None" by (auto simp: new_msg_def)
  from sendToNodes_one [of "w \<lparr> lw_store := s \<rparr>" a nodes E] this a grows_ops(2) [OF a] grows_trans Nil show ?thesis
    unfolding sends_one_def send_mutated_def by fastforce
next
  case (Cons a as)
  then obtain m where m: "st_msgs (lw_store w) a = Some m" using assms by auto
  let ?s = "set_msg a (mutated_msg (rand_from E (fst (draw (lw_clock w)))) m) (lw_store w)"
  let ?w = "w \<lparr> lw_clock := snd (draw (lw_clock w)), lw_store := ?s \<rparr>"
  have "mutatePbftMsg E a w = Some (a, ?w)" using m by (simp add: mutatePbftMsg_def seed_def case_prod_beta)
  with sendToNodes_one [of ?w a nodes E] Cons grows_ops(1) grows_trans show ?thesis
    unfolding sends_one_def send_mutated_def by (fastforce simp: set_msg_def)
qed

lemma sendViewChange_one:
  assumes "st_views (lw_store w) a = Some v" and "view_changes_ok (lw_store w)"
  shows "sends_one w nodes (sendViewChangeToNodes E nodes a w)"
proof -
  have stored: "b \<in> set (vc_preparedProposals v) \<Longrightarrow> st_msgs (lw_store w) b \<noteq> None" for b
    using assms unfolding view_changes_ok_def by blast
  have "those (map (st_msgs s) bs) \<noteq> None" if "\<And>b. b \<in> set bs \<Longrightarrow> st_msgs s b \<noteq> None" for s bs
    using that by (induction bs) (auto split: option.splits)
  from this [OF stored] obtain ms where "those (map (st_msgs (lw_store w)) (vc_preparedProposals v)) = Some ms" by auto
  with assms(1) stored show ?thesis
    by (auto simp: sendViewChangeToNodes_def encode_view_change_def Let_def intro!: sends_oneI grows_refl grows_views(1))
qed

lemma send_mutated_view_change_one:
  assumes "set pool \<subseteq> dom (st_views (lw_store w))" and "view_changes_ok (lw_store w)"
  shows "sends_one w nodes (send_mutated_view_change E nodes pool w)"
proof (cases pool)
  case Nil
  obtain a s where a: "new_view_change createViewChangeMsg (lw_store w) = (a, s)" by fastforce
  have "grows (lw_store w) s" by (rule grows_views(2) [OF _ a]) (simp add: createViewChangeMsg_def)
  then have "view_changes_ok s" using assms(2) by (simp add: grows_def)
  moreover have "st_views s a = Some createViewChangeMsg" using a by (auto simp: new_view_change_def)
  ultimately have "sends_one (w \<lparr> lw_store := s \<rparr>) nodes (sendViewChangeToNodes E nodes a (w \<lparr> lw_store := s \<rparr>))"
    by (intro sendViewChange_one) simp_all
  then show ?thesis using a Nil \<open>grows (lw_store w) s\<close> grows_trans
    unfolding sends_one_def send_mutated_view_change_def by fastforce
next
  case (Cons a as)
  then obtain v where v: "st_views (lw_store w) a = Some v" using assms(1) by auto
  let ?v = "v \<lparr> vc_base := mutated_base (rand_from E (fst (draw (lw_clock w)))) (vc_base v) \<rparr>"
  let ?w = "w \<lparr> lw_clock := snd (draw (lw_clock w)), lw_store := set_view_change a ?v (lw_store w) \<rparr>"
  have mut: "mutateViewChange E a w = Some (a, ?w)" using v by (simp add: mutateViewChange_def seed_def case_prod_beta)
  have grows: "grows (lw_store w) (lw_store ?w)"
    using v by (simp, intro grows_views(1)) (auto simp: view_changes_ok_def)
  then have "view_changes_ok (lw_store ?w)" using assms(2) by (simp add: grows_def)
  moreover have "st_views (lw_store ?w) a = Some ?v" by (simp add: set_view_change_def)
  ultimately have "sends_one ?w nodes (sendViewChangeToNodes E nodes a ?w)" by (rule sendViewChange_one [rotated])
  then show ?thesis using mut Cons grows grows_trans
    unfolding sends_one_def send_mutated_view_change_def by fastforce
qed

lemma send_packet_one:
  assumes "pools_ok (lw_state w) (lw_store w)"
  shows "sends_one w nodes (send_packet E nodes (Some k) w)"
  using assms by (cases k) (auto simp: send_packet_def pools_ok_def intro!: send_mutated_one send_mutated_view_change_one)

lemma send_packets_total:
  "pools_ok (lw_state w) (lw_store w) \<Longrightarrow> \<exists>w' rms. send_packets E nodes ps w = Some w' \<and> lw_state w' = lw_state w \<and>
     grows (lw_store w) (lw_store w') \<and> lw_sent w' = lw_sent w @ map (Pair nodes) rms \<and> length rms = length (filter (\<lambda>p. p \<noteq> None) ps)"
proof (induction ps arbitrary: w)
  case Nil
  then show ?case by (auto simp: grows_refl)
next
  case (Cons p ps)
  show ?case
  proof (cases p)
    case None
    with Cons.IH [OF Cons.prems] show ?thesis by (simp add: send_packet_def)
  next
    case (Some k)
    from send_packet_one [OF Cons.prems, of nodes E k] obtain w1 rm where w1: "send_packet E nodes (Some k) w = Some w1"
      "lw_state w1 = lw_state w" "grows (lw_store w) (lw_store w1)" "lw_sent w1 = lw_sent w @ [(nodes, rm)]"
      unfolding sends_one_def by blast
    have "pools_ok (lw_state w1) (lw_store w1)" using pools_ok_grows [OF Cons.prems w1(3)] w1(2) by simp
    from Cons.IH [OF this] obtain w' rms where w': "send_packets E nodes ps w1 = Some w'" "lw_state w' = lw_state w1"
      "grows (lw_store w1) (lw_store w')" "lw_sent w' = lw_sent w1 @ map (Pair nodes) rms"
      "length rms = length (filter (\<lambda>p. p \<noteq> None) ps)" by blast
    then show ?thesis using w1 Some grows_trans [OF w1(3) w'(3)] by (intro exI [of _ w'] exI [of _ "rm # rms"]) simp
  qed
qed

lemma choose_packet_Some: "- 1 \<le> cur \<Longrightarrow> cur \<le> 3 \<Longrightarrow> choose_packet cur temp \<noteq> None"
proof -
  assume "- 1 \<le> cur" "cur \<le> 3"
  then have "cur = - 1 \<or> cur = 0 \<or> cur = 1 \<or> cur = 2 \<or> cur = 3" by linarith
  moreover have "PackageType (n mod 4) \<noteq> None" for n
  proof -
    have "0 \<le> n mod 4" "n mod 4 < 4" by simp_all
    then have "n mod 4 = 0 \<or> n mod 4 = 1 \<or> n mod 4 = 2 \<or> n mod 4 = 3" by linarith
    then show ?thesis by (auto simp: PackageType_def)
  qed
  ultimately show "choose_packet cur temp \<noteq> None" by (auto simp: choose_packet_def PackageType_def)
qed

lemma set_random_send_nodes: "set (random_send_nodes E t nodes) \<subseteq> set nodes"
  by (auto simp: random_send_nodes_def in_set_enumerate_eq)


text \<open>The fuzzer of the example after the prepare, with a store that has it.\<close>

definition example_world :: loki_world where
  "example_world = \<lparr> lw_state = (set_cur_state 1 \<circ> add_prepare_msgs 3 \<circ> add_pbft_msgs 3) State_new, lw_cur_view = 5,
     lw_store = example_store, lw_clock = (\<lambda>_. 0), lw_sent = [] \<rparr>"


end
