(* ===== verification/Spec2Isabelle.thy ===== *)
theory Spec2Isabelle
  imports Prelude Asn1 Protos BftSignature Cluster RuntimeConfig MessageFuzzer ProtocolFuzzer
    Codec Assembler Verifier BlockWriter Chain Synchronizer ConfigVerifier Consenter Node
    Rlp GethTypes GethMisc EthPeer EthFuzzer Ethash
    Rust DiemTypes SafetyRules SecureStorage VotingSpec Quorum DiemSafety Crusader
    PbftTypes PbftCache Libloki PbftEngine PbftSafety PbftFuzzing
begin

text \<open>
  LOKI fuzzes consensus implementations from inside: it patches a node of each of four systems so
  that the node records the messages it sends or receives, mutates them and sends them to others.
  The repository holds the four patched code bases, \<open>fabric_fuzz\<close> (Hyperledger Fabric with the
  SmartBFT orderer, Go), \<open>geth_fuzz\<close> (Go Ethereum), \<open>diem_fuzz\<close> (Diem, Rust) and \<open>fisco_fuzz\<close>
  (FISCO BCOS, C++), all under \<open>src/src\<close>.  The systems do not call each other.  For each one this
  development models the consensus code the fuzzer sits in and the fuzzer itself, and shows what the
  consensus code guarantees and what the fuzzer can and cannot do to it.

  \<^bold>\<open>Conventions.\<close>  \<open>Prelude\<close> has the result of a Go call: a value, an error, or a panic.  \<open>Rust\<close> has the
  same for Rust, with \<open>Abort\<close> for a panic.  A C++ call returns an option, whose \<open>None\<close> is a null
  dereference, a failed assertion or an exception that nobody catches.  Machine integers are words
  where they can wrap.  Objects that several owners share and write to are addresses in a heap or
  store that is passed along: the seeds of the Fabric fuzzer, transactions and headers of a Geth
  peer, and all messages and proposals of FISCO.  Draws of random numbers and readings of the clock
  are arguments.  Code that is not in the repository or is generated (protobuf, hashing, signatures,
  \<open>gofuzz\<close>, \<open>uint256\<close>) is an argument too: the records \<open>libs\<close>, \<open>fabric_env\<close>, \<open>fuzz_env\<close>,
  \<open>eth_fuzz_env\<close>, \<open>uint256_ops\<close>, \<open>crypto_ops\<close>, \<open>storage_ops\<close>, \<open>pbft_libs\<close>, \<open>loki_env\<close>.  Theorems that
  rely on such code say what they rely on, as a named premise (\<open>lossless\<close>, \<open>protobuf_ok\<close>) or as a
  locale (\<open>uint256\<close>, \<open>safety_storage\<close>).

  \<^bold>\<open>Fabric\<close> (\<open>orderer/consensus/smartbft\<close>, \<open>orderer/common\<close>, \<open>protos\<close>).
  \<open>Asn1\<close> is the part of \<open>encoding/asn1\<close> in use, \<open>Protos\<close> the messages with block and header hashes,
  \<open>Codec\<close> what is assumed of protobuf.  \<open>BftSignature\<close> has \<open>signature.go\<close> and the library's proposals:
  signatures unmarshal to what was marshalled.  \<open>Cluster\<close> verifies batches of pulled blocks
  (\<open>cluster/util.go\<close>) and says exactly which batches are accepted.  \<open>RuntimeConfig\<close> (\<open>util.go\<close>) derives the
  configuration of a node from its blocks and shows what it is after any history.  \<open>Assembler\<close>
  (\<open>assembler.go\<close>, \<open>signer.go\<close>) builds proposals and \<open>Verifier\<close> (\<open>verifier.go\<close>) checks them: exactly which
  proposals and signatures are accepted, and that those of an honest leader are.  \<open>BlockWriter\<close> writes
  blocks, \<open>Chain\<close> (\<open>chain.go\<close>) delivers decisions and recovers them from the ledger, \<open>Synchronizer\<close>
  catches up with others, \<open>ConfigVerifier\<close> and \<open>Consenter\<close> validate configurations and create chains.
  \<open>Node\<close> puts them together as a transition system: the ledger of a node stays a hash chain, two nodes
  agree on what lies below a common header, and a restart recovers the configuration.
  \<open>MessageFuzzer\<close> and \<open>ProtocolFuzzer\<close> (\<open>messageFuzzer.go\<close>, \<open>protocolFuzzer.go\<close>, \<open>transactionFuzzer.go\<close>,
  \<open>egress.go\<close>, \<open>ingress.go\<close>) are the fuzzer, a step relation over its goroutines: when it panics, what
  it sends and to whom, and that transactions leave unchanged.

  \<^bold>\<open>Geth\<close> (\<open>rlp\<close>, \<open>core/types\<close>, \<open>consensus\<close>, \<open>eth/protocols/eth\<close>).
  \<open>Rlp\<close> is the encoder with its two-part buffer, which computes the recursive definition of the format,
  and the functions that take encodings apart.  \<open>GethTypes\<close> and \<open>GethMisc\<close> have headers, forks and the
  shared header rules with their bounds.  \<open>Ethash\<close> has the difficulty calculators; those on 256-bit
  integers agree with those on unbounded ones.  \<open>EthPeer\<close> (\<open>peer.go\<close>) sends and records messages, and
  \<open>EthFuzzer\<close> (\<open>MessageFuzz.go\<close>, \<open>TransactionFuzz.go\<close>) mutates the recorded ones: which fields can change
  at all, and what an iteration sends.

  \<^bold>\<open>Diem\<close> (\<open>types\<close>, \<open>consensus/consensus-types\<close>, \<open>consensus/safety-rules\<close>, \<open>secure/storage\<close>, \<open>consensus/src\<close>).
  \<open>DiemTypes\<close> has validators, blocks, votes and certificates with their verification, \<open>SafetyRules\<close> every
  operation of the safety rules with their persistent data, \<open>SecureStorage\<close> the contract of the storage
  and the in-memory store, on which the rules without cache sign nothing.  \<open>VotingSpec\<close> is an abstract
  voting machine that the safety rules refine, with failing storage and restarts; no two votes are
  released for a round.  \<open>Quorum\<close> and \<open>DiemSafety\<close> conclude that committed blocks lie on one chain.
  \<open>Crusader\<close> is the fuzzer (\<open>crusader_fuzzer.rs\<close>) that shares the safety rules with its validator: votes
  stay unique, mutated votes are rejected, and which recorded proposals end the process.

  \<^bold>\<open>FISCO BCOS\<close> (\<open>bcos-pbft/bcos-pbft\<close>).
  \<open>PbftTypes\<close> has messages, proposals, the codec that signs and decodes them (\<open>PBFTCodec\<close>,
  \<open>PBFTMessage\<close>, \<open>PBFTMessageFactory\<close>) and the configuration with committee and quorums
  (\<open>ConsensusConfig\<close>, \<open>PBFTConfig\<close>).  \<open>PbftCache\<close> is \<open>PBFTCache\<close>, the votes for one block number:
  any sequence of calls returns, weights are those of distinct voters, and two quorums share more than
  the faulty weight.  \<open>Libloki\<close> is the fuzzer (\<open>libloki\<close>): pools, strategy, mutations in place, sending.
  \<open>PbftEngine\<close> is \<open>PBFTCacheProcessor\<close> and \<open>PBFTEngine\<close>: the handlers of packets and of the answers of
  the validator and the state machine, with the calls into the fuzzer, as steps of a node.
  \<open>PbftSafety\<close> shows that two nodes commit the same proposal for a block number unless more weight than
  may be faulty voted for both, as long as the fuzzer leaves messages alone.  \<open>PbftFuzzing\<close> shows what
  one round of the fuzzer sends, that votes it sends again are lost, and that a prepare can be replayed
  as a commit.

  \<^bold>\<open>Interfaces.\<close>  \<open>transition_system\<close> (invariants of step relations) is interpreted on the Fabric node,
  on the Fabric fuzzer and on the FISCO node; \<open>block_log\<close> (writes that append one block) on the block
  writer and on the synchronizer; \<open>committer\<close> on the runtime configuration; \<open>safety_storage\<close> on the
  in-memory store; \<open>uint256\<close> on 256-bit words.

  \<^bold>\<open>Bounds and fuel.\<close>  The loop of the synchronizer is a partial function; that it returns is proved.
  \<open>CountValues\<close> of \<open>Rlp\<close> has the number of its input bytes as fuel, and every round takes a byte at
  least; the trimming of known hashes in \<open>EthPeer\<close> has the size of the set, and every round removes an
  element.  The endless loops of the fuzzers are iterations, and runs are any number of them in any
  order.  Block numbers of FISCO and lengths of buffers are unbounded; all other integers have
  their width where it matters.

  \<^bold>\<open>Not modelled.\<close>  Of Fabric: the SmartBFT protocol core (vendored; it meets the orderer in proposals,
  decisions and messages), its write-ahead log, gRPC, policies and identities, and everything outside
  the orderer.  Of Geth: the reflective decoder of RLP, proof of work and header verification of ethash,
  the other engines, state, virtual machine, database and network.  Of Diem: the block store, pacemaker
  and round manager around the safety rules, the network and disk back ends of the storage, execution
  and everything outside consensus.  Of FISCO: the collection of view changes and new views, recovery,
  log synchronization and timers (a new view is an event with an arbitrary view), and every module
  outside \<open>bcos-pbft\<close>.  Logging, metrics, sleeping and locks are left out everywhere: calls
  that the code serializes by a lock are atomic steps.  Data races between the fuzzer threads and the
  nodes are therefore not covered.  \<open>mutateNewViewMsg\<close> of \<open>libloki\<close> and the \<open>generate\<close> functions of
  the Diem fuzzer, which nothing calls, are left out.
\<close>

end
